(* ===== verification/Prelude.thy ===== *)
theory Prelude
  imports "HOL-Library.Word"
begin

text \<open>
  Shared vocabulary of the development.

  \<^item> Rust's fixed-width integers are words of the same width: an \<open>i64\<close> is a \<open>64 word\<close>
    read by \<open>sint\<close>, a \<open>u64\<close>, \<open>u16\<close> or \<open>u8\<close> is a word read by \<open>unat\<close>/\<open>uint\<close> and ordered
    by the unsigned order of the type.  The \<open>checked_*\<close> operations of the standard
    library return \<open>None\<close> exactly when the mathematical result leaves the range.
  \<^item> \<open>Result<T, E>\<close> is the sum type with \<open>Err = Inl\<close> and \<open>Ok = Inr\<close>; \<open>and_then\<close> is the
    \<open>?\<close> operator, \<open>map_err\<close> the \<open>From\<close> conversion it applies, \<open>ensure\<close> a guarded early
    return and \<open>try_each\<close>/\<open>collect_results\<close> a \<open>for\<close> loop or iterator with \<open>?\<close> in it.
  \<^item> \<open>run_ops\<close> applies a list of fallible mutators one after the other, a failed one
    leaving the receiver as it was; the locales \<open>lifecycle\<close> and \<open>frozen_lifecycle\<close> state
    what an aggregate promises of its mutators and derive what every sequence of
    calls keeps.
  \<^item> \<open>codec\<close> is the contract of an encode/decode pair.
\<close>

named_theorems result_simps \<open>characterisations of the result combinators\<close>

section \<open>Machine integers\<close>

type_synonym u8 = "8 word"
type_synonym u16 = "16 word"
type_synonym u64 = "64 word"
type_synonym i64 = "64 word"
type_synonym bytes = "u8 list"

definition i64_min :: int where
  "i64_min = - 9223372036854775808"

definition i64_max :: int where
  "i64_max = 9223372036854775807"

definition in_i64 :: "int \<Rightarrow> bool" where
  "in_i64 k \<longleftrightarrow> i64_min \<le> k \<and> k \<le> i64_max"

text \<open>\<open>i64::try_from\<close> of a wider integer.\<close>

definition i64_of_int :: "int \<Rightarrow> i64" where
  "i64_of_int k = word_of_int k"

definition i64_try_from :: "int \<Rightarrow> i64 option" where
  "i64_try_from k = (if in_i64 k then Some (i64_of_int k) else None)"

definition checked_add_i64 :: "i64 \<Rightarrow> i64 \<Rightarrow> i64 option" where
  "checked_add_i64 a b = i64_try_from (sint a + sint b)"

definition checked_sub_i64 :: "i64 \<Rightarrow> i64 \<Rightarrow> i64 option" where
  "checked_sub_i64 a b = i64_try_from (sint a - sint b)"

definition checked_mul_i64 :: "i64 \<Rightarrow> i64 \<Rightarrow> i64 option" where
  "checked_mul_i64 a b = i64_try_from (sint a * sint b)"

definition checked_neg_i64 :: "i64 \<Rightarrow> i64 option" where
  "checked_neg_i64 a = i64_try_from (- sint a)"

definition checked_add_u64 :: "u64 \<Rightarrow> u64 \<Rightarrow> u64 option" where
  "checked_add_u64 a b = (if uint a + uint b < 18446744073709551616 then Some (a + b) else None)"

lemma sint_i64_bounds:
  "- 9223372036854775808 \<le> sint (a :: 64 word)" "sint (a :: 64 word) \<le> 9223372036854775807"
  using sint_range_size [of a] by (simp_all add: word_size)

lemma in_i64_sint [simp]: "in_i64 (sint (a :: 64 word))"
  using sint_i64_bounds [of a] by (simp add: in_i64_def i64_min_def i64_max_def)

lemma sint_i64_of_int [simp]:
  assumes "in_i64 k"
  shows "sint (i64_of_int k) = k"
proof -
  have "sint (i64_of_int k) = signed_take_bit 63 k"
    by (simp add: i64_of_int_def signed_of_int)
  also have "\<dots> = k"
    using assms by (intro signed_take_bit_int_eq_self) (auto simp: in_i64_def i64_min_def i64_max_def)
  finally show ?thesis .
qed

lemma i64_try_from_eq_Some:
  "i64_try_from k = Some w \<longleftrightarrow> in_i64 k \<and> sint w = k"
  by (auto simp: i64_try_from_def i64_of_int_def [of "sint w"])

lemma i64_try_from_eq_None: "i64_try_from k = None \<longleftrightarrow> \<not> in_i64 k"
  by (simp add: i64_try_from_def)

lemma sint_eq_iff: "sint (a :: 64 word) = sint b \<longleftrightarrow> a = b"
  by (metis word_eq_iff_signed)

lemma in_i64_between:
  "in_i64 k" if "sint (a :: 64 word) \<le> k" "k \<le> sint (b :: 64 word)"
  using that sint_i64_bounds [of a] sint_i64_bounds [of b]
  by (simp add: in_i64_def i64_min_def i64_max_def)

lemma sint_diff_nonneg:
  assumes "0 \<le> sint (a :: 64 word)" "sint a \<le> sint b"
  shows "sint (b - a) = sint b - sint a"
proof -
  have "in_i64 (sint b - sint a)"
    using assms sint_i64_bounds [of a] sint_i64_bounds [of b]
    by (simp add: in_i64_def i64_min_def i64_max_def)
  then have "sint (i64_of_int (sint b - sint a)) = sint b - sint a"
    by simp
  moreover have "i64_of_int (sint b - sint a) = b - a"
    by (simp add: i64_of_int_def)
  ultimately show ?thesis by simp
qed

lemma uint_of_nonneg_sint: "0 \<le> sint (x :: 64 word) \<Longrightarrow> uint x = sint x"
proof -
  assume nonneg: "0 \<le> sint x"
  have eq: "sint x = (uint x + 2 ^ 63) mod 2 ^ 64 - 2 ^ 63"
    using int_word_sint [of "uint x", where 'a = 64] by simp
  have bounds: "0 \<le> uint x" "uint x < 2 ^ 64"
    using uint_bounded [of x] by simp_all
  show ?thesis
  proof (cases "uint x < 2 ^ 63")
    case True
    then show ?thesis using eq bounds by simp
  next
    case False
    then have "(uint x + 2 ^ 63 - 2 ^ 64) mod 2 ^ 64 = uint x + 2 ^ 63 - 2 ^ 64"
      using bounds by (intro mod_pos_pos_trivial) simp_all
    then have "(uint x + 2 ^ 63) mod 2 ^ 64 = uint x - 2 ^ 63"
      using minus_mod_self2 [of "uint x + 2 ^ 63" "2 ^ 64"] by simp
    then show ?thesis using eq nonneg bounds by simp
  qed
qed

lemma sint_add_exact:
  assumes "in_i64 (sint (a :: 64 word) + sint b)"
  shows "sint (a + b) = sint a + sint b"
proof -
  have "i64_of_int (sint a + sint b) = a + b"
    by (simp add: i64_of_int_def)
  then show ?thesis
    using sint_i64_of_int [OF assms] by simp
qed

lemma sint_of_small_uint:
  assumes "uint (v :: 64 word) \<le> i64_max"
  shows "sint v = uint v"
proof -
  have "in_i64 (uint v)"
    using assms unsigned_greater_eq [of v, where 'a = int] unfolding in_i64_def i64_min_def by linarith
  then have "sint (i64_of_int (uint v)) = uint v"
    by (rule sint_i64_of_int)
  then show ?thesis
    by (simp add: i64_of_int_def)
qed

lemmas checked_i64_defs =
  checked_add_i64_def checked_sub_i64_def checked_mul_i64_def checked_neg_i64_def

section \<open>Results\<close>

abbreviation Ok :: "'a \<Rightarrow> 'e + 'a" where "Ok \<equiv> Inr"
abbreviation Err :: "'e \<Rightarrow> 'e + 'a" where "Err \<equiv> Inl"

abbreviation is_ok :: "'e + 'a \<Rightarrow> bool" where "is_ok \<equiv> Not \<circ> isl"

definition and_then :: "'e + 'a \<Rightarrow> ('a \<Rightarrow> 'e + 'b) \<Rightarrow> 'e + 'b" where
  "and_then r f = (case r of Inl e \<Rightarrow> Inl e | Inr x \<Rightarrow> f x)"

definition map_err :: "('e \<Rightarrow> 'f) \<Rightarrow> 'e + 'a \<Rightarrow> 'f + 'a" where
  "map_err g r = (case r of Inl e \<Rightarrow> Inl (g e) | Inr x \<Rightarrow> Inr x)"

definition ok_or :: "'a option \<Rightarrow> 'e \<Rightarrow> 'e + 'a" where
  "ok_or x e = (case x of None \<Rightarrow> Inl e | Some y \<Rightarrow> Inr y)"

definition ensure :: "bool \<Rightarrow> 'e \<Rightarrow> 'e + unit" where
  "ensure b e = (if b then Inr () else Inl e)"

primrec try_each :: "('a \<Rightarrow> 'e + unit) \<Rightarrow> 'a list \<Rightarrow> 'e + unit" where
  "try_each f [] = Inr ()"
| "try_each f (x # xs) = and_then (f x) (\<lambda>_. try_each f xs)"

primrec collect_results :: "('a \<Rightarrow> 'e + 'b) \<Rightarrow> 'a list \<Rightarrow> 'e + 'b list" where
  "collect_results f [] = Inr []"
| "collect_results f (x # xs) =
    and_then (f x) (\<lambda>y. and_then (collect_results f xs) (\<lambda>ys. Inr (y # ys)))"

text \<open>\<open>x.map(f).transpose()\<close> of an optional value and a fallible function.\<close>

definition map_transpose :: "('a \<Rightarrow> 'e + 'b) \<Rightarrow> 'a option \<Rightarrow> 'e + 'b option" where
  "map_transpose f x =
    (case x of None \<Rightarrow> Inr None | Some y \<Rightarrow> and_then (f y) (\<lambda>z. Inr (Some z)))"

lemma and_then_simps [simp]:
  "and_then (Inr x) f = f x" "and_then (Inl e) f = Inl e"
  by (simp_all add: and_then_def)

lemma map_err_simps [simp]:
  "map_err g (Inr x) = Inr x" "map_err g (Inl e) = Inl (g e)"
  by (simp_all add: map_err_def)

lemma ok_or_simps [simp]:
  "ok_or (Some x) e = Inr x" "ok_or None e = Inl e"
  by (simp_all add: ok_or_def)

lemma ensure_simps [simp]:
  "ensure True e = Inr ()" "ensure False e = Inl e"
  by (simp_all add: ensure_def)

lemma and_then_eq_Ok [result_simps]:
  "and_then r f = Inr y \<longleftrightarrow> (\<exists>x. r = Inr x \<and> f x = Inr y)"
  by (cases r) auto

lemma and_then_eq_Err [result_simps]:
  "and_then r f = Inl e \<longleftrightarrow> r = Inl e \<or> (\<exists>x. r = Inr x \<and> f x = Inl e)"
  by (cases r) auto

lemma map_err_eq_Ok [result_simps]: "map_err g r = Inr x \<longleftrightarrow> r = Inr x"
  by (cases r) auto

lemma map_err_eq_Err [result_simps]: "map_err g r = Inl e \<longleftrightarrow> (\<exists>d. r = Inl d \<and> e = g d)"
  by (cases r) auto

lemma ok_or_eq_Ok [result_simps]: "ok_or x e = Inr y \<longleftrightarrow> x = Some y"
  by (cases x) auto

lemma ok_or_eq_Err [result_simps]: "ok_or x e = Inl d \<longleftrightarrow> x = None \<and> d = e"
  by (cases x) auto

lemma map_transpose_simps [simp]:
  "map_transpose f None = Inr None"
  "map_transpose f (Some y) = and_then (f y) (\<lambda>z. Inr (Some z))"
  by (simp_all add: map_transpose_def)

lemma map_transpose_eq_None [simp]: "map_transpose f x = Inr None \<longleftrightarrow> x = None"
  by (cases x) (auto simp: and_then_eq_Ok)

lemma map_transpose_eq_Some [simp]:
  "map_transpose f x = Inr (Some z) \<longleftrightarrow> (\<exists>y. x = Some y \<and> f y = Inr z)"
  by (cases x) (auto simp: and_then_eq_Ok)

lemma ensure_eq_Ok [result_simps]: "ensure b e = Inr u \<longleftrightarrow> b"
  by (cases b) auto

lemma ensure_eq_Err [result_simps]: "ensure b e = Inl d \<longleftrightarrow> \<not> b \<and> d = e"
  by (cases b) auto

lemma guard_eq_Ok [result_simps]:
  "(if b then Inl e else r) = Inr x \<longleftrightarrow> \<not> b \<and> r = Inr x"
  "(if b then r else Inl e) = Inr x \<longleftrightarrow> b \<and> r = Inr x"
  by auto

lemma guard_eq_Err [result_simps]:
  "(if b then Inl e else r) = Inl d \<longleftrightarrow> b \<and> d = e \<or> \<not> b \<and> r = Inl d"
  "(if b then r else Inl e) = Inl d \<longleftrightarrow> \<not> b \<and> d = e \<or> b \<and> r = Inl d"
  by auto

lemma try_each_eq_Ok: "try_each f xs = Inr u \<longleftrightarrow> (\<forall>x\<in>set xs. f x = Inr ())"
  by (induction xs) (auto simp: result_simps)

lemma try_each_eq_Err:
  "try_each f xs = Inl e \<longleftrightarrow>
    (\<exists>ys x zs. xs = ys @ x # zs \<and> (\<forall>y\<in>set ys. f y = Inr ()) \<and> f x = Inl e)"
proof (induction xs)
  case (Cons x xs)
  show ?case
  proof (cases "f x")
    case (Inl d)
    then show ?thesis by (fastforce simp: Cons_eq_append_conv)
  next
    case (Inr u)
    have "try_each f (x # xs) = Inl e \<longleftrightarrow> try_each f xs = Inl e"
      using Inr by simp
    also have "\<dots> \<longleftrightarrow> (\<exists>ys y zs. xs = ys @ y # zs \<and>
        (\<forall>y\<in>set ys. f y = Inr ()) \<and> f y = Inl e)"
      by (rule Cons.IH)
    also have "\<dots> \<longleftrightarrow> (\<exists>ys y zs. x # xs = (x # ys) @ y # zs \<and>
        (\<forall>y\<in>set (x # ys). f y = Inr ()) \<and> f y = Inl e)"
      using Inr by simp
    also have "\<dots> \<longleftrightarrow> (\<exists>ys y zs. x # xs = ys @ y # zs \<and>
        (\<forall>y\<in>set ys. f y = Inr ()) \<and> f y = Inl e)"
    proof
      assume "\<exists>ys y zs. x # xs = ys @ y # zs \<and> (\<forall>y\<in>set ys. f y = Inr ()) \<and> f y = Inl e"
      then obtain ys y zs where *: "x # xs = ys @ y # zs" "\<forall>y\<in>set ys. f y = Inr ()" "f y = Inl e"
        by blast
      with Inr obtain ys' where "ys = x # ys'" by (cases ys) auto
      with * show "\<exists>ys y zs. x # xs = (x # ys) @ y # zs \<and>
          (\<forall>y\<in>set (x # ys). f y = Inr ()) \<and> f y = Inl e"
        by blast
    qed blast
    finally show ?thesis .
  qed
qed simp

lemma collect_results_eq_Ok:
  "collect_results f xs = Inr ys \<longleftrightarrow> list_all2 (\<lambda>x y. f x = Inr y) xs ys"
  by (induction xs arbitrary: ys) (auto simp: result_simps list_all2_Cons1)

lemma collect_results_length:
  "collect_results f xs = Inr ys \<Longrightarrow> length ys = length xs"
  by (auto simp: collect_results_eq_Ok dest: list_all2_lengthD)

lemma collect_results_map:
  assumes "\<And>x. x \<in> set xs \<Longrightarrow> f (g x) = Inr (h x)"
  shows "collect_results f (map g xs) = Inr (map h xs)"
  using assms by (induction xs) auto

section \<open>Sequences of operations\<close>

definition apply_op :: "('op \<Rightarrow> 's \<Rightarrow> 'e + 's) \<Rightarrow> 'op \<Rightarrow> 's \<Rightarrow> 's" where
  "apply_op step op s = (case step op s of Inl _ \<Rightarrow> s | Inr s' \<Rightarrow> s')"

primrec run_ops :: "('op \<Rightarrow> 's \<Rightarrow> 'e + 's) \<Rightarrow> 'op list \<Rightarrow> 's \<Rightarrow> 's" where
  "run_ops step [] s = s"
| "run_ops step (op # ops) s = run_ops step ops (apply_op step op s)"

lemma apply_op_simps [simp]:
  "step op s = Inr s' \<Longrightarrow> apply_op step op s = s'"
  "step op s = Inl e \<Longrightarrow> apply_op step op s = s"
  by (simp_all add: apply_op_def)

lemma run_ops_append: "run_ops step (xs @ ys) s = run_ops step ys (run_ops step xs s)"
  by (induction xs arbitrary: s) auto

text \<open>
  An aggregate with a life cycle: every successful mutator keeps the aggregate's
  invariant and its identity (the part of the state no mutator may change), and a
  terminal status is never left.
\<close>

locale lifecycle =
  fixes step :: "'op \<Rightarrow> 's \<Rightarrow> 'e + 's"
    and inv :: "'s \<Rightarrow> bool"
    and ident :: "'s \<Rightarrow> 'i"
    and status :: "'s \<Rightarrow> 'st"
    and terminal :: "'st \<Rightarrow> bool"
  assumes step_inv: "step op s = Inr s' \<Longrightarrow> inv s \<Longrightarrow> inv s'"
    and step_ident: "step op s = Inr s' \<Longrightarrow> ident s' = ident s"
    and step_terminal: "step op s = Inr s' \<Longrightarrow> terminal (status s) \<Longrightarrow> status s' = status s"
begin

lemma apply_inv: "inv s \<Longrightarrow> inv (apply_op step op s)"
  by (cases "step op s") (auto intro: step_inv)

lemma run_inv: "inv s \<Longrightarrow> inv (run_ops step ops s)"
  by (induction ops arbitrary: s) (auto intro: apply_inv)

lemma apply_ident: "ident (apply_op step op s) = ident s"
  by (cases "step op s") (auto dest: step_ident)

lemma run_ident: "ident (run_ops step ops s) = ident s"
  by (induction ops arbitrary: s) (auto simp: apply_ident)

lemma apply_terminal: "terminal (status s) \<Longrightarrow> status (apply_op step op s) = status s"
  by (cases "step op s") (auto dest: step_terminal)

lemma run_terminal: "terminal (status s) \<Longrightarrow> status (run_ops step ops s) = status s"
  by (induction ops arbitrary: s) (auto simp: apply_terminal)

end

text \<open>A stronger contract: in a terminal status nothing at all of the aggregate changes.\<close>

locale frozen_lifecycle = lifecycle step inv ident status terminal
  for step :: "'op \<Rightarrow> 's \<Rightarrow> 'e + 's"
    and inv :: "'s \<Rightarrow> bool"
    and ident :: "'s \<Rightarrow> 'i"
    and status :: "'s \<Rightarrow> 'st"
    and terminal :: "'st \<Rightarrow> bool" +
  assumes step_frozen: "step op s = Inr s' \<Longrightarrow> terminal (status s) \<Longrightarrow> s' = s"
begin

lemma apply_frozen: "terminal (status s) \<Longrightarrow> apply_op step op s = s"
  by (cases "step op s") (auto dest: step_frozen)

lemma run_frozen: "terminal (status s) \<Longrightarrow> run_ops step ops s = s"
  by (induction ops arbitrary: s) (auto simp: apply_frozen)

lemma run_frozen_prefix:
  assumes "terminal (status (run_ops step xs s))"
  shows "run_ops step (xs @ ys) s = run_ops step xs s"
  using assms by (simp add: run_ops_append run_frozen)

end

section \<open>Codecs\<close>

text \<open>
  An encoder and its partial decoder: decoding what was encoded gives the value back
  (on the values \<open>valid\<close> admits), and whatever decodes is the encoding of its value, so
  no two stored texts stand for one value.
\<close>

locale codec =
  fixes encode :: "'a \<Rightarrow> 'b"
    and decode :: "'b \<Rightarrow> 'e + 'a"
    and valid :: "'a \<Rightarrow> bool"
  assumes decode_encode: "valid x \<Longrightarrow> decode (encode x) = Inr x"
    and encode_decode: "decode y = Inr x \<Longrightarrow> valid x \<and> encode x = y"
begin

lemma encode_inj: "valid x \<Longrightarrow> valid y \<Longrightarrow> encode x = encode y \<longleftrightarrow> x = y"
  using decode_encode by (metis sum.inject(2))

lemma decode_eq: "decode y = Inr x \<longleftrightarrow> valid x \<and> encode x = y"
  using decode_encode encode_decode by blast

lemma decode_inj: "decode y = Inr x \<Longrightarrow> decode z = Inr x \<Longrightarrow> y = z"
  using encode_decode by blast

lemma decode_Err: "(\<exists>e. decode y = Inl e) \<longleftrightarrow> (\<forall>x. valid x \<longrightarrow> encode x \<noteq> y)"
  by (cases "decode y") (use decode_encode encode_decode in fastforce)+

end

section \<open>Decimal text\<close>

text \<open>The decimal rendering \<open>{}\<close> and \<open>{:02}\<close> of unsigned integers by \<open>core::fmt\<close>.\<close>

definition digit_char :: "nat \<Rightarrow> char" where
  "digit_char d = char_of (48 + d)"

definition digit_value :: "char \<Rightarrow> nat" where
  "digit_value c = of_char c - 48"

fun nat_to_string :: "nat \<Rightarrow> string" where
  "nat_to_string n =
    (if n < 10 then [digit_char n] else nat_to_string (n div 10) @ [digit_char (n mod 10)])"

declare nat_to_string.simps [simp del]

definition pad2 :: "nat \<Rightarrow> string" where
  "pad2 n = (let s = nat_to_string n in if length s < 2 then CHR ''0'' # s else s)"

definition string_to_nat :: "string \<Rightarrow> nat" where
  "string_to_nat s = foldl (\<lambda>a c. a * 10 + digit_value c) 0 s"

lemma digit_value_char [simp]: "d < 10 \<Longrightarrow> digit_value (digit_char d) = d"
  by (simp add: digit_value_def digit_char_def)

lemma string_to_nat_to_string [simp]: "string_to_nat (nat_to_string n) = n"
proof (induction n rule: nat_to_string.induct)
  case (1 n)
  then show ?case
    by (subst nat_to_string.simps) (auto simp: string_to_nat_def)
qed

lemma nat_to_string_inject [simp]: "nat_to_string m = nat_to_string n \<longleftrightarrow> m = n"
  by (metis string_to_nat_to_string)

lemma digit_char_code: "d < 10 \<Longrightarrow> of_char (digit_char d) = 48 + d"
  by (simp add: digit_char_def)

lemma nat_to_string_chars:
  "c \<in> set (nat_to_string n) \<Longrightarrow> \<exists>d < 10. c = digit_char d"
proof (induction n rule: nat_to_string.induct)
  case (1 n)
  then show ?case
    by (subst (asm) nat_to_string.simps) (auto split: if_splits intro: exI [of _ "n mod 10"])
qed

lemma nat_to_string_not_Nil [simp]: "nat_to_string n \<noteq> []"
  by (subst nat_to_string.simps) simp

lemma pad2_value: "string_to_nat (pad2 n) = n"
proof -
  have "string_to_nat (CHR ''0'' # s) = string_to_nat s" for s
    by (simp add: string_to_nat_def digit_value_def)
  then show ?thesis
    by (simp add: pad2_def Let_def)
qed

lemma pad2_inject: "pad2 m = pad2 n \<longleftrightarrow> m = n"
  by (metis pad2_value)

section \<open>Lists\<close>

lemma append_sep_inject:
  assumes "c \<notin> set xs" "c \<notin> set xs'" "xs @ c # ys = xs' @ c # ys'"
  shows "xs = xs' \<and> ys = ys'"
  using assms
proof (induction xs arbitrary: xs')
  case Nil
  then show ?case by (cases xs') auto
next
  case (Cons x xs)
  then show ?case by (cases xs') auto
qed

text \<open>The loops of the source that compare each element with its predecessor.\<close>

lemma sorted_wrt_less_distinct:
  fixes xs :: "'a :: preorder list"
  shows "sorted_wrt (<) xs \<Longrightarrow> distinct xs"
  by (induction xs) auto

lemma sorted_wrt_less_key_inj:
  fixes f :: "'a \<Rightarrow> 'b :: preorder"
  assumes "sorted_wrt (<) (map f xs)" "x \<in> set xs" "y \<in> set xs" "f x = f y"
  shows "x = y"
  using sorted_wrt_less_distinct [OF assms(1)] assms(2-)
  by (simp add: distinct_map inj_on_def)

end
