(* ===== verification/Money.thy ===== *)
theory Money
  imports Prelude
begin

text \<open>
  The monetary value type of \<open>crates/domain/src/money.rs\<close>: a signed 64-bit count of
  minor units with a currency, and its currency-checked, overflow-checked operations.
\<close>

datatype Currency = Usd | Cad | Eur | Gbp

fun Currency_code :: "Currency \<Rightarrow> string" where
  "Currency_code Usd = ''USD''"
| "Currency_code Cad = ''CAD''"
| "Currency_code Eur = ''EUR''"
| "Currency_code Gbp = ''GBP''"

datatype MoneyOperation = Addition | Subtraction | Negation

datatype MoneyError =
    CurrencyMismatch Currency Currency
  | ArithmeticOverflow MoneyOperation

record Money =
  minor_units :: i64
  currency :: Currency

definition from_minor_units :: "i64 \<Rightarrow> Currency \<Rightarrow> Money" where
  "from_minor_units n c = \<lparr> minor_units = n, currency = c \<rparr>"

definition Money_zero :: "Currency \<Rightarrow> Money" where
  "Money_zero c = from_minor_units 0 c"

definition is_zero :: "Money \<Rightarrow> bool" where
  "is_zero m \<longleftrightarrow> minor_units m = 0"

definition is_positive :: "Money \<Rightarrow> bool" where
  "is_positive m \<longleftrightarrow> 0 < sint (minor_units m)"

definition is_negative :: "Money \<Rightarrow> bool" where
  "is_negative m \<longleftrightarrow> sint (minor_units m) < 0"

definition ensure_same_currency :: "Money \<Rightarrow> Money \<Rightarrow> MoneyError + unit" where
  "ensure_same_currency a b =
    (if currency a \<noteq> currency b then Err (CurrencyMismatch (currency a) (currency b)) else Ok ())"

datatype Ordering = Less | Equal | Greater

definition i64_cmp :: "i64 \<Rightarrow> i64 \<Rightarrow> Ordering" where
  "i64_cmp a b = (if sint a < sint b then Less else if a = b then Equal else Greater)"

definition checked_cmp :: "Money \<Rightarrow> Money \<Rightarrow> MoneyError + Ordering" where
  "checked_cmp a b =
    and_then (ensure_same_currency a b) (\<lambda>_. Ok (i64_cmp (minor_units a) (minor_units b)))"

definition checked_add :: "Money \<Rightarrow> Money \<Rightarrow> MoneyError + Money" where
  "checked_add a b =
    and_then (ensure_same_currency a b) (\<lambda>_.
    and_then (ok_or (checked_add_i64 (minor_units a) (minor_units b)) (ArithmeticOverflow Addition))
      (\<lambda>n. Ok (from_minor_units n (currency a))))"

definition checked_subtract :: "Money \<Rightarrow> Money \<Rightarrow> MoneyError + Money" where
  "checked_subtract a b =
    and_then (ensure_same_currency a b) (\<lambda>_.
    and_then (ok_or (checked_sub_i64 (minor_units a) (minor_units b)) (ArithmeticOverflow Subtraction))
      (\<lambda>n. Ok (from_minor_units n (currency a))))"

definition checked_negate :: "Money \<Rightarrow> MoneyError + Money" where
  "checked_negate a =
    and_then (ok_or (checked_neg_i64 (minor_units a)) (ArithmeticOverflow Negation))
      (\<lambda>n. Ok (from_minor_units n (currency a)))"

text \<open>\<open>Display for Money\<close>: the currency code, a sign for negative amounts, major units and two
  digits of minor units.\<close>

definition Money_display :: "Money \<Rightarrow> string" where
  "Money_display m =
    (let absolute = nat \<bar>sint (minor_units m)\<bar>;
         major = absolute div 100;
         remaining = absolute mod 100
     in if sint (minor_units m) < 0
        then Currency_code (currency m) @ '' -'' @ nat_to_string major @ ''.'' @ pad2 remaining
        else Currency_code (currency m) @ '' '' @ nat_to_string major @ ''.'' @ pad2 remaining)"

section \<open>Lemmas\<close>

abbreviation units :: "Money \<Rightarrow> int" where
  "units m \<equiv> sint (minor_units m)"

lemma from_minor_units_simps [simp]:
  "minor_units (from_minor_units n c) = n" "currency (from_minor_units n c) = c"
  by (simp_all add: from_minor_units_def)

lemma Money_zero_simps [simp]:
  "minor_units (Money_zero c) = 0" "currency (Money_zero c) = c"
  by (simp_all add: Money_zero_def)

lemma Money_eq_iff: "(a :: Money) = b \<longleftrightarrow> units a = units b \<and> currency a = currency b"
  by (simp add: sint_eq_iff) (metis Money.equality unit.exhaust)

lemma is_zero_iff: "is_zero m \<longleftrightarrow> units m = 0"
  by (simp add: is_zero_def) (metis sint_eq_iff sint_0)

lemma sign_cases: "is_negative m \<or> is_zero m \<or> is_positive m"
  by (auto simp: is_negative_def is_zero_iff is_positive_def)

lemma ensure_same_currency_simps [result_simps]:
  "ensure_same_currency a b = Ok u \<longleftrightarrow> currency a = currency b"
  "ensure_same_currency a b = Err e \<longleftrightarrow>
    currency a \<noteq> currency b \<and> e = CurrencyMismatch (currency a) (currency b)"
  by (auto simp: ensure_same_currency_def)

lemma ensure_same_currency_Ok [simp]:
  "currency a = currency b \<Longrightarrow> ensure_same_currency a b = Ok ()"
  by (simp add: ensure_same_currency_def)

lemma checked_add_eq_Ok:
  "checked_add a b = Ok c \<longleftrightarrow>
    currency a = currency b \<and> in_i64 (units a + units b) \<and>
    currency c = currency a \<and> units c = units a + units b"
  by (auto simp: checked_add_def result_simps checked_add_i64_def i64_try_from_eq_Some Money_eq_iff
      intro: exI [of _ "i64_of_int (units a + units b)"])

lemma checked_subtract_eq_Ok:
  "checked_subtract a b = Ok c \<longleftrightarrow>
    currency a = currency b \<and> in_i64 (units a - units b) \<and>
    currency c = currency a \<and> units c = units a - units b"
  by (auto simp: checked_subtract_def result_simps checked_sub_i64_def i64_try_from_eq_Some Money_eq_iff
      intro: exI [of _ "i64_of_int (units a - units b)"])

lemma checked_negate_eq_Ok:
  "checked_negate a = Ok c \<longleftrightarrow>
    in_i64 (- units a) \<and> currency c = currency a \<and> units c = - units a"
  by (auto simp: checked_negate_def result_simps checked_neg_i64_def i64_try_from_eq_Some Money_eq_iff
      intro: exI [of _ "i64_of_int (- units a)"])

lemma checked_add_eq_Err:
  "checked_add a b = Err e \<longleftrightarrow>
    (if currency a \<noteq> currency b then e = CurrencyMismatch (currency a) (currency b)
     else \<not> in_i64 (units a + units b) \<and> e = ArithmeticOverflow Addition)"
  by (auto simp: checked_add_def result_simps checked_add_i64_def i64_try_from_eq_None)

lemma checked_subtract_eq_Err:
  "checked_subtract a b = Err e \<longleftrightarrow>
    (if currency a \<noteq> currency b then e = CurrencyMismatch (currency a) (currency b)
     else \<not> in_i64 (units a - units b) \<and> e = ArithmeticOverflow Subtraction)"
  by (auto simp: checked_subtract_def result_simps checked_sub_i64_def i64_try_from_eq_None)

lemma checked_cmp_eq_Ok:
  "checked_cmp a b = Ok r \<longleftrightarrow> currency a = currency b \<and>
    (r = Less \<longleftrightarrow> units a < units b) \<and> (r = Equal \<longleftrightarrow> units a = units b) \<and>
    (r = Greater \<longleftrightarrow> units b < units a)"
  by (cases r) (auto simp: checked_cmp_def result_simps i64_cmp_def sint_eq_iff [symmetric])

lemma checked_cmp_same [simp]:
  "currency a = currency b \<Longrightarrow>
    checked_cmp a b = Ok (if units a < units b then Less else if units a = units b then Equal else Greater)"
  by (auto simp: checked_cmp_eq_Ok)

text \<open>Subtraction of two non-negative amounts of one currency cannot overflow.\<close>

lemma checked_subtract_nonneg:
  assumes "currency a = currency b" "0 \<le> units a" "0 \<le> units b"
  shows "checked_subtract a b = Ok (from_minor_units (i64_of_int (units a - units b)) (currency a))"
proof -
  have "in_i64 (units a - units b)"
    using assms sint_i64_bounds [of "minor_units a"] sint_i64_bounds [of "minor_units b"]
    by (simp add: in_i64_def i64_min_def i64_max_def)
  then show ?thesis
    using assms by (simp add: checked_subtract_eq_Ok)
qed

lemma Currency_code_inject [simp]: "Currency_code a = Currency_code b \<longleftrightarrow> a = b"
  by (cases a; cases b) auto

lemma Currency_code_length [simp]: "length (Currency_code c) = 3"
  by (cases c) auto

lemma nat_to_string_no_punctuation:
  "CHR ''.'' \<notin> set (nat_to_string n)" "CHR ''-'' \<notin> set (nat_to_string n)"
  by (auto dest!: nat_to_string_chars dest: arg_cong [where f = "of_char :: char \<Rightarrow> nat"]
      simp: digit_char_code)

lemma nat_to_string_head: "nat_to_string n = CHR ''-'' # xs \<Longrightarrow> False"
  using nat_to_string_no_punctuation(2) [of n] by auto

lemma nat_abs_split: "nat \<bar>k\<bar> = (nat \<bar>k\<bar> div 100) * 100 + nat \<bar>k\<bar> mod 100"
  by simp

lemma Money_display_tail_inject:
  assumes "nat_to_string m @ ''.'' @ pad2 r = nat_to_string m' @ ''.'' @ pad2 r'"
  shows "m = m' \<and> r = r'"
  using append_sep_inject [of "CHR ''.''" "nat_to_string m" "nat_to_string m'" "pad2 r" "pad2 r'"]
    assms nat_to_string_no_punctuation(1)
  by (simp add: pad2_inject)

lemma nat_abs_eq_by_parts:
  assumes "nat \<bar>a\<bar> div 100 = nat \<bar>b\<bar> div 100" "nat \<bar>a\<bar> mod 100 = nat \<bar>b\<bar> mod 100"
  shows "\<bar>a\<bar> = \<bar>b :: int\<bar>"
  using assms by (metis abs_ge_zero div_mult_mod_eq eq_nat_nat_iff)

section \<open>Properties\<close>

text \<open>
  Money arithmetic is exact: an addition succeeds exactly when the currencies agree
  and the sum of the minor units is representable; it then carries that sum in the same
  currency, and subtracting what was added returns the original amount.
\<close>

theorem checked_add_exact:
  "case checked_add a b of
     Ok c \<Rightarrow> currency a = currency b \<and> currency c = currency a \<and>
       units c = units a + units b \<and> checked_subtract c b = Ok a
   | Err e \<Rightarrow> (currency a \<noteq> currency b \<and> e = CurrencyMismatch (currency a) (currency b)) \<or>
       (currency a = currency b \<and> \<not> in_i64 (units a + units b) \<and> e = ArithmeticOverflow Addition)"
  by (auto simp: checked_add_eq_Ok checked_add_eq_Err checked_subtract_eq_Ok
      split: sum.split if_splits)

text \<open>
  The rendering of a monetary value is lossless: two values with the same text are the
  same value, the sign of amounts below one major unit included.
\<close>

theorem Money_display_injective: "Money_display a = Money_display b \<longleftrightarrow> a = b"
proof
  assume eq: "Money_display a = Money_display b"
  then have "Currency_code (currency a) = Currency_code (currency b)"
    by (auto simp: Money_display_def Let_def append_eq_append_conv split: if_splits)
  then have cur: "currency a = currency b"
    by simp
  with eq have sign: "units a < 0 \<longleftrightarrow> units b < 0"
    by (auto simp: Money_display_def Let_def append_eq_Cons_conv Cons_eq_append_conv
        dest: nat_to_string_head nat_to_string_head [OF sym] split: if_splits)
  have "nat_to_string (nat \<bar>units a\<bar> div 100) @ ''.'' @ pad2 (nat \<bar>units a\<bar> mod 100) =
      nat_to_string (nat \<bar>units b\<bar> div 100) @ ''.'' @ pad2 (nat \<bar>units b\<bar> mod 100)"
    using eq cur sign by (auto simp: Money_display_def Let_def split: if_splits)
  then have "\<bar>units a\<bar> = \<bar>units b\<bar>"
    using Money_display_tail_inject nat_abs_eq_by_parts by blast
  with sign cur show "a = b"
    by (auto simp: Money_eq_iff)
qed simp

end
