(* ===== verification/Identifier.thy ===== *)
theory Identifier
  imports Prelude
begin

text \<open>
  The typed identifiers of \<open>crates/domain/src/identifier.rs\<close>.  An identifier is a 128-bit
  UUID; what the \<open>uuid\<close> crate reads off one (nil test, variant, version, text parsing and
  rendering) is the parameter \<open>UuidApi\<close>.  The twelve identifier types differ only in the kind
  their errors name, so the type names below are synonyms of the UUID.
\<close>

type_synonym Uuid = "128 word"

type_synonym TransitAccountId = Uuid
type_synonym RiderId = Uuid
type_synonym FareCredentialId = Uuid
type_synonym ReaderId = Uuid
type_synonym EquipmentKeyId = Uuid
type_synonym FareTransactionId = Uuid
type_synonym FarePolicyId = Uuid
type_synonym JourneyId = Uuid
type_synonym TransitProductId = Uuid
type_synonym TransitProductInstanceId = Uuid
type_synonym SynchronizationBatchId = Uuid
type_synonym DomainEventId = Uuid

record UuidApi =
  uuid_is_nil :: "Uuid \<Rightarrow> bool"
  uuid_is_rfc4122 :: "Uuid \<Rightarrow> bool"
  uuid_is_sort_rand :: "Uuid \<Rightarrow> bool"
  uuid_parse :: "string \<Rightarrow> Uuid option"
  uuid_to_string :: "Uuid \<Rightarrow> string"

datatype IdentifierError =
    Identifier_Nil string
  | Identifier_InvalidVariant string
  | Identifier_UnsupportedVersion string
  | Identifier_InvalidFormat string

definition identifier_validate :: "UuidApi \<Rightarrow> string \<Rightarrow> Uuid \<Rightarrow> IdentifierError + Uuid" where
  "identifier_validate api kind value =
    (if uuid_is_nil api value then Err (Identifier_Nil kind)
     else if \<not> uuid_is_rfc4122 api value then Err (Identifier_InvalidVariant kind)
     else if \<not> uuid_is_sort_rand api value then Err (Identifier_UnsupportedVersion kind)
     else Ok value)"

definition identifier_try_from :: "UuidApi \<Rightarrow> string \<Rightarrow> Uuid \<Rightarrow> IdentifierError + Uuid" where
  "identifier_try_from api kind value = identifier_validate api kind value"

definition identifier_from_str :: "UuidApi \<Rightarrow> string \<Rightarrow> string \<Rightarrow> IdentifierError + Uuid" where
  "identifier_from_str api kind text =
    and_then (ok_or (uuid_parse api text) (Identifier_InvalidFormat kind))
      (identifier_try_from api kind)"

definition identifier_to_string :: "UuidApi \<Rightarrow> Uuid \<Rightarrow> string" where
  "identifier_to_string api value = uuid_to_string api value"

section \<open>Lemmas\<close>

definition valid_identifier :: "UuidApi \<Rightarrow> Uuid \<Rightarrow> bool" where
  "valid_identifier api u \<longleftrightarrow>
    \<not> uuid_is_nil api u \<and> uuid_is_rfc4122 api u \<and> uuid_is_sort_rand api u"

lemma identifier_try_from_eq_Ok [result_simps]:
  "identifier_try_from api kind u = Ok v \<longleftrightarrow> valid_identifier api u \<and> v = u"
  by (auto simp: identifier_try_from_def identifier_validate_def valid_identifier_def)

lemma identifier_try_from_valid [simp]:
  "valid_identifier api u \<Longrightarrow> identifier_try_from api kind u = Ok u"
  by (simp add: identifier_try_from_eq_Ok)

lemma identifier_from_str_eq_Ok:
  "identifier_from_str api kind text = Ok u \<longleftrightarrow>
    uuid_parse api text = Some u \<and> valid_identifier api u"
  by (auto simp: identifier_from_str_def result_simps)

end
