(* ===== verification/Account.thy ===== *)
theory Account
  imports Money Identifier
begin

text \<open>
  Stored value and the transit-account aggregate of \<open>crates/domain/src/account.rs\<close>.  A
  mutator \<open>fn op(&mut self, ..) -> Result<(), E>\<close> is a function from the aggregate to \<open>E\<close> or
  the updated aggregate: in each of them every error return precedes the first
  assignment.
\<close>

datatype TransitAccountStatus = Account_Active | Account_Suspended | Account_Closed

datatype EligibilityClassification =
  Standard | Youth | Senior | ReducedFare | EmployeeTestAccount

datatype StoredValueError =
    NegativeBalance Money
  | NonPositiveCredit Money
  | NonPositiveDebit Money
  | InsufficientStoredValue Money Money
  | StoredValue_Money MoneyError

datatype StoredValueBalance = StoredValueBalance (amount: Money)

definition StoredValueBalance_new :: "Money \<Rightarrow> StoredValueError + StoredValueBalance" where
  "StoredValueBalance_new m =
    (if is_negative m then Err (NegativeBalance m) else Ok (StoredValueBalance m))"

definition StoredValueBalance_zero :: "Currency \<Rightarrow> StoredValueBalance" where
  "StoredValueBalance_zero c = StoredValueBalance (Money_zero c)"

definition StoredValueBalance_credit ::
  "Money \<Rightarrow> StoredValueBalance \<Rightarrow> StoredValueError + StoredValueBalance" where
  "StoredValueBalance_credit m b =
    (if \<not> is_positive m then Err (NonPositiveCredit m)
     else and_then (map_err StoredValue_Money (checked_add (amount b) m))
       (\<lambda>updated. Ok (StoredValueBalance updated)))"

definition StoredValueBalance_debit ::
  "Money \<Rightarrow> StoredValueBalance \<Rightarrow> StoredValueError + StoredValueBalance" where
  "StoredValueBalance_debit m b =
    (if \<not> is_positive m then Err (NonPositiveDebit m)
     else and_then (map_err StoredValue_Money (checked_subtract (amount b) m)) (\<lambda>updated.
       if is_negative updated then Err (InsufficientStoredValue (amount b) m)
       else Ok (StoredValueBalance updated)))"

datatype TransitAccountError =
    AccountNotActive TransitAccountStatus
  | AccountClosed
  | Account_InvalidStatusTransition TransitAccountStatus TransitAccountStatus
  | Account_StoredValue StoredValueError

record TransitAccount =
  account_id :: TransitAccountId
  rider_id :: RiderId
  account_status :: TransitAccountStatus
  eligibility :: EligibilityClassification
  stored_value :: StoredValueBalance

definition TransitAccount_new ::
  "TransitAccountId \<Rightarrow> RiderId \<Rightarrow> EligibilityClassification \<Rightarrow> Money
    \<Rightarrow> TransitAccountError + TransitAccount" where
  "TransitAccount_new i r e initial_balance =
    and_then (map_err Account_StoredValue (StoredValueBalance_new initial_balance)) (\<lambda>sv.
      Ok \<lparr> account_id = i, rider_id = r, account_status = Account_Active, eligibility = e,
           stored_value = sv \<rparr>)"

definition TransitAccount_ensure_active :: "TransitAccount \<Rightarrow> TransitAccountError + unit" where
  "TransitAccount_ensure_active a =
    (if account_status a \<noteq> Account_Active then Err (AccountNotActive (account_status a)) else Ok ())"

definition credit_stored_value :: "Money \<Rightarrow> TransitAccount \<Rightarrow> TransitAccountError + TransitAccount" where
  "credit_stored_value m a =
    (if account_status a = Account_Closed then Err AccountClosed
     else and_then (map_err Account_StoredValue (StoredValueBalance_credit m (stored_value a)))
       (\<lambda>sv. Ok (a\<lparr> stored_value := sv \<rparr>)))"

definition debit_stored_value :: "Money \<Rightarrow> TransitAccount \<Rightarrow> TransitAccountError + TransitAccount" where
  "debit_stored_value m a =
    and_then (TransitAccount_ensure_active a) (\<lambda>_.
    and_then (map_err Account_StoredValue (StoredValueBalance_debit m (stored_value a)))
       (\<lambda>sv. Ok (a\<lparr> stored_value := sv \<rparr>)))"

definition TransitAccount_suspend :: "TransitAccount \<Rightarrow> TransitAccountError + TransitAccount" where
  "TransitAccount_suspend a =
    (case account_status a of
       Account_Active \<Rightarrow> Ok (a\<lparr> account_status := Account_Suspended \<rparr>)
     | Account_Suspended \<Rightarrow> Ok a
     | Account_Closed \<Rightarrow> Err (Account_InvalidStatusTransition Account_Closed Account_Suspended))"

definition TransitAccount_reactivate :: "TransitAccount \<Rightarrow> TransitAccountError + TransitAccount" where
  "TransitAccount_reactivate a =
    (case account_status a of
       Account_Active \<Rightarrow> Ok a
     | Account_Suspended \<Rightarrow> Ok (a\<lparr> account_status := Account_Active \<rparr>)
     | Account_Closed \<Rightarrow> Err (Account_InvalidStatusTransition Account_Closed Account_Active))"

definition TransitAccount_close :: "TransitAccount \<Rightarrow> TransitAccount" where
  "TransitAccount_close a = a\<lparr> account_status := Account_Closed \<rparr>"

definition change_eligibility ::
  "EligibilityClassification \<Rightarrow> TransitAccount \<Rightarrow> TransitAccountError + TransitAccount" where
  "change_eligibility e a =
    (if account_status a = Account_Closed then Err AccountClosed
     else Ok (a\<lparr> eligibility := e \<rparr>))"

text \<open>The public mutators of the aggregate, as the calls a client may make in any order.\<close>

datatype AccountOp =
    CreditStoredValue Money
  | DebitStoredValue Money
  | SuspendAccount
  | ReactivateAccount
  | CloseAccount
  | ChangeEligibility EligibilityClassification

fun account_step :: "AccountOp \<Rightarrow> TransitAccount \<Rightarrow> TransitAccountError + TransitAccount" where
  "account_step (CreditStoredValue m) a = credit_stored_value m a"
| "account_step (DebitStoredValue m) a = debit_stored_value m a"
| "account_step SuspendAccount a = TransitAccount_suspend a"
| "account_step ReactivateAccount a = TransitAccount_reactivate a"
| "account_step CloseAccount a = Ok (TransitAccount_close a)"
| "account_step (ChangeEligibility e) a = change_eligibility e a"

section \<open>Lemmas\<close>

abbreviation balance :: "TransitAccount \<Rightarrow> int" where
  "balance a \<equiv> units (amount (stored_value a))"

definition account_inv :: "TransitAccount \<Rightarrow> bool" where
  "account_inv a \<longleftrightarrow> 0 \<le> balance a"

definition account_ident :: "TransitAccount \<Rightarrow> TransitAccountId \<times> RiderId \<times> Currency" where
  "account_ident a = (account_id a, rider_id a, currency (amount (stored_value a)))"

text \<open>What an operation moves in or out of the account, were it to succeed.\<close>

fun account_delta :: "AccountOp \<Rightarrow> int" where
  "account_delta (CreditStoredValue m) = units m"
| "account_delta (DebitStoredValue m) = - units m"
| "account_delta _ = 0"

primrec accepted_deltas :: "AccountOp list \<Rightarrow> TransitAccount \<Rightarrow> int" where
  "accepted_deltas [] a = 0"
| "accepted_deltas (op # ops) a =
    (if isl (account_step op a) then 0 else account_delta op) +
    accepted_deltas ops (apply_op account_step op a)"

lemma credit_eq_Ok:
  "StoredValueBalance_credit m b = Ok b' \<longleftrightarrow>
    0 < units m \<and> checked_add (amount b) m = Ok (amount b')"
  by (cases b') (auto simp: StoredValueBalance_credit_def result_simps is_positive_def)

lemma debit_eq_Ok:
  "StoredValueBalance_debit m b = Ok b' \<longleftrightarrow>
    0 < units m \<and> checked_subtract (amount b) m = Ok (amount b') \<and> 0 \<le> units (amount b')"
  by (cases b') (auto simp: StoredValueBalance_debit_def result_simps is_positive_def is_negative_def)

lemmas account_op_defs =
  credit_stored_value_def debit_stored_value_def TransitAccount_suspend_def
  TransitAccount_reactivate_def TransitAccount_close_def change_eligibility_def
  TransitAccount_ensure_active_def

lemma account_step_delta:
  assumes "account_step op a = Ok a'"
  shows "balance a' = balance a + account_delta op"
  using assms
  by (cases op) (auto simp: account_op_defs result_simps credit_eq_Ok debit_eq_Ok
      checked_add_eq_Ok checked_subtract_eq_Ok split: if_splits TransitAccountStatus.splits)

lemma account_step_inv:
  assumes "account_step op a = Ok a'" "account_inv a"
  shows "account_inv a'"
  using assms
  by (cases op) (auto simp: account_inv_def account_op_defs result_simps credit_eq_Ok debit_eq_Ok
      checked_add_eq_Ok checked_subtract_eq_Ok split: if_splits TransitAccountStatus.splits)

lemma account_step_ident:
  assumes "account_step op a = Ok a'"
  shows "account_ident a' = account_ident a"
  using assms
  by (cases op) (auto simp: account_ident_def account_op_defs result_simps credit_eq_Ok debit_eq_Ok
      checked_add_eq_Ok checked_subtract_eq_Ok split: if_splits TransitAccountStatus.splits)

lemma account_step_frozen:
  assumes "account_step op a = Ok a'" "account_status a = Account_Closed"
  shows "a' = a"
  using assms by (cases op) (auto simp: account_op_defs result_simps)

interpretation account: frozen_lifecycle account_step account_inv account_ident account_status
  "\<lambda>st. st = Account_Closed"
  by unfold_locales
    (auto intro: account_step_inv dest: account_step_ident account_step_frozen)

lemma TransitAccount_new_eq_Ok:
  "TransitAccount_new i r e m = Ok a \<longleftrightarrow> 0 \<le> units m \<and>
    a = \<lparr> account_id = i, rider_id = r, account_status = Account_Active, eligibility = e,
          stored_value = StoredValueBalance m \<rparr>"
  by (auto simp: TransitAccount_new_def StoredValueBalance_new_def result_simps is_negative_def)

lemma account_run_balance:
  "balance (run_ops account_step ops a) = balance a + accepted_deltas ops a"
proof (induction ops arbitrary: a)
  case (Cons op ops)
  have "balance (apply_op account_step op a) =
      balance a + (if isl (account_step op a) then 0 else account_delta op)"
    by (cases "account_step op a") (auto simp: account_step_delta)
  then show ?case
    using Cons.IH [of "apply_op account_step op a"] by simp
qed simp

section \<open>Properties\<close>

text \<open>
  C4. Whatever calls are made on an account in whatever order, the balance never becomes
  negative, the account's identity and currency never change, and the balance is the opening
  balance plus the accepted credits minus the accepted debits.
\<close>

theorem account_balance_sound:
  assumes "TransitAccount_new i r e m = Ok a"
  shows "0 \<le> balance (run_ops account_step ops a) \<and>
    account_ident (run_ops account_step ops a) = (i, r, currency m) \<and>
    balance (run_ops account_step ops a) = units m + accepted_deltas ops a"
proof -
  have "account_inv a" "account_ident a = (i, r, currency m)" "balance a = units m"
    using assms by (auto simp: TransitAccount_new_eq_Ok account_inv_def account_ident_def)
  then show ?thesis
    using account.run_inv [of a ops] account.run_ident [of ops a] account_run_balance [of ops a]
    by (simp add: account_inv_def)
qed

theorem account_balance_sound_witness:
  "\<exists>a. TransitAccount_new 1 2 Standard (from_minor_units 1000 Usd) = Ok a \<and>
    balance (run_ops account_step
      [DebitStoredValue (from_minor_units 2000 Usd), DebitStoredValue (from_minor_units 300 Usd),
       CreditStoredValue (from_minor_units 50 Eur), SuspendAccount,
       CreditStoredValue (from_minor_units 25 Usd)] a) = 725 \<and>
    0 \<le> balance (run_ops account_step
      [DebitStoredValue (from_minor_units 2000 Usd), DebitStoredValue (from_minor_units 300 Usd),
       CreditStoredValue (from_minor_units 50 Eur), SuspendAccount,
       CreditStoredValue (from_minor_units 25 Usd)] a)"
proof -
  define a where "a = \<lparr> account_id = 1, rider_id = 2, account_status = Account_Active,
    eligibility = Standard, stored_value = StoredValueBalance (from_minor_units 1000 Usd) \<rparr>"
  have new: "TransitAccount_new 1 2 Standard (from_minor_units 1000 Usd) = Ok a"
    unfolding a_def by code_simp
  have "balance (run_ops account_step
      [DebitStoredValue (from_minor_units 2000 Usd), DebitStoredValue (from_minor_units 300 Usd),
       CreditStoredValue (from_minor_units 50 Eur), SuspendAccount,
       CreditStoredValue (from_minor_units 25 Usd)] a) = 725"
    unfolding a_def by code_simp
  with new show ?thesis
    using account_balance_sound [OF new] by blast
qed

text \<open>
  A closed account is closed for good: once a sequence of calls has closed it, no
  further call changes anything of it.
\<close>

theorem account_closed_forever:
  assumes "account_status (run_ops account_step xs a) = Account_Closed"
  shows "run_ops account_step (xs @ ys) a = run_ops account_step xs a"
  using assms by (rule account.run_frozen_prefix)

theorem account_closed_forever_witness:
  "run_ops account_step ([SuspendAccount, CloseAccount] @
      [ReactivateAccount, CreditStoredValue (from_minor_units 5 Usd), ChangeEligibility Youth])
    \<lparr> account_id = 1, rider_id = 2, account_status = Account_Active,
      eligibility = Standard, stored_value = StoredValueBalance (from_minor_units 1000 Usd) \<rparr> =
   run_ops account_step [SuspendAccount, CloseAccount]
    \<lparr> account_id = 1, rider_id = 2, account_status = Account_Active,
      eligibility = Standard, stored_value = StoredValueBalance (from_minor_units 1000 Usd) \<rparr>"
  by (rule account_closed_forever) code_simp

end
