(* ===== verification/Credential.thy ===== *)
theory Credential
  imports Identifier
begin

text \<open>
  The fare-credential aggregate of \<open>crates/domain/src/credential.rs\<close>: its status machine,
  the reason and the successor it records, and the documented life cycle it refines.
\<close>

datatype FareCredentialKind = Card | Mobile | DevelopmentTestToken

datatype FareCredentialStatus =
    Credential_Pending
  | Credential_Active
  | Credential_Suspended
  | Credential_Revoked
  | Credential_Expired
  | Credential_Replaced

fun FareCredentialStatus_is_terminal :: "FareCredentialStatus \<Rightarrow> bool" where
  "FareCredentialStatus_is_terminal Credential_Revoked = True"
| "FareCredentialStatus_is_terminal Credential_Expired = True"
| "FareCredentialStatus_is_terminal Credential_Replaced = True"
| "FareCredentialStatus_is_terminal _ = False"

datatype RevocationReason =
    ReportedLost
  | ReportedStolen
  | Reason_Replaced
  | AccountSuspended
  | AdministrativeAction
  | SecurityIncident
  | TestCleanup

datatype FareCredentialError =
    Credential_InvalidStatusTransition FareCredentialStatus FareCredentialStatus
  | SelfReplacement
  | ReplacementAlreadyRecorded FareCredentialId FareCredentialId

record FareCredential =
  credential_id :: FareCredentialId
  transit_account_id :: TransitAccountId
  credential_kind :: FareCredentialKind
  credential_status :: FareCredentialStatus
  credential_revocation_reason :: "RevocationReason option"
  replacement_id :: "FareCredentialId option"

definition FareCredential_new_pending ::
  "FareCredentialId \<Rightarrow> TransitAccountId \<Rightarrow> FareCredentialKind \<Rightarrow> FareCredential" where
  "FareCredential_new_pending i acct k =
    \<lparr> credential_id = i, transit_account_id = acct, credential_kind = k,
      credential_status = Credential_Pending, credential_revocation_reason = None,
      replacement_id = None \<rparr>"

definition is_usable :: "FareCredential \<Rightarrow> bool" where
  "is_usable c \<longleftrightarrow> credential_status c = Credential_Active"

definition FareCredential_activate :: "FareCredential \<Rightarrow> FareCredentialError + FareCredential" where
  "FareCredential_activate c =
    (case credential_status c of
       Credential_Pending \<Rightarrow> Ok (c\<lparr> credential_status := Credential_Active \<rparr>)
     | Credential_Suspended \<Rightarrow> Ok (c\<lparr> credential_status := Credential_Active \<rparr>)
     | Credential_Active \<Rightarrow> Ok c
     | current \<Rightarrow> Err (Credential_InvalidStatusTransition current Credential_Active))"

definition FareCredential_suspend :: "FareCredential \<Rightarrow> FareCredentialError + FareCredential" where
  "FareCredential_suspend c =
    (case credential_status c of
       Credential_Active \<Rightarrow> Ok (c\<lparr> credential_status := Credential_Suspended \<rparr>)
     | Credential_Suspended \<Rightarrow> Ok c
     | current \<Rightarrow> Err (Credential_InvalidStatusTransition current Credential_Suspended))"

definition FareCredential_reactivate :: "FareCredential \<Rightarrow> FareCredentialError + FareCredential" where
  "FareCredential_reactivate c = FareCredential_activate c"

definition FareCredential_revoke ::
  "RevocationReason \<Rightarrow> FareCredential \<Rightarrow> FareCredentialError + FareCredential" where
  "FareCredential_revoke reason c =
    (case credential_status c of
       Credential_Revoked \<Rightarrow> Ok c
     | Credential_Expired \<Rightarrow>
         Err (Credential_InvalidStatusTransition (credential_status c) Credential_Revoked)
     | Credential_Replaced \<Rightarrow>
         Err (Credential_InvalidStatusTransition (credential_status c) Credential_Revoked)
     | _ \<Rightarrow> Ok (c\<lparr> credential_status := Credential_Revoked,
                  credential_revocation_reason := Some reason, replacement_id := None \<rparr>))"

definition FareCredential_expire :: "FareCredential \<Rightarrow> FareCredentialError + FareCredential" where
  "FareCredential_expire c =
    (case credential_status c of
       Credential_Expired \<Rightarrow> Ok c
     | Credential_Revoked \<Rightarrow>
         Err (Credential_InvalidStatusTransition (credential_status c) Credential_Expired)
     | Credential_Replaced \<Rightarrow>
         Err (Credential_InvalidStatusTransition (credential_status c) Credential_Expired)
     | _ \<Rightarrow> Ok (c\<lparr> credential_status := Credential_Expired,
                  credential_revocation_reason := None, replacement_id := None \<rparr>))"

definition FareCredential_replace_with ::
  "FareCredentialId \<Rightarrow> FareCredential \<Rightarrow> FareCredentialError + FareCredential" where
  "FareCredential_replace_with r c =
    (if r = credential_id c then Err SelfReplacement
     else case credential_status c of
       Credential_Active \<Rightarrow> Ok (c\<lparr> credential_status := Credential_Replaced,
           credential_revocation_reason := None, replacement_id := Some r \<rparr>)
     | Credential_Suspended \<Rightarrow> Ok (c\<lparr> credential_status := Credential_Replaced,
           credential_revocation_reason := None, replacement_id := Some r \<rparr>)
     | Credential_Replaced \<Rightarrow>
         (case replacement_id c of
            Some ex \<Rightarrow> if ex = r then Ok c else Err (ReplacementAlreadyRecorded ex r)
          | None \<Rightarrow> Err (Credential_InvalidStatusTransition Credential_Replaced Credential_Replaced))
     | current \<Rightarrow> Err (Credential_InvalidStatusTransition current Credential_Replaced))"

text \<open>The public mutators of the aggregate.\<close>

datatype CredentialOp =
    ActivateCredential
  | SuspendCredential
  | ReactivateCredential
  | RevokeCredential RevocationReason
  | ExpireCredential
  | ReplaceCredential FareCredentialId

fun credential_step :: "CredentialOp \<Rightarrow> FareCredential \<Rightarrow> FareCredentialError + FareCredential" where
  "credential_step ActivateCredential c = FareCredential_activate c"
| "credential_step SuspendCredential c = FareCredential_suspend c"
| "credential_step ReactivateCredential c = FareCredential_reactivate c"
| "credential_step (RevokeCredential reason) c = FareCredential_revoke reason c"
| "credential_step ExpireCredential c = FareCredential_expire c"
| "credential_step (ReplaceCredential r) c = FareCredential_replace_with r c"

section \<open>The documented life cycle\<close>

text \<open>
  The life cycle as the doc comments of the aggregate state it: pending credentials are
  activated, active and suspended ones exchange, every non-terminal one may be revoked or
  expire, only an activated one is replaced.
\<close>

inductive credential_transition :: "FareCredentialStatus \<Rightarrow> FareCredentialStatus \<Rightarrow> bool" where
  activates: "credential_transition Credential_Pending Credential_Active"
| suspends: "credential_transition Credential_Active Credential_Suspended"
| reactivates: "credential_transition Credential_Suspended Credential_Active"
| revokes: "\<not> FareCredentialStatus_is_terminal s \<Longrightarrow> credential_transition s Credential_Revoked"
| expires: "\<not> FareCredentialStatus_is_terminal s \<Longrightarrow> credential_transition s Credential_Expired"
| replaces: "s = Credential_Active \<or> s = Credential_Suspended \<Longrightarrow>
    credential_transition s Credential_Replaced"

inductive_simps credential_transition_from_terminal:
  "credential_transition Credential_Revoked s'"
  "credential_transition Credential_Expired s'"
  "credential_transition Credential_Replaced s'"

inductive_cases credential_transition_to_pending:
  "credential_transition s Credential_Pending"

section \<open>Lemmas\<close>

definition credential_inv :: "FareCredential \<Rightarrow> bool" where
  "credential_inv c \<longleftrightarrow>
    (credential_revocation_reason c \<noteq> None \<longleftrightarrow> credential_status c = Credential_Revoked) \<and>
    (replacement_id c \<noteq> None \<longleftrightarrow> credential_status c = Credential_Replaced) \<and>
    replacement_id c \<noteq> Some (credential_id c)"

definition credential_ident ::
  "FareCredential \<Rightarrow> FareCredentialId \<times> TransitAccountId \<times> FareCredentialKind" where
  "credential_ident c = (credential_id c, transit_account_id c, credential_kind c)"

lemmas credential_op_defs =
  FareCredential_activate_def FareCredential_suspend_def FareCredential_reactivate_def
  FareCredential_revoke_def FareCredential_expire_def FareCredential_replace_with_def

lemma credential_inv_new [simp]: "credential_inv (FareCredential_new_pending i acct k)"
  by (simp add: credential_inv_def FareCredential_new_pending_def)

lemma credential_step_inv:
  assumes "credential_step op c = Ok c'" "credential_inv c"
  shows "credential_inv c'"
  using assms
  by (cases op) (auto simp: credential_op_defs credential_inv_def
      split: FareCredentialStatus.splits if_splits option.splits)

lemma credential_step_ident:
  assumes "credential_step op c = Ok c'"
  shows "credential_ident c' = credential_ident c"
  using assms
  by (cases op) (auto simp: credential_op_defs credential_ident_def
      split: FareCredentialStatus.splits if_splits option.splits)

lemma credential_step_frozen:
  assumes "credential_step op c = Ok c'" "FareCredentialStatus_is_terminal (credential_status c)"
  shows "c' = c"
  using assms
  by (cases op) (auto simp: credential_op_defs
      split: FareCredentialStatus.splits if_splits option.splits)

lemma credential_step_transition:
  assumes "credential_step op c = Ok c'" "c' \<noteq> c"
  shows "credential_transition (credential_status c) (credential_status c')"
  using assms
  by (cases op) (auto simp: credential_op_defs
      intro!: credential_transition.intros split: FareCredentialStatus.splits if_splits option.splits)

interpretation credential: frozen_lifecycle credential_step credential_inv credential_ident
  credential_status FareCredentialStatus_is_terminal
proof
  fix op c c'
  assume step: "credential_step op c = Ok c'"
  show "credential_inv c \<Longrightarrow> credential_inv c'"
    using step by (rule credential_step_inv)
  show "credential_ident c' = credential_ident c"
    using step by (rule credential_step_ident)
  show "c' = c" if "FareCredentialStatus_is_terminal (credential_status c)"
    using step that by (rule credential_step_frozen)
  then show "credential_status c' = credential_status c"
    if "FareCredentialStatus_is_terminal (credential_status c)"
    using that by simp
qed

text \<open>Every reachable status comes from the initial one along the documented life cycle.\<close>

lemma credential_run_transitions:
  "credential_transition\<^sup>*\<^sup>* (credential_status c) (credential_status (run_ops credential_step ops c))"
proof (induction ops arbitrary: c)
  case (Cons op ops)
  have "credential_transition\<^sup>*\<^sup>* (credential_status c)
      (credential_status (apply_op credential_step op c))"
    by (cases "credential_step op c")
      (auto dest: credential_step_transition split: if_splits)
  then show ?case
    using Cons.IH [of "apply_op credential_step op c"] by (simp add: rtranclp_trans)
qed simp

lemma credential_never_pending_again:
  assumes "credential_transition\<^sup>*\<^sup>* s s'" "s \<noteq> Credential_Pending"
  shows "s' \<noteq> Credential_Pending"
  using assms by (induction rule: rtranclp_induct) (auto elim: credential_transition_to_pending)

section \<open>Properties\<close>

text \<open>
  C24. The credential aggregate refines the documented life cycle: a call that changes the
  aggregate moves its status along one documented transition, keeps its identity and keeps the
  invariant that a reason is recorded exactly for revoked and a (different) successor exactly
  for replaced credentials.
\<close>

theorem credential_refines_lifecycle:
  assumes "credential_inv c" "credential_step op c = Ok c'"
  shows "credential_inv c' \<and> credential_ident c' = credential_ident c \<and>
    (c' = c \<or> credential_transition (credential_status c) (credential_status c'))"
  using assms credential_step_inv credential_step_ident credential_step_transition by blast

theorem credential_refines_lifecycle_witness:
  "\<exists>c'. credential_step (ReplaceCredential 9)
      ((FareCredential_new_pending 7 8 Card)\<lparr> credential_status := Credential_Suspended \<rparr>) = Ok c' \<and>
    credential_inv c' \<and> replacement_id c' = Some 9"
proof -
  define c where "c = (FareCredential_new_pending 7 8 Card)\<lparr> credential_status := Credential_Suspended \<rparr>"
  have inv: "credential_inv c" unfolding c_def by code_simp
  obtain c' where step: "credential_step (ReplaceCredential 9) c = Ok c'"
    and rep: "replacement_id c' = Some 9"
    by (simp add: c_def FareCredential_new_pending_def FareCredential_replace_with_def)
  show ?thesis
    using credential_refines_lifecycle [OF inv step] step rep unfolding c_def by blast
qed

text \<open>
  Terminal credentials stay terminal: after any calls on a new credential, if it is
  revoked, expired or replaced then no further calls change it (its reason and successor
  included), so it never becomes usable again.
\<close>

theorem credential_terminal_forever:
  assumes "FareCredentialStatus_is_terminal
      (credential_status (run_ops credential_step xs (FareCredential_new_pending i acct k)))"
  shows "run_ops credential_step (xs @ ys) (FareCredential_new_pending i acct k) =
      run_ops credential_step xs (FareCredential_new_pending i acct k) \<and>
    \<not> is_usable (run_ops credential_step (xs @ ys) (FareCredential_new_pending i acct k)) \<and>
    credential_inv (run_ops credential_step (xs @ ys) (FareCredential_new_pending i acct k))"
  using credential.run_frozen_prefix [OF assms, of ys] assms
    credential.run_inv [OF credential_inv_new, of "xs @ ys" i acct k]
  by (auto simp: is_usable_def)

theorem credential_terminal_forever_witness:
  "run_ops credential_step
     ([ActivateCredential, RevokeCredential ReportedLost] @
      [RevokeCredential ReportedStolen, ReactivateCredential, ReplaceCredential 3])
     (FareCredential_new_pending 1 2 Mobile) =
   run_ops credential_step [ActivateCredential, RevokeCredential ReportedLost]
     (FareCredential_new_pending 1 2 Mobile)"
proof -
  have "FareCredentialStatus_is_terminal (credential_status
      (run_ops credential_step [ActivateCredential, RevokeCredential ReportedLost]
        (FareCredential_new_pending 1 2 Mobile)))"
    by code_simp
  from credential_terminal_forever [OF this] show ?thesis by blast
qed

end
