(* ===== verification/Equipment.thy ===== *)
theory Equipment
  imports Identifier
begin

text \<open>
  The reader-equipment aggregate of \<open>crates/domain/src/equipment.rs\<close>: registration,
  connectivity, disablement, revocation of the equipment identity, decommissioning and
  rotation of the equipment key.
\<close>

datatype ReaderEquipmentStatus =
    Reader_PendingRegistration
  | Reader_Active
  | Reader_Offline
  | Reader_Disabled
  | Reader_Revoked
  | Reader_Decommissioned

fun ReaderEquipmentStatus_is_terminal :: "ReaderEquipmentStatus \<Rightarrow> bool" where
  "ReaderEquipmentStatus_is_terminal Reader_Revoked = True"
| "ReaderEquipmentStatus_is_terminal Reader_Decommissioned = True"
| "ReaderEquipmentStatus_is_terminal _ = False"

datatype ReaderDisablementReason =
    Disable_SuspectedCompromise
  | Disable_LostEquipment
  | Disable_InvalidConfiguration
  | Disable_AdministrativeAction
  | Disable_TestCleanup

datatype ReaderRevocationReason =
    Revoke_SuspectedCompromise
  | Revoke_CredentialExposure
  | Revoke_AdministrativeAction
  | Revoke_SecurityIncident
  | Revoke_TestCleanup

record EquipmentIdentity =
  identity_reader_id :: ReaderId
  identity_key_id :: EquipmentKeyId

definition EquipmentIdentity_new :: "ReaderId \<Rightarrow> EquipmentKeyId \<Rightarrow> EquipmentIdentity" where
  "EquipmentIdentity_new r k = \<lparr> identity_reader_id = r, identity_key_id = k \<rparr>"

definition replace_key :: "EquipmentKeyId \<Rightarrow> EquipmentIdentity \<Rightarrow> EquipmentIdentity" where
  "replace_key k i = i\<lparr> identity_key_id := k \<rparr>"

datatype ReaderEquipmentError =
    Reader_InvalidStatusTransition ReaderEquipmentStatus ReaderEquipmentStatus
  | TerminalEquipment ReaderEquipmentStatus

record ReaderEquipment =
  reader_id :: ReaderId
  identity :: EquipmentIdentity
  reader_status :: ReaderEquipmentStatus
  disablement_reason :: "ReaderDisablementReason option"
  reader_revocation_reason :: "ReaderRevocationReason option"

definition ReaderEquipment_new_pending :: "ReaderId \<Rightarrow> EquipmentKeyId \<Rightarrow> ReaderEquipment" where
  "ReaderEquipment_new_pending i k =
    \<lparr> reader_id = i, identity = EquipmentIdentity_new i k,
      reader_status = Reader_PendingRegistration, disablement_reason = None,
      reader_revocation_reason = None \<rparr>"

definition can_accept_fare_presentations :: "ReaderEquipment \<Rightarrow> bool" where
  "can_accept_fare_presentations r \<longleftrightarrow>
    reader_status r = Reader_Active \<or> reader_status r = Reader_Offline"

definition may_authenticate_to_backend :: "ReaderEquipment \<Rightarrow> bool" where
  "may_authenticate_to_backend r \<longleftrightarrow>
    reader_status r = Reader_Active \<or> reader_status r = Reader_Offline"

definition ReaderEquipment_activate :: "ReaderEquipment \<Rightarrow> ReaderEquipmentError + ReaderEquipment" where
  "ReaderEquipment_activate r =
    (case reader_status r of
       Reader_PendingRegistration \<Rightarrow> Ok (r\<lparr> reader_status := Reader_Active \<rparr>)
     | Reader_Active \<Rightarrow> Ok r
     | current \<Rightarrow> Err (Reader_InvalidStatusTransition current Reader_Active))"

definition ReaderEquipment_mark_offline :: "ReaderEquipment \<Rightarrow> ReaderEquipmentError + ReaderEquipment" where
  "ReaderEquipment_mark_offline r =
    (case reader_status r of
       Reader_Active \<Rightarrow> Ok (r\<lparr> reader_status := Reader_Offline \<rparr>)
     | Reader_Offline \<Rightarrow> Ok r
     | current \<Rightarrow> Err (Reader_InvalidStatusTransition current Reader_Offline))"

definition ReaderEquipment_mark_online :: "ReaderEquipment \<Rightarrow> ReaderEquipmentError + ReaderEquipment" where
  "ReaderEquipment_mark_online r =
    (case reader_status r of
       Reader_Offline \<Rightarrow> Ok (r\<lparr> reader_status := Reader_Active \<rparr>)
     | Reader_Active \<Rightarrow> Ok r
     | current \<Rightarrow> Err (Reader_InvalidStatusTransition current Reader_Active))"

definition ReaderEquipment_disable ::
  "ReaderDisablementReason \<Rightarrow> ReaderEquipment \<Rightarrow> ReaderEquipmentError + ReaderEquipment" where
  "ReaderEquipment_disable reason r =
    (case reader_status r of
       Reader_PendingRegistration \<Rightarrow>
         Ok (r\<lparr> reader_status := Reader_Disabled, disablement_reason := Some reason \<rparr>)
     | Reader_Active \<Rightarrow>
         Ok (r\<lparr> reader_status := Reader_Disabled, disablement_reason := Some reason \<rparr>)
     | Reader_Offline \<Rightarrow>
         Ok (r\<lparr> reader_status := Reader_Disabled, disablement_reason := Some reason \<rparr>)
     | Reader_Disabled \<Rightarrow> Ok r
     | current \<Rightarrow> Err (Reader_InvalidStatusTransition current Reader_Disabled))"

definition ReaderEquipment_enable :: "ReaderEquipment \<Rightarrow> ReaderEquipmentError + ReaderEquipment" where
  "ReaderEquipment_enable r =
    (case reader_status r of
       Reader_Disabled \<Rightarrow> Ok (r\<lparr> reader_status := Reader_Active, disablement_reason := None \<rparr>)
     | Reader_Active \<Rightarrow> Ok r
     | current \<Rightarrow> Err (Reader_InvalidStatusTransition current Reader_Active))"

definition ReaderEquipment_revoke ::
  "ReaderRevocationReason \<Rightarrow> ReaderEquipment \<Rightarrow> ReaderEquipmentError + ReaderEquipment" where
  "ReaderEquipment_revoke reason r =
    (case reader_status r of
       Reader_Revoked \<Rightarrow> Ok r
     | Reader_Decommissioned \<Rightarrow>
         Err (Reader_InvalidStatusTransition Reader_Decommissioned Reader_Revoked)
     | _ \<Rightarrow> Ok (r\<lparr> reader_status := Reader_Revoked, disablement_reason := None,
                  reader_revocation_reason := Some reason \<rparr>))"

definition ReaderEquipment_decommission :: "ReaderEquipment \<Rightarrow> ReaderEquipmentError + ReaderEquipment" where
  "ReaderEquipment_decommission r =
    (case reader_status r of
       Reader_Decommissioned \<Rightarrow> Ok r
     | Reader_Revoked \<Rightarrow>
         Err (Reader_InvalidStatusTransition Reader_Revoked Reader_Decommissioned)
     | _ \<Rightarrow> Ok (r\<lparr> reader_status := Reader_Decommissioned, disablement_reason := None,
                  reader_revocation_reason := None \<rparr>))"

definition rotate_equipment_key ::
  "EquipmentKeyId \<Rightarrow> ReaderEquipment \<Rightarrow> ReaderEquipmentError + ReaderEquipment" where
  "rotate_equipment_key k r =
    (if ReaderEquipmentStatus_is_terminal (reader_status r)
     then Err (TerminalEquipment (reader_status r))
     else Ok (r\<lparr> identity := replace_key k (identity r) \<rparr>))"

text \<open>The public mutators of the aggregate.\<close>

datatype ReaderOp =
    ActivateReader
  | MarkOffline
  | MarkOnline
  | DisableReader ReaderDisablementReason
  | EnableReader
  | RevokeReader ReaderRevocationReason
  | DecommissionReader
  | RotateKey EquipmentKeyId

fun reader_step :: "ReaderOp \<Rightarrow> ReaderEquipment \<Rightarrow> ReaderEquipmentError + ReaderEquipment" where
  "reader_step ActivateReader r = ReaderEquipment_activate r"
| "reader_step MarkOffline r = ReaderEquipment_mark_offline r"
| "reader_step MarkOnline r = ReaderEquipment_mark_online r"
| "reader_step (DisableReader reason) r = ReaderEquipment_disable reason r"
| "reader_step EnableReader r = ReaderEquipment_enable r"
| "reader_step (RevokeReader reason) r = ReaderEquipment_revoke reason r"
| "reader_step DecommissionReader r = ReaderEquipment_decommission r"
| "reader_step (RotateKey k) r = rotate_equipment_key k r"

section \<open>Lemmas\<close>

definition reader_inv :: "ReaderEquipment \<Rightarrow> bool" where
  "reader_inv r \<longleftrightarrow>
    (disablement_reason r \<noteq> None \<longleftrightarrow> reader_status r = Reader_Disabled) \<and>
    (reader_revocation_reason r \<noteq> None \<longleftrightarrow> reader_status r = Reader_Revoked) \<and>
    identity_reader_id (identity r) = reader_id r"

lemmas reader_op_defs =
  ReaderEquipment_activate_def ReaderEquipment_mark_offline_def ReaderEquipment_mark_online_def
  ReaderEquipment_disable_def ReaderEquipment_enable_def ReaderEquipment_revoke_def
  ReaderEquipment_decommission_def rotate_equipment_key_def replace_key_def

lemma reader_inv_new [simp]: "reader_inv (ReaderEquipment_new_pending i k)"
  by (simp add: reader_inv_def ReaderEquipment_new_pending_def EquipmentIdentity_new_def)

lemma reader_step_inv:
  assumes "reader_step op r = Ok r'" "reader_inv r"
  shows "reader_inv r'"
  using assms
  by (cases op) (auto simp: reader_op_defs reader_inv_def
      split: ReaderEquipmentStatus.splits if_splits)

lemma reader_step_ident:
  assumes "reader_step op r = Ok r'"
  shows "reader_id r' = reader_id r"
  using assms
  by (cases op) (auto simp: reader_op_defs split: ReaderEquipmentStatus.splits if_splits)

lemma reader_step_frozen:
  assumes "reader_step op r = Ok r'" "ReaderEquipmentStatus_is_terminal (reader_status r)"
  shows "r' = r"
  using assms
  by (cases op) (auto simp: reader_op_defs split: ReaderEquipmentStatus.splits if_splits)

lemma reader_step_key:
  assumes "reader_step op r = Ok r'" "op \<notin> range RotateKey"
  shows "identity r' = identity r"
  using assms
  by (cases op) (auto simp: reader_op_defs split: ReaderEquipmentStatus.splits if_splits)

interpretation reader: frozen_lifecycle reader_step reader_inv reader_id reader_status
  ReaderEquipmentStatus_is_terminal
  by unfold_locales
    (auto intro: reader_step_inv dest: reader_step_ident reader_step_frozen)

section \<open>Properties\<close>

text \<open>
  C39. Whatever is done to a reader: a disablement reason is recorded exactly while it is
  disabled, a revocation reason exactly once its identity is revoked, its equipment identity
  names the reader itself, and after revocation or decommissioning nothing of it, its key
  included, changes and it neither accepts fares nor authenticates.
\<close>

theorem reader_lifecycle_sound:
  "reader_inv (run_ops reader_step xs (ReaderEquipment_new_pending i k)) \<and>
   reader_id (run_ops reader_step xs (ReaderEquipment_new_pending i k)) = i \<and>
   (if ReaderEquipmentStatus_is_terminal
         (reader_status (run_ops reader_step xs (ReaderEquipment_new_pending i k)))
    then run_ops reader_step (xs @ ys) (ReaderEquipment_new_pending i k) =
           run_ops reader_step xs (ReaderEquipment_new_pending i k) \<and>
         \<not> can_accept_fare_presentations
             (run_ops reader_step (xs @ ys) (ReaderEquipment_new_pending i k)) \<and>
         \<not> may_authenticate_to_backend
             (run_ops reader_step (xs @ ys) (ReaderEquipment_new_pending i k))
    else True)"
proof -
  have "reader_id (run_ops reader_step xs (ReaderEquipment_new_pending i k)) = i"
    by (simp add: reader.run_ident) (simp add: ReaderEquipment_new_pending_def)
  then show ?thesis
    using reader.run_inv [OF reader_inv_new, of xs i k]
      reader.run_frozen_prefix [of xs "ReaderEquipment_new_pending i k" ys]
    by (auto simp: can_accept_fare_presentations_def may_authenticate_to_backend_def)
qed

text \<open>
  A reader that was never registered becomes active by being disabled and enabled again:
  \<open>disable\<close> admits pending equipment and \<open>enable\<close> always ends in \<open>Active\<close>.
\<close>

lemma enable_bypasses_registration:
  "\<exists>r. run_ops reader_step [DisableReader reason, EnableReader]
      (ReaderEquipment_new_pending i k) = r \<and> may_authenticate_to_backend r"
  by (simp add: ReaderEquipment_new_pending_def apply_op_def ReaderEquipment_disable_def
      ReaderEquipment_enable_def may_authenticate_to_backend_def)

end
