(* ===== verification/FareTransaction.thy ===== *)
theory FareTransaction
  imports Money Identifier
begin

text \<open>
  Fare transactions of \<open>crates/domain/src/transaction.rs\<close>: the validated value types, the
  decision and the transaction aggregate that records it once.
\<close>

datatype FareTransactionValueError =
    ZeroLocalSequenceNumber
  | ZeroFarePolicyVersion
  | NegativeEventTime i64

type_synonym LocalSequenceNumber = u64
type_synonym FarePolicyVersion = u64
type_synonym EventTime = i64

definition LocalSequenceNumber_new :: "u64 \<Rightarrow> FareTransactionValueError + LocalSequenceNumber" where
  "LocalSequenceNumber_new v = (if v = 0 then Err ZeroLocalSequenceNumber else Ok v)"

definition FarePolicyVersion_new :: "u64 \<Rightarrow> FareTransactionValueError + FarePolicyVersion" where
  "FarePolicyVersion_new v = (if v = 0 then Err ZeroFarePolicyVersion else Ok v)"

definition EventTime_from_unix_milliseconds :: "i64 \<Rightarrow> FareTransactionValueError + EventTime" where
  "EventTime_from_unix_milliseconds t = (if sint t < 0 then Err (NegativeEventTime t) else Ok t)"

datatype FareProcessingMode = Online | Offline

datatype FareApprovalReason =
  StandardFare | Transfer | TransitProductUse | FareCap | OfflineProvisional

datatype FareRejectionReason =
    Reject_CredentialRevoked
  | Reject_CredentialExpired
  | Reject_AccountSuspended
  | Reject_ReaderDisabled
  | Reject_InvalidSignature
  | Reject_UnsupportedProtocol
  | Reject_InsufficientStoredValue
  | Reject_ProductInvalid
  | Reject_OfflineLimitExceeded
  | Reject_StalePolicy
  | Reject_StaleRevocationData

datatype FareDecisionError = NegativeApprovedAmount Money

datatype FareDecision =
    Approved Money FareApprovalReason
  | Rejected FareRejectionReason

definition FareDecision_approved :: "Money \<Rightarrow> FareApprovalReason \<Rightarrow> FareDecisionError + FareDecision" where
  "FareDecision_approved m reason =
    (if is_negative m then Err (NegativeApprovedAmount m) else Ok (Approved m reason))"

definition FareDecision_rejected :: "FareRejectionReason \<Rightarrow> FareDecision" where
  "FareDecision_rejected reason = Rejected reason"

fun FareDecision_charged_amount :: "FareDecision \<Rightarrow> Money option" where
  "FareDecision_charged_amount (Approved m _) = Some m"
| "FareDecision_charged_amount (Rejected _) = None"

datatype FareTransactionStatus = PendingDecision | Decided | Reconciled

datatype FareTransactionError =
    DecisionConflict FareDecision FareDecision
  | CannotReconcileUndecided FareTransactionStatus

record FareTransaction =
  transaction_id :: FareTransactionId
  tx_account_id :: TransitAccountId
  tx_credential_id :: FareCredentialId
  tx_reader_id :: ReaderId
  local_sequence_number :: LocalSequenceNumber
  fare_policy_version :: FarePolicyVersion
  event_time :: EventTime
  processing_mode :: FareProcessingMode
  transaction_status :: FareTransactionStatus
  decision :: "FareDecision option"

definition FareTransaction_new_pending ::
  "FareTransactionId \<Rightarrow> TransitAccountId \<Rightarrow> FareCredentialId \<Rightarrow> ReaderId \<Rightarrow> LocalSequenceNumber
    \<Rightarrow> FarePolicyVersion \<Rightarrow> EventTime \<Rightarrow> FareProcessingMode \<Rightarrow> FareTransaction" where
  "FareTransaction_new_pending i acct cred rdr sq ver time mode =
    \<lparr> transaction_id = i, tx_account_id = acct, tx_credential_id = cred, tx_reader_id = rdr,
      local_sequence_number = sq, fare_policy_version = ver, event_time = time,
      processing_mode = mode, transaction_status = PendingDecision, decision = None \<rparr>"

definition FareTransaction_charged_amount :: "FareTransaction \<Rightarrow> Money option" where
  "FareTransaction_charged_amount t =
    (case decision t of Some d \<Rightarrow> FareDecision_charged_amount d | None \<Rightarrow> None)"

definition record_decision :: "FareDecision \<Rightarrow> FareTransaction \<Rightarrow> FareTransactionError + FareTransaction" where
  "record_decision d t =
    (case decision t of
       Some ex \<Rightarrow> if ex = d then Ok t else Err (DecisionConflict ex d)
     | None \<Rightarrow> Ok (t\<lparr> decision := Some d, transaction_status := Decided \<rparr>))"

definition mark_reconciled :: "FareTransaction \<Rightarrow> FareTransactionError + FareTransaction" where
  "mark_reconciled t =
    (case transaction_status t of
       PendingDecision \<Rightarrow> Err (CannotReconcileUndecided (transaction_status t))
     | Decided \<Rightarrow> Ok (t\<lparr> transaction_status := Reconciled \<rparr>)
     | Reconciled \<Rightarrow> Ok t)"

text \<open>The public mutators of the aggregate.\<close>

datatype TransactionOp = RecordDecision FareDecision | MarkReconciled

fun transaction_step :: "TransactionOp \<Rightarrow> FareTransaction \<Rightarrow> FareTransactionError + FareTransaction" where
  "transaction_step (RecordDecision d) t = record_decision d t"
| "transaction_step MarkReconciled t = mark_reconciled t"

section \<open>Lemmas\<close>

definition transaction_inv :: "FareTransaction \<Rightarrow> bool" where
  "transaction_inv t \<longleftrightarrow> (decision t = None \<longleftrightarrow> transaction_status t = PendingDecision)"

definition transaction_ident :: "FareTransaction \<Rightarrow>
    FareTransactionId \<times> TransitAccountId \<times> FareCredentialId \<times> ReaderId \<times> u64 \<times> u64 \<times> i64 \<times> FareProcessingMode" where
  "transaction_ident t = (transaction_id t, tx_account_id t, tx_credential_id t, tx_reader_id t,
     local_sequence_number t, fare_policy_version t, event_time t, processing_mode t)"

lemmas transaction_op_defs = record_decision_def mark_reconciled_def

lemma transaction_inv_new [simp]:
  "transaction_inv (FareTransaction_new_pending i acct cred rdr sq ver time mode)"
  by (simp add: transaction_inv_def FareTransaction_new_pending_def)

lemma transaction_step_inv:
  assumes "transaction_step op t = Ok t'" "transaction_inv t"
  shows "transaction_inv t'"
  using assms
  by (cases op) (auto simp: transaction_op_defs transaction_inv_def
      split: option.splits if_splits FareTransactionStatus.splits)

lemma transaction_step_ident:
  assumes "transaction_step op t = Ok t'"
  shows "transaction_ident t' = transaction_ident t"
  using assms
  by (cases op) (auto simp: transaction_op_defs transaction_ident_def
      split: option.splits if_splits FareTransactionStatus.splits)

lemma transaction_step_decision:
  assumes "transaction_step op t = Ok t'" "decision t \<noteq> None"
  shows "decision t' = decision t"
  using assms
  by (cases op) (auto simp: transaction_op_defs
      split: option.splits if_splits FareTransactionStatus.splits)

text \<open>
  The aggregate is interpreted as a life cycle of its decision: the decision, once present,
  is what is terminal.
\<close>

interpretation transaction: lifecycle transaction_step transaction_inv transaction_ident
  decision "\<lambda>d. d \<noteq> None"
  by unfold_locales
    (auto intro: transaction_step_inv dest: transaction_step_ident transaction_step_decision)

lemma transaction_run_reconciled:
  assumes "transaction_inv t" "transaction_status t = Reconciled"
  shows "run_ops transaction_step ops t = t"
  using assms
proof (induction ops)
  case (Cons op ops)
  then have "apply_op transaction_step op t = t"
    by (cases op) (auto simp: apply_op_def transaction_op_defs transaction_inv_def
        split: option.splits if_splits)
  with Cons show ?case by simp
qed simp

section \<open>Properties\<close>

text \<open>
  A fare transaction is decided at most once: after any calls on a new transaction, a
  recorded decision is never replaced by later calls, a transaction is reconciled only after it
  was decided, and a reconciled transaction no longer changes.
\<close>

theorem transaction_decided_once:
  assumes "t = FareTransaction_new_pending i acct cred rdr sq ver time mode"
    and "decision (run_ops transaction_step xs t) = Some d"
  shows "decision (run_ops transaction_step (xs @ ys) t) = Some d \<and>
    transaction_ident (run_ops transaction_step (xs @ ys) t) = transaction_ident t \<and>
    transaction_status (run_ops transaction_step (xs @ ys) t) \<noteq> PendingDecision \<and>
    (if transaction_status (run_ops transaction_step xs t) = Reconciled
     then run_ops transaction_step (xs @ ys) t = run_ops transaction_step xs t else True)"
proof -
  have inv: "transaction_inv (run_ops transaction_step zs t)" for zs
    using assms(1) by (auto intro: transaction.run_inv)
  have dec: "decision (run_ops transaction_step (xs @ ys) t) = Some d"
    using assms(2) by (simp add: run_ops_append transaction.run_terminal)
  have "transaction_status (run_ops transaction_step (xs @ ys) t) \<noteq> PendingDecision"
    using inv [of "xs @ ys"] dec by (simp add: transaction_inv_def)
  then show ?thesis
    using dec inv [of xs] by (simp add: transaction.run_ident run_ops_append transaction_run_reconciled)
qed

theorem transaction_decided_once_witness:
  "decision (run_ops transaction_step
      ([MarkReconciled, RecordDecision (Approved (from_minor_units 275 Usd) StandardFare)] @
       [RecordDecision (Rejected Reject_StalePolicy), MarkReconciled])
      (FareTransaction_new_pending 1 2 3 4 5 6 7 Online)) =
    Some (Approved (from_minor_units 275 Usd) StandardFare)"
proof -
  have "decision (run_ops transaction_step
      [MarkReconciled, RecordDecision (Approved (from_minor_units 275 Usd) StandardFare)]
      (FareTransaction_new_pending 1 2 3 4 5 6 7 Online)) =
    Some (Approved (from_minor_units 275 Usd) StandardFare)"
    by code_simp
  from transaction_decided_once [OF refl this] show ?thesis by blast
qed

end
