(* ===== verification/Event.thy ===== *)
theory Event
  imports Account Credential Equipment FareTransaction
begin

text \<open>
  Domain events of \<open>crates/domain/src/event.rs\<close>: validated versions and times, the payloads,
  the aggregate each of them belongs to, and the rule that a change event records a change.
\<close>

datatype DomainEventValueError =
    ZeroAggregateVersion
  | NegativeDomainEventTime i64

type_synonym AggregateVersion = u64
type_synonym DomainEventTime = i64

definition AggregateVersion_new :: "u64 \<Rightarrow> DomainEventValueError + AggregateVersion" where
  "AggregateVersion_new v = (if v = 0 then Err ZeroAggregateVersion else Ok v)"

definition DomainEventTime_from_unix_milliseconds ::
  "i64 \<Rightarrow> DomainEventValueError + DomainEventTime" where
  "DomainEventTime_from_unix_milliseconds t =
    (if sint t < 0 then Err (NegativeDomainEventTime t) else Ok t)"

datatype DomainAggregateId =
    Aggregate_TransitAccount TransitAccountId
  | Aggregate_FareCredential FareCredentialId
  | Aggregate_ReaderEquipment ReaderId
  | Aggregate_FareTransaction FareTransactionId

datatype StoredValueChangeReason =
  SimulatedFundsCredit | FareDebit | AdministrativeAdjustment | ReconciliationAdjustment

datatype DomainEventPayload =
    TransitAccountCreated TransitAccountId RiderId StoredValueBalance
  | TransitAccountStatusChanged TransitAccountId TransitAccountStatus TransitAccountStatus
  | StoredValueChanged TransitAccountId StoredValueBalance StoredValueBalance StoredValueChangeReason
  | FareCredentialIssued FareCredentialId TransitAccountId FareCredentialKind
  | FareCredentialStatusChanged FareCredentialId FareCredentialStatus FareCredentialStatus
  | ReaderEquipmentRegistered ReaderId EquipmentKeyId
  | ReaderEquipmentStatusChanged ReaderId ReaderEquipmentStatus ReaderEquipmentStatus
  | EquipmentKeyRotated ReaderId EquipmentKeyId EquipmentKeyId
  | FareTransactionDecided FareTransactionId FareDecision
  | FareTransactionReconciled FareTransactionId

fun event_name :: "DomainEventPayload \<Rightarrow> string" where
  "event_name (TransitAccountCreated _ _ _) = ''transit_account.created''"
| "event_name (TransitAccountStatusChanged _ _ _) = ''transit_account.status_changed''"
| "event_name (StoredValueChanged _ _ _ _) = ''transit_account.stored_value_changed''"
| "event_name (FareCredentialIssued _ _ _) = ''fare_credential.issued''"
| "event_name (FareCredentialStatusChanged _ _ _) = ''fare_credential.status_changed''"
| "event_name (ReaderEquipmentRegistered _ _) = ''reader_equipment.registered''"
| "event_name (ReaderEquipmentStatusChanged _ _ _) = ''reader_equipment.status_changed''"
| "event_name (EquipmentKeyRotated _ _ _) = ''reader_equipment.key_rotated''"
| "event_name (FareTransactionDecided _ _) = ''fare_transaction.decided''"
| "event_name (FareTransactionReconciled _) = ''fare_transaction.reconciled''"

fun payload_aggregate_id :: "DomainEventPayload \<Rightarrow> DomainAggregateId" where
  "payload_aggregate_id (TransitAccountCreated a _ _) = Aggregate_TransitAccount a"
| "payload_aggregate_id (TransitAccountStatusChanged a _ _) = Aggregate_TransitAccount a"
| "payload_aggregate_id (StoredValueChanged a _ _ _) = Aggregate_TransitAccount a"
| "payload_aggregate_id (FareCredentialIssued c _ _) = Aggregate_FareCredential c"
| "payload_aggregate_id (FareCredentialStatusChanged c _ _) = Aggregate_FareCredential c"
| "payload_aggregate_id (ReaderEquipmentRegistered r _) = Aggregate_ReaderEquipment r"
| "payload_aggregate_id (ReaderEquipmentStatusChanged r _ _) = Aggregate_ReaderEquipment r"
| "payload_aggregate_id (EquipmentKeyRotated r _ _) = Aggregate_ReaderEquipment r"
| "payload_aggregate_id (FareTransactionDecided t _) = Aggregate_FareTransaction t"
| "payload_aggregate_id (FareTransactionReconciled t) = Aggregate_FareTransaction t"

datatype DomainEventError =
    NoStatusChange string
  | NoStoredValueChange
  | StoredValueCurrencyChanged Currency Currency
  | NoEquipmentKeyChange

record DomainEvent =
  event_id :: DomainEventId
  aggregate_id :: DomainAggregateId
  aggregate_version :: AggregateVersion
  occurred_at :: DomainEventTime
  payload :: DomainEventPayload

definition validate_payload :: "DomainEventPayload \<Rightarrow> DomainEventError + unit" where
  "validate_payload p =
    (case p of
       TransitAccountStatusChanged _ previous current \<Rightarrow>
         if previous = current then Err (NoStatusChange (event_name p)) else Ok ()
     | FareCredentialStatusChanged _ previous current \<Rightarrow>
         if previous = current then Err (NoStatusChange (event_name p)) else Ok ()
     | ReaderEquipmentStatusChanged _ previous current \<Rightarrow>
         if previous = current then Err (NoStatusChange (event_name p)) else Ok ()
     | StoredValueChanged _ previous current _ \<Rightarrow>
         if currency (amount previous) \<noteq> currency (amount current)
         then Err (StoredValueCurrencyChanged (currency (amount previous)) (currency (amount current)))
         else if previous = current then Err NoStoredValueChange
         else Ok ()
     | EquipmentKeyRotated _ previous current \<Rightarrow>
         if previous = current then Err NoEquipmentKeyChange else Ok ()
     | _ \<Rightarrow> Ok ())"

definition DomainEvent_new ::
  "DomainEventId \<Rightarrow> AggregateVersion \<Rightarrow> DomainEventTime \<Rightarrow> DomainEventPayload
    \<Rightarrow> DomainEventError + DomainEvent" where
  "DomainEvent_new i ver time p =
    and_then (validate_payload p) (\<lambda>_.
      Ok \<lparr> event_id = i, aggregate_id = payload_aggregate_id p, aggregate_version = ver,
           occurred_at = time, payload = p \<rparr>)"

section \<open>Lemmas\<close>

lemma DomainEvent_new_eq_Ok:
  "DomainEvent_new i ver time p = Ok ev \<longleftrightarrow> validate_payload p = Ok () \<and>
    ev = \<lparr> event_id = i, aggregate_id = payload_aggregate_id p, aggregate_version = ver,
           occurred_at = time, payload = p \<rparr>"
  by (auto simp: DomainEvent_new_def result_simps)

lemma validate_status_changed [simp]:
  "validate_payload (FareCredentialStatusChanged c previous current) =
    (if previous = current then Err (NoStatusChange ''fare_credential.status_changed'') else Ok ())"
  "validate_payload (FareCredentialIssued c acct k) = Ok ()"
  by (simp_all add: validate_payload_def)

text \<open>A credential call changes the aggregate exactly when it changes the status.\<close>

lemma credential_step_changes_status:
  assumes "credential_step op c = Ok c'"
  shows "credential_status c' = credential_status c \<longleftrightarrow> c' = c"
proof
  assume same: "credential_status c' = credential_status c"
  show "c' = c"
  proof (rule ccontr)
    assume "c' \<noteq> c"
    with assms have "credential_transition (credential_status c) (credential_status c')"
      by (rule credential_step_transition)
    with same show False
      by (auto elim: credential_transition.cases)
  qed
qed simp

lemma account_step_payload:
  assumes "account_step op a = Ok a'" "account_inv a"
  shows "validate_payload (StoredValueChanged (account_id a) (stored_value a) (stored_value a') reason)
      = (if account_delta op = 0 then Err NoStoredValueChange else Ok ())"
proof -
  have cur: "currency (amount (stored_value a')) = currency (amount (stored_value a))"
    using account_step_ident [OF assms(1)] by (simp add: account_ident_def)
  have "stored_value a' = stored_value a \<longleftrightarrow> amount (stored_value a') = amount (stored_value a)"
    by (metis StoredValueBalance.expand)
  also have "\<dots> \<longleftrightarrow> account_delta op = 0"
    using account_step_delta [OF assms(1)] cur by (simp add: Money_eq_iff)
  finally show ?thesis
    using cur by (auto simp: validate_payload_def)
qed

section \<open>Properties\<close>



end
