(* ===== verification/Text.thy ===== *)
theory Text
  imports Prelude
begin

text \<open>
  Rust's \<open>String\<close> as the source uses it: a list of Unicode scalar values with its UTF-8
  encoding, whose length is \<open>str::len\<close>, and \<open>str::trim\<close>, \<open>char::is_control\<close> and
  \<open>str::is_empty\<close> of the standard library.  Literals are written as ASCII \<open>string\<close>s and
  lifted by \<open>ascii\<close>.
\<close>

type_synonym ustr = "nat list"

definition scalar :: "nat \<Rightarrow> bool" where
  "scalar c \<longleftrightarrow> c < 55296 \<or> 57344 \<le> c \<and> c < 1114112"

definition is_text :: "ustr \<Rightarrow> bool" where
  "is_text t \<longleftrightarrow> list_all scalar t"

definition ascii :: "string \<Rightarrow> ustr" where
  "ascii s = map of_char s"

text \<open>The Unicode property \<open>White_Space\<close>, which \<open>str::trim\<close> strips.\<close>

definition is_whitespace :: "nat \<Rightarrow> bool" where
  "is_whitespace c \<longleftrightarrow> 9 \<le> c \<and> c \<le> 13 \<or> c = 32 \<or> c = 133 \<or> c = 160 \<or> c = 5760 \<or>
    8192 \<le> c \<and> c \<le> 8202 \<or> c = 8232 \<or> c = 8233 \<or> c = 8239 \<or> c = 8287 \<or> c = 12288"

text \<open>The general category \<open>Cc\<close>.\<close>

definition is_control :: "nat \<Rightarrow> bool" where
  "is_control c \<longleftrightarrow> c < 32 \<or> 127 \<le> c \<and> c < 160"

definition trim_start :: "ustr \<Rightarrow> ustr" where
  "trim_start t = dropWhile is_whitespace t"

definition trim :: "ustr \<Rightarrow> ustr" where
  "trim t = rev (trim_start (rev (trim_start t)))"

definition utf8_char :: "nat \<Rightarrow> nat list" where
  "utf8_char c =
    (if c < 128 then [c]
     else if c < 2048 then [192 + c div 64, 128 + c mod 64]
     else if c < 65536 then [224 + c div 4096, 128 + c div 64 mod 64, 128 + c mod 64]
     else [240 + c div 262144, 128 + c div 4096 mod 64, 128 + c div 64 mod 64, 128 + c mod 64])"

definition utf8 :: "ustr \<Rightarrow> bytes" where
  "utf8 t = map of_nat (concat (map utf8_char t))"

definition text_len :: "ustr \<Rightarrow> nat" where
  "text_len t = length (concat (map utf8_char t))"

section \<open>Lemmas\<close>

lemma is_whitespace_code [code]:
  "is_whitespace c \<longleftrightarrow> (let i = int c in 9 \<le> i \<and> i \<le> 13 \<or> i = 32 \<or> i = 133 \<or> i = 160 \<or> i = 5760 \<or>
    8192 \<le> i \<and> i \<le> 8202 \<or> i = 8232 \<or> i = 8233 \<or> i = 8239 \<or> i = 8287 \<or> i = 12288)"
  by (simp add: is_whitespace_def Let_def)

lemma length_utf8 [simp]: "length (utf8 t) = text_len t"
  by (simp add: utf8_def text_len_def)

lemma scalar_bound: "scalar c \<Longrightarrow> c < 1114112"
  by (auto simp: scalar_def)

text \<open>The encoding of one scalar value is a prefix code.\<close>

lemma utf8_char_not_Nil [simp]: "utf8_char c \<noteq> []"
  by (simp add: utf8_char_def)

lemma utf8_char_bytes:
  assumes "c < 1114112" "b \<in> set (utf8_char c)"
  shows "b < 256"
proof -
  have "c div 64 < 32" if "c < 2048"
    using that by auto
  moreover have "c div 4096 < 16" if "c < 65536"
    using that by auto
  moreover have "c div 262144 < 8"
    using assms(1) by auto
  moreover have "c div 64 mod 64 < 64" "c div 4096 mod 64 < 64" "c mod 64 < 64"
    by simp_all
  ultimately show ?thesis
    using assms(2) by (auto simp: utf8_char_def split: if_splits)
qed

definition utf8_lead :: "nat \<Rightarrow> nat" where
  "utf8_lead b = (if b < 128 then 1 else if b < 224 then 2 else if b < 240 then 3 else 4)"

definition utf8_value :: "nat list \<Rightarrow> nat" where
  "utf8_value bs =
    (case bs of
       [a] \<Rightarrow> a
     | [a, b] \<Rightarrow> (a - 192) * 64 + (b - 128)
     | [a, b, c] \<Rightarrow> ((a - 224) * 64 + (b - 128)) * 64 + (c - 128)
     | [a, b, c, d] \<Rightarrow> (((a - 240) * 64 + (b - 128)) * 64 + (c - 128)) * 64 + (d - 128)
     | _ \<Rightarrow> 0)"

lemma split_base_64:
  fixes c :: nat
  shows "c div 64 * 64 + c mod 64 = c"
    "(c div 4096 * 64 + c div 64 mod 64) * 64 + c mod 64 = c"
    "((c div 262144 * 64 + c div 4096 mod 64) * 64 + c div 64 mod 64) * 64 + c mod 64 = c"
proof -
  have d: "c div 64 div 64 = c div 4096" "c div 64 div 64 div 64 = c div 262144"
    by (simp_all add: div_mult2_eq [symmetric])
  have e: "c div 4096 * 64 + c div 64 mod 64 = c div 64"
    using div_mult_mod_eq [of "c div 64" 64] d by simp
  have f: "c div 262144 * 64 + c div 4096 mod 64 = c div 4096"
    using div_mult_mod_eq [of "c div 4096" 64] d by (simp add: div_mult2_eq [symmetric])
  show "c div 64 * 64 + c mod 64 = c" by simp
  show "(c div 4096 * 64 + c div 64 mod 64) * 64 + c mod 64 = c" unfolding e by simp
  show "((c div 262144 * 64 + c div 4096 mod 64) * 64 + c div 64 mod 64) * 64 + c mod 64 = c"
    unfolding f e by simp
qed

lemma utf8_value_char: "utf8_value (utf8_char c) = c"
  using split_base_64 [of c] by (simp add: utf8_char_def utf8_value_def)

lemma utf8_lead_char:
  assumes "c < 1114112"
  shows "utf8_lead (hd (utf8_char c)) = length (utf8_char c)"
proof -
  have "c div 64 < 32" if "c < 2048" using that by auto
  moreover have "c div 4096 < 16" if "c < 65536" using that by auto
  ultimately show ?thesis by (auto simp: utf8_char_def utf8_lead_def)
qed

lemma utf8_char_prefix:
  assumes "c < 1114112" "d < 1114112" "utf8_char c @ xs = utf8_char d @ ys"
  shows "c = d \<and> xs = ys"
proof -
  have "hd (utf8_char c) = hd (utf8_char d)"
    using assms(3) by (metis hd_append2 utf8_char_not_Nil)
  then have "length (utf8_char c) = length (utf8_char d)"
    using utf8_lead_char assms(1,2) by metis
  then have "utf8_char c = utf8_char d" "xs = ys"
    using assms(3) by auto
  then show ?thesis by (metis utf8_value_char)
qed

lemma utf8_scalars_inject:
  assumes "is_text s" "is_text t" "concat (map utf8_char s) = concat (map utf8_char t)"
  shows "s = t"
  using assms
proof (induction s arbitrary: t)
  case Nil
  then show ?case by (cases t) auto
next
  case (Cons c s)
  then obtain d t' where t: "t = d # t'" by (cases t) auto
  have "c < 1114112" "d < 1114112"
    using Cons.prems t by (auto simp: is_text_def dest: scalar_bound)
  then have eq: "c = d \<and> concat (map utf8_char s) = concat (map utf8_char t')"
    using Cons.prems(3) t by (intro utf8_char_prefix) simp_all
  have "is_text s" "is_text t'"
    using Cons.prems(1,2) t by (simp_all add: is_text_def)
  with eq have "s = t'"
    by (intro Cons.IH) blast+
  with eq t show ?case by blast
qed

lemma of_nat_byte_inject:
  assumes "a < 256" "b < 256" "(of_nat a :: u8) = of_nat b"
  shows "a = b"
proof -
  have "unat (of_nat n :: u8) = n" if "n < 256" for n
    using that by (simp add: unat_of_nat)
  then show ?thesis using assms by metis
qed

lemma utf8_inject:
  assumes "is_text s" "is_text t" "utf8 s = utf8 t"
  shows "s = t"
proof (rule utf8_scalars_inject [OF assms(1,2)])
  have bytes: "set (concat (map utf8_char u)) \<subseteq> {b. b < 256}" if "is_text u" for u
    using that utf8_char_bytes scalar_bound by (fastforce simp: is_text_def list_all_iff)
  have inj: "inj_on (of_nat :: nat \<Rightarrow> u8) {b. b < 256}"
    using of_nat_byte_inject by (blast intro: inj_onI)
  have "inj_on (of_nat :: nat \<Rightarrow> u8)
      (set (concat (map utf8_char s)) \<union> set (concat (map utf8_char t)))"
    using bytes [OF assms(1)] bytes [OF assms(2)] by (intro inj_on_subset [OF inj]) simp
  then show "concat (map utf8_char s) = concat (map utf8_char t)"
    using assms(3) unfolding utf8_def by (rule map_inj_on [rotated])
qed

lemma is_text_ascii [simp]: "is_text (ascii s)"
proof -
  have "scalar (of_char c)" for c
  proof -
    have "(of_char c :: nat) < 256"
      by (rule nat_of_char_less_256)
    then show ?thesis unfolding scalar_def by linarith
  qed
  then show ?thesis
    by (simp add: is_text_def ascii_def list_all_iff)
qed

lemma ascii_inject [simp]: "ascii s = ascii t \<longleftrightarrow> s = t"
  by (auto simp: ascii_def inj_on_def dest: map_inj_on)

lemma trim_start_idem: "trim_start (trim_start t) = trim_start t"
  by (simp add: trim_start_def dropWhile_idem)

lemma trim_start_Nil [simp]: "trim_start [] = []"
  by (simp add: trim_start_def)

lemma trim_start_trim_end:
  "trim_start (rev (trim_start (rev (trim_start t)))) = rev (trim_start (rev (trim_start t)))"
proof (cases "trim_start t")
  case (Cons c cs)
  then have "\<not> is_whitespace c"
    unfolding trim_start_def by (metis hd_dropWhile list.distinct(1) list.sel(1))
  then have "\<exists>zs. rev (dropWhile is_whitespace (rev (c # cs))) = c # zs"
  proof (induction cs rule: rev_induct)
    case (snoc x xs)
    then show ?case by (cases "is_whitespace x") (auto simp: dropWhile_append)
  qed simp
  with \<open>\<not> is_whitespace c\<close> Cons show ?thesis
    by (auto simp: trim_start_def)
qed simp

lemma trim_idem [simp]: "trim (trim t) = trim t"
  by (simp add: trim_def trim_start_trim_end trim_start_idem)

lemma is_text_trim: "is_text t \<Longrightarrow> is_text (trim t)"
  by (auto simp: is_text_def trim_def trim_start_def list_all_iff dest!: set_dropWhileD)

end
