(* ===== verification/Codec.thy ===== *)
theory Codec
  imports Event Text
begin

text \<open>
  The PostgreSQL value codec of \<open>crates/persistence/src/codec.rs\<close>: closed enumerations as
  column texts, versions and times as \<open>BIGINT\<close>, aggregate identities as a kind and a UUID, and
  the failures of \<open>crates/persistence/src/error.rs\<close>.  Every pair is interpreted as a \<open>codec\<close>.
\<close>

datatype PersistenceError =
    EmptyDatabaseUrl
  | ZeroMaxConnections
  | InvalidPoolBounds nat nat
  | ZeroAcquireTimeout
  | InvalidStoredValue string
  | NumericValueOutOfRange string
  | WriteConditionFailed string
  | Serialization string
  | ConstraintViolation string string
  | Database string
  | Migration

text \<open>The driver's error kinds, as the source distinguishes them.\<close>

datatype DriverError =
    UniqueViolation
  | ForeignKeyViolation
  | NotNullViolation
  | CheckViolation
  | ExclusionViolation
  | OtherDatabaseError
  | NotADatabaseError

fun PersistenceError_write :: "string \<Rightarrow> string \<Rightarrow> DriverError \<Rightarrow> PersistenceError" where
  "PersistenceError_write operation entity UniqueViolation = WriteConditionFailed entity"
| "PersistenceError_write operation entity ForeignKeyViolation = ConstraintViolation entity ''foreign-key''"
| "PersistenceError_write operation entity NotNullViolation = ConstraintViolation entity ''not-null''"
| "PersistenceError_write operation entity CheckViolation = ConstraintViolation entity ''check''"
| "PersistenceError_write operation entity ExclusionViolation = ConstraintViolation entity ''exclusion''"
| "PersistenceError_write operation entity OtherDatabaseError = Database operation"
| "PersistenceError_write operation entity NotADatabaseError = Database operation"

fun encode_currency :: "Currency \<Rightarrow> string" where
  "encode_currency Usd = ''USD''"
| "encode_currency Cad = ''CAD''"
| "encode_currency Eur = ''EUR''"
| "encode_currency Gbp = ''GBP''"

definition decode_currency :: "string \<Rightarrow> PersistenceError + Currency" where
  "decode_currency v =
    (if v = ''USD'' then Ok Usd
     else if v = ''CAD'' then Ok Cad
     else if v = ''EUR'' then Ok Eur
     else if v = ''GBP'' then Ok Gbp
     else Err (InvalidStoredValue ''transit_accounts.stored_value_currency''))"

fun encode_account_status :: "TransitAccountStatus \<Rightarrow> string" where
  "encode_account_status Account_Active = ''active''"
| "encode_account_status Account_Suspended = ''suspended''"
| "encode_account_status Account_Closed = ''closed''"

definition decode_account_status :: "string \<Rightarrow> PersistenceError + TransitAccountStatus" where
  "decode_account_status v =
    (if v = ''active'' then Ok Account_Active
     else if v = ''suspended'' then Ok Account_Suspended
     else if v = ''closed'' then Ok Account_Closed
     else Err (InvalidStoredValue ''transit_accounts.status''))"

fun encode_eligibility :: "EligibilityClassification \<Rightarrow> string" where
  "encode_eligibility Standard = ''standard''"
| "encode_eligibility Youth = ''youth''"
| "encode_eligibility Senior = ''senior''"
| "encode_eligibility ReducedFare = ''reduced_fare''"
| "encode_eligibility EmployeeTestAccount = ''employee_test_account''"

definition decode_eligibility :: "string \<Rightarrow> PersistenceError + EligibilityClassification" where
  "decode_eligibility v =
    (if v = ''standard'' then Ok Standard
     else if v = ''youth'' then Ok Youth
     else if v = ''senior'' then Ok Senior
     else if v = ''reduced_fare'' then Ok ReducedFare
     else if v = ''employee_test_account'' then Ok EmployeeTestAccount
     else Err (InvalidStoredValue ''transit_accounts.eligibility''))"

fun encode_credential_kind :: "FareCredentialKind \<Rightarrow> string" where
  "encode_credential_kind Card = ''card''"
| "encode_credential_kind Mobile = ''mobile''"
| "encode_credential_kind DevelopmentTestToken = ''development_test_token''"

definition decode_credential_kind :: "string \<Rightarrow> PersistenceError + FareCredentialKind" where
  "decode_credential_kind v =
    (if v = ''card'' then Ok Card
     else if v = ''mobile'' then Ok Mobile
     else if v = ''development_test_token'' then Ok DevelopmentTestToken
     else Err (InvalidStoredValue ''fare_credentials.kind''))"

fun encode_credential_status :: "FareCredentialStatus \<Rightarrow> string" where
  "encode_credential_status Credential_Pending = ''pending''"
| "encode_credential_status Credential_Active = ''active''"
| "encode_credential_status Credential_Suspended = ''suspended''"
| "encode_credential_status Credential_Revoked = ''revoked''"
| "encode_credential_status Credential_Expired = ''expired''"
| "encode_credential_status Credential_Replaced = ''replaced''"

definition decode_credential_status :: "string \<Rightarrow> PersistenceError + FareCredentialStatus" where
  "decode_credential_status v =
    (if v = ''pending'' then Ok Credential_Pending
     else if v = ''active'' then Ok Credential_Active
     else if v = ''suspended'' then Ok Credential_Suspended
     else if v = ''revoked'' then Ok Credential_Revoked
     else if v = ''expired'' then Ok Credential_Expired
     else if v = ''replaced'' then Ok Credential_Replaced
     else Err (InvalidStoredValue ''fare_credentials.status''))"

fun encode_credential_revocation_reason :: "RevocationReason \<Rightarrow> string" where
  "encode_credential_revocation_reason ReportedLost = ''reported_lost''"
| "encode_credential_revocation_reason ReportedStolen = ''reported_stolen''"
| "encode_credential_revocation_reason Reason_Replaced = ''replaced''"
| "encode_credential_revocation_reason AccountSuspended = ''account_suspended''"
| "encode_credential_revocation_reason AdministrativeAction = ''administrative_action''"
| "encode_credential_revocation_reason SecurityIncident = ''security_incident''"
| "encode_credential_revocation_reason TestCleanup = ''test_cleanup''"

definition decode_credential_revocation_reason :: "string \<Rightarrow> PersistenceError + RevocationReason" where
  "decode_credential_revocation_reason v =
    (if v = ''reported_lost'' then Ok ReportedLost
     else if v = ''reported_stolen'' then Ok ReportedStolen
     else if v = ''replaced'' then Ok Reason_Replaced
     else if v = ''account_suspended'' then Ok AccountSuspended
     else if v = ''administrative_action'' then Ok AdministrativeAction
     else if v = ''security_incident'' then Ok SecurityIncident
     else if v = ''test_cleanup'' then Ok TestCleanup
     else Err (InvalidStoredValue ''fare_credentials.revocation_reason''))"

fun encode_reader_status :: "ReaderEquipmentStatus \<Rightarrow> string" where
  "encode_reader_status Reader_PendingRegistration = ''pending_registration''"
| "encode_reader_status Reader_Active = ''active''"
| "encode_reader_status Reader_Offline = ''offline''"
| "encode_reader_status Reader_Disabled = ''disabled''"
| "encode_reader_status Reader_Revoked = ''revoked''"
| "encode_reader_status Reader_Decommissioned = ''decommissioned''"

definition decode_reader_status :: "string \<Rightarrow> PersistenceError + ReaderEquipmentStatus" where
  "decode_reader_status v =
    (if v = ''pending_registration'' then Ok Reader_PendingRegistration
     else if v = ''active'' then Ok Reader_Active
     else if v = ''offline'' then Ok Reader_Offline
     else if v = ''disabled'' then Ok Reader_Disabled
     else if v = ''revoked'' then Ok Reader_Revoked
     else if v = ''decommissioned'' then Ok Reader_Decommissioned
     else Err (InvalidStoredValue ''reader_equipment.status''))"

fun encode_reader_disablement_reason :: "ReaderDisablementReason \<Rightarrow> string" where
  "encode_reader_disablement_reason Disable_SuspectedCompromise = ''suspected_compromise''"
| "encode_reader_disablement_reason Disable_LostEquipment = ''lost_equipment''"
| "encode_reader_disablement_reason Disable_InvalidConfiguration = ''invalid_configuration''"
| "encode_reader_disablement_reason Disable_AdministrativeAction = ''administrative_action''"
| "encode_reader_disablement_reason Disable_TestCleanup = ''test_cleanup''"

definition decode_reader_disablement_reason :: "string \<Rightarrow> PersistenceError + ReaderDisablementReason" where
  "decode_reader_disablement_reason v =
    (if v = ''suspected_compromise'' then Ok Disable_SuspectedCompromise
     else if v = ''lost_equipment'' then Ok Disable_LostEquipment
     else if v = ''invalid_configuration'' then Ok Disable_InvalidConfiguration
     else if v = ''administrative_action'' then Ok Disable_AdministrativeAction
     else if v = ''test_cleanup'' then Ok Disable_TestCleanup
     else Err (InvalidStoredValue ''reader_equipment.disablement_reason''))"

fun encode_reader_revocation_reason :: "ReaderRevocationReason \<Rightarrow> string" where
  "encode_reader_revocation_reason Revoke_SuspectedCompromise = ''suspected_compromise''"
| "encode_reader_revocation_reason Revoke_CredentialExposure = ''credential_exposure''"
| "encode_reader_revocation_reason Revoke_AdministrativeAction = ''administrative_action''"
| "encode_reader_revocation_reason Revoke_SecurityIncident = ''security_incident''"
| "encode_reader_revocation_reason Revoke_TestCleanup = ''test_cleanup''"

definition decode_reader_revocation_reason :: "string \<Rightarrow> PersistenceError + ReaderRevocationReason" where
  "decode_reader_revocation_reason v =
    (if v = ''suspected_compromise'' then Ok Revoke_SuspectedCompromise
     else if v = ''credential_exposure'' then Ok Revoke_CredentialExposure
     else if v = ''administrative_action'' then Ok Revoke_AdministrativeAction
     else if v = ''security_incident'' then Ok Revoke_SecurityIncident
     else if v = ''test_cleanup'' then Ok Revoke_TestCleanup
     else Err (InvalidStoredValue ''reader_equipment.revocation_reason''))"

definition encode_aggregate_version :: "AggregateVersion \<Rightarrow> PersistenceError + i64" where
  "encode_aggregate_version v =
    (if uint v \<le> i64_max then Ok v else Err (NumericValueOutOfRange ''aggregate_version''))"

definition decode_aggregate_version :: "i64 \<Rightarrow> PersistenceError + AggregateVersion" where
  "decode_aggregate_version n =
    (if sint n < 0 then Err (NumericValueOutOfRange ''aggregate_version'')
     else map_err (\<lambda>_. InvalidStoredValue ''aggregate_version'') (AggregateVersion_new n))"

definition encode_event_time :: "DomainEventTime \<Rightarrow> i64" where
  "encode_event_time t = t"

definition decode_event_time :: "i64 \<Rightarrow> PersistenceError + DomainEventTime" where
  "decode_event_time t =
    map_err (\<lambda>_. InvalidStoredValue ''domain_events.occurred_at_unix_ms'')
      (DomainEventTime_from_unix_milliseconds t)"

fun encode_aggregate_id :: "DomainAggregateId \<Rightarrow> string \<times> Uuid" where
  "encode_aggregate_id (Aggregate_TransitAccount i) = (''transit_account'', i)"
| "encode_aggregate_id (Aggregate_FareCredential i) = (''fare_credential'', i)"
| "encode_aggregate_id (Aggregate_ReaderEquipment i) = (''reader_equipment'', i)"
| "encode_aggregate_id (Aggregate_FareTransaction i) = (''fare_transaction'', i)"

definition decode_aggregate_id :: "UuidApi \<Rightarrow> string \<times> Uuid \<Rightarrow> PersistenceError + DomainAggregateId" where
  "decode_aggregate_id api stored =
    (case stored of (kind, i) \<Rightarrow>
     let checked = (\<lambda>name wrap. and_then (map_err (\<lambda>_. InvalidStoredValue ''domain_events.aggregate_id'')
           (identifier_try_from api name i)) (\<lambda>u. Ok (wrap u)))
     in if kind = ''transit_account''
        then checked ''transit account identifier'' Aggregate_TransitAccount
        else if kind = ''fare_credential''
        then checked ''fare credential identifier'' Aggregate_FareCredential
        else if kind = ''reader_equipment''
        then checked ''reader identifier'' Aggregate_ReaderEquipment
        else if kind = ''fare_transaction''
        then checked ''fare transaction identifier'' Aggregate_FareTransaction
        else Err (InvalidStoredValue ''domain_events.aggregate_kind''))"

section \<open>Lemmas\<close>

interpretation currency_codec: codec encode_currency decode_currency "\<lambda>_. True"
proof
  show "decode_currency (encode_currency v) = Ok v" for v
    by (cases v) (simp_all add: decode_currency_def)
  show "decode_currency t = Ok v \<Longrightarrow> True \<and> encode_currency v = t" for t v
    by (auto simp: decode_currency_def split: if_splits)
qed

interpretation account_status_codec: codec encode_account_status decode_account_status "\<lambda>_. True"
proof
  show "decode_account_status (encode_account_status v) = Ok v" for v
    by (cases v) (simp_all add: decode_account_status_def)
  show "decode_account_status t = Ok v \<Longrightarrow> True \<and> encode_account_status v = t" for t v
    by (auto simp: decode_account_status_def split: if_splits)
qed

interpretation eligibility_codec: codec encode_eligibility decode_eligibility "\<lambda>_. True"
proof
  show "decode_eligibility (encode_eligibility v) = Ok v" for v
    by (cases v) (simp_all add: decode_eligibility_def)
  show "decode_eligibility t = Ok v \<Longrightarrow> True \<and> encode_eligibility v = t" for t v
    by (auto simp: decode_eligibility_def split: if_splits)
qed

interpretation credential_kind_codec: codec encode_credential_kind decode_credential_kind "\<lambda>_. True"
proof
  show "decode_credential_kind (encode_credential_kind v) = Ok v" for v
    by (cases v) (simp_all add: decode_credential_kind_def)
  show "decode_credential_kind t = Ok v \<Longrightarrow> True \<and> encode_credential_kind v = t" for t v
    by (auto simp: decode_credential_kind_def split: if_splits)
qed

interpretation credential_status_codec: codec encode_credential_status decode_credential_status "\<lambda>_. True"
proof
  show "decode_credential_status (encode_credential_status v) = Ok v" for v
    by (cases v) (simp_all add: decode_credential_status_def)
  show "decode_credential_status t = Ok v \<Longrightarrow> True \<and> encode_credential_status v = t" for t v
    by (auto simp: decode_credential_status_def split: if_splits)
qed

interpretation credential_revocation_reason_codec: codec encode_credential_revocation_reason decode_credential_revocation_reason "\<lambda>_. True"
proof
  show "decode_credential_revocation_reason (encode_credential_revocation_reason v) = Ok v" for v
    by (cases v) (simp_all add: decode_credential_revocation_reason_def)
  show "decode_credential_revocation_reason t = Ok v \<Longrightarrow> True \<and> encode_credential_revocation_reason v = t" for t v
    by (auto simp: decode_credential_revocation_reason_def split: if_splits)
qed

interpretation reader_status_codec: codec encode_reader_status decode_reader_status "\<lambda>_. True"
proof
  show "decode_reader_status (encode_reader_status v) = Ok v" for v
    by (cases v) (simp_all add: decode_reader_status_def)
  show "decode_reader_status t = Ok v \<Longrightarrow> True \<and> encode_reader_status v = t" for t v
    by (auto simp: decode_reader_status_def split: if_splits)
qed

interpretation reader_disablement_reason_codec: codec encode_reader_disablement_reason decode_reader_disablement_reason "\<lambda>_. True"
proof
  show "decode_reader_disablement_reason (encode_reader_disablement_reason v) = Ok v" for v
    by (cases v) (simp_all add: decode_reader_disablement_reason_def)
  show "decode_reader_disablement_reason t = Ok v \<Longrightarrow> True \<and> encode_reader_disablement_reason v = t" for t v
    by (auto simp: decode_reader_disablement_reason_def split: if_splits)
qed

interpretation reader_revocation_reason_codec: codec encode_reader_revocation_reason decode_reader_revocation_reason "\<lambda>_. True"
proof
  show "decode_reader_revocation_reason (encode_reader_revocation_reason v) = Ok v" for v
    by (cases v) (simp_all add: decode_reader_revocation_reason_def)
  show "decode_reader_revocation_reason t = Ok v \<Longrightarrow> True \<and> encode_reader_revocation_reason v = t" for t v
    by (auto simp: decode_reader_revocation_reason_def split: if_splits)
qed

lemma encode_aggregate_version_eq_Ok [result_simps]:
  "encode_aggregate_version v = Ok n \<longleftrightarrow> uint v \<le> i64_max \<and> n = v"
  by (auto simp: encode_aggregate_version_def)

lemma decode_aggregate_version_eq_Ok:
  "decode_aggregate_version n = Ok v \<longleftrightarrow> 0 < sint n \<and> v = n"
proof -
  have "sint n = 0 \<longleftrightarrow> n = 0"
    by (metis sint_0 sint_eq_iff)
  then show ?thesis
    by (auto simp: decode_aggregate_version_def AggregateVersion_new_def result_simps order_less_le)
qed

lemma stored_version_positive:
  assumes "uint v \<le> i64_max" "v \<noteq> 0"
  shows "0 < sint (v :: 64 word)"
proof -
  have "uint v \<noteq> 0" using assms(2) by (simp add: uint_0_iff)
  then show ?thesis
    using sint_of_small_uint [OF assms(1)] unsigned_greater_eq [of v, where 'a = int] by linarith
qed

lemma version_roundtrip:
  assumes "encode_aggregate_version v = Ok n" "v \<noteq> 0"
  shows "decode_aggregate_version n = Ok v"
  using assms stored_version_positive
  by (auto simp: result_simps decode_aggregate_version_eq_Ok)

lemma decoded_version_encodes:
  assumes "decode_aggregate_version n = Ok v"
  shows "encode_aggregate_version v = Ok n \<and> v \<noteq> 0"
proof -
  have "0 < sint n" "v = n" using assms by (simp_all add: decode_aggregate_version_eq_Ok)
  moreover from this have "uint n = sint n"
    by (intro uint_of_nonneg_sint) simp
  ultimately show ?thesis
    using sint_i64_bounds(2) [of n] by (auto simp: encode_aggregate_version_eq_Ok i64_max_def)
qed

interpretation event_time_codec: codec encode_event_time decode_event_time "\<lambda>t. 0 \<le> sint t"
  by unfold_locales
    (auto simp: encode_event_time_def decode_event_time_def result_simps
      DomainEventTime_from_unix_milliseconds_def)

fun aggregate_uuid :: "DomainAggregateId \<Rightarrow> Uuid" where
  "aggregate_uuid (Aggregate_TransitAccount i) = i"
| "aggregate_uuid (Aggregate_FareCredential i) = i"
| "aggregate_uuid (Aggregate_ReaderEquipment i) = i"
| "aggregate_uuid (Aggregate_FareTransaction i) = i"

interpretation aggregate_id_codec: codec encode_aggregate_id "decode_aggregate_id api"
  "\<lambda>i. valid_identifier api (aggregate_uuid i)" for api
proof
  show "valid_identifier api (aggregate_uuid i) \<Longrightarrow>
      decode_aggregate_id api (encode_aggregate_id i) = Ok i" for i
    by (cases i) (simp_all add: decode_aggregate_id_def)
  show "decode_aggregate_id api t = Ok i \<Longrightarrow>
      valid_identifier api (aggregate_uuid i) \<and> encode_aggregate_id i = t" for t i
    by (cases t) (auto simp: decode_aggregate_id_def Let_def result_simps split: if_splits)
qed

end
