(* ===== verification/Ports.thy ===== *)
theory Ports
  imports Event
begin

text \<open>
  The boundary of the application crate: versions and save conditions
  (\<open>crates/application/src/versioning.rs\<close>), its errors (\<open>error.rs\<close>), the transaction port
  (\<open>unit_of_work.rs\<close>) and \<open>rollback_with\<close> (\<open>use_cases/support.rs\<close>).  The boxed cause of a
  repository error is the type parameter \<open>'e\<close>, that of a clock error \<open>'c\<close>.  A port operation
  is a function on the state \<open>'w\<close> of the store and of the open transaction: the services hold
  one transaction at a time and give it up at \<open>commit\<close> and \<open>rollback\<close>.
\<close>

datatype SaveCondition = MustNotExist | IfVersion AggregateVersion

datatype 'a VersionedAggregate =
  VersionedAggregate (va_aggregate: 'a) (va_version: AggregateVersion)

definition next_version :: "'a VersionedAggregate \<Rightarrow> AggregateVersion option" where
  "next_version a =
    (case checked_add_u64 (va_version a) 1 of
       None \<Rightarrow> None
     | Some v \<Rightarrow> (case AggregateVersion_new v of Ok version \<Rightarrow> Some version | Err _ \<Rightarrow> None))"

datatype 'e RepositoryError = RepositoryError string string 'e

datatype 'c ClockError = ClockError string 'c

datatype ('e, 'c) ApplicationError =
    NotFound string string
  | Conflict string string
  | App_FareCredential FareCredentialError
  | App_Repository "'e RepositoryError"
  | App_Clock "'c ClockError"

type_synonym ('w, 'e, 'a) fallible = "'w \<Rightarrow> ('e + 'a) \<times> 'w"

record ('w, 'e) TransactionPorts =
  tx_begin :: "('w, 'e RepositoryError, unit) fallible"
  tx_find_transit_account ::
    "TransitAccountId \<Rightarrow> ('w, 'e RepositoryError, TransitAccount VersionedAggregate option) fallible"
  tx_find_fare_credential ::
    "FareCredentialId \<Rightarrow> ('w, 'e RepositoryError, FareCredential VersionedAggregate option) fallible"
  tx_save_fare_credential ::
    "FareCredential \<Rightarrow> SaveCondition \<Rightarrow> ('w, 'e RepositoryError, unit) fallible"
  tx_append_domain_event :: "DomainEvent \<Rightarrow> ('w, 'e RepositoryError, unit) fallible"
  tx_commit :: "('w, 'e RepositoryError, unit) fallible"
  tx_rollback :: "('w, 'e RepositoryError, unit) fallible"

definition rollback_with ::
  "('w, 'e) TransactionPorts \<Rightarrow> ('e, 'c) ApplicationError \<Rightarrow> ('w, ('e, 'c) ApplicationError, 'a) fallible" where
  "rollback_with P original_error w =
    (case tx_rollback P w of
       (Ok _, w') \<Rightarrow> (Err original_error, w')
     | (Err rollback_error, w') \<Rightarrow> (Err (App_Repository rollback_error), w'))"

text \<open>
  The two shapes the services repeat: a port call whose failure rolls back
  (\<open>if let Err(error) = transaction.op(..).await { return rollback_with(..) }\<close>), and a local
  result whose failure rolls back.  \<open>committed\<close> is \<open>transaction.commit().await?\<close> followed by
  the returned value, \<open>began\<close> is \<open>transaction_manager.begin().await?\<close>.
\<close>

definition attempt ::
  "('w, 'e) TransactionPorts \<Rightarrow> ('w, 'e RepositoryError, 'a) fallible
    \<Rightarrow> ('a \<Rightarrow> ('w, ('e, 'c) ApplicationError, 'b) fallible) \<Rightarrow> ('w, ('e, 'c) ApplicationError, 'b) fallible" where
  "attempt P op k w =
    (case op w of
       (Ok x, w') \<Rightarrow> k x w'
     | (Err e, w') \<Rightarrow> rollback_with P (App_Repository e) w')"

definition or_rollback ::
  "('w, 'e) TransactionPorts \<Rightarrow> ('e, 'c) ApplicationError + 'a
    \<Rightarrow> ('a \<Rightarrow> ('w, ('e, 'c) ApplicationError, 'b) fallible) \<Rightarrow> ('w, ('e, 'c) ApplicationError, 'b) fallible" where
  "or_rollback P r k w =
    (case r of Ok x \<Rightarrow> k x w | Err e \<Rightarrow> rollback_with P e w)"

definition committed ::
  "('w, 'e) TransactionPorts \<Rightarrow> 'b \<Rightarrow> ('w, ('e, 'c) ApplicationError, 'b) fallible" where
  "committed P result w =
    (case tx_commit P w of
       (Ok _, w') \<Rightarrow> (Ok result, w')
     | (Err e, w') \<Rightarrow> (Err (App_Repository e), w'))"

definition began ::
  "('w, 'e) TransactionPorts \<Rightarrow> ('w, ('e, 'c) ApplicationError, 'b) fallible
    \<Rightarrow> ('w, ('e, 'c) ApplicationError, 'b) fallible" where
  "began P k w =
    (case tx_begin P w of
       (Ok _, w') \<Rightarrow> k w'
     | (Err e, w') \<Rightarrow> (Err (App_Repository e), w'))"

section \<open>Lemmas\<close>

lemma checked_succ_u64:
  "uint v + 1 < 18446744073709551616 \<longleftrightarrow> v + 1 \<noteq> (0 :: 64 word)"
proof -
  have "uint (- 1 :: 64 word) = 18446744073709551615"
    by (simp add: unsigned_minus_1_eq_mask mask_eq_exp_minus_1)
  then have "v = - 1 \<longleftrightarrow> uint v = 18446744073709551615"
    by (metis word_uint_eq_iff)
  moreover have "v + 1 = 0 \<longleftrightarrow> v = - 1"
    by (rule eq_neg_iff_add_eq_0 [symmetric])
  moreover have "uint v < 18446744073709551616"
    using uint_bounded [of v] by simp
  ultimately show ?thesis
    by linarith
qed

lemma uint_succ_u64:
  assumes "v + 1 \<noteq> (0 :: 64 word)"
  shows "uint (v + 1) = uint v + 1"
  using assms checked_succ_u64 [of v] uint_add_lem [of v 1] by simp

lemma next_version_eq_Some:
  "next_version a = Some v \<longleftrightarrow> v = va_version a + 1 \<and> v \<noteq> 0"
  using checked_succ_u64 [of "va_version a"]
  by (auto simp: next_version_def checked_add_u64_def AggregateVersion_new_def)

lemma next_version_less:
  assumes "next_version a = Some v"
  shows "va_version a < v"
  using assms uint_succ_u64 [of "va_version a"]
  by (auto simp: next_version_eq_Some word_less_def)

end
