(* ===== verification/Rows.thy ===== *)
theory Rows
  imports Codec Ports
begin

text \<open>
  The row types of the PostgreSQL repositories
  (\<open>crates/persistence/src/repositories/{transit_account,fare_credential,reader_equipment,domain_event}.rs\<close>):
  an aggregate is written as one row by \<open>from_domain\<close> and rebuilt by \<open>into_versioned\<close>, which
  replays the aggregate's own mutators.  \<open>to_value\<close> stands for \<open>serde_json::to_value\<close>.
\<close>

record TransitAccountRow =
  account_row_id :: Uuid
  account_row_rider_id :: Uuid
  account_row_status :: string
  account_row_eligibility :: string
  account_row_minor_units :: i64
  account_row_currency :: string
  account_row_version :: i64

record FareCredentialRow =
  credential_row_id :: Uuid
  credential_row_account_id :: Uuid
  credential_row_kind :: string
  credential_row_status :: string
  credential_row_revocation_reason :: "string option"
  credential_row_replacement_id :: "Uuid option"
  credential_row_version :: i64

record ReaderEquipmentRow =
  reader_row_id :: Uuid
  reader_row_key_id :: Uuid
  reader_row_status :: string
  reader_row_disablement_reason :: "string option"
  reader_row_revocation_reason :: "string option"
  reader_row_version :: i64

record 'j DomainEventRecord =
  record_id :: Uuid
  record_aggregate_kind :: string
  record_aggregate_id :: Uuid
  record_aggregate_version :: i64
  record_event_name :: string
  record_occurred_at :: i64
  record_payload :: 'j

definition TransitAccountRow_from_domain :: "TransitAccount \<Rightarrow> i64 \<Rightarrow> TransitAccountRow" where
  "TransitAccountRow_from_domain a ver =
    \<lparr> account_row_id = account_id a, account_row_rider_id = rider_id a,
      account_row_status = encode_account_status (account_status a),
      account_row_eligibility = encode_eligibility (eligibility a),
      account_row_minor_units = minor_units (amount (stored_value a)),
      account_row_currency = encode_currency (currency (amount (stored_value a))),
      account_row_version = ver \<rparr>"

text \<open>\<open>str::trim\<close> on a column text.\<close>

definition trim_string :: "string \<Rightarrow> string" where
  "trim_string s =
    rev (dropWhile (\<lambda>c. is_whitespace (of_char c)) (rev (dropWhile (\<lambda>c. is_whitespace (of_char c)) s)))"

text \<open>The \<open>match status\<close> of \<open>into_versioned\<close>, which replays the stored status.\<close>

definition replay_account ::
  "TransitAccountStatus \<Rightarrow> TransitAccount \<Rightarrow> PersistenceError + TransitAccount" where
  "replay_account status account =
    (case status of
       Account_Active \<Rightarrow> Ok account
     | Account_Suspended \<Rightarrow>
         map_err (\<lambda>_. InvalidStoredValue ''transit_accounts.status'') (TransitAccount_suspend account)
     | Account_Closed \<Rightarrow> Ok (TransitAccount_close account))"

definition TransitAccountRow_into_versioned ::
  "UuidApi \<Rightarrow> TransitAccountRow \<Rightarrow> PersistenceError + TransitAccount VersionedAggregate" where
  "TransitAccountRow_into_versioned api row =
    and_then (map_err (\<lambda>_. InvalidStoredValue ''transit_accounts.id'')
      (identifier_try_from api ''transit account identifier'' (account_row_id row))) (\<lambda>acct.
    and_then (map_err (\<lambda>_. InvalidStoredValue ''transit_accounts.rider_id'')
      (identifier_try_from api ''rider identifier'' (account_row_rider_id row))) (\<lambda>rider.
    and_then (decode_account_status (account_row_status row)) (\<lambda>status.
    and_then (decode_eligibility (account_row_eligibility row)) (\<lambda>elig.
    and_then (decode_currency (trim_string (account_row_currency row))) (\<lambda>cur.
    and_then (map_err (\<lambda>_. InvalidStoredValue ''transit_accounts.stored_value_minor_units'')
      (TransitAccount_new acct rider elig (from_minor_units (account_row_minor_units row) cur)))
      (\<lambda>account.
    and_then (replay_account status account) (\<lambda>account.
    and_then (decode_aggregate_version (account_row_version row)) (\<lambda>version.
      Ok (VersionedAggregate account version)))))))))"

definition FareCredentialRow_from_domain :: "FareCredential \<Rightarrow> i64 \<Rightarrow> FareCredentialRow" where
  "FareCredentialRow_from_domain c ver =
    \<lparr> credential_row_id = credential_id c, credential_row_account_id = transit_account_id c,
      credential_row_kind = encode_credential_kind (credential_kind c),
      credential_row_status = encode_credential_status (credential_status c),
      credential_row_revocation_reason =
        map_option encode_credential_revocation_reason (credential_revocation_reason c),
      credential_row_replacement_id = replacement_id c,
      credential_row_version = ver \<rparr>"

definition credential_validate_lifecycle_fields ::
  "FareCredentialStatus \<Rightarrow> RevocationReason option \<Rightarrow> FareCredentialId option \<Rightarrow> PersistenceError + unit" where
  "credential_validate_lifecycle_fields status reason replacement =
    (case status of
       Credential_Revoked \<Rightarrow>
         if reason = None then Err (InvalidStoredValue ''fare_credentials.revocation_reason'')
         else if replacement \<noteq> None then Err (InvalidStoredValue ''fare_credentials.replacement_id'')
         else Ok ()
     | Credential_Replaced \<Rightarrow>
         if reason \<noteq> None then Err (InvalidStoredValue ''fare_credentials.revocation_reason'')
         else if replacement = None then Err (InvalidStoredValue ''fare_credentials.replacement_id'')
         else Ok ()
     | _ \<Rightarrow>
         if reason \<noteq> None then Err (InvalidStoredValue ''fare_credentials.revocation_reason'')
         else if replacement \<noteq> None then Err (InvalidStoredValue ''fare_credentials.replacement_id'')
         else Ok ())"

definition invalid_credential_status :: "'a \<Rightarrow> PersistenceError" where
  "invalid_credential_status _ = InvalidStoredValue ''fare_credentials.status''"

text \<open>The \<open>match status\<close> that replays a stored status on a new credential.\<close>

definition replay_credential ::
  "FareCredentialStatus \<Rightarrow> RevocationReason option \<Rightarrow> FareCredentialId option \<Rightarrow> FareCredential
    \<Rightarrow> PersistenceError + FareCredential" where
  "replay_credential status reason replacement credential =
    (case status of
        Credential_Pending \<Rightarrow> Ok credential
      | Credential_Active \<Rightarrow> map_err invalid_credential_status (FareCredential_activate credential)
      | Credential_Suspended \<Rightarrow>
          and_then (map_err invalid_credential_status (FareCredential_activate credential))
            (\<lambda>c. map_err invalid_credential_status (FareCredential_suspend c))
      | Credential_Revoked \<Rightarrow>
          and_then (ok_or reason (InvalidStoredValue ''fare_credentials.revocation_reason'')) (\<lambda>r.
            map_err invalid_credential_status (FareCredential_revoke r credential))
      | Credential_Expired \<Rightarrow> map_err invalid_credential_status (FareCredential_expire credential)
      | Credential_Replaced \<Rightarrow>
          and_then (ok_or replacement (InvalidStoredValue ''fare_credentials.replacement_id'')) (\<lambda>r.
          and_then (map_err invalid_credential_status (FareCredential_activate credential)) (\<lambda>c.
            map_err (\<lambda>_. InvalidStoredValue ''fare_credentials.replacement_id'')
              (FareCredential_replace_with r c))))"

definition FareCredentialRow_into_versioned ::
  "UuidApi \<Rightarrow> FareCredentialRow \<Rightarrow> PersistenceError + FareCredential VersionedAggregate" where
  "FareCredentialRow_into_versioned api row =
    and_then (map_err (\<lambda>_. InvalidStoredValue ''fare_credentials.id'')
      (identifier_try_from api ''fare credential identifier'' (credential_row_id row))) (\<lambda>i.
    and_then (map_err (\<lambda>_. InvalidStoredValue ''fare_credentials.transit_account_id'')
      (identifier_try_from api ''transit account identifier'' (credential_row_account_id row))) (\<lambda>acct.
    and_then (decode_credential_kind (credential_row_kind row)) (\<lambda>kind.
    and_then (decode_credential_status (credential_row_status row)) (\<lambda>status.
    and_then (map_transpose decode_credential_revocation_reason (credential_row_revocation_reason row))
      (\<lambda>reason.
    and_then (map_err (\<lambda>_. InvalidStoredValue ''fare_credentials.replacement_id'')
      (map_transpose (identifier_try_from api ''fare credential identifier'')
        (credential_row_replacement_id row))) (\<lambda>replacement.
    and_then (credential_validate_lifecycle_fields status reason replacement) (\<lambda>_.
    let credential = FareCredential_new_pending i acct kind in
    and_then (replay_credential status reason replacement credential) (\<lambda>credential.
    and_then (decode_aggregate_version (credential_row_version row)) (\<lambda>version.
      Ok (VersionedAggregate credential version))))))))))"

definition ReaderEquipmentRow_from_domain :: "ReaderEquipment \<Rightarrow> i64 \<Rightarrow> ReaderEquipmentRow" where
  "ReaderEquipmentRow_from_domain r ver =
    \<lparr> reader_row_id = reader_id r, reader_row_key_id = identity_key_id (identity r),
      reader_row_status = encode_reader_status (reader_status r),
      reader_row_disablement_reason =
        map_option encode_reader_disablement_reason (disablement_reason r),
      reader_row_revocation_reason =
        map_option encode_reader_revocation_reason (reader_revocation_reason r),
      reader_row_version = ver \<rparr>"

definition reader_validate_lifecycle_fields ::
  "ReaderEquipmentStatus \<Rightarrow> ReaderDisablementReason option \<Rightarrow> ReaderRevocationReason option
    \<Rightarrow> PersistenceError + unit" where
  "reader_validate_lifecycle_fields status disablement revocation =
    (case status of
       Reader_Disabled \<Rightarrow>
         if disablement = None then Err (InvalidStoredValue ''reader_equipment.disablement_reason'')
         else if revocation \<noteq> None then Err (InvalidStoredValue ''reader_equipment.revocation_reason'')
         else Ok ()
     | Reader_Revoked \<Rightarrow>
         if disablement \<noteq> None then Err (InvalidStoredValue ''reader_equipment.disablement_reason'')
         else if revocation = None then Err (InvalidStoredValue ''reader_equipment.revocation_reason'')
         else Ok ()
     | _ \<Rightarrow>
         if disablement \<noteq> None then Err (InvalidStoredValue ''reader_equipment.disablement_reason'')
         else if revocation \<noteq> None then Err (InvalidStoredValue ''reader_equipment.revocation_reason'')
         else Ok ())"

definition invalid_reader_status :: "'a \<Rightarrow> PersistenceError" where
  "invalid_reader_status _ = InvalidStoredValue ''reader_equipment.status''"

definition replay_reader ::
  "ReaderEquipmentStatus \<Rightarrow> ReaderDisablementReason option \<Rightarrow> ReaderRevocationReason option
    \<Rightarrow> ReaderEquipment \<Rightarrow> PersistenceError + ReaderEquipment" where
  "replay_reader status disablement revocation reader =
    (case status of
        Reader_PendingRegistration \<Rightarrow> Ok reader
      | Reader_Active \<Rightarrow> map_err invalid_reader_status (ReaderEquipment_activate reader)
      | Reader_Offline \<Rightarrow>
          and_then (map_err invalid_reader_status (ReaderEquipment_activate reader))
            (\<lambda>r. map_err invalid_reader_status (ReaderEquipment_mark_offline r))
      | Reader_Disabled \<Rightarrow>
          and_then (ok_or disablement (InvalidStoredValue ''reader_equipment.disablement_reason''))
            (\<lambda>reason. map_err invalid_reader_status (ReaderEquipment_disable reason reader))
      | Reader_Revoked \<Rightarrow>
          and_then (ok_or revocation (InvalidStoredValue ''reader_equipment.revocation_reason''))
            (\<lambda>reason. map_err invalid_reader_status (ReaderEquipment_revoke reason reader))
      | Reader_Decommissioned \<Rightarrow>
          map_err invalid_reader_status (ReaderEquipment_decommission reader))"

definition ReaderEquipmentRow_into_versioned ::
  "UuidApi \<Rightarrow> ReaderEquipmentRow \<Rightarrow> PersistenceError + ReaderEquipment VersionedAggregate" where
  "ReaderEquipmentRow_into_versioned api row =
    and_then (map_err (\<lambda>_. InvalidStoredValue ''reader_equipment.id'')
      (identifier_try_from api ''reader identifier'' (reader_row_id row))) (\<lambda>i.
    and_then (map_err (\<lambda>_. InvalidStoredValue ''reader_equipment.equipment_key_id'')
      (identifier_try_from api ''equipment key identifier'' (reader_row_key_id row))) (\<lambda>key.
    and_then (decode_reader_status (reader_row_status row)) (\<lambda>status.
    and_then (map_transpose decode_reader_disablement_reason (reader_row_disablement_reason row))
      (\<lambda>disablement.
    and_then (map_transpose decode_reader_revocation_reason (reader_row_revocation_reason row))
      (\<lambda>revocation.
    and_then (reader_validate_lifecycle_fields status disablement revocation) (\<lambda>_.
    let reader = ReaderEquipment_new_pending i key in
    and_then (replay_reader status disablement revocation reader) (\<lambda>reader.
    and_then (decode_aggregate_version (reader_row_version row)) (\<lambda>version.
      Ok (VersionedAggregate reader version)))))))))"

definition DomainEventRecord_from_domain ::
  "(DomainEventPayload \<Rightarrow> 'j option) \<Rightarrow> DomainEvent \<Rightarrow> PersistenceError + 'j DomainEventRecord" where
  "DomainEventRecord_from_domain to_value ev =
    (case encode_aggregate_id (aggregate_id ev) of (kind, i) \<Rightarrow>
    and_then (encode_aggregate_version (aggregate_version ev)) (\<lambda>version.
    and_then (ok_or (to_value (payload ev)) (Serialization ''serialize domain event payload'')) (\<lambda>json.
      Ok \<lparr> record_id = event_id ev, record_aggregate_kind = kind, record_aggregate_id = i,
           record_aggregate_version = version, record_event_name = event_name (payload ev),
           record_occurred_at = encode_event_time (occurred_at ev), record_payload = json \<rparr>)))"

section \<open>Lemmas\<close>

lemmas column_decode_eq =
  account_status_codec.decode_eq eligibility_codec.decode_eq currency_codec.decode_eq
  credential_kind_codec.decode_eq credential_status_codec.decode_eq
  credential_revocation_reason_codec.decode_eq reader_status_codec.decode_eq
  reader_disablement_reason_codec.decode_eq reader_revocation_reason_codec.decode_eq

lemmas column_decode_encode =
  account_status_codec.decode_encode [OF TrueI] eligibility_codec.decode_encode [OF TrueI]
  currency_codec.decode_encode [OF TrueI] credential_kind_codec.decode_encode [OF TrueI]
  credential_status_codec.decode_encode [OF TrueI]
  credential_revocation_reason_codec.decode_encode [OF TrueI]
  reader_status_codec.decode_encode [OF TrueI]
  reader_disablement_reason_codec.decode_encode [OF TrueI]
  reader_revocation_reason_codec.decode_encode [OF TrueI]

text \<open>What the types and constructors of the source guarantee of every aggregate value.\<close>

definition credential_ok :: "UuidApi \<Rightarrow> FareCredential \<Rightarrow> bool" where
  "credential_ok api c \<longleftrightarrow>
    valid_identifier api (credential_id c) \<and> valid_identifier api (transit_account_id c) \<and>
    (case replacement_id c of None \<Rightarrow> True | Some r \<Rightarrow> valid_identifier api r) \<and> credential_inv c"

definition reader_ok :: "UuidApi \<Rightarrow> ReaderEquipment \<Rightarrow> bool" where
  "reader_ok api r \<longleftrightarrow>
    valid_identifier api (reader_id r) \<and> valid_identifier api (identity_key_id (identity r)) \<and>
    reader_inv r"

definition account_ok :: "UuidApi \<Rightarrow> TransitAccount \<Rightarrow> bool" where
  "account_ok api a \<longleftrightarrow>
    valid_identifier api (account_id a) \<and> valid_identifier api (rider_id a) \<and> account_inv a"

definition versioned_ok :: "('a \<Rightarrow> bool) \<Rightarrow> 'a VersionedAggregate \<Rightarrow> bool" where
  "versioned_ok ok va \<longleftrightarrow> ok (va_aggregate va) \<and> 0 < sint (va_version va)"

lemma map_transpose_codec:
  assumes "\<And>t x. decode t = Ok x \<longleftrightarrow> encode x = t"
  shows "map_transpose decode t = Ok x \<longleftrightarrow> map_option encode x = t"
  using assms by (cases t; cases x) (auto simp: result_simps)

lemmas column_transpose_eq =
  map_transpose_codec [OF credential_revocation_reason_codec.decode_eq [simplified]]
  map_transpose_codec [OF reader_disablement_reason_codec.decode_eq [simplified]]
  map_transpose_codec [OF reader_revocation_reason_codec.decode_eq [simplified]]

lemma column_transpose_encode:
  "map_transpose decode_credential_revocation_reason
    (map_option encode_credential_revocation_reason x) = Ok x"
  "map_transpose decode_reader_disablement_reason
    (map_option encode_reader_disablement_reason d) = Ok d"
  "map_transpose decode_reader_revocation_reason
    (map_option encode_reader_revocation_reason r) = Ok r"
  by (simp_all add: column_transpose_eq)

lemma identifier_transpose_eq:
  "map_transpose (identifier_try_from api kind) t = Ok x \<longleftrightarrow>
    x = t \<and> (case t of None \<Rightarrow> True | Some u \<Rightarrow> valid_identifier api u)"
  by (cases t; cases x) (auto simp: result_simps)

lemma replay_credential_eq:
  assumes "credential_validate_lifecycle_fields status reason replacement = Ok ()"
  shows "replay_credential status reason replacement (FareCredential_new_pending i acct k) = Ok c \<longleftrightarrow>
    replacement \<noteq> Some i \<and>
    c = \<lparr> credential_id = i, transit_account_id = acct, credential_kind = k,
      credential_status = status, credential_revocation_reason = reason,
      replacement_id = replacement \<rparr>"
  using assms
  by (cases status) (auto simp: replay_credential_def credential_validate_lifecycle_fields_def
      credential_op_defs FareCredential_new_pending_def result_simps split: if_splits)

lemma credential_lifecycle_fields_eq:
  "credential_validate_lifecycle_fields status reason replacement = Ok () \<longleftrightarrow>
    (reason \<noteq> None \<longleftrightarrow> status = Credential_Revoked) \<and>
    (replacement \<noteq> None \<longleftrightarrow> status = Credential_Replaced)"
  by (cases status) (auto simp: credential_validate_lifecycle_fields_def)

lemma credential_row_decode_eq:
  "FareCredentialRow_into_versioned api row = Ok (VersionedAggregate c v) \<longleftrightarrow>
    credential_ok api c \<and> 0 < sint v \<and> FareCredentialRow_from_domain c v = row"
  (is "?decoded \<longleftrightarrow> ?encoded")
proof
  assume ?decoded
  then show ?encoded
    by (auto simp: FareCredentialRow_into_versioned_def FareCredentialRow_from_domain_def
        result_simps column_decode_eq column_transpose_eq identifier_transpose_eq
        decode_aggregate_version_eq_Ok credential_ok_def Let_def replay_credential_eq
        credential_lifecycle_fields_eq credential_inv_def)
next
  assume ok: ?encoded
  have life: "credential_validate_lifecycle_fields (credential_status c)
      (credential_revocation_reason c) (replacement_id c) = Ok ()"
    using ok by (simp add: credential_lifecycle_fields_eq credential_ok_def credential_inv_def)
  have "replay_credential (credential_status c) (credential_revocation_reason c) (replacement_id c)
      (FareCredential_new_pending (credential_id c) (transit_account_id c) (credential_kind c)) = Ok c"
    using ok by (simp add: replay_credential_eq [OF life] credential_ok_def credential_inv_def)
  moreover have "map_transpose (identifier_try_from api ''fare credential identifier'')
      (replacement_id c) = Ok (replacement_id c)"
    using ok by (simp add: identifier_transpose_eq credential_ok_def)
  moreover have "decode_aggregate_version v = Ok v"
    using ok by (simp add: decode_aggregate_version_eq_Ok)
  ultimately show ?decoded
    using ok life by (auto simp: FareCredentialRow_into_versioned_def FareCredentialRow_from_domain_def
        column_decode_encode column_transpose_encode credential_ok_def Let_def)
qed

lemma credential_rows_decode:
  "FareCredentialRow_into_versioned api row = Ok va \<longleftrightarrow> versioned_ok (credential_ok api) va \<and>
    FareCredentialRow_from_domain (va_aggregate va) (va_version va) = row"
  by (cases va) (simp add: credential_row_decode_eq versioned_ok_def)

interpretation credential_rows: codec
  "\<lambda>va. FareCredentialRow_from_domain (va_aggregate va) (va_version va)"
  "FareCredentialRow_into_versioned api" "versioned_ok (credential_ok api)" for api
  by unfold_locales (simp_all add: credential_rows_decode)

lemma replay_reader_eq:
  assumes "reader_validate_lifecycle_fields status disablement revocation = Ok ()"
  shows "replay_reader status disablement revocation (ReaderEquipment_new_pending i k) = Ok r \<longleftrightarrow>
    r = \<lparr> reader_id = i, identity = EquipmentIdentity_new i k, reader_status = status,
      disablement_reason = disablement, reader_revocation_reason = revocation \<rparr>"
  using assms
  by (cases status) (auto simp: replay_reader_def reader_validate_lifecycle_fields_def
      reader_op_defs ReaderEquipment_new_pending_def result_simps split: if_splits)

lemma reader_lifecycle_fields_eq:
  "reader_validate_lifecycle_fields status disablement revocation = Ok () \<longleftrightarrow>
    (disablement \<noteq> None \<longleftrightarrow> status = Reader_Disabled) \<and>
    (revocation \<noteq> None \<longleftrightarrow> status = Reader_Revoked)"
  by (cases status) (auto simp: reader_validate_lifecycle_fields_def)

lemma reader_row_decode_eq:
  "ReaderEquipmentRow_into_versioned api row = Ok (VersionedAggregate r v) \<longleftrightarrow>
    reader_ok api r \<and> 0 < sint v \<and> ReaderEquipmentRow_from_domain r v = row"
  (is "?decoded \<longleftrightarrow> ?encoded")
proof
  assume ?decoded
  then show ?encoded
    by (auto simp: ReaderEquipmentRow_into_versioned_def ReaderEquipmentRow_from_domain_def
        result_simps column_decode_eq column_transpose_eq decode_aggregate_version_eq_Ok
        reader_ok_def Let_def replay_reader_eq reader_lifecycle_fields_eq reader_inv_def
        EquipmentIdentity_new_def)
next
  assume ok: ?encoded
  have life: "reader_validate_lifecycle_fields (reader_status r) (disablement_reason r)
      (reader_revocation_reason r) = Ok ()"
    using ok by (simp add: reader_lifecycle_fields_eq reader_ok_def reader_inv_def)
  have "identity r = EquipmentIdentity_new (reader_id r) (identity_key_id (identity r))"
    using ok by (simp add: reader_ok_def reader_inv_def EquipmentIdentity_new_def)
  then have "replay_reader (reader_status r) (disablement_reason r) (reader_revocation_reason r)
      (ReaderEquipment_new_pending (reader_id r) (identity_key_id (identity r))) = Ok r"
    by (simp add: replay_reader_eq [OF life])
  moreover have "decode_aggregate_version v = Ok v"
    using ok by (simp add: decode_aggregate_version_eq_Ok)
  ultimately show ?decoded
    using ok life by (auto simp: ReaderEquipmentRow_into_versioned_def
        ReaderEquipmentRow_from_domain_def column_decode_encode column_transpose_encode
        reader_ok_def Let_def)
qed

lemma reader_rows_decode:
  "ReaderEquipmentRow_into_versioned api row = Ok va \<longleftrightarrow> versioned_ok (reader_ok api) va \<and>
    ReaderEquipmentRow_from_domain (va_aggregate va) (va_version va) = row"
  by (cases va) (simp add: reader_row_decode_eq versioned_ok_def)

interpretation reader_rows: codec
  "\<lambda>va. ReaderEquipmentRow_from_domain (va_aggregate va) (va_version va)"
  "ReaderEquipmentRow_into_versioned api" "versioned_ok (reader_ok api)" for api
  by unfold_locales (simp_all add: reader_rows_decode)

text \<open>
  The currency column is \<open>CHAR(3)\<close> and is trimmed when it is read, so an account row is
  recovered up to blanks around the currency.
\<close>

lemma trim_currency [simp]: "trim_string (encode_currency c) = encode_currency c"
  by (cases c) (simp_all add: trim_string_def is_whitespace_def)

lemma replay_account_eq:
  "account_status a = Account_Active \<Longrightarrow> replay_account status a = Ok (a\<lparr> account_status := status \<rparr>)"
  by (cases status) (simp_all add: replay_account_def TransitAccount_suspend_def TransitAccount_close_def)

lemma stored_account_new_eq_Ok:
  "TransitAccount_new i r e m = Ok a \<longleftrightarrow> 0 \<le> units m \<and>
    a = \<lparr> account_id = i, rider_id = r, account_status = Account_Active, eligibility = e,
          stored_value = StoredValueBalance m \<rparr>"
  by (auto simp: TransitAccount_new_def StoredValueBalance_new_def is_negative_def result_simps)

lemma account_row_decode_eq:
  "TransitAccountRow_into_versioned api row = Ok (VersionedAggregate a v) \<longleftrightarrow>
    account_ok api a \<and> 0 < sint v \<and>
    TransitAccountRow_from_domain a v =
      row\<lparr> account_row_currency := trim_string (account_row_currency row) \<rparr>"
  (is "?decoded \<longleftrightarrow> ?encoded")
proof
  assume ?decoded
  then show ?encoded
    by (auto simp: TransitAccountRow_into_versioned_def TransitAccountRow_from_domain_def
        result_simps column_decode_eq decode_aggregate_version_eq_Ok account_ok_def
        stored_account_new_eq_Ok replay_account_eq account_inv_def from_minor_units_def)
next
  assume ok: ?encoded
  then have cols: "account_row_id row = account_id a" "account_row_rider_id row = rider_id a"
    "account_row_status row = encode_account_status (account_status a)"
    "account_row_eligibility row = encode_eligibility (eligibility a)"
    "account_row_minor_units row = minor_units (amount (stored_value a))"
    "trim_string (account_row_currency row) = encode_currency (currency (amount (stored_value a)))"
    "account_row_version row = v"
    by (cases row, simp add: TransitAccountRow_from_domain_def)+
  have m: "from_minor_units (minor_units (amount (stored_value a))) (currency (amount (stored_value a)))
      = amount (stored_value a)"
    by (simp add: from_minor_units_def)
  show ?decoded
    using ok
    by (auto simp: TransitAccountRow_into_versioned_def cols column_decode_encode m account_ok_def
        decode_aggregate_version_eq_Ok TransitAccount_new_def StoredValueBalance_new_def
        is_negative_def account_inv_def replay_account_eq result_simps)
qed

lemma account_rows_decode:
  "TransitAccountRow_into_versioned api row = Ok va \<longleftrightarrow> versioned_ok (account_ok api) va \<and>
    TransitAccountRow_from_domain (va_aggregate va) (va_version va) =
      row\<lparr> account_row_currency := trim_string (account_row_currency row) \<rparr>"
  by (cases va) (simp add: account_row_decode_eq versioned_ok_def)

text \<open>The bit layout of a version 7 UUID, for concrete examples.\<close>

definition layout_uuid_api :: UuidApi where
  "layout_uuid_api =
    \<lparr> uuid_is_nil = (\<lambda>u. u = 0),
      uuid_is_rfc4122 = (\<lambda>u. take_bit 2 (drop_bit 62 u) = 2),
      uuid_is_sort_rand = (\<lambda>u. take_bit 4 (drop_bit 76 u) = 7),
      uuid_parse = (\<lambda>_. None), uuid_to_string = (\<lambda>_. []) \<rparr>"

definition example_uuid :: "nat \<Rightarrow> Uuid" where
  "example_uuid n = push_bit 76 7 + push_bit 62 2 + of_nat n"

lemma example_uuid_code [code]: "example_uuid n = 528914269453437118709760 + of_nat n"
  by (simp add: example_uuid_def)

lemma example_uuid_valid [simp]:
  "valid_identifier layout_uuid_api (example_uuid 5)"
  "valid_identifier layout_uuid_api (example_uuid 2)"
  "valid_identifier layout_uuid_api (example_uuid 3)"
  "valid_identifier layout_uuid_api (example_uuid 4)"
  by (simp_all add: valid_identifier_def layout_uuid_api_def example_uuid_def)

lemma example_uuid_distinct: "example_uuid 3 \<noteq> example_uuid 5"
  by (simp add: example_uuid_def)

section \<open>Properties\<close>

text \<open>
  C40. Storing loses nothing: the row written for a well-formed account, credential or reader at
  a version the \<open>BIGINT\<close> column can hold is read back, by replaying the aggregate's mutators, as
  exactly that aggregate at that version.
\<close>

theorem stored_aggregates_roundtrip:
  assumes "account_ok api a" "credential_ok api c" "reader_ok api r"
    and "encode_aggregate_version v = Ok n" "v \<noteq> 0"
  shows "TransitAccountRow_into_versioned api (TransitAccountRow_from_domain a n) =
      Ok (VersionedAggregate a v) \<and>
    FareCredentialRow_into_versioned api (FareCredentialRow_from_domain c n) =
      Ok (VersionedAggregate c v) \<and>
    ReaderEquipmentRow_into_versioned api (ReaderEquipmentRow_from_domain r n) =
      Ok (VersionedAggregate r v)"
proof -
  have "n = v" "0 < sint v"
    using assms(4,5) stored_version_positive by (auto simp: result_simps)
  moreover have "(TransitAccountRow_from_domain a v)\<lparr> account_row_currency :=
      trim_string (account_row_currency (TransitAccountRow_from_domain a v)) \<rparr> =
    TransitAccountRow_from_domain a v"
    by (simp add: TransitAccountRow_from_domain_def)
  ultimately show ?thesis
    using assms(1-3) by (simp add: account_row_decode_eq credential_row_decode_eq reader_row_decode_eq)
qed

theorem stored_aggregates_roundtrip_witness:
  "FareCredentialRow_into_versioned layout_uuid_api
     (FareCredentialRow_from_domain
       ((FareCredential_new_pending (example_uuid 5) (example_uuid 2) Card)
         \<lparr> credential_status := Credential_Replaced, replacement_id := Some (example_uuid 3) \<rparr>) 5) =
   Ok (VersionedAggregate
       ((FareCredential_new_pending (example_uuid 5) (example_uuid 2) Card)
         \<lparr> credential_status := Credential_Replaced, replacement_id := Some (example_uuid 3) \<rparr>) 5)"
proof -
  let ?c = "(FareCredential_new_pending (example_uuid 5) (example_uuid 2) Card)
    \<lparr> credential_status := Credential_Replaced, replacement_id := Some (example_uuid 3) \<rparr>"
  have c: "credential_ok layout_uuid_api ?c"
    using example_uuid_distinct by (simp add: credential_ok_def credential_inv_def
        FareCredential_new_pending_def)
  have r: "reader_ok layout_uuid_api (ReaderEquipment_new_pending (example_uuid 5) (example_uuid 4))"
    by (simp add: reader_ok_def reader_inv_def ReaderEquipment_new_pending_def EquipmentIdentity_new_def)
  have a: "account_ok layout_uuid_api \<lparr> account_id = example_uuid 2, rider_id = example_uuid 4,
      account_status = Account_Active, eligibility = Standard,
      stored_value = StoredValueBalance (from_minor_units 100 Usd) \<rparr>"
    by (simp add: account_ok_def account_inv_def from_minor_units_def)
  have "encode_aggregate_version 5 = Ok 5" "(5 :: AggregateVersion) \<noteq> 0"
    by (simp_all add: encode_aggregate_version_def i64_max_def)
  from stored_aggregates_roundtrip [OF a c r this] show ?thesis by blast
qed


end
