(* ===== verification/Tables.thy ===== *)
theory Tables
  imports Rows
begin

text \<open>
  The SQL of the backend's repositories: the tables and constraints of
  \<open>crates/persistence/migrations/0002_create_core_persistence_schema.sql\<close> and
  \<open>0003_create_reader_equipment_schema.sql\<close>, and the statements of
  \<open>crates/persistence/src/repositories/*.rs\<close>, as functions on lists of rows.  A statement is
  refused with the violation the driver reports: check constraints first, then unique keys, then
  immediate foreign keys.  The deferred foreign key of \<open>replacement_id\<close> is \<open>deferred_ok\<close>,
  tested at commit.  \<open>is_object\<close> stands for \<open>JSONB_TYPEOF(..) = 'object'\<close>.  No statement deletes a
  row and none changes an identifier.
\<close>

record 'j Db =
  db_accounts :: "TransitAccountRow list"
  db_credentials :: "FareCredentialRow list"
  db_readers :: "ReaderEquipmentRow list"
  db_events :: "'j DomainEventRecord list"

datatype 'j Statement =
    InsertAccount TransitAccountRow
  | UpdateAccount TransitAccountRow i64
  | InsertCredential FareCredentialRow
  | UpdateCredential FareCredentialRow i64
  | InsertReader ReaderEquipmentRow
  | UpdateReader ReaderEquipmentRow i64
  | InsertEvent "'j DomainEventRecord"

text \<open>
  The three checks on an identifier column read the text form of a UUID: its 15th character is the
  version digit, its 20th the digit that holds the variant.
\<close>

definition uuid_column_ok :: "Uuid \<Rightarrow> bool" where
  "uuid_column_ok u \<longleftrightarrow> u \<noteq> 0 \<and> take_bit 4 (drop_bit 76 u) = 7 \<and>
    take_bit 4 (drop_bit 60 u) \<in> {8, 9, 10, 11}"

definition account_checks :: "TransitAccountRow \<Rightarrow> bool" where
  "account_checks r \<longleftrightarrow>
    uuid_column_ok (account_row_id r) \<and> uuid_column_ok (account_row_rider_id r) \<and>
    account_row_status r \<in> {''active'', ''suspended'', ''closed''} \<and>
    account_row_eligibility r \<in> {''standard'', ''youth'', ''senior'', ''reduced_fare'',
      ''employee_test_account''} \<and>
    0 \<le> sint (account_row_minor_units r) \<and>
    account_row_currency r \<in> {''USD'', ''CAD'', ''EUR'', ''GBP''} \<and>
    0 < sint (account_row_version r)"

definition credential_checks :: "FareCredentialRow \<Rightarrow> bool" where
  "credential_checks r \<longleftrightarrow>
    uuid_column_ok (credential_row_id r) \<and>
    credential_row_kind r \<in> {''card'', ''mobile'', ''development_test_token''} \<and>
    credential_row_status r \<in> {''pending'', ''active'', ''suspended'', ''revoked'', ''expired'',
      ''replaced''} \<and>
    (case credential_row_revocation_reason r of
       None \<Rightarrow> True
     | Some reason \<Rightarrow> reason \<in> {''reported_lost'', ''reported_stolen'', ''replaced'',
         ''account_suspended'', ''administrative_action'', ''security_incident'', ''test_cleanup''}) \<and>
    (credential_row_status r = ''revoked'' \<longleftrightarrow> credential_row_revocation_reason r \<noteq> None) \<and>
    (credential_row_status r = ''replaced'' \<longleftrightarrow> credential_row_replacement_id r \<noteq> None) \<and>
    credential_row_replacement_id r \<noteq> Some (credential_row_id r) \<and>
    0 < sint (credential_row_version r)"

definition reader_checks :: "ReaderEquipmentRow \<Rightarrow> bool" where
  "reader_checks r \<longleftrightarrow>
    uuid_column_ok (reader_row_id r) \<and> uuid_column_ok (reader_row_key_id r) \<and>
    reader_row_status r \<in> {''pending_registration'', ''active'', ''offline'', ''disabled'',
      ''revoked'', ''decommissioned''} \<and>
    (case reader_row_disablement_reason r of
       None \<Rightarrow> True
     | Some reason \<Rightarrow> reason \<in> {''suspected_compromise'', ''lost_equipment'',
         ''invalid_configuration'', ''administrative_action'', ''test_cleanup''}) \<and>
    (case reader_row_revocation_reason r of
       None \<Rightarrow> True
     | Some reason \<Rightarrow> reason \<in> {''suspected_compromise'', ''credential_exposure'',
         ''administrative_action'', ''security_incident'', ''test_cleanup''}) \<and>
    (reader_row_status r = ''disabled'' \<longleftrightarrow> reader_row_disablement_reason r \<noteq> None) \<and>
    (reader_row_status r = ''revoked'' \<longleftrightarrow> reader_row_revocation_reason r \<noteq> None) \<and>
    0 < sint (reader_row_version r)"

text \<open>\<open>event_name LIKE aggregate_kind || '.%'\<close>: an underscore of the pattern matches any character.\<close>

definition like_prefix :: "string \<Rightarrow> string \<Rightarrow> bool" where
  "like_prefix p s \<longleftrightarrow> length p \<le> length s \<and>
    list_all2 (\<lambda>x y. x = CHR ''_'' \<or> x = y) p (take (length p) s)"

definition event_checks :: "('j \<Rightarrow> bool) \<Rightarrow> 'j DomainEventRecord \<Rightarrow> bool" where
  "event_checks is_object r \<longleftrightarrow>
    uuid_column_ok (record_id r) \<and> uuid_column_ok (record_aggregate_id r) \<and>
    record_aggregate_kind r \<in> {''transit_account'', ''fare_credential'', ''reader_equipment'',
      ''fare_transaction''} \<and>
    0 < sint (record_aggregate_version r) \<and> 0 \<le> sint (record_occurred_at r) \<and>
    is_object (record_payload r) \<and>
    record_event_name r \<noteq> [] \<and> like_prefix (record_aggregate_kind r @ ''.'') (record_event_name r)"

definition account_exists :: "'j Db \<Rightarrow> Uuid \<Rightarrow> bool" where
  "account_exists db i \<longleftrightarrow> i \<in> set (map account_row_id (db_accounts db))"

definition replacement_taken :: "FareCredentialRow \<Rightarrow> FareCredentialRow list \<Rightarrow> bool" where
  "replacement_taken row rows \<longleftrightarrow> credential_row_replacement_id row \<noteq> None \<and>
    list_ex (\<lambda>r. credential_row_id r \<noteq> credential_row_id row \<and>
      credential_row_replacement_id r = credential_row_replacement_id row) rows"

fun exec_statement ::
  "('j \<Rightarrow> bool) \<Rightarrow> 'j Statement \<Rightarrow> 'j Db \<Rightarrow> DriverError + nat \<times> 'j Db" where
  "exec_statement obj (InsertAccount row) db =
    (if \<not> account_checks row then Err CheckViolation
     else if account_exists db (account_row_id row) then Err UniqueViolation
     else if account_row_rider_id row \<in> set (map account_row_rider_id (db_accounts db))
     then Err UniqueViolation
     else Ok (1, db\<lparr> db_accounts := db_accounts db @ [row] \<rparr>))"
| "exec_statement obj (UpdateAccount row expected) db =
    (let hit = (\<lambda>r. account_row_id r = account_row_id row \<and> account_row_version r = expected) in
     if \<not> list_ex hit (db_accounts db) then Ok (0, db)
     else if \<not> account_checks row then Err CheckViolation
     else if list_ex (\<lambda>r. \<not> hit r \<and> account_row_rider_id r = account_row_rider_id row) (db_accounts db)
     then Err UniqueViolation
     else Ok (length (filter hit (db_accounts db)),
       db\<lparr> db_accounts := map (\<lambda>r. if hit r then row else r) (db_accounts db) \<rparr>))"
| "exec_statement obj (InsertCredential row) db =
    (if \<not> credential_checks row then Err CheckViolation
     else if credential_row_id row \<in> set (map credential_row_id (db_credentials db))
     then Err UniqueViolation
     else if replacement_taken row (db_credentials db) then Err UniqueViolation
     else if \<not> account_exists db (credential_row_account_id row) then Err ForeignKeyViolation
     else Ok (1, db\<lparr> db_credentials := db_credentials db @ [row] \<rparr>))"
| "exec_statement obj (UpdateCredential row expected) db =
    (let hit = (\<lambda>r. credential_row_id r = credential_row_id row \<and> credential_row_version r = expected) in
     if \<not> list_ex hit (db_credentials db) then Ok (0, db)
     else if \<not> credential_checks row then Err CheckViolation
     else if replacement_taken row (db_credentials db) then Err UniqueViolation
     else if \<not> account_exists db (credential_row_account_id row) then Err ForeignKeyViolation
     else Ok (length (filter hit (db_credentials db)),
       db\<lparr> db_credentials := map (\<lambda>r. if hit r then row else r) (db_credentials db) \<rparr>))"
| "exec_statement obj (InsertReader row) db =
    (if \<not> reader_checks row then Err CheckViolation
     else if reader_row_id row \<in> set (map reader_row_id (db_readers db)) then Err UniqueViolation
     else if reader_row_key_id row \<in> set (map reader_row_key_id (db_readers db))
     then Err UniqueViolation
     else Ok (1, db\<lparr> db_readers := db_readers db @ [row] \<rparr>))"
| "exec_statement obj (UpdateReader row expected) db =
    (let hit = (\<lambda>r. reader_row_id r = reader_row_id row \<and> reader_row_version r = expected) in
     if \<not> list_ex hit (db_readers db) then Ok (0, db)
     else if \<not> reader_checks row then Err CheckViolation
     else if list_ex (\<lambda>r. \<not> hit r \<and> reader_row_key_id r = reader_row_key_id row) (db_readers db)
     then Err UniqueViolation
     else Ok (length (filter hit (db_readers db)),
       db\<lparr> db_readers := map (\<lambda>r. if hit r then row else r) (db_readers db) \<rparr>))"
| "exec_statement obj (InsertEvent r) db =
    (if \<not> event_checks obj r then Err CheckViolation
     else if record_id r \<in> set (map record_id (db_events db)) then Err UniqueViolation
     else if list_ex (\<lambda>e. record_aggregate_kind e = record_aggregate_kind r \<and>
         record_aggregate_id e = record_aggregate_id r \<and>
         record_aggregate_version e = record_aggregate_version r) (db_events db)
     then Err UniqueViolation
     else Ok (1, db\<lparr> db_events := db_events db @ [r] \<rparr>))"

text \<open>Statements that each write one row, one after the other.\<close>

primrec exec_statements :: "('j \<Rightarrow> bool) \<Rightarrow> 'j Statement list \<Rightarrow> 'j Db \<Rightarrow> 'j Db option" where
  "exec_statements obj [] db = Some db"
| "exec_statements obj (st # sts) db =
    (case exec_statement obj st db of
       Ok (n, db') \<Rightarrow> if n = 1 then exec_statements obj sts db' else None
     | Err _ \<Rightarrow> None)"

definition deferred_ok :: "'j Db \<Rightarrow> bool" where
  "deferred_ok db \<longleftrightarrow> list_all (\<lambda>r. case credential_row_replacement_id r of
      None \<Rightarrow> True
    | Some i \<Rightarrow> i \<in> set (map credential_row_id (db_credentials db))) (db_credentials db)"

definition find_account_row :: "'j Db \<Rightarrow> Uuid \<Rightarrow> TransitAccountRow option" where
  "find_account_row db i = find (\<lambda>r. account_row_id r = i) (db_accounts db)"

definition find_credential_row :: "'j Db \<Rightarrow> Uuid \<Rightarrow> FareCredentialRow option" where
  "find_credential_row db i = find (\<lambda>r. credential_row_id r = i) (db_credentials db)"

definition find_reader_row :: "'j Db \<Rightarrow> Uuid \<Rightarrow> ReaderEquipmentRow option" where
  "find_reader_row db i = find (\<lambda>r. reader_row_id r = i) (db_readers db)"

section \<open>Lemmas\<close>

declare exec_statement.simps [simp del]

lemma find_unique_key:
  assumes "distinct (map key rows)" "r \<in> set rows"
  shows "find (\<lambda>x. key x = key r) rows = Some r"
  using assms by (induction rows) force+

lemma find_key_SomeD: "find (\<lambda>x. key x = i) rows = Some r \<Longrightarrow> r \<in> set rows \<and> key r = i"
  by (auto simp: find_Some_iff)

lemma find_key_None: "find (\<lambda>x. key x = i) rows = None \<longleftrightarrow> i \<notin> set (map key rows)"
  by (auto simp: find_None_iff)

lemma find_append_key:
  assumes "key row \<notin> set (map key rows)"
  shows "find (\<lambda>x. key x = i) (rows @ [row]) =
    (if key row = i then Some row else find (\<lambda>x. key x = i) rows)"
  using assms by (induction rows) auto

text \<open>Replacing the row of one key, as an \<open>UPDATE\<close> by identifier and version does.\<close>

lemma find_update_key:
  assumes "distinct (map key rows)" "old \<in> set rows" "key old = key row" "P old"
  shows "find (\<lambda>x. key x = i) (map (\<lambda>r. if key r = key row \<and> P r then row else r) rows) =
    (if key row = i then Some row else find (\<lambda>x. key x = i) rows)"
  using assms
proof (induction rows)
  case (Cons r rows)
  show ?case
  proof (cases "old = r")
    case True
    then have "\<forall>x\<in>set rows. key x \<noteq> key row"
      using Cons.prems by (metis distinct.simps(2) image_eqI list.set_map list.simps(9))
    then have "map (\<lambda>r. if key r = key row \<and> P r then row else r) rows = rows"
      by (intro map_idI) auto
    then show ?thesis
      using True Cons.prems by simp
  next
    case False
    then have "key r \<noteq> key row"
      using Cons.prems by (metis distinct.simps(2) image_eqI list.set_map list.simps(9) set_ConsD)
    then show ?thesis
      using False Cons by auto
  qed
qed simp

lemma map_key_update:
  "map key (map (\<lambda>r. if key r = key row \<and> P r then row else r) rows) = map key rows"
  by simp

end
