(* ===== verification/CredentialUseCases.thy ===== *)
theory CredentialUseCases
  imports Ports
begin

text \<open>
  The five fare-credential services of \<open>crates/application/src/use_cases/\<close>, each \<open>execute\<close> as
  one definition over the transaction ports.  The clock's answer and the identifiers drawn from
  the generators are arguments; \<open>api\<close> renders identifiers in error texts.
\<close>

record IssueFareCredentialCommand =
  issue_account_id :: TransitAccountId
  issue_kind :: FareCredentialKind

record IssuedFareCredential =
  issued_credential_id :: FareCredentialId
  issued_account_id :: TransitAccountId
  issued_kind :: FareCredentialKind
  issued_status :: FareCredentialStatus

definition IssueFareCredential_execute ::
  "UuidApi \<Rightarrow> ('w, 'e) TransactionPorts \<Rightarrow> 'c ClockError + DomainEventTime
    \<Rightarrow> FareCredentialId \<Rightarrow> DomainEventId \<Rightarrow> IssueFareCredentialCommand
    \<Rightarrow> ('w, ('e, 'c) ApplicationError, IssuedFareCredential) fallible" where
  "IssueFareCredential_execute api P clock new_id ev_id command w =
    (case clock of
       Err e \<Rightarrow> (Err (App_Clock e), w)
     | Ok time \<Rightarrow>
    began P (
    attempt P (tx_find_transit_account P (issue_account_id command)) (\<lambda>found.
    or_rollback P (ok_or found
      (NotFound ''transit account'' (identifier_to_string api (issue_account_id command)))) (\<lambda>account.
    or_rollback P (ensure (account_status (va_aggregate account) = Account_Active)
      (Conflict ''issue fare credential'' ''transit account is not active'')) (\<lambda>_.
    let credential = FareCredential_new_pending new_id (issue_account_id command) (issue_kind command) in
    or_rollback P (map_err (\<lambda>_. Conflict ''issue fare credential'' ''initial aggregate version is invalid'')
      (AggregateVersion_new 1)) (\<lambda>version.
    or_rollback P (map_err (\<lambda>_. Conflict ''issue fare credential'' ''credential issuance event is invalid'')
      (DomainEvent_new ev_id version time
        (FareCredentialIssued new_id (issue_account_id command) (issue_kind command)))) (\<lambda>event.
    attempt P (tx_save_fare_credential P credential MustNotExist) (\<lambda>_.
    attempt P (tx_append_domain_event P event) (\<lambda>_.
    committed P
      \<lparr> issued_credential_id = new_id, issued_account_id = issue_account_id command,
        issued_kind = issue_kind command, issued_status = credential_status credential \<rparr>)))))))) w)"

record ActivatedFareCredential =
  activated_credential_id :: FareCredentialId
  activated_previous_status :: FareCredentialStatus
  activated_current_status :: FareCredentialStatus
  activated_changed :: bool

definition ActivateFareCredential_execute ::
  "UuidApi \<Rightarrow> ('w, 'e) TransactionPorts \<Rightarrow> 'c ClockError + DomainEventTime
    \<Rightarrow> DomainEventId \<Rightarrow> FareCredentialId
    \<Rightarrow> ('w, ('e, 'c) ApplicationError, ActivatedFareCredential) fallible" where
  "ActivateFareCredential_execute api P clock ev_id cid w =
    began P (
    attempt P (tx_find_fare_credential P cid) (\<lambda>found.
    or_rollback P (ok_or found (NotFound ''fare credential'' (identifier_to_string api cid))) (\<lambda>loaded.
    let previous_status = credential_status (va_aggregate loaded) in
    if previous_status = Credential_Active
    then committed P
      \<lparr> activated_credential_id = cid, activated_previous_status = previous_status,
        activated_current_status = Credential_Active, activated_changed = False \<rparr>
    else
    or_rollback P (ok_or (next_version loaded)
      (Conflict ''activate fare credential'' ''aggregate version is exhausted'')) (\<lambda>next.
    or_rollback P (map_err App_FareCredential (FareCredential_activate (va_aggregate loaded))) (\<lambda>credential.
    or_rollback P (map_err App_Clock clock) (\<lambda>time.
    or_rollback P (map_err (\<lambda>_. Conflict ''activate fare credential'' ''credential activation event is invalid'')
      (DomainEvent_new ev_id next time
        (FareCredentialStatusChanged cid previous_status Credential_Active))) (\<lambda>event.
    attempt P (tx_save_fare_credential P credential (IfVersion (va_version loaded))) (\<lambda>_.
    attempt P (tx_append_domain_event P event) (\<lambda>_.
    committed P
      \<lparr> activated_credential_id = cid, activated_previous_status = previous_status,
        activated_current_status = credential_status credential, activated_changed = True \<rparr>))))))))) w"

record SuspendedFareCredential =
  suspended_credential_id :: FareCredentialId
  suspended_previous_status :: FareCredentialStatus
  suspended_current_status :: FareCredentialStatus
  suspended_changed :: bool

definition SuspendFareCredential_execute ::
  "UuidApi \<Rightarrow> ('w, 'e) TransactionPorts \<Rightarrow> 'c ClockError + DomainEventTime
    \<Rightarrow> DomainEventId \<Rightarrow> FareCredentialId
    \<Rightarrow> ('w, ('e, 'c) ApplicationError, SuspendedFareCredential) fallible" where
  "SuspendFareCredential_execute api P clock ev_id cid w =
    began P (
    attempt P (tx_find_fare_credential P cid) (\<lambda>found.
    or_rollback P (ok_or found (NotFound ''fare credential'' (identifier_to_string api cid))) (\<lambda>loaded.
    let previous_status = credential_status (va_aggregate loaded) in
    if previous_status = Credential_Suspended
    then committed P
      \<lparr> suspended_credential_id = cid, suspended_previous_status = previous_status,
        suspended_current_status = Credential_Suspended, suspended_changed = False \<rparr>
    else
    or_rollback P (ok_or (next_version loaded)
      (Conflict ''suspend fare credential'' ''aggregate version is exhausted'')) (\<lambda>next.
    or_rollback P (map_err App_FareCredential (FareCredential_suspend (va_aggregate loaded))) (\<lambda>credential.
    or_rollback P (map_err App_Clock clock) (\<lambda>time.
    or_rollback P (map_err (\<lambda>_. Conflict ''suspend fare credential'' ''credential suspension event is invalid'')
      (DomainEvent_new ev_id next time
        (FareCredentialStatusChanged cid previous_status Credential_Suspended))) (\<lambda>event.
    attempt P (tx_save_fare_credential P credential (IfVersion (va_version loaded))) (\<lambda>_.
    attempt P (tx_append_domain_event P event) (\<lambda>_.
    committed P
      \<lparr> suspended_credential_id = cid, suspended_previous_status = previous_status,
        suspended_current_status = credential_status credential, suspended_changed = True \<rparr>))))))))) w"

record RevokeFareCredentialCommand =
  revoke_credential_id :: FareCredentialId
  revoke_reason :: RevocationReason

record RevokedFareCredential =
  revoked_credential_id :: FareCredentialId
  revoked_previous_status :: FareCredentialStatus
  revoked_current_status :: FareCredentialStatus
  revoked_reason :: RevocationReason
  revoked_changed :: bool

definition RevokeFareCredential_execute ::
  "UuidApi \<Rightarrow> ('w, 'e) TransactionPorts \<Rightarrow> 'c ClockError + DomainEventTime
    \<Rightarrow> DomainEventId \<Rightarrow> RevokeFareCredentialCommand
    \<Rightarrow> ('w, ('e, 'c) ApplicationError, RevokedFareCredential) fallible" where
  "RevokeFareCredential_execute api P clock ev_id command w =
    (let cid = revoke_credential_id command in
    began P (
    attempt P (tx_find_fare_credential P cid) (\<lambda>found.
    or_rollback P (ok_or found (NotFound ''fare credential'' (identifier_to_string api cid))) (\<lambda>loaded.
    let previous_status = credential_status (va_aggregate loaded) in
    if previous_status = Credential_Revoked
    then committed P
      \<lparr> revoked_credential_id = cid, revoked_previous_status = previous_status,
        revoked_current_status = Credential_Revoked,
        revoked_reason = (case credential_revocation_reason (va_aggregate loaded) of
            Some reason \<Rightarrow> reason | None \<Rightarrow> revoke_reason command),
        revoked_changed = False \<rparr>
    else
    or_rollback P (ok_or (next_version loaded)
      (Conflict ''revoke fare credential'' ''aggregate version is exhausted'')) (\<lambda>next.
    or_rollback P (map_err App_FareCredential
      (FareCredential_revoke (revoke_reason command) (va_aggregate loaded))) (\<lambda>credential.
    or_rollback P (map_err App_Clock clock) (\<lambda>time.
    or_rollback P (map_err (\<lambda>_. Conflict ''revoke fare credential'' ''credential revocation event is invalid'')
      (DomainEvent_new ev_id next time
        (FareCredentialStatusChanged cid previous_status Credential_Revoked))) (\<lambda>event.
    attempt P (tx_save_fare_credential P credential (IfVersion (va_version loaded))) (\<lambda>_.
    attempt P (tx_append_domain_event P event) (\<lambda>_.
    committed P
      \<lparr> revoked_credential_id = cid, revoked_previous_status = previous_status,
        revoked_current_status = credential_status credential,
        revoked_reason = (case credential_revocation_reason credential of
            Some reason \<Rightarrow> reason | None \<Rightarrow> revoke_reason command),
        revoked_changed = True \<rparr>))))))))) w)"

record ReplaceFareCredentialCommand =
  replace_credential_id :: FareCredentialId
  replacement_kind :: FareCredentialKind

record ReplacedFareCredential =
  replaced_original_id :: FareCredentialId
  replaced_replacement_id :: FareCredentialId
  replaced_previous_status :: FareCredentialStatus
  replaced_current_status :: FareCredentialStatus
  replaced_replacement_status :: FareCredentialStatus
  replaced_changed :: bool

text \<open>
  \<open>execute\<close> of the replacement service: \<open>report_replacement\<close> is its branch for a credential that
  was replaced before, \<open>perform_replacement\<close> the rest.  \<open>ev_id\<close> is drawn for the original's event
  and \<open>new_ev_id\<close> for the issuance event of the replacement.
\<close>

definition report_replacement ::
  "('w, 'e) TransactionPorts \<Rightarrow> FareCredentialId \<Rightarrow> FareCredential VersionedAggregate
    \<Rightarrow> ('w, ('e, 'c) ApplicationError, ReplacedFareCredential) fallible" where
  "report_replacement P cid loaded =
    or_rollback P (ok_or (replacement_id (va_aggregate loaded))
      (Conflict ''replace fare credential'' ''replaced credential has no successor'')) (\<lambda>new_id.
    attempt P (tx_find_fare_credential P new_id) (\<lambda>found.
    or_rollback P (ok_or found
      (Conflict ''replace fare credential'' ''recorded replacement credential is missing'')) (\<lambda>recorded.
    or_rollback P (ensure
      (transit_account_id (va_aggregate recorded) = transit_account_id (va_aggregate loaded))
      (Conflict ''replace fare credential'' ''recorded replacement belongs to another account'')) (\<lambda>_.
    committed P
      \<lparr> replaced_original_id = cid, replaced_replacement_id = new_id,
        replaced_previous_status = credential_status (va_aggregate loaded),
        replaced_current_status = Credential_Replaced,
        replaced_replacement_status = credential_status (va_aggregate recorded),
        replaced_changed = False \<rparr>))))"

definition perform_replacement ::
  "('w, 'e) TransactionPorts \<Rightarrow> 'c ClockError + DomainEventTime
    \<Rightarrow> FareCredentialId \<Rightarrow> DomainEventId \<Rightarrow> DomainEventId \<Rightarrow> ReplaceFareCredentialCommand
    \<Rightarrow> FareCredential VersionedAggregate
    \<Rightarrow> ('w, ('e, 'c) ApplicationError, ReplacedFareCredential) fallible" where
  "perform_replacement P clock new_id ev_id new_ev_id command loaded =
    or_rollback P (ok_or (next_version loaded)
      (Conflict ''replace fare credential'' ''aggregate version is exhausted'')) (\<lambda>next.
    or_rollback P (map_err (\<lambda>_. Conflict ''replace fare credential'' ''replacement aggregate version is invalid'')
      (AggregateVersion_new 1)) (\<lambda>first.
    let acct = transit_account_id (va_aggregate loaded);
        previous_status = credential_status (va_aggregate loaded);
        replacement = FareCredential_new_pending new_id acct (replacement_kind command) in
    or_rollback P (map_err App_FareCredential
      (FareCredential_replace_with new_id (va_aggregate loaded))) (\<lambda>original.
    or_rollback P (map_err App_Clock clock) (\<lambda>time.
    or_rollback P (map_err (\<lambda>_. Conflict ''replace fare credential'' ''original credential event is invalid'')
      (DomainEvent_new ev_id next time (FareCredentialStatusChanged (replace_credential_id command)
        previous_status Credential_Replaced))) (\<lambda>original_event.
    or_rollback P (map_err (\<lambda>_. Conflict ''replace fare credential'' ''replacement issuance event is invalid'')
      (DomainEvent_new new_ev_id first time
        (FareCredentialIssued new_id acct (replacement_kind command)))) (\<lambda>replacement_event.
    attempt P (tx_save_fare_credential P original (IfVersion (va_version loaded))) (\<lambda>_.
    attempt P (tx_save_fare_credential P replacement MustNotExist) (\<lambda>_.
    attempt P (tx_append_domain_event P original_event) (\<lambda>_.
    attempt P (tx_append_domain_event P replacement_event) (\<lambda>_.
    committed P
      \<lparr> replaced_original_id = replace_credential_id command, replaced_replacement_id = new_id,
        replaced_previous_status = previous_status,
        replaced_current_status = credential_status original,
        replaced_replacement_status = credential_status replacement,
        replaced_changed = True \<rparr>))))))))))"

definition ReplaceFareCredential_execute ::
  "UuidApi \<Rightarrow> ('w, 'e) TransactionPorts \<Rightarrow> 'c ClockError + DomainEventTime
    \<Rightarrow> FareCredentialId \<Rightarrow> DomainEventId \<Rightarrow> DomainEventId \<Rightarrow> ReplaceFareCredentialCommand
    \<Rightarrow> ('w, ('e, 'c) ApplicationError, ReplacedFareCredential) fallible" where
  "ReplaceFareCredential_execute api P clock new_id ev_id new_ev_id command w =
    (let cid = replace_credential_id command in
    began P (
    attempt P (tx_find_fare_credential P cid) (\<lambda>found.
    or_rollback P (ok_or found (NotFound ''fare credential'' (identifier_to_string api cid))) (\<lambda>loaded.
    if credential_status (va_aggregate loaded) = Credential_Replaced
    then report_replacement P cid loaded
    else perform_replacement P clock new_id ev_id new_ev_id command loaded))) w)"

section \<open>Lemmas\<close>

text \<open>Reasoning through the combinators: what holds of every way a step may end.\<close>

lemma began_cases:
  assumes "\<And>w'. tx_begin P w = (Ok (), w') \<Longrightarrow> Q (k w')"
    and "\<And>e w'. tx_begin P w = (Err e, w') \<Longrightarrow> Q (Err (App_Repository e), w')"
  shows "Q (began P k w)"
proof -
  obtain r w' where eq: "tx_begin P w = (r, w')" by (cases "tx_begin P w")
  with assms show ?thesis by (cases r) (simp_all add: began_def)
qed

lemma attempt_cases:
  assumes "\<And>x w'. op w = (Ok x, w') \<Longrightarrow> Q (k x w')"
    and "\<And>e w'. op w = (Err e, w') \<Longrightarrow> Q (rollback_with P (App_Repository e) w')"
  shows "Q (attempt P op k w)"
proof -
  obtain r w' where eq: "op w = (r, w')" by (cases "op w")
  with assms show ?thesis by (cases r) (simp_all add: attempt_def)
qed

lemma or_rollback_cases:
  assumes "\<And>x. r = Ok x \<Longrightarrow> Q (k x w)"
    and "\<And>e. r = Err e \<Longrightarrow> Q (rollback_with P e w)"
  shows "Q (or_rollback P r k w)"
  using assms by (auto simp: or_rollback_def split: sum.split)

lemma committed_cases:
  assumes "\<And>w'. tx_commit P w = (Ok (), w') \<Longrightarrow> Q (Ok result, w')"
    and "\<And>e w'. tx_commit P w = (Err e, w') \<Longrightarrow> Q (Err (App_Repository e), w')"
  shows "Q (committed P result w)"
proof -
  obtain r w' where eq: "tx_commit P w = (r, w')" by (cases "tx_commit P w")
  with assms show ?thesis by (cases r) (simp_all add: committed_def)
qed

lemma rollback_with_cases:
  assumes "\<And>r w' e'. tx_rollback P w = (r, w') \<Longrightarrow> Q (Err e', w')"
  shows "Q (rollback_with P e w)"
proof -
  obtain r w' where eq: "tx_rollback P w = (r, w')" by (cases "tx_rollback P w")
  with assms show ?thesis by (cases r) (simp_all add: rollback_with_def)
qed

text \<open>
  Activation, suspension and revocation are one service: they differ in the status they aim at,
  the mutator they call and the texts and results they build.
\<close>

definition change_loaded ::
  "('w, 'e) TransactionPorts \<Rightarrow> 'c ClockError + DomainEventTime \<Rightarrow> DomainEventId
    \<Rightarrow> string \<Rightarrow> string \<Rightarrow> FareCredentialStatus \<Rightarrow> (FareCredential \<Rightarrow> FareCredentialError + FareCredential)
    \<Rightarrow> (FareCredential \<Rightarrow> 'r) \<Rightarrow> (FareCredential \<Rightarrow> FareCredential \<Rightarrow> 'r) \<Rightarrow> FareCredentialId
    \<Rightarrow> FareCredential VersionedAggregate \<Rightarrow> ('w, ('e, 'c) ApplicationError, 'r) fallible" where
  "change_loaded P clock ev_id operation invalid_event target mutator unchanged changed cid loaded =
    (if credential_status (va_aggregate loaded) = target
    then committed P (unchanged (va_aggregate loaded))
    else
    or_rollback P (ok_or (next_version loaded)
      (Conflict operation ''aggregate version is exhausted'')) (\<lambda>next.
    or_rollback P (map_err App_FareCredential (mutator (va_aggregate loaded))) (\<lambda>credential.
    or_rollback P (map_err App_Clock clock) (\<lambda>time.
    or_rollback P (map_err (\<lambda>_. Conflict operation invalid_event)
      (DomainEvent_new ev_id next time (FareCredentialStatusChanged cid
        (credential_status (va_aggregate loaded)) target))) (\<lambda>event.
    attempt P (tx_save_fare_credential P credential (IfVersion (va_version loaded))) (\<lambda>_.
    attempt P (tx_append_domain_event P event) (\<lambda>_.
    committed P (changed (va_aggregate loaded) credential))))))))"

definition change_status ::
  "UuidApi \<Rightarrow> ('w, 'e) TransactionPorts \<Rightarrow> 'c ClockError + DomainEventTime \<Rightarrow> DomainEventId
    \<Rightarrow> string \<Rightarrow> string \<Rightarrow> FareCredentialStatus \<Rightarrow> (FareCredential \<Rightarrow> FareCredentialError + FareCredential)
    \<Rightarrow> (FareCredential \<Rightarrow> 'r) \<Rightarrow> (FareCredential \<Rightarrow> FareCredential \<Rightarrow> 'r) \<Rightarrow> FareCredentialId
    \<Rightarrow> ('w, ('e, 'c) ApplicationError, 'r) fallible" where
  "change_status api P clock ev_id operation invalid_event target mutator unchanged changed cid =
    began P (
    attempt P (tx_find_fare_credential P cid) (\<lambda>found.
    or_rollback P (ok_or found (NotFound ''fare credential'' (identifier_to_string api cid)))
      (change_loaded P clock ev_id operation invalid_event target mutator unchanged changed cid)))"

lemma activate_is_change_status:
  "ActivateFareCredential_execute api P clock ev_id cid =
    change_status api P clock ev_id ''activate fare credential'' ''credential activation event is invalid''
      Credential_Active FareCredential_activate
      (\<lambda>c. \<lparr> activated_credential_id = cid, activated_previous_status = credential_status c,
         activated_current_status = Credential_Active, activated_changed = False \<rparr>)
      (\<lambda>c c'. \<lparr> activated_credential_id = cid, activated_previous_status = credential_status c,
         activated_current_status = credential_status c', activated_changed = True \<rparr>) cid"
  by (rule ext) (simp add: ActivateFareCredential_execute_def change_status_def
      change_loaded_def [abs_def] Let_def)

lemma suspend_is_change_status:
  "SuspendFareCredential_execute api P clock ev_id cid =
    change_status api P clock ev_id ''suspend fare credential'' ''credential suspension event is invalid''
      Credential_Suspended FareCredential_suspend
      (\<lambda>c. \<lparr> suspended_credential_id = cid, suspended_previous_status = credential_status c,
         suspended_current_status = Credential_Suspended, suspended_changed = False \<rparr>)
      (\<lambda>c c'. \<lparr> suspended_credential_id = cid, suspended_previous_status = credential_status c,
         suspended_current_status = credential_status c', suspended_changed = True \<rparr>) cid"
  by (rule ext) (simp add: SuspendFareCredential_execute_def change_status_def
      change_loaded_def [abs_def] Let_def)

lemma revoke_is_change_status:
  "RevokeFareCredential_execute api P clock ev_id command =
    change_status api P clock ev_id ''revoke fare credential'' ''credential revocation event is invalid''
      Credential_Revoked (FareCredential_revoke (revoke_reason command))
      (\<lambda>c. \<lparr> revoked_credential_id = revoke_credential_id command,
         revoked_previous_status = credential_status c, revoked_current_status = Credential_Revoked,
         revoked_reason = (case credential_revocation_reason c of
            Some reason \<Rightarrow> reason | None \<Rightarrow> revoke_reason command), revoked_changed = False \<rparr>)
      (\<lambda>c c'. \<lparr> revoked_credential_id = revoke_credential_id command,
         revoked_previous_status = credential_status c,
         revoked_current_status = credential_status c',
         revoked_reason = (case credential_revocation_reason c' of
            Some reason \<Rightarrow> reason | None \<Rightarrow> revoke_reason command), revoked_changed = True \<rparr>)
      (revoke_credential_id command)"
  by (rule ext) (simp add: RevokeFareCredential_execute_def change_status_def
      change_loaded_def [abs_def] Let_def)

end
