(* ===== verification/CredentialStore.thy ===== *)
theory CredentialStore
  imports CredentialUseCases Rows
begin

text \<open>
  What the credential services promise of the store, stated without transactions.  \<open>writes_of\<close>
  is the abstract specification of a service call: the rows it writes in one indivisible step,
  given the store it finds.  \<open>others\<close> is what concurrent sessions may do meanwhile: complete calls of the
  same services on credentials this session has not written.  The locale
  \<open>application_transaction\<close> states what \<open>unit_of_work.rs\<close> asks of a transaction provider under
  such interference, and shows inside it that every service call takes effect as one
  step of its specification, or not at all.
\<close>

record 'j Store =
  st_accounts :: "TransitAccountId \<Rightarrow> TransitAccount VersionedAggregate option"
  st_credentials :: "FareCredentialId \<Rightarrow> FareCredential VersionedAggregate option"
  st_log :: "'j DomainEventRecord list"

datatype 'j Write =
    PutCredential "FareCredential VersionedAggregate"
  | AppendRecord "'j DomainEventRecord"

fun apply_write :: "'j Write \<Rightarrow> 'j Store \<Rightarrow> 'j Store" where
  "apply_write (PutCredential va) s =
    s\<lparr> st_credentials := (st_credentials s)(credential_id (va_aggregate va) := Some va) \<rparr>"
| "apply_write (AppendRecord r) s = s\<lparr> st_log := st_log s @ [r] \<rparr>"

definition apply_writes :: "'j Write list \<Rightarrow> 'j Store \<Rightarrow> 'j Store" where
  "apply_writes ws s = fold apply_write ws s"

fun put_ids :: "'j Write list \<Rightarrow> FareCredentialId set" where
  "put_ids [] = {}"
| "put_ids (PutCredential va # ws) = insert (credential_id (va_aggregate va)) (put_ids ws)"
| "put_ids (AppendRecord r # ws) = put_ids ws"

section \<open>The services as single steps\<close>

datatype StatusChange = ToActive | ToSuspended | ToRevoked RevocationReason

fun change_op :: "StatusChange \<Rightarrow> CredentialOp" where
  "change_op ToActive = ActivateCredential"
| "change_op ToSuspended = SuspendCredential"
| "change_op (ToRevoked reason) = RevokeCredential reason"

fun change_target :: "StatusChange \<Rightarrow> FareCredentialStatus" where
  "change_target ToActive = Credential_Active"
| "change_target ToSuspended = Credential_Suspended"
| "change_target (ToRevoked reason) = Credential_Revoked"

datatype CredentialCommand =
    Cmd_Issue TransitAccountId FareCredentialKind FareCredentialId DomainEventId
  | Cmd_Change StatusChange FareCredentialId DomainEventId
  | Cmd_Replace FareCredentialId FareCredentialKind FareCredentialId DomainEventId DomainEventId

fun command_ok :: "UuidApi \<Rightarrow> CredentialCommand \<Rightarrow> bool" where
  "command_ok api (Cmd_Issue acct kind new_id ev) \<longleftrightarrow>
    valid_identifier api acct \<and> valid_identifier api new_id"
| "command_ok api (Cmd_Change ch cid ev) \<longleftrightarrow> True"
| "command_ok api (Cmd_Replace cid kind new_id ev new_ev) \<longleftrightarrow> valid_identifier api new_id"

definition event_record ::
  "(DomainEventPayload \<Rightarrow> 'j option) \<Rightarrow> DomainEventId \<Rightarrow> AggregateVersion \<Rightarrow> DomainEventTime
    \<Rightarrow> DomainEventPayload \<Rightarrow> 'j DomainEventRecord option" where
  "event_record tv ev version time p =
    (case DomainEvent_new ev version time p of
       Err _ \<Rightarrow> None
     | Ok event \<Rightarrow> (case DomainEventRecord_from_domain tv event of Ok r \<Rightarrow> Some r | Err _ \<Rightarrow> None))"

fun writes_of ::
  "(DomainEventPayload \<Rightarrow> 'j option) \<Rightarrow> DomainEventTime \<Rightarrow> CredentialCommand \<Rightarrow> 'j Store
    \<Rightarrow> 'j Write list option" where
  "writes_of tv time (Cmd_Issue acct kind new_id ev) s =
    (case (st_accounts s acct, st_credentials s new_id,
        event_record tv ev 1 time (FareCredentialIssued new_id acct kind)) of
       (Some a, None, Some r) \<Rightarrow>
         if account_status (va_aggregate a) = Account_Active
         then Some [PutCredential (VersionedAggregate (FareCredential_new_pending new_id acct kind) 1),
                    AppendRecord r]
         else None
     | _ \<Rightarrow> None)"
| "writes_of tv time (Cmd_Change ch cid ev) s =
    (case st_credentials s cid of
       None \<Rightarrow> None
     | Some va \<Rightarrow>
         if credential_status (va_aggregate va) = change_target ch then Some []
         else (case (next_version va, credential_step (change_op ch) (va_aggregate va)) of
            (Some v, Ok c) \<Rightarrow>
              (case event_record tv ev v time (FareCredentialStatusChanged cid
                  (credential_status (va_aggregate va)) (change_target ch)) of
                 Some r \<Rightarrow> Some [PutCredential (VersionedAggregate c v), AppendRecord r]
               | None \<Rightarrow> None)
          | _ \<Rightarrow> None))"
| "writes_of tv time (Cmd_Replace cid kind new_id ev new_ev) s =
    (case st_credentials s cid of
       None \<Rightarrow> None
     | Some va \<Rightarrow>
         if credential_status (va_aggregate va) = Credential_Replaced then Some []
         else (case (next_version va, credential_step (ReplaceCredential new_id) (va_aggregate va),
              st_credentials s new_id) of
            (Some v, Ok c, None) \<Rightarrow>
              (case (event_record tv ev v time (FareCredentialStatusChanged cid
                   (credential_status (va_aggregate va)) Credential_Replaced),
                 event_record tv new_ev 1 time
                   (FareCredentialIssued new_id (transit_account_id (va_aggregate va)) kind)) of
                 (Some r, Some r') \<Rightarrow>
                   Some [PutCredential (VersionedAggregate c v),
                         PutCredential (VersionedAggregate (FareCredential_new_pending new_id
                           (transit_account_id (va_aggregate va)) kind) 1),
                         AppendRecord r, AppendRecord r']
               | _ \<Rightarrow> None)
          | _ \<Rightarrow> None))"

text \<open>Complete calls of other sessions that write none of the credentials in \<open>L\<close>.\<close>

inductive others ::
  "UuidApi \<Rightarrow> (DomainEventPayload \<Rightarrow> 'j option) \<Rightarrow> FareCredentialId set \<Rightarrow> 'j Store \<Rightarrow> 'j Store \<Rightarrow> bool"
  for api tv L where
  nothing: "others api tv L s s"
| another: "others api tv L s s' \<Longrightarrow> command_ok api cmd \<Longrightarrow> writes_of tv time cmd s' = Some ws \<Longrightarrow>
    put_ids ws \<inter> L = {} \<Longrightarrow> others api tv L s (apply_writes ws s')"

text \<open>
  The consistency of a store: every credential is filed under its identifier and is well formed,
  its successor exists and belongs to the same account, and the event log holds for
  every credential exactly one event per version, in order, and none for a credential that does not exist.
\<close>

definition credential_log :: "'j Store \<Rightarrow> FareCredentialId \<Rightarrow> 'j DomainEventRecord list" where
  "credential_log s i = filter (\<lambda>r. record_aggregate_kind r = ''fare_credential'' \<and>
    record_aggregate_id r = i) (st_log s)"

definition versions_upto :: "AggregateVersion \<Rightarrow> AggregateVersion list" where
  "versions_upto v = map of_nat [1..<Suc (unat v)]"

definition credential_entry_ok :: "UuidApi \<Rightarrow> 'j Store \<Rightarrow> FareCredentialId \<Rightarrow> bool" where
  "credential_entry_ok api s i \<longleftrightarrow>
    (case st_credentials s i of
       None \<Rightarrow> credential_log s i = []
     | Some va \<Rightarrow>
         credential_id (va_aggregate va) = i \<and> credential_ok api (va_aggregate va) \<and>
         map record_aggregate_version (credential_log s i) = versions_upto (va_version va) \<and>
         (case replacement_id (va_aggregate va) of
            None \<Rightarrow> True
          | Some r \<Rightarrow> (case st_credentials s r of
              None \<Rightarrow> False
            | Some vb \<Rightarrow>
                transit_account_id (va_aggregate vb) = transit_account_id (va_aggregate va))))"

definition store_inv :: "UuidApi \<Rightarrow> 'j Store \<Rightarrow> bool" where
  "store_inv api s \<longleftrightarrow> (\<forall>i. credential_entry_ok api s i)"

section \<open>Lemmas on stores\<close>

lemma apply_writes_simps [simp]:
  "apply_writes [] s = s"
  "apply_writes (w # ws) s = apply_writes ws (apply_write w s)"
  by (simp_all add: apply_writes_def)

lemma apply_writes_append: "apply_writes (ws @ ws') s = apply_writes ws' (apply_writes ws s)"
  by (simp add: apply_writes_def)

lemma put_ids_append [simp]: "put_ids (ws @ ws') = put_ids ws \<union> put_ids ws'"
  by (induction ws rule: put_ids.induct) auto

lemma versions_upto_Suc:
  assumes "v + 1 \<noteq> (0 :: 64 word)"
  shows "versions_upto (v + 1) = versions_upto v @ [v + 1]"
proof -
  have "unat (v + 1) = Suc (unat v)"
    using assms by (simp add: unatSuc add.commute)
  then show ?thesis
    by (simp add: versions_upto_def add.commute)
qed

lemma versions_upto_1: "versions_upto 1 = [1]"
  by (simp add: versions_upto_def)

lemma event_record_eq_Some:
  assumes "event_record tv ev v time p = Some r"
  shows "record_aggregate_version r = v"
    "(record_aggregate_kind r, record_aggregate_id r) = encode_aggregate_id (payload_aggregate_id p)"
  using assms
  by (auto simp: event_record_def DomainEvent_new_eq_Ok DomainEventRecord_from_domain_def
      result_simps split: sum.splits prod.splits)

lemma change_reaches_target:
  assumes "credential_step (change_op ch) c = Ok c'"
  shows "credential_status c' = change_target ch"
  using assms
  by (cases ch) (auto simp: credential_op_defs split: FareCredentialStatus.splits)

text \<open>The parts of a store after the two shapes of write sets.\<close>

lemma credential_log_write [simp]:
  "credential_log (s\<lparr> st_credentials := f \<rparr>) i = credential_log s i"
  "credential_log (t\<lparr> st_log := st_log s @ rs \<rparr>) i = credential_log s i @
    filter (\<lambda>r. record_aggregate_kind r = ''fare_credential'' \<and> record_aggregate_id r = i) rs"
  by (simp_all add: credential_log_def)

text \<open>Accounts of stored credentials do not change, so references to them stay good.\<close>

definition keeps_owners :: "'j Store \<Rightarrow> 'j Store \<Rightarrow> bool" where
  "keeps_owners s s' \<longleftrightarrow> (\<forall>i va. st_credentials s i = Some va \<longrightarrow>
    (\<exists>vb. st_credentials s' i = Some vb \<and>
      transit_account_id (va_aggregate vb) = transit_account_id (va_aggregate va)))"

lemma credential_entry_ok_frame:
  assumes "credential_entry_ok api s i" "keeps_owners s s'"
    and "st_credentials s' i = st_credentials s i" "credential_log s' i = credential_log s i"
  shows "credential_entry_ok api s' i"
  using assms
  by (fastforce simp: credential_entry_ok_def keeps_owners_def split: option.splits)

lemma store_inv_entry:
  assumes "store_inv api s" "st_credentials s i = Some va"
  shows "credential_id (va_aggregate va) = i" "credential_ok api (va_aggregate va)"
    "map record_aggregate_version (credential_log s i) = versions_upto (va_version va)"
  using assms by (auto simp: store_inv_def credential_entry_ok_def dest!: spec [of _ i])

lemma store_inv_no_log:
  "store_inv api s \<Longrightarrow> st_credentials s i = None \<Longrightarrow> credential_log s i = []"
  by (auto simp: store_inv_def credential_entry_ok_def dest!: spec [of _ i])

lemma store_inv_successor:
  assumes "store_inv api s" "st_credentials s i = Some va" "replacement_id (va_aggregate va) = Some r"
  shows "\<exists>vb. st_credentials s r = Some vb \<and>
    transit_account_id (va_aggregate vb) = transit_account_id (va_aggregate va)"
proof -
  have "credential_entry_ok api s i"
    using assms(1) by (simp add: store_inv_def)
  then show ?thesis
    using assms(2,3) by (cases "st_credentials s r") (simp_all add: credential_entry_ok_def)
qed

lemma credential_step_ok:
  assumes "credential_ok api c" "credential_step op c = Ok c'"
    and "\<And>r. op = ReplaceCredential r \<Longrightarrow> valid_identifier api r"
  shows "credential_ok api c'"
proof -
  have "credential_inv c'" "credential_ident c' = credential_ident c"
    using assms credential_step_inv credential_step_ident by (auto simp: credential_ok_def)
  moreover have "replacement_id c' = Some r \<Longrightarrow> valid_identifier api r" for r
    using assms
    by (cases op) (auto simp: credential_op_defs credential_ok_def
        split: FareCredentialStatus.splits if_splits option.splits)
  ultimately show ?thesis
    using assms(1) by (auto simp: credential_ok_def credential_ident_def split: option.split)
qed

lemma change_keeps_replacement:
  assumes "credential_step (change_op ch) c = Ok c'" "credential_inv c"
    "credential_status c \<noteq> change_target ch"
  shows "replacement_id c' = None"
proof -
  have "credential_inv c'"
    using assms(1,2) by (rule credential_step_inv)
  then show ?thesis
    using change_reaches_target [OF assms(1)] by (cases ch) (auto simp: credential_inv_def)
qed

lemma store_inv_new_version:
  assumes inv: "store_inv api s" and va: "st_credentials s cid = Some va"
    and v: "next_version va = Some v"
    and c: "credential_id c = cid" "transit_account_id c = transit_account_id (va_aggregate va)"
      "credential_ok api c" "replacement_id c = None"
    and r: "record_aggregate_version r = v" "record_aggregate_kind r = ''fare_credential''"
      "record_aggregate_id r = cid"
  shows "store_inv api (apply_writes [PutCredential (VersionedAggregate c v), AppendRecord r] s)"
    (is "store_inv api ?s")
  unfolding store_inv_def
proof
  fix i
  have owners: "keeps_owners s ?s"
    using va c by (auto simp: keeps_owners_def)
  show "credential_entry_ok api ?s i"
  proof (cases "i = cid")
    case True
    have "map record_aggregate_version (credential_log ?s cid) = versions_upto v"
      using store_inv_entry(3) [OF inv va] v r by (auto simp: next_version_eq_Some versions_upto_Suc)
    then show ?thesis
      using True c by (simp add: credential_entry_ok_def)
  next
    case False
    show ?thesis
    proof (rule credential_entry_ok_frame [OF _ owners])
      show "credential_entry_ok api s i" using inv by (simp add: store_inv_def)
    qed (use False c r in auto)
  qed
qed

lemma store_inv_new_credential:
  assumes inv: "store_inv api s" and new: "st_credentials s new_id = None"
    and ids: "valid_identifier api new_id" "valid_identifier api acct"
    and r: "record_aggregate_version r = 1" "record_aggregate_kind r = ''fare_credential''"
      "record_aggregate_id r = new_id"
  shows "store_inv api (apply_writes
    [PutCredential (VersionedAggregate (FareCredential_new_pending new_id acct kind) 1), AppendRecord r] s)"
    (is "store_inv api ?s")
  unfolding store_inv_def
proof
  fix i
  have fields: "credential_id (FareCredential_new_pending new_id acct kind) = new_id"
    "replacement_id (FareCredential_new_pending new_id acct kind) = None"
    by (simp_all add: FareCredential_new_pending_def)
  have owners: "keeps_owners s ?s"
    using new fields by (auto simp: keeps_owners_def)
  have ok: "credential_ok api (FareCredential_new_pending new_id acct kind)"
    using ids by (simp add: credential_ok_def fields) (simp add: FareCredential_new_pending_def)
  show "credential_entry_ok api ?s i"
  proof (cases "i = new_id")
    case True
    then show ?thesis
      using store_inv_no_log [OF inv new] r fields ok
      by (simp add: credential_entry_ok_def versions_upto_1)
  next
    case False
    show ?thesis
    proof (rule credential_entry_ok_frame [OF _ owners])
      show "credential_entry_ok api s i" using inv by (simp add: store_inv_def)
    qed (use False fields r in auto)
  qed
qed

lemma store_inv_replacement:
  assumes inv: "store_inv api s" and va: "st_credentials s cid = Some va"
    and new: "st_credentials s new_id = None" "valid_identifier api new_id"
    and v: "next_version va = Some v"
    and c: "credential_id c = cid" "transit_account_id c = transit_account_id (va_aggregate va)"
      "credential_ok api c" "replacement_id c = Some new_id"
    and r: "record_aggregate_version r = v" "record_aggregate_kind r = ''fare_credential''"
      "record_aggregate_id r = cid"
    and r': "record_aggregate_version r' = 1" "record_aggregate_kind r' = ''fare_credential''"
      "record_aggregate_id r' = new_id"
  shows "store_inv api (apply_writes
    [PutCredential (VersionedAggregate c v),
     PutCredential (VersionedAggregate (FareCredential_new_pending new_id (transit_account_id c) kind) 1),
     AppendRecord r, AppendRecord r'] s)" (is "store_inv api ?s")
  unfolding store_inv_def
proof
  fix i
  let ?n = "FareCredential_new_pending new_id (transit_account_id c) kind"
  have fields: "credential_id ?n = new_id" "replacement_id ?n = None"
    "transit_account_id ?n = transit_account_id c"
    by (simp_all add: FareCredential_new_pending_def)
  have ne: "new_id \<noteq> cid" using va new(1) by auto
  have owners: "keeps_owners s ?s"
    using va c new fields by (auto simp: keeps_owners_def)
  have creds: "st_credentials ?s = (st_credentials s)(cid := Some (VersionedAggregate c v),
      new_id := Some (VersionedAggregate ?n 1))"
    using c fields by simp
  consider "i = cid" | "i = new_id" | "i \<noteq> cid" "i \<noteq> new_id" by blast
  then show "credential_entry_ok api ?s i"
  proof cases
    case 1
    have "map record_aggregate_version (credential_log ?s cid) = versions_upto v"
      using store_inv_entry(3) [OF inv va] v r r' ne
      by (auto simp: next_version_eq_Some versions_upto_Suc)
    then show ?thesis
      using 1 c ne fields unfolding credential_entry_ok_def creds by simp
  next
    case 2
    have "map record_aggregate_version (credential_log ?s new_id) = versions_upto 1"
      using store_inv_no_log [OF inv new(1)] r r' ne by (simp add: versions_upto_1)
    moreover have "credential_ok api ?n"
      using c new(2) by (simp add: credential_ok_def fields) (simp add: FareCredential_new_pending_def)
    ultimately show ?thesis
      using 2 fields unfolding credential_entry_ok_def creds by simp
  next
    case 3
    show ?thesis
    proof (rule credential_entry_ok_frame [OF _ owners])
      show "credential_entry_ok api s i" using inv by (simp add: store_inv_def)
      show "st_credentials ?s i = st_credentials s i" unfolding creds using 3 by simp
      show "credential_log ?s i = credential_log s i" using 3 r r' by simp
    qed
  qed
qed

text \<open>What a specified step writes.\<close>

lemma writes_of_change_eq:
  "writes_of tv time (Cmd_Change ch cid ev) s = Some ws \<longleftrightarrow>
    (\<exists>va. st_credentials s cid = Some va \<and>
      (credential_status (va_aggregate va) = change_target ch \<and> ws = [] \<or>
       credential_status (va_aggregate va) \<noteq> change_target ch \<and>
       (\<exists>v c r. next_version va = Some v \<and> credential_step (change_op ch) (va_aggregate va) = Ok c \<and>
         event_record tv ev v time (FareCredentialStatusChanged cid
           (credential_status (va_aggregate va)) (change_target ch)) = Some r \<and>
         ws = [PutCredential (VersionedAggregate c v), AppendRecord r])))"
  by (auto split: option.splits sum.splits)

lemma writes_of_issue_eq:
  "writes_of tv time (Cmd_Issue acct kind new_id ev) s = Some ws \<longleftrightarrow>
    (\<exists>a r. st_accounts s acct = Some a \<and> account_status (va_aggregate a) = Account_Active \<and>
      st_credentials s new_id = None \<and>
      event_record tv ev 1 time (FareCredentialIssued new_id acct kind) = Some r \<and>
      ws = [PutCredential (VersionedAggregate (FareCredential_new_pending new_id acct kind) 1),
            AppendRecord r])"
  by (auto split: option.splits)

lemma writes_of_replace_eq:
  "writes_of tv time (Cmd_Replace cid kind new_id ev new_ev) s = Some ws \<longleftrightarrow>
    (\<exists>va. st_credentials s cid = Some va \<and>
      (credential_status (va_aggregate va) = Credential_Replaced \<and> ws = [] \<or>
       credential_status (va_aggregate va) \<noteq> Credential_Replaced \<and>
       (\<exists>v c r r'. next_version va = Some v \<and>
         credential_step (ReplaceCredential new_id) (va_aggregate va) = Ok c \<and>
         st_credentials s new_id = None \<and>
         event_record tv ev v time (FareCredentialStatusChanged cid
           (credential_status (va_aggregate va)) Credential_Replaced) = Some r \<and>
         event_record tv new_ev 1 time
           (FareCredentialIssued new_id (transit_account_id (va_aggregate va)) kind) = Some r' \<and>
         ws = [PutCredential (VersionedAggregate c v),
           PutCredential (VersionedAggregate (FareCredential_new_pending new_id
             (transit_account_id (va_aggregate va)) kind) 1), AppendRecord r, AppendRecord r'])))"
  by (auto split: option.splits sum.splits)

lemmas writes_of_eqs = writes_of_change_eq writes_of_issue_eq writes_of_replace_eq

declare writes_of.simps [simp del]

lemma replaced_credential_fields:
  assumes "credential_step (ReplaceCredential new_id) c = Ok c'"
    "credential_status c \<noteq> Credential_Replaced"
  shows "replacement_id c' = Some new_id" "credential_status c' = Credential_Replaced"
    "new_id \<noteq> credential_id c"
  using assms
  by (auto simp: FareCredential_replace_with_def split: FareCredentialStatus.splits if_splits)

lemma change_record_fields:
  assumes "event_record tv ev v time (FareCredentialStatusChanged cid before after) = Some r"
  shows "record_aggregate_version r = v" "record_aggregate_kind r = ''fare_credential''"
    "record_aggregate_id r = cid"
  using event_record_eq_Some [OF assms] by simp_all

lemma issue_record_fields:
  assumes "event_record tv ev v time (FareCredentialIssued cid acct kind) = Some r"
  shows "record_aggregate_version r = v" "record_aggregate_kind r = ''fare_credential''"
    "record_aggregate_id r = cid"
  using event_record_eq_Some [OF assms] by simp_all

lemma credential_step_fields:
  assumes "credential_step op c = Ok c'"
  shows "credential_id c' = credential_id c" "transit_account_id c' = transit_account_id c"
  using credential_step_ident [OF assms] by (simp_all add: credential_ident_def)

lemma writes_of_store_inv:
  assumes inv: "store_inv api s" and cmd: "command_ok api cmd"
    and ws: "writes_of tv time cmd s = Some ws"
  shows "store_inv api (apply_writes ws s)"
proof (cases cmd)
  case (Cmd_Issue acct kind new_id ev)
  then obtain r where r: "st_credentials s new_id = None"
    "event_record tv ev 1 time (FareCredentialIssued new_id acct kind) = Some r"
    "ws = [PutCredential (VersionedAggregate (FareCredential_new_pending new_id acct kind) 1),
       AppendRecord r]"
    using ws by (auto simp: writes_of_issue_eq)
  show ?thesis
    unfolding r(3) using cmd Cmd_Issue issue_record_fields [OF r(2)]
    by (intro store_inv_new_credential [OF inv r(1)]) simp_all
next
  case (Cmd_Change ch cid ev)
  then obtain va where va: "st_credentials s cid = Some va"
    and "ws = [] \<or> (\<exists>v c r. credential_status (va_aggregate va) \<noteq> change_target ch \<and>
      next_version va = Some v \<and> credential_step (change_op ch) (va_aggregate va) = Ok c \<and>
      event_record tv ev v time (FareCredentialStatusChanged cid
        (credential_status (va_aggregate va)) (change_target ch)) = Some r \<and>
      ws = [PutCredential (VersionedAggregate c v), AppendRecord r])" (is "_ \<or> ?written")
    using ws by (auto simp: writes_of_change_eq)
  moreover have "store_inv api (apply_writes ws s)" if written: ?written
  proof -
    obtain v c r where w: "credential_status (va_aggregate va) \<noteq> change_target ch"
      "next_version va = Some v" "credential_step (change_op ch) (va_aggregate va) = Ok c"
      "event_record tv ev v time (FareCredentialStatusChanged cid
        (credential_status (va_aggregate va)) (change_target ch)) = Some r"
      "ws = [PutCredential (VersionedAggregate c v), AppendRecord r]"
      using written by blast
    note entry = store_inv_entry [OF inv va]
    have "credential_ok api c"
      using entry(2) w(3) by (rule credential_step_ok) (cases ch; simp)
    moreover have "replacement_id c = None"
      using w entry(2) by (intro change_keeps_replacement [of ch]) (simp_all add: credential_ok_def)
    ultimately show ?thesis
      unfolding w(5) using credential_step_fields [OF w(3)] change_record_fields [OF w(4)] entry(1)
      by (intro store_inv_new_version [OF inv va w(2)]) simp_all
  qed
  ultimately show ?thesis
    using inv by auto
next
  case (Cmd_Replace cid kind new_id ev new_ev)
  then obtain va where va: "st_credentials s cid = Some va"
    and "ws = [] \<or> (\<exists>v c r r'. credential_status (va_aggregate va) \<noteq> Credential_Replaced \<and>
      next_version va = Some v \<and> credential_step (ReplaceCredential new_id) (va_aggregate va) = Ok c \<and>
      st_credentials s new_id = None \<and>
      event_record tv ev v time (FareCredentialStatusChanged cid
        (credential_status (va_aggregate va)) Credential_Replaced) = Some r \<and>
      event_record tv new_ev 1 time
        (FareCredentialIssued new_id (transit_account_id (va_aggregate va)) kind) = Some r' \<and>
      ws = [PutCredential (VersionedAggregate c v), PutCredential (VersionedAggregate
        (FareCredential_new_pending new_id (transit_account_id (va_aggregate va)) kind) 1),
        AppendRecord r, AppendRecord r'])" (is "_ \<or> ?written")
    using ws by (auto simp: writes_of_replace_eq)
  moreover have "store_inv api (apply_writes ws s)" if written: ?written
  proof -
    obtain v c r r' where w: "credential_status (va_aggregate va) \<noteq> Credential_Replaced"
      "next_version va = Some v" "credential_step (ReplaceCredential new_id) (va_aggregate va) = Ok c"
      "st_credentials s new_id = None"
      "event_record tv ev v time (FareCredentialStatusChanged cid
        (credential_status (va_aggregate va)) Credential_Replaced) = Some r"
      "event_record tv new_ev 1 time
        (FareCredentialIssued new_id (transit_account_id (va_aggregate va)) kind) = Some r'"
      "ws = [PutCredential (VersionedAggregate c v), PutCredential (VersionedAggregate
        (FareCredential_new_pending new_id (transit_account_id c) kind) 1),
        AppendRecord r, AppendRecord r']"
      using written credential_step_fields(2) by fastforce
    have new: "valid_identifier api new_id" using cmd Cmd_Replace by simp
    have "credential_ok api c"
      using store_inv_entry(2) [OF inv va] w(3) by (rule credential_step_ok) (simp add: new)
    then show ?thesis
      unfolding w(7)
      using credential_step_fields [OF w(3)] replaced_credential_fields [OF w(3,1)]
        change_record_fields [OF w(5)] issue_record_fields [OF w(6)] store_inv_entry(1) [OF inv va]
      by (intro store_inv_replacement [OF inv va w(4) new w(2)]) simp_all
  qed
  ultimately show ?thesis
    using inv by auto
qed

text \<open>What other sessions cannot do.\<close>

lemma others_store_inv:
  "others api tv L s s' \<Longrightarrow> store_inv api s \<Longrightarrow> store_inv api s'"
  by (induction rule: others.induct) (auto intro: writes_of_store_inv)

lemma others_trans:
  assumes "others api tv L s' s''" "others api tv L s s'"
  shows "others api tv L s s''"
  using assms by (induction rule: others.induct) (auto intro: others.another)

lemma others_mono:
  assumes "others api tv L s s'" "L' \<subseteq> L"
  shows "others api tv L' s s'"
  using assms
proof (induction rule: others.induct)
  case (another s s' cmd time ws)
  have "put_ids ws \<inter> L' = {}"
    using another.hyps(4) another.prems by blast
  then show ?case
    using another by (blast intro: others.another)
qed (rule others.nothing)

lemma apply_writes_other_credentials:
  "i \<notin> put_ids ws \<Longrightarrow> st_credentials (apply_writes ws s) i = st_credentials s i"
  by (induction ws arbitrary: s rule: put_ids.induct) auto

lemma apply_writes_accounts [simp]: "st_accounts (apply_writes ws s) = st_accounts s"
  by (induction ws arbitrary: s rule: put_ids.induct) auto

lemma others_locked:
  "others api tv L s s' \<Longrightarrow> i \<in> L \<Longrightarrow> st_credentials s' i = st_credentials s i"
proof (induction rule: others.induct)
  case (another s s' cmd time ws)
  then have "i \<notin> put_ids ws" by blast
  then show ?case
    using another by (simp add: apply_writes_other_credentials)
qed simp

lemma others_accounts: "others api tv L s s' \<Longrightarrow> st_accounts s' = st_accounts s"
  by (induction rule: others.induct) auto

text \<open>A replaced credential stays as it is.\<close>

lemma writes_of_replaced_frozen:
  assumes inv: "store_inv api s" and ws: "writes_of tv time cmd s = Some ws"
    and va: "st_credentials s i = Some va" "credential_status (va_aggregate va) = Credential_Replaced"
  shows "st_credentials (apply_writes ws s) i = Some va"
proof -
  have ids: "credential_id (va_aggregate vb) = j" if "st_credentials s j = Some vb" for j vb
    using inv that by (rule store_inv_entry)
  have new: "credential_id (FareCredential_new_pending n a k) = n" for n a k
    by (simp add: FareCredential_new_pending_def)
  have step_id: "credential_id c = j"
    if "st_credentials s j = Some vb" "credential_step op (va_aggregate vb) = Ok c" for j vb op c
    using ids [OF that(1)] credential_step_fields(1) [OF that(2)] by simp
  have stuck: "credential_step (change_op ch) (va_aggregate va) \<noteq> Ok c" for ch c
  proof
    assume step: "credential_step (change_op ch) (va_aggregate va) = Ok c"
    then have "c = va_aggregate va"
      using va(2) by (intro credential_step_frozen) simp_all
    then show False
      using change_reaches_target [OF step] va(2) by (cases ch) simp_all
  qed
  show ?thesis
  proof (cases "i \<in> put_ids ws")
    case True
    then show ?thesis
      using ws va stuck step_id step_id [where op = "ReplaceCredential _", simplified]
      by (cases cmd) (fastforce simp: writes_of_eqs new)+
  next
    case False
    then show ?thesis using va by (simp add: apply_writes_other_credentials)
  qed
qed

lemma others_replaced_frozen:
  assumes "others api tv L s s'" "store_inv api s" "st_credentials s i = Some va"
    "credential_status (va_aggregate va) = Credential_Replaced"
  shows "st_credentials s' i = Some va"
  using assms
proof (induction rule: others.induct)
  case (another s s' cmd time ws)
  then show ?case
    using writes_of_replaced_frozen [OF others_store_inv [OF another.hyps(1)]] by blast
qed

text \<open>Versions only grow, so a credential found again at the same version is unchanged.\<close>

definition grown :: "FareCredential VersionedAggregate \<Rightarrow> FareCredential VersionedAggregate \<Rightarrow> bool" where
  "grown va vb \<longleftrightarrow> vb = va \<or> va_version va < va_version vb"

lemma grown_trans: "grown va vb \<Longrightarrow> grown vb vc \<Longrightarrow> grown va vc"
  by (auto simp: grown_def)

lemma writes_of_grown:
  assumes inv: "store_inv api s" and ws: "writes_of tv time cmd s = Some ws"
    and va: "st_credentials s i = Some va"
  shows "\<exists>vb. st_credentials (apply_writes ws s) i = Some vb \<and> grown va vb"
proof -
  have ids: "credential_id (va_aggregate vb) = j" if "st_credentials s j = Some vb" for j vb
    using inv that by (rule store_inv_entry)
  have new: "credential_id (FareCredential_new_pending n a k) = n" for n a k
    by (simp add: FareCredential_new_pending_def)
  show ?thesis
    using ws va
    by (cases cmd) (auto simp: writes_of_eqs grown_def new ids
        dest!: credential_step_fields(1) credential_step_fields(1) [where op = "ReplaceCredential _", simplified]
          next_version_less)
qed

lemma others_grown:
  assumes "others api tv L s s'" "store_inv api s" "st_credentials s i = Some va"
  shows "\<exists>vb. st_credentials s' i = Some vb \<and> grown va vb"
  using assms
proof (induction rule: others.induct)
  case (another s s' cmd time ws)
  then obtain vb where vb: "st_credentials s' i = Some vb" "grown va vb" by blast
  obtain vc where "st_credentials (apply_writes ws s') i = Some vc" "grown vb vc"
    using writes_of_grown [OF others_store_inv [OF another.hyps(1) another.prems(1)] another.hyps(3) vb(1)]
    by blast
  then show ?case using vb grown_trans by blast
qed (simp add: grown_def)

lemma others_same_version:
  assumes "others api tv L s s'" "store_inv api s" "st_credentials s i = Some va"
    "st_credentials s' i = Some vb" "va_version vb = va_version va"
  shows "vb = va"
  using others_grown [OF assms(1-3)] assms(4,5) by (auto simp: grown_def)

section \<open>The contract of a transaction provider\<close>

fun saved_version :: "SaveCondition \<Rightarrow> AggregateVersion" where
  "saved_version MustNotExist = 1"
| "saved_version (IfVersion v) = v + 1"

fun save_allowed :: "FareCredentialId \<Rightarrow> SaveCondition \<Rightarrow> 'j Store \<Rightarrow> bool" where
  "save_allowed i MustNotExist s \<longleftrightarrow> st_credentials s i = None"
| "save_allowed i (IfVersion v) s \<longleftrightarrow> map_option va_version (st_credentials s i) = Some v"

text \<open>One call of a service, seen as a single step between the steps of other sessions.\<close>

definition linearized ::
  "UuidApi \<Rightarrow> (DomainEventPayload \<Rightarrow> 'j option) \<Rightarrow> DomainEventTime \<Rightarrow> CredentialCommand
    \<Rightarrow> 'j Store \<Rightarrow> 'j Store \<Rightarrow> 'j Store \<Rightarrow> bool" where
  "linearized api tv time cmd s0 s s1 \<longleftrightarrow>
    others api tv {} s0 s \<and>
    (\<exists>ws. writes_of tv time cmd s = Some ws \<and> others api tv {} (apply_writes ws s) s1)"

text \<open>
  The outcomes of a status change: on success either the credential already had the status and
  nothing was written, or the call took effect as one step on the store \<open>s\<close> at which it
  committed; on failure it had no effect or, when the answer to \<open>commit\<close> was lost, its whole effect.
\<close>

definition change_post ::
  "UuidApi \<Rightarrow> (DomainEventPayload \<Rightarrow> 'j option) \<Rightarrow> 'c ClockError + DomainEventTime \<Rightarrow> StatusChange
    \<Rightarrow> FareCredentialId \<Rightarrow> DomainEventId \<Rightarrow> (FareCredential \<Rightarrow> 'r) \<Rightarrow> (FareCredential \<Rightarrow> FareCredential \<Rightarrow> 'r)
    \<Rightarrow> 'j Store \<Rightarrow> 'x + 'r \<Rightarrow> 'j Store \<Rightarrow> bool" where
  "change_post api tv clock ch cid ev_id unchanged changed s0 r s1 \<longleftrightarrow>
    (case r of
       Err _ \<Rightarrow> others api tv {} s0 s1 \<or>
         (\<exists>time s. clock = Ok time \<and> linearized api tv time (Cmd_Change ch cid ev_id) s0 s s1)
     | Ok res \<Rightarrow> \<exists>s va. others api tv {} s0 s \<and> st_credentials s cid = Some va \<and>
         (if credential_status (va_aggregate va) = change_target ch
          then res = unchanged (va_aggregate va) \<and> others api tv {} s s1
          else \<exists>time c. clock = Ok time \<and>
            credential_step (change_op ch) (va_aggregate va) = Ok c \<and>
            res = changed (va_aggregate va) c \<and>
            linearized api tv time (Cmd_Change ch cid ev_id) s0 s s1))"

definition issue_post ::
  "UuidApi \<Rightarrow> (DomainEventPayload \<Rightarrow> 'j option) \<Rightarrow> 'c ClockError + DomainEventTime
    \<Rightarrow> FareCredentialId \<Rightarrow> DomainEventId \<Rightarrow> IssueFareCredentialCommand
    \<Rightarrow> 'j Store \<Rightarrow> 'x + IssuedFareCredential \<Rightarrow> 'j Store \<Rightarrow> bool" where
  "issue_post api tv clock new_id ev_id command s0 r s1 \<longleftrightarrow>
    (let effect = (\<exists>time s. clock = Ok time \<and> linearized api tv time
        (Cmd_Issue (issue_account_id command) (issue_kind command) new_id ev_id) s0 s s1)
     in case r of
       Err _ \<Rightarrow> others api tv {} s0 s1 \<or> effect
     | Ok res \<Rightarrow> effect \<and> res = \<lparr> issued_credential_id = new_id,
         issued_account_id = issue_account_id command, issued_kind = issue_kind command,
         issued_status = Credential_Pending \<rparr>)"

definition replace_post ::
  "UuidApi \<Rightarrow> (DomainEventPayload \<Rightarrow> 'j option) \<Rightarrow> 'c ClockError + DomainEventTime
    \<Rightarrow> FareCredentialId \<Rightarrow> DomainEventId \<Rightarrow> DomainEventId \<Rightarrow> ReplaceFareCredentialCommand
    \<Rightarrow> 'j Store \<Rightarrow> 'x + ReplacedFareCredential \<Rightarrow> 'j Store \<Rightarrow> bool" where
  "replace_post api tv clock new_id ev_id new_ev_id command s0 r s1 \<longleftrightarrow>
    (let cid = replace_credential_id command;
         cmd = Cmd_Replace cid (replacement_kind command) new_id ev_id new_ev_id
     in case r of
       Err _ \<Rightarrow> others api tv {} s0 s1 \<or> (\<exists>time s. clock = Ok time \<and> linearized api tv time cmd s0 s s1)
     | Ok res \<Rightarrow> \<exists>s va. others api tv {} s0 s \<and> st_credentials s cid = Some va \<and>
         (if credential_status (va_aggregate va) = Credential_Replaced
          then \<exists>s' new vb. replacement_id (va_aggregate va) = Some new \<and> others api tv {} s s' \<and>
            st_credentials s' new = Some vb \<and>
            transit_account_id (va_aggregate vb) = transit_account_id (va_aggregate va) \<and>
            others api tv {} s' s1 \<and>
            res = \<lparr> replaced_original_id = cid, replaced_replacement_id = new,
              replaced_previous_status = Credential_Replaced,
              replaced_current_status = Credential_Replaced,
              replaced_replacement_status = credential_status (va_aggregate vb),
              replaced_changed = False \<rparr>
          else (\<exists>time. clock = Ok time \<and> linearized api tv time cmd s0 s s1) \<and>
            res = \<lparr> replaced_original_id = cid, replaced_replacement_id = new_id,
              replaced_previous_status = credential_status (va_aggregate va),
              replaced_current_status = Credential_Replaced,
              replaced_replacement_status = Credential_Pending,
              replaced_changed = True \<rparr>))"

locale application_transaction =
  fixes api :: UuidApi
    and tv :: "DomainEventPayload \<Rightarrow> 'j option"
    and P :: "('w, 'e) TransactionPorts"
    and durable :: "'w \<Rightarrow> 'j Store"
    and pending :: "'w \<Rightarrow> 'j Write list"
    and sane :: "'w \<Rightarrow> bool"
    and live :: "'w \<Rightarrow> bool"
  assumes live_sane: "live w \<Longrightarrow> sane w"
    and begin_law: "sane w \<Longrightarrow> tx_begin P w = (r, w') \<Longrightarrow>
      sane w' \<and> others api tv {} (durable w) (durable w') \<and>
      (isl r \<or> live w' \<and> pending w' = [])"
    and find_account_law: "live w \<Longrightarrow> tx_find_transit_account P a w = (ra, w') \<Longrightarrow>
      sane w' \<and> others api tv (put_ids (pending w)) (durable w) (durable w') \<and>
      (\<forall>x. ra = Ok x \<longrightarrow> live w' \<and> pending w' = pending w \<and>
        x = st_accounts (apply_writes (pending w) (durable w')) a)"
    and find_credential_law: "live w \<Longrightarrow> tx_find_fare_credential P i w = (rc, w') \<Longrightarrow>
      sane w' \<and> others api tv (put_ids (pending w)) (durable w) (durable w') \<and>
      (\<forall>x. rc = Ok x \<longrightarrow> live w' \<and> pending w' = pending w \<and>
        x = st_credentials (apply_writes (pending w) (durable w')) i)"
    and save_law: "live w \<Longrightarrow> credential_ok api c \<Longrightarrow> tx_save_fare_credential P c cond w = (r, w') \<Longrightarrow>
      sane w' \<and> others api tv (put_ids (pending w)) (durable w) (durable w') \<and>
      (isl r \<or> live w' \<and> save_allowed (credential_id c) cond (apply_writes (pending w) (durable w')) \<and>
        pending w' = pending w @ [PutCredential (VersionedAggregate c (saved_version cond))])"
    and append_law: "live w \<Longrightarrow> tx_append_domain_event P ev w = (r, w') \<Longrightarrow>
      sane w' \<and> others api tv (put_ids (pending w)) (durable w) (durable w') \<and>
      (isl r \<or> live w' \<and> (\<exists>rec. DomainEventRecord_from_domain tv ev = Ok rec \<and>
        pending w' = pending w @ [AppendRecord rec]))"
    and commit_law: "live w \<Longrightarrow> tx_commit P w = (r, w') \<Longrightarrow>
      sane w' \<and>
      ((\<exists>s. others api tv (put_ids (pending w)) (durable w) s \<and>
         others api tv {} (apply_writes (pending w) s) (durable w')) \<or>
       isl r \<and> others api tv {} (durable w) (durable w'))"
    and rollback_law: "sane w \<Longrightarrow> tx_rollback P w = (r, w') \<Longrightarrow>
      sane w' \<and> others api tv {} (durable w) (durable w')"
begin

lemma rollback_keeps:
  assumes "sane w" "others api tv {} s0 (durable w)"
    and "\<And>e' w'. sane w' \<Longrightarrow> others api tv {} s0 (durable w') \<Longrightarrow> Q (Err e', w')"
  shows "Q (rollback_with P e w)"
proof (rule rollback_with_cases)
  fix r w' e'
  assume "tx_rollback P w = (r, w')"
  from rollback_law [OF assms(1) this] have "sane w'" "others api tv {} (durable w) (durable w')"
    by simp_all
  then show "Q (Err e', w')"
    using assms(2,3) others_trans by blast
qed

lemma attempt_keeps:
  assumes "sane w'" "others api tv L (durable w) (durable w')" "others api tv {} s0 (durable w)"
    and "\<And>e' w'. sane w' \<Longrightarrow> others api tv {} s0 (durable w') \<Longrightarrow> Q (Err e', w')"
  shows "Q (rollback_with P e w')"
proof (rule rollback_keeps [OF assms(1)])
  show "others api tv {} s0 (durable w')"
    by (rule others_trans [OF others_mono [OF assms(2) empty_subsetI] assms(3)])
qed (rule assms(4))

lemma find_credential_step:
  assumes "live w" "others api tv {} s0 (durable w)"
    and fail: "\<And>e w'. sane w' \<Longrightarrow> others api tv {} s0 (durable w') \<Longrightarrow> Q (Err e, w')"
    and go: "\<And>w1. live w1 \<Longrightarrow> pending w1 = pending w \<Longrightarrow>
      others api tv (put_ids (pending w)) (durable w) (durable w1) \<Longrightarrow>
      Q (k (st_credentials (apply_writes (pending w) (durable w1)) i) w1)"
  shows "Q (attempt P (tx_find_fare_credential P i) k w)"
proof (rule attempt_cases)
  fix x w1
  assume "tx_find_fare_credential P i w = (Ok x, w1)"
  from find_credential_law [OF assms(1) this] show "Q (k x w1)"
    using go [of w1] by simp
next
  fix e w1
  assume "tx_find_fare_credential P i w = (Err e, w1)"
  from find_credential_law [OF assms(1) this] show "Q (rollback_with P (App_Repository e) w1)"
    using assms(2) fail attempt_keeps by blast
qed

lemma find_account_step:
  assumes "live w" "others api tv {} s0 (durable w)"
    and fail: "\<And>e w'. sane w' \<Longrightarrow> others api tv {} s0 (durable w') \<Longrightarrow> Q (Err e, w')"
    and go: "\<And>w1. live w1 \<Longrightarrow> pending w1 = pending w \<Longrightarrow>
      others api tv (put_ids (pending w)) (durable w) (durable w1) \<Longrightarrow>
      Q (k (st_accounts (durable w1) a) w1)"
  shows "Q (attempt P (tx_find_transit_account P a) k w)"
proof (rule attempt_cases)
  fix x w1
  assume "tx_find_transit_account P a w = (Ok x, w1)"
  from find_account_law [OF assms(1) this] show "Q (k x w1)"
    using go [of w1] by simp
next
  fix e w1
  assume "tx_find_transit_account P a w = (Err e, w1)"
  from find_account_law [OF assms(1) this] show "Q (rollback_with P (App_Repository e) w1)"
    using assms(2) fail attempt_keeps by blast
qed

lemma save_step:
  assumes "live w" "credential_ok api c" "others api tv {} s0 (durable w)"
    and fail: "\<And>e w'. sane w' \<Longrightarrow> others api tv {} s0 (durable w') \<Longrightarrow> Q (Err e, w')"
    and go: "\<And>w1. live w1 \<Longrightarrow> others api tv (put_ids (pending w)) (durable w) (durable w1) \<Longrightarrow>
      save_allowed (credential_id c) cond (apply_writes (pending w) (durable w1)) \<Longrightarrow>
      pending w1 = pending w @ [PutCredential (VersionedAggregate c (saved_version cond))] \<Longrightarrow>
      Q (k () w1)"
  shows "Q (attempt P (tx_save_fare_credential P c cond) k w)"
proof (rule attempt_cases)
  fix x w1
  assume "tx_save_fare_credential P c cond w = (Ok x, w1)"
  from save_law [OF assms(1,2) this] show "Q (k x w1)"
    using go [of w1] by simp
next
  fix e w1
  assume "tx_save_fare_credential P c cond w = (Err e, w1)"
  from save_law [OF assms(1,2) this] show "Q (rollback_with P (App_Repository e) w1)"
    using assms(3) fail attempt_keeps by blast
qed

lemma append_step:
  assumes "live w" "others api tv {} s0 (durable w)"
    and fail: "\<And>e w'. sane w' \<Longrightarrow> others api tv {} s0 (durable w') \<Longrightarrow> Q (Err e, w')"
    and go: "\<And>w1 rec. live w1 \<Longrightarrow> others api tv (put_ids (pending w)) (durable w) (durable w1) \<Longrightarrow>
      DomainEventRecord_from_domain tv ev = Ok rec \<Longrightarrow> pending w1 = pending w @ [AppendRecord rec] \<Longrightarrow>
      Q (k () w1)"
  shows "Q (attempt P (tx_append_domain_event P ev) k w)"
proof (rule attempt_cases)
  fix x w1
  assume "tx_append_domain_event P ev w = (Ok x, w1)"
  from append_law [OF assms(1) this] show "Q (k x w1)"
    using go [of w1] by auto
next
  fix e w1
  assume "tx_append_domain_event P ev w = (Err e, w1)"
  from append_law [OF assms(1) this] show "Q (rollback_with P (App_Repository e) w1)"
    using assms(2) fail attempt_keeps by blast
qed

lemma commit_step:
  assumes "live w" "others api tv {} s0 (durable w)"
    and fail: "\<And>e w'. sane w' \<Longrightarrow> others api tv {} s0 (durable w') \<Longrightarrow> Q (Err e, w')"
    and go: "\<And>s w'. sane w' \<Longrightarrow> others api tv (put_ids (pending w)) (durable w) s \<Longrightarrow>
      others api tv {} (apply_writes (pending w) s) (durable w') \<Longrightarrow>
      Q (Ok res, w') \<and> (\<forall>e. Q (Err e, w'))"
  shows "Q (committed P res w)"
proof (rule committed_cases)
  fix w'
  assume "tx_commit P w = (Ok (), w')"
  from commit_law [OF assms(1) this] show "Q (Ok res, w')"
    using go by auto
next
  fix e w'
  assume "tx_commit P w = (Err e, w')"
  from commit_law [OF assms(1) this] show "Q (Err (App_Repository e), w')"
    using go fail assms(2) others_trans by blast
qed

lemma check_step:
  assumes "live w" "others api tv {} s0 (durable w)"
    and fail: "\<And>e w'. sane w' \<Longrightarrow> others api tv {} s0 (durable w') \<Longrightarrow> Q (Err e, w')"
    and go: "\<And>x. r = Ok x \<Longrightarrow> Q (k x w)"
  shows "Q (or_rollback P r k w)"
proof (rule or_rollback_cases)
  fix e
  show "Q (rollback_with P e w)"
    using live_sane [OF assms(1)] assms(2) fail by (rule rollback_keeps [where Q = Q])
qed (rule go)

lemma begin_step:
  assumes "sane w"
    and fail: "\<And>e w'. sane w' \<Longrightarrow> others api tv {} (durable w) (durable w') \<Longrightarrow> Q (Err e, w')"
    and go: "\<And>w1. live w1 \<Longrightarrow> pending w1 = [] \<Longrightarrow> others api tv {} (durable w) (durable w1) \<Longrightarrow> Q (k w1)"
  shows "Q (began P k w)"
proof (rule began_cases)
  fix w1
  assume "tx_begin P w = (Ok (), w1)"
  from begin_law [OF assms(1) this] show "Q (k w1)"
    using go by simp
next
  fix e w1
  assume "tx_begin P w = (Err e, w1)"
  from begin_law [OF assms(1) this] show "Q (Err (App_Repository e), w1)"
    using fail by simp
qed

text \<open>The writes of a status change, committed.\<close>

lemma change_tail:
  assumes live: "live w" "pending w = []"
    and start: "store_inv api s0" "others api tv {} s0 (durable w)"
    and va: "st_credentials (durable w) cid = Some va"
      "credential_status (va_aggregate va) \<noteq> change_target ch"
    and v: "next_version va = Some v"
    and c: "credential_step (change_op ch) (va_aggregate va) = Ok c"
    and event: "DomainEvent_new ev_id v time (FareCredentialStatusChanged cid
        (credential_status (va_aggregate va)) (change_target ch)) = Ok event"
    and fail: "\<And>e w'. sane w' \<Longrightarrow> others api tv {} s0 (durable w') \<Longrightarrow> Q (Err e, w')"
    and lin: "\<And>s w'. sane w' \<Longrightarrow> st_credentials s cid = Some va \<Longrightarrow>
      linearized api tv time (Cmd_Change ch cid ev_id) s0 s (durable w') \<Longrightarrow>
      Q (Ok res, w') \<and> (\<forall>e. Q (Err e, w'))"
  shows "Q (attempt P (tx_save_fare_credential P c (IfVersion (va_version va))) (\<lambda>_.
    attempt P (tx_append_domain_event P event) (\<lambda>_. committed P res)) w)"
proof (rule save_step [where Q = Q, OF live(1) _ start(2) fail])
  have inv: "store_inv api (durable w)"
    using start by (rule others_store_inv [rotated])
  note entry = store_inv_entry [OF inv va(1)]
  have id: "credential_id c = cid"
    using credential_step_fields(1) [OF c] entry(1) by simp
  show "credential_ok api c"
    using entry(2) c by (rule credential_step_ok) (cases ch; simp)
  fix w1
  assume w1: "live w1" "others api tv (put_ids (pending w)) (durable w) (durable w1)"
    "save_allowed (credential_id c) (IfVersion (va_version va)) (apply_writes (pending w) (durable w1))"
    "pending w1 = pending w @ [PutCredential (VersionedAggregate c (saved_version (IfVersion (va_version va))))]"
  have o1: "others api tv {} (durable w) (durable w1)" using w1(2) live by simp
  have same: "st_credentials (durable w1) cid = Some va"
    using w1(3) live id others_same_version [OF o1 inv va(1)] by auto
  have pend: "pending w1 = [PutCredential (VersionedAggregate c v)]"
    using w1(4) live v by (simp add: next_version_eq_Some)
  show "Q (attempt P (tx_append_domain_event P event) (\<lambda>_. committed P res) w1)"
  proof (rule append_step [where Q = Q, OF w1(1) others_trans [OF o1 start(2)] fail])
    fix w2 rec
    assume w2: "live w2" "others api tv (put_ids (pending w1)) (durable w1) (durable w2)"
      "DomainEventRecord_from_domain tv event = Ok rec" "pending w2 = pending w1 @ [AppendRecord rec]"
    have o2: "others api tv {} s0 (durable w2)"
      using others_trans [OF others_mono [OF w2(2) empty_subsetI] others_trans [OF o1 start(2)]] .
    show "Q (committed P res w2)"
    proof (rule commit_step [where Q = Q, OF w2(1) o2 fail])
      fix s w'
      assume s: "others api tv (put_ids (pending w2)) (durable w2) s"
        "others api tv {} (apply_writes (pending w2) s) (durable w')" "sane w'"
      have "st_credentials s cid = Some va"
        using same others_locked [OF w2(2), of cid] others_locked [OF s(1), of cid] w2(4) pend id by simp
      moreover have "event_record tv ev_id v time (FareCredentialStatusChanged cid
          (credential_status (va_aggregate va)) (change_target ch)) = Some rec"
        using event w2(3) by (simp add: event_record_def)
      ultimately have "writes_of tv time (Cmd_Change ch cid ev_id) s = Some (pending w2)"
        using va(2) v c w2(4) pend by (simp add: writes_of_change_eq)
      moreover have "others api tv {} s0 s"
        using others_trans [OF others_mono [OF s(1) empty_subsetI] o2] .
      ultimately show "Q (Ok res, w') \<and> (\<forall>e. Q (Err e, w'))"
        using s \<open>st_credentials s cid = Some va\<close> by (intro lin) (auto simp: linearized_def)
    qed
  qed
qed

lemma change_status_linearized:
  fixes clock :: "'c ClockError + DomainEventTime" and unchanged :: "FareCredential \<Rightarrow> 'r"
  assumes "sane w" "store_inv api (durable w)"
    and run: "change_status api P clock ev_id operation invalid (change_target ch)
      (credential_step (change_op ch)) unchanged changed cid w = (r, w')"
  shows "sane w' \<and> change_post api tv clock ch cid ev_id unchanged changed (durable w) r (durable w')"
proof -
  define Q where "Q = (\<lambda>(r :: ('e, 'c) ApplicationError + 'r, w'). sane w' \<and>
    change_post api tv clock ch cid ev_id unchanged changed (durable w) r (durable w'))"
  have fail: "Q (Err e, w')" if "sane w'" "others api tv {} (durable w) (durable w')" for e w'
    using that by (simp add: Q_def change_post_def)
  have loaded: "Q (change_loaded P clock ev_id operation invalid (change_target ch)
      (credential_step (change_op ch)) unchanged changed cid va w2)"
    if w2: "live w2" "pending w2 = []" and o2: "others api tv {} (durable w) (durable w2)"
      and va: "st_credentials (durable w2) cid = Some va" for va w2
  proof (cases "credential_status (va_aggregate va) = change_target ch")
    case True
    have "Q (committed P (unchanged (va_aggregate va)) w2)"
    proof (rule commit_step [where Q = Q, OF w2(1) o2 fail])
      fix s w3
      assume "sane w3" "others api tv (put_ids (pending w2)) (durable w2) s"
        "others api tv {} (apply_writes (pending w2) s) (durable w3)"
      then have "sane w3" "others api tv {} (durable w2) (durable w3)"
        using w2(2) others_trans by auto
      then show "Q (Ok (unchanged (va_aggregate va)), w3) \<and> (\<forall>e. Q (Err e, w3))"
        using True va o2 others_trans fail by (auto simp: Q_def change_post_def)
    qed
    then show ?thesis using True by (simp add: change_loaded_def)
  next
    case False
    have lin: "Q (Ok (changed (va_aggregate va) c), w3) \<and> (\<forall>e. Q (Err e, w3))"
      if "sane w3" "st_credentials s cid = Some va" "clock = Ok time"
        "credential_step (change_op ch) (va_aggregate va) = Ok c"
        "linearized api tv time (Cmd_Change ch cid ev_id) (durable w) s (durable w3)"
      for s time c w3
      using that False by (auto simp: Q_def change_post_def linearized_def)
    show ?thesis
      unfolding change_loaded_def using False
      apply simp
      apply (rule check_step [where Q = Q, OF w2(1) o2 fail], assumption+)
      apply (rule check_step [where Q = Q, OF w2(1) o2 fail], assumption+)
      apply (rule check_step [where Q = Q, OF w2(1) o2 fail], assumption+)
      apply (rule check_step [where Q = Q, OF w2(1) o2 fail], assumption+)
      apply (rule change_tail [where Q = Q, OF w2 assms(2) o2 va])
      apply (simp_all add: result_simps fail)
      apply (rule lin, assumption+)
      done
  qed
  have "Q (change_status api P clock ev_id operation invalid (change_target ch)
      (credential_step (change_op ch)) unchanged changed cid w)"
    unfolding change_status_def
    apply (rule begin_step [where Q = Q, OF assms(1) fail], assumption+)
    apply (rule find_credential_step [where Q = Q and ?s0.0 = "durable w", OF _ _ fail], assumption+)
    apply (rule check_step [where Q = Q and ?s0.0 = "durable w", OF _ _ fail], assumption)
    apply (auto simp: result_simps intro: loaded others_trans fail)
    done
  then show ?thesis
    using run by (simp add: Q_def)
qed

lemma issue_tail:
  assumes live: "live w" "pending w = []"
    and start: "others api tv {} s0 (durable w)"
    and ids: "valid_identifier api acct" "valid_identifier api new_id"
    and a: "st_accounts (durable w) acct = Some a" "account_status (va_aggregate a) = Account_Active"
    and event: "DomainEvent_new ev_id 1 time (FareCredentialIssued new_id acct kind) = Ok event"
    and fail: "\<And>e w'. sane w' \<Longrightarrow> others api tv {} s0 (durable w') \<Longrightarrow> Q (Err e, w')"
    and lin: "\<And>s w'. sane w' \<Longrightarrow>
      linearized api tv time (Cmd_Issue acct kind new_id ev_id) s0 s (durable w') \<Longrightarrow>
      Q (Ok res, w') \<and> (\<forall>e. Q (Err e, w'))"
  shows "Q (attempt P (tx_save_fare_credential P (FareCredential_new_pending new_id acct kind) MustNotExist)
    (\<lambda>_. attempt P (tx_append_domain_event P event) (\<lambda>_. committed P res)) w)"
proof (rule save_step [where Q = Q, OF live(1) _ start fail])
  let ?c = "FareCredential_new_pending new_id acct kind"
  have id: "credential_id ?c = new_id"
    by (simp add: FareCredential_new_pending_def)
  have "credential_inv ?c" by simp
  then show "credential_ok api ?c"
    using ids by (simp add: credential_ok_def FareCredential_new_pending_def)
  fix w1
  assume w1: "live w1" "others api tv (put_ids (pending w)) (durable w) (durable w1)"
    "save_allowed (credential_id ?c) MustNotExist (apply_writes (pending w) (durable w1))"
    "pending w1 = pending w @ [PutCredential (VersionedAggregate ?c (saved_version MustNotExist))]"
  have o1: "others api tv {} (durable w) (durable w1)" using w1(2) live by simp
  have same: "st_credentials (durable w1) new_id = None"
    using w1(3) live id by simp
  have pend: "pending w1 = [PutCredential (VersionedAggregate ?c 1)]"
    using w1(4) live by simp
  show "Q (attempt P (tx_append_domain_event P event) (\<lambda>_. committed P res) w1)"
  proof (rule append_step [where Q = Q, OF w1(1) others_trans [OF o1 start] fail])
    fix w2 rec
    assume w2: "live w2" "others api tv (put_ids (pending w1)) (durable w1) (durable w2)"
      "DomainEventRecord_from_domain tv event = Ok rec" "pending w2 = pending w1 @ [AppendRecord rec]"
    have o2: "others api tv {} s0 (durable w2)"
      using others_trans [OF others_mono [OF w2(2) empty_subsetI] others_trans [OF o1 start]] .
    show "Q (committed P res w2)"
    proof (rule commit_step [where Q = Q, OF w2(1) o2 fail])
      fix s w'
      assume s: "others api tv (put_ids (pending w2)) (durable w2) s"
        "others api tv {} (apply_writes (pending w2) s) (durable w')" "sane w'"
      have "st_credentials s new_id = None"
        using same others_locked [OF w2(2), of new_id] others_locked [OF s(1), of new_id] w2(4) pend id
        by simp
      moreover have "event_record tv ev_id 1 time (FareCredentialIssued new_id acct kind) = Some rec"
        using event w2(3) by (simp add: event_record_def)
      moreover have "st_accounts s acct = Some a"
        using a(1) others_accounts [OF o1] others_accounts [OF w2(2)] others_accounts [OF s(1)] by simp
      ultimately have "writes_of tv time (Cmd_Issue acct kind new_id ev_id) s = Some (pending w2)"
        using a(2) w2(4) pend by (simp add: writes_of_issue_eq)
      moreover have "others api tv {} s0 s"
        using others_trans [OF others_mono [OF s(1) empty_subsetI] o2] .
      ultimately show "Q (Ok res, w') \<and> (\<forall>e. Q (Err e, w'))"
        using s by (intro lin) (auto simp: linearized_def)
    qed
  qed
qed

lemma issue_linearized:
  fixes clock :: "'c ClockError + DomainEventTime"
  assumes "sane w" and ids: "valid_identifier api (issue_account_id command)" "valid_identifier api new_id"
    and run: "IssueFareCredential_execute api P clock new_id ev_id command w = (r, w')"
  shows "sane w' \<and> issue_post api tv clock new_id ev_id command (durable w) r (durable w')"
proof -
  define Q where "Q = (\<lambda>(r :: ('e, 'c) ApplicationError + IssuedFareCredential, w'). sane w' \<and>
    issue_post api tv clock new_id ev_id command (durable w) r (durable w'))"
  have fail: "Q (Err e, w')" if "sane w'" "others api tv {} (durable w) (durable w')" for e w'
    using that by (simp add: Q_def issue_post_def)
  have lin: "Q (Ok \<lparr> issued_credential_id = new_id, issued_account_id = issue_account_id command,
      issued_kind = issue_kind command, issued_status = Credential_Pending \<rparr>, w3) \<and> (\<forall>e. Q (Err e, w3))"
    if "clock = Ok time" "sane w3" "linearized api tv time
      (Cmd_Issue (issue_account_id command) (issue_kind command) new_id ev_id) (durable w) s (durable w3)"
    for s time w3
    using that by (auto simp: Q_def issue_post_def)
  have pending_status: "credential_status (FareCredential_new_pending n a k) = Credential_Pending" for n a k
    by (simp add: FareCredential_new_pending_def)
  have "Q (IssueFareCredential_execute api P clock new_id ev_id command w)"
  proof (cases clock)
    case (Inl e)
    then show ?thesis
      using assms(1) fail [of w] by (simp add: IssueFareCredential_execute_def others.nothing)
  next
    case (Inr time)
    show ?thesis
      unfolding IssueFareCredential_execute_def Inr sum.case Let_def pending_status
      apply (rule begin_step [where Q = Q, OF assms(1) fail], assumption+)
      apply (rule find_account_step [where Q = Q and ?s0.0 = "durable w", OF _ _ fail], assumption+)
      subgoal for w1 w2
        apply (subgoal_tac "others api tv {} (durable w) (durable w2)")
         prefer 2
         apply (simp add: others_trans)
        apply (rule check_step [where Q = Q and ?s0.0 = "durable w", OF _ _ fail], assumption+)
        apply (rule check_step [where Q = Q and ?s0.0 = "durable w", OF _ _ fail], assumption+)
        apply (rule check_step [where Q = Q and ?s0.0 = "durable w", OF _ _ fail], assumption+)
        apply (rule check_step [where Q = Q and ?s0.0 = "durable w", OF _ _ fail], assumption+)
        apply (rule issue_tail [where Q = Q and ?s0.0 = "durable w" and time = time and ev_id = ev_id,
              OF _ _ _ ids])
               apply (simp_all add: result_simps AggregateVersion_new_def fail)
        apply (rule lin [OF Inr], assumption+)
        done
      done
  qed
  then show ?thesis
    using run by (simp add: Q_def)
qed

text \<open>The writes of a replacement: both credentials first, then both events.\<close>

lemma replace_appends:
  assumes live: "live w"
    and start: "others api tv {} s0 (durable w)"
    and pend: "pending w = [PutCredential (VersionedAggregate c v), PutCredential (VersionedAggregate
        (FareCredential_new_pending new_id (transit_account_id (va_aggregate va)) kind) 1)]"
    and ids: "credential_id c = cid" "new_id \<noteq> cid"
    and here: "st_credentials (durable w) cid = Some va" "st_credentials (durable w) new_id = None"
    and va: "credential_status (va_aggregate va) \<noteq> Credential_Replaced" "next_version va = Some v"
      "credential_step (ReplaceCredential new_id) (va_aggregate va) = Ok c"
    and events: "DomainEvent_new ev_id v time (FareCredentialStatusChanged cid
        (credential_status (va_aggregate va)) Credential_Replaced) = Ok event"
      "DomainEvent_new new_ev_id 1 time
        (FareCredentialIssued new_id (transit_account_id (va_aggregate va)) kind) = Ok new_event"
    and fail: "\<And>e w'. sane w' \<Longrightarrow> others api tv {} s0 (durable w') \<Longrightarrow> Q (Err e, w')"
    and lin: "\<And>s w'. sane w' \<Longrightarrow> st_credentials s cid = Some va \<Longrightarrow>
      linearized api tv time (Cmd_Replace cid kind new_id ev_id new_ev_id) s0 s (durable w') \<Longrightarrow>
      Q (Ok res, w') \<and> (\<forall>e. Q (Err e, w'))"
  shows "Q (attempt P (tx_append_domain_event P event) (\<lambda>_.
    attempt P (tx_append_domain_event P new_event) (\<lambda>_. committed P res)) w)"
proof (rule append_step [where Q = Q, OF live start fail])
  have new_id: "credential_id (FareCredential_new_pending new_id a kind) = new_id" for a
    by (simp add: FareCredential_new_pending_def)
  fix w1 r
  assume w1: "live w1" "others api tv (put_ids (pending w)) (durable w) (durable w1)"
    "DomainEventRecord_from_domain tv event = Ok r" "pending w1 = pending w @ [AppendRecord r]"
  have o1: "others api tv {} s0 (durable w1)"
    using others_trans [OF others_mono [OF w1(2) empty_subsetI] start] .
  show "Q (attempt P (tx_append_domain_event P new_event) (\<lambda>_. committed P res) w1)"
  proof (rule append_step [where Q = Q, OF w1(1) o1 fail])
    fix w2 r'
    assume w2: "live w2" "others api tv (put_ids (pending w1)) (durable w1) (durable w2)"
      "DomainEventRecord_from_domain tv new_event = Ok r'" "pending w2 = pending w1 @ [AppendRecord r']"
    have o2: "others api tv {} s0 (durable w2)"
      using others_trans [OF others_mono [OF w2(2) empty_subsetI] o1] .
    show "Q (committed P res w2)"
    proof (rule commit_step [where Q = Q, OF w2(1) o2 fail])
      fix s w'
      assume s: "others api tv (put_ids (pending w2)) (durable w2) s"
        "others api tv {} (apply_writes (pending w2) s) (durable w')" "sane w'"
      have locked: "st_credentials s i = st_credentials (durable w) i" if "i = cid \<or> i = new_id" for i
        using that others_locked [OF w1(2), of i] others_locked [OF w2(2), of i]
          others_locked [OF s(1), of i] w1(4) w2(4) pend ids(1) new_id by auto
      have creds: "st_credentials s cid = Some va" "st_credentials s new_id = None"
        using locked here by simp_all
      moreover have "event_record tv ev_id v time (FareCredentialStatusChanged cid
          (credential_status (va_aggregate va)) Credential_Replaced) = Some r"
        "event_record tv new_ev_id 1 time
          (FareCredentialIssued new_id (transit_account_id (va_aggregate va)) kind) = Some r'"
        using events w1(3) w2(3) by (simp_all add: event_record_def)
      ultimately have "writes_of tv time (Cmd_Replace cid kind new_id ev_id new_ev_id) s =
          Some (pending w2)"
        using va w1(4) w2(4) pend by (simp add: writes_of_replace_eq)
      moreover have "others api tv {} s0 s"
        using others_trans [OF others_mono [OF s(1) empty_subsetI] o2] .
      ultimately show "Q (Ok res, w') \<and> (\<forall>e. Q (Err e, w'))"
        using s creds(1) by (intro lin) (auto simp: linearized_def)
    qed
  qed
qed

lemma replace_tail:
  assumes live: "live w" "pending w = []"
    and start: "store_inv api s0" "others api tv {} s0 (durable w)"
    and new: "valid_identifier api new_id"
    and here: "st_credentials (durable w) cid = Some va"
    and va: "credential_status (va_aggregate va) \<noteq> Credential_Replaced" "next_version va = Some v"
      "credential_step (ReplaceCredential new_id) (va_aggregate va) = Ok c"
    and events: "DomainEvent_new ev_id v time (FareCredentialStatusChanged cid
        (credential_status (va_aggregate va)) Credential_Replaced) = Ok event"
      "DomainEvent_new new_ev_id 1 time
        (FareCredentialIssued new_id (transit_account_id (va_aggregate va)) kind) = Ok new_event"
    and fail: "\<And>e w'. sane w' \<Longrightarrow> others api tv {} s0 (durable w') \<Longrightarrow> Q (Err e, w')"
    and lin: "\<And>s w'. sane w' \<Longrightarrow> st_credentials s cid = Some va \<Longrightarrow>
      linearized api tv time (Cmd_Replace cid kind new_id ev_id new_ev_id) s0 s (durable w') \<Longrightarrow>
      Q (Ok res, w') \<and> (\<forall>e. Q (Err e, w'))"
  shows "Q (attempt P (tx_save_fare_credential P c (IfVersion (va_version va))) (\<lambda>_.
    attempt P (tx_save_fare_credential P
      (FareCredential_new_pending new_id (transit_account_id (va_aggregate va)) kind) MustNotExist) (\<lambda>_.
    attempt P (tx_append_domain_event P event) (\<lambda>_.
    attempt P (tx_append_domain_event P new_event) (\<lambda>_. committed P res)))) w)"
proof (rule save_step [where Q = Q, OF live(1) _ start(2) fail])
  let ?n = "FareCredential_new_pending new_id (transit_account_id (va_aggregate va)) kind"
  have inv: "store_inv api (durable w)"
    using start by (rule others_store_inv [rotated])
  note entry = store_inv_entry [OF inv here]
  have id: "credential_id c = cid" "new_id \<noteq> cid"
    using credential_step_fields(1) [OF va(3)] replaced_credential_fields(3) [OF va(3,1)] entry(1)
    by simp_all
  show ok: "credential_ok api c"
    using entry(2) va(3) by (rule credential_step_ok) (simp add: new)
  fix w1
  assume w1: "live w1" "others api tv (put_ids (pending w)) (durable w) (durable w1)"
    "save_allowed (credential_id c) (IfVersion (va_version va)) (apply_writes (pending w) (durable w1))"
    "pending w1 = pending w @ [PutCredential (VersionedAggregate c (saved_version (IfVersion (va_version va))))]"
  have o1: "others api tv {} (durable w) (durable w1)" using w1(2) live by simp
  have same: "st_credentials (durable w1) cid = Some va"
    using w1(3) live id others_same_version [OF o1 inv here] by auto
  have pend: "pending w1 = [PutCredential (VersionedAggregate c v)]"
    using w1(4) live va(2) by (simp add: next_version_eq_Some)
  have o1': "others api tv {} s0 (durable w1)" using others_trans [OF o1 start(2)] .
  show "Q (attempt P (tx_save_fare_credential P ?n MustNotExist) (\<lambda>_.
    attempt P (tx_append_domain_event P event) (\<lambda>_.
    attempt P (tx_append_domain_event P new_event) (\<lambda>_. committed P res))) w1)"
  proof (rule save_step [where Q = Q, OF w1(1) _ o1' fail])
    show "credential_ok api ?n"
      using entry(2) new credential_inv_new
      by (simp add: credential_ok_def) (simp add: FareCredential_new_pending_def)
    have nid: "credential_id ?n = new_id" by (simp add: FareCredential_new_pending_def)
    fix w2
    assume w2: "live w2" "others api tv (put_ids (pending w1)) (durable w1) (durable w2)"
      "save_allowed (credential_id ?n) MustNotExist (apply_writes (pending w1) (durable w2))"
      "pending w2 = pending w1 @ [PutCredential (VersionedAggregate ?n (saved_version MustNotExist))]"
    have o2: "others api tv {} s0 (durable w2)"
      using others_trans [OF others_mono [OF w2(2) empty_subsetI] o1'] .
    have pend2: "pending w2 = [PutCredential (VersionedAggregate c v), PutCredential (VersionedAggregate ?n 1)]"
      using w2(4) pend by simp
    have "st_credentials (durable w2) cid = Some va" "st_credentials (durable w2) new_id = None"
      using same others_locked [OF w2(2), of cid] pend id w2(3) nid by auto
    then show "Q (attempt P (tx_append_domain_event P event) (\<lambda>_.
        attempt P (tx_append_domain_event P new_event) (\<lambda>_. committed P res)) w2)"
      by (rule replace_appends [where Q = Q, OF w2(1) o2 pend2 id _ _ va events]) (fact fail lin)+
  qed
qed

lemma rollback_repository:
  assumes "sane w" "others api tv {} s0 (durable w)"
    and fail: "\<And>e w'. sane w' \<Longrightarrow> others api tv {} s0 (durable w') \<Longrightarrow> Q (Err (App_Repository e), w')"
  shows "Q (rollback_with P (App_Repository e) w)"
proof -
  obtain r w2 where roll: "tx_rollback P w = (r, w2)" by (cases "tx_rollback P w")
  then have "sane w2" "others api tv {} s0 (durable w2)"
    using rollback_law [OF assms(1) roll] others_trans [OF _ assms(2)] by blast+
  then show ?thesis
    using roll fail by (cases r) (simp_all add: rollback_with_def)
qed

lemma read_only_commit:
  assumes w: "live w" "pending w = []" "others api tv {} s0 (durable w)"
    and fail: "\<And>e w'. sane w' \<Longrightarrow> others api tv {} s0 (durable w') \<Longrightarrow> Q (Err (App_Repository e), w')"
    and go: "\<And>w'. sane w' \<Longrightarrow> others api tv {} (durable w) (durable w') \<Longrightarrow> Q (Ok res, w')"
  shows "Q (committed P res w)"
proof -
  have *: "sane w' \<and> others api tv {} (durable w) (durable w')" if "tx_commit P w = (r, w')" for r w'
    using commit_law [OF w(1) that] w(2) others_trans by auto
  show ?thesis
  proof (rule committed_cases)
    fix w'
    assume "tx_commit P w = (Ok (), w')"
    then show "Q (Ok res, w')"
      using * go by simp
  next
    fix e w'
    assume "tx_commit P w = (Err e, w')"
    from * [OF this] show "Q (Err (App_Repository e), w')"
      using fail others_trans [OF _ w(3)] by simp
  qed
qed

text \<open>
  Reporting an earlier replacement: the successor is found, so none of the conflicts the service
  guards against can arise.
\<close>

lemma report_step:
  assumes live: "live w" "pending w = []"
    and start: "store_inv api s0" "others api tv {} s0 (durable w)"
    and va: "st_credentials (durable w) cid = Some va"
      "credential_status (va_aggregate va) = Credential_Replaced"
    and fail: "\<And>e w'. sane w' \<Longrightarrow> others api tv {} s0 (durable w') \<Longrightarrow> Q (Err (App_Repository e), w')"
    and found: "\<And>s' new vb w'. sane w' \<Longrightarrow> replacement_id (va_aggregate va) = Some new \<Longrightarrow>
      others api tv {} (durable w) s' \<Longrightarrow> st_credentials s' new = Some vb \<Longrightarrow>
      transit_account_id (va_aggregate vb) = transit_account_id (va_aggregate va) \<Longrightarrow>
      others api tv {} s' (durable w') \<Longrightarrow>
      Q (Ok \<lparr> replaced_original_id = cid, replaced_replacement_id = new,
        replaced_previous_status = Credential_Replaced,
        replaced_current_status = Credential_Replaced,
        replaced_replacement_status = credential_status (va_aggregate vb),
        replaced_changed = False \<rparr>, w')"
  shows "Q (report_replacement P cid va w)"
proof -
  have inv: "store_inv api (durable w)"
    using start by (rule others_store_inv [rotated])
  have "credential_inv (va_aggregate va)"
    using store_inv_entry(2) [OF inv va(1)] by (simp add: credential_ok_def)
  then obtain new where new: "replacement_id (va_aggregate va) = Some new"
    using va(2) by (auto simp: credential_inv_def)
  obtain x w1 where find: "tx_find_fare_credential P new w = (x, w1)"
    by (cases "tx_find_fare_credential P new w")
  note law = find_credential_law [OF live(1) find]
  have o1: "others api tv {} (durable w) (durable w1)" "sane w1"
    using law live(2) by simp_all
  show ?thesis
  proof (cases x)
    case (Inl e)
    have "Q (rollback_with P (App_Repository e) w1)"
      using o1(2) others_trans [OF o1(1) start(2)] fail by (rule rollback_repository)
    then show ?thesis
      using find Inl new by (simp add: report_replacement_def or_rollback_def attempt_def)
  next
    case (Inr y)
    then have w1: "live w1" "pending w1 = []" "y = st_credentials (durable w1) new"
      using law live(2) by auto
    have "st_credentials (durable w1) cid = Some va"
      using others_replaced_frozen [OF o1(1) inv va] .
    then obtain vb where vb: "y = Some vb"
      "transit_account_id (va_aggregate vb) = transit_account_id (va_aggregate va)"
      using store_inv_successor [OF others_store_inv [OF o1(1) inv] _ new] w1(3) by auto
    have "Q (committed P \<lparr> replaced_original_id = cid, replaced_replacement_id = new,
        replaced_previous_status = Credential_Replaced, replaced_current_status = Credential_Replaced,
        replaced_replacement_status = credential_status (va_aggregate vb),
        replaced_changed = False \<rparr> w1)"
      using found [OF _ new o1(1)] vb w1(3)
      by (intro read_only_commit [where Q = Q, OF w1(1,2) others_trans [OF o1(1) start(2)] fail]) simp_all
    then show ?thesis
      using find Inr new va(2) vb by (simp add: report_replacement_def or_rollback_def attempt_def)
  qed
qed

lemma replace_linearized:
  fixes clock :: "'c ClockError + DomainEventTime"
  assumes "sane w" "store_inv api (durable w)" and new: "valid_identifier api new_id"
    and run: "ReplaceFareCredential_execute api P clock new_id ev_id new_ev_id command w = (r, w')"
  shows "sane w' \<and> replace_post api tv clock new_id ev_id new_ev_id command (durable w) r (durable w')"
proof -
  define Q where "Q = (\<lambda>(r :: ('e, 'c) ApplicationError + ReplacedFareCredential, w'). sane w' \<and>
    replace_post api tv clock new_id ev_id new_ev_id command (durable w) r (durable w'))"
  have fail: "Q (Err e, w')" if "sane w'" "others api tv {} (durable w) (durable w')" for e w'
    using that by (simp add: Q_def replace_post_def)
  have loaded: "Q ((if credential_status (va_aggregate va) = Credential_Replaced
      then report_replacement P (replace_credential_id command) va
      else perform_replacement P clock new_id ev_id new_ev_id command va) w2)"
    if w2: "live w2" "pending w2 = []" and o2: "others api tv {} (durable w) (durable w2)"
      and va: "st_credentials (durable w2) (replace_credential_id command) = Some va" for va w2
  proof (cases "credential_status (va_aggregate va) = Credential_Replaced")
    case True
    have "Q (report_replacement P (replace_credential_id command) va w2)"
    proof (rule report_step [where Q = Q, OF w2 assms(2) o2 va True])
      fix s' new vb w3
      assume "sane w3" "replacement_id (va_aggregate va) = Some new" "others api tv {} (durable w2) s'"
        "st_credentials s' new = Some vb"
        "transit_account_id (va_aggregate vb) = transit_account_id (va_aggregate va)"
        "others api tv {} s' (durable w3)"
      then show "Q (Ok \<lparr> replaced_original_id = replace_credential_id command,
          replaced_replacement_id = new, replaced_previous_status = Credential_Replaced,
          replaced_current_status = Credential_Replaced,
          replaced_replacement_status = credential_status (va_aggregate vb),
          replaced_changed = False \<rparr>, w3)"
        unfolding Q_def replace_post_def Let_def using True va o2
        by simp (intro exI [of _ "durable w2"] exI [of _ va] conjI; simp; blast)
    qed (rule fail)
    then show ?thesis using True by simp
  next
    case False
    have replaced: "credential_status c = Credential_Replaced"
      if "credential_step (ReplaceCredential new_id) (va_aggregate va) = Ok c" for c
      using that False by (rule replaced_credential_fields)
    have lin: "Q (Ok \<lparr> replaced_original_id = replace_credential_id command,
        replaced_replacement_id = new_id,
        replaced_previous_status = credential_status (va_aggregate va),
        replaced_current_status = credential_status c, replaced_replacement_status = Credential_Pending,
        replaced_changed = True \<rparr>, w3) \<and> (\<forall>e. Q (Err e, w3))"
      if "clock = Ok time" "credential_step (ReplaceCredential new_id) (va_aggregate va) = Ok c" "sane w3"
        "st_credentials s (replace_credential_id command) = Some va"
        "linearized api tv time (Cmd_Replace (replace_credential_id command) (replacement_kind command)
          new_id ev_id new_ev_id) (durable w) s (durable w3)"
      for s time c w3
      unfolding Q_def replace_post_def Let_def using that False replaced [OF that(2)]
      by simp (intro exI [of _ s] exI [of _ va] conjI; auto simp: linearized_def)
    have pending_status: "credential_status (FareCredential_new_pending n a k) = Credential_Pending" for n a k
      by (simp add: FareCredential_new_pending_def)
    have "Q (perform_replacement P clock new_id ev_id new_ev_id command va w2)"
      unfolding perform_replacement_def Let_def pending_status
      apply (rule check_step [where Q = Q, OF w2(1) o2 fail], assumption+)+
      apply (rule replace_tail [where Q = Q and ?s0.0 = "durable w", OF w2 assms(2) o2 new va False])
      apply (simp_all add: result_simps AggregateVersion_new_def fail)
      apply (rule lin, assumption, simp, assumption+)
      done
    then show ?thesis using False by simp
  qed
  have "Q (ReplaceFareCredential_execute api P clock new_id ev_id new_ev_id command w)"
    unfolding ReplaceFareCredential_execute_def Let_def
    apply (rule begin_step [where Q = Q, OF assms(1) fail], assumption+)
    apply (rule find_credential_step [where Q = Q and ?s0.0 = "durable w", OF _ _ fail], assumption+)
    apply (rule check_step [where Q = Q and ?s0.0 = "durable w", OF _ _ fail], assumption)
    apply (auto simp: result_simps intro: loaded others_trans fail split del: if_split)
    done
  then show ?thesis
    using run by (simp add: Q_def)
qed

end

end
