(* ===== verification/PostgresTransaction.thy ===== *)
theory PostgresTransaction
  imports Tables CredentialStore
begin

text \<open>
  The PostgreSQL transaction of \<open>crates/persistence/src/transaction.rs\<close> on the tables of
  \<open>Tables\<close>.  A session sees the committed tables with its own statements applied; another
  session's commit becomes visible between two calls unless it would write a row or a unique key this
  session has written, in which case it waits (read committed isolation with row locks).  What
  happens around each call is given by a script: the service calls other sessions complete, and
  whether the driver reports a failure.  A failed statement aborts the transaction, and a failed
  commit may have been applied (\<open>AnswerLost\<close>) or not.
\<close>

datatype Fault = NoFault | Refused | AnswerLost

record Tick =
  tick_commits :: "(DomainEventTime \<times> CredentialCommand) list"
  tick_fault :: Fault

datatype TxState = Tx_None | Tx_Open | Tx_Aborted

record 'j Pg =
  pg_committed :: "'j Db"
  pg_pending :: "'j Statement list"
  pg_state :: TxState
  pg_script :: "Tick list"

text \<open>The aggregates a database holds.\<close>

definition abs_store :: "UuidApi \<Rightarrow> 'j Db \<Rightarrow> 'j Store" where
  "abs_store api db =
    \<lparr> st_accounts = (\<lambda>i. case find_account_row db i of
         None \<Rightarrow> None
       | Some row \<Rightarrow> (case TransitAccountRow_into_versioned api row of Ok va \<Rightarrow> Some va | Err _ \<Rightarrow> None)),
      st_credentials = (\<lambda>i. case find_credential_row db i of
         None \<Rightarrow> None
       | Some row \<Rightarrow> (case FareCredentialRow_into_versioned api row of Ok va \<Rightarrow> Some va | Err _ \<Rightarrow> None)),
      st_log = db_events db \<rparr>"

fun write_of :: "UuidApi \<Rightarrow> 'j Statement \<Rightarrow> 'j Write list" where
  "write_of api (InsertCredential row) =
    (case FareCredentialRow_into_versioned api row of Ok va \<Rightarrow> [PutCredential va] | Err _ \<Rightarrow> [])"
| "write_of api (UpdateCredential row _) =
    (case FareCredentialRow_into_versioned api row of Ok va \<Rightarrow> [PutCredential va] | Err _ \<Rightarrow> [])"
| "write_of api (InsertEvent r) = [AppendRecord r]"
| "write_of api _ = []"

definition pending_writes :: "UuidApi \<Rightarrow> 'j Statement list \<Rightarrow> 'j Write list" where
  "pending_writes api sts = concat (map (write_of api) sts)"

fun statement_of :: "'j Write \<Rightarrow> 'j Statement" where
  "statement_of (PutCredential va) =
    (let row = FareCredentialRow_from_domain (va_aggregate va) (va_version va)
     in if va_version va = 1 then InsertCredential row else UpdateCredential row (va_version va - 1))"
| "statement_of (AppendRecord r) = InsertEvent r"

definition other_commit ::
  "UuidApi \<Rightarrow> (DomainEventPayload \<Rightarrow> 'j option) \<Rightarrow> ('j \<Rightarrow> bool) \<Rightarrow> 'j Statement list
    \<Rightarrow> DomainEventTime \<times> CredentialCommand \<Rightarrow> 'j Db \<Rightarrow> 'j Db" where
  "other_commit api tv obj own call db =
    (case writes_of tv (fst call) (snd call) (abs_store api db) of
       None \<Rightarrow> db
     | Some ws \<Rightarrow>
         if command_ok api (snd call) \<and> put_ids ws \<inter> put_ids (pending_writes api own) = {}
         then (case exec_statements obj (map statement_of ws) db of
             None \<Rightarrow> db
           | Some db' \<Rightarrow> if deferred_ok db' \<and> exec_statements obj own db' \<noteq> None then db' else db)
         else db)"

definition advance ::
  "UuidApi \<Rightarrow> (DomainEventPayload \<Rightarrow> 'j option) \<Rightarrow> ('j \<Rightarrow> bool) \<Rightarrow> 'j Pg \<Rightarrow> Fault \<times> 'j Pg" where
  "advance api tv obj w =
    (case pg_script w of
       [] \<Rightarrow> (NoFault, w)
     | t # ts \<Rightarrow> (tick_fault t, w\<lparr> pg_script := ts,
         pg_committed := fold (other_commit api tv obj (pg_pending w)) (tick_commits t) (pg_committed w) \<rparr>))"

definition closed :: "'j Pg \<Rightarrow> 'j Pg" where
  "closed w = w\<lparr> pg_pending := [], pg_state := Tx_None \<rparr>"

text \<open>A query and a writing statement inside the transaction.\<close>

definition pg_query ::
  "UuidApi \<Rightarrow> (DomainEventPayload \<Rightarrow> 'j option) \<Rightarrow> ('j \<Rightarrow> bool) \<Rightarrow> string
    \<Rightarrow> ('j Db \<Rightarrow> PersistenceError + 'a) \<Rightarrow> ('j Pg, PersistenceError, 'a) fallible" where
  "pg_query api tv obj operation f w =
    (case advance api tv obj w of (fault, w') \<Rightarrow>
       if fault = NoFault \<and> pg_state w' = Tx_Open
       then (case exec_statements obj (pg_pending w') (pg_committed w') of
           Some view \<Rightarrow> (f view, w')
         | None \<Rightarrow> (Err (Database operation), w'\<lparr> pg_state := Tx_Aborted \<rparr>))
       else (Err (Database operation), w'\<lparr> pg_state := Tx_Aborted \<rparr>))"

definition pg_execute ::
  "UuidApi \<Rightarrow> (DomainEventPayload \<Rightarrow> 'j option) \<Rightarrow> ('j \<Rightarrow> bool) \<Rightarrow> string \<Rightarrow> string
    \<Rightarrow> 'j Statement \<Rightarrow> ('j Pg, PersistenceError, nat) fallible" where
  "pg_execute api tv obj operation entity st w =
    (case advance api tv obj w of (fault, w') \<Rightarrow>
       if fault = NoFault \<and> pg_state w' = Tx_Open
       then (case exec_statements obj (pg_pending w') (pg_committed w') of
           Some view \<Rightarrow>
             (case exec_statement obj st view of
                Ok (n, _) \<Rightarrow> (Ok n, if n = 1 then w'\<lparr> pg_pending := pg_pending w' @ [st] \<rparr> else w')
              | Err d \<Rightarrow> (Err (PersistenceError_write operation entity d), w'\<lparr> pg_state := Tx_Aborted \<rparr>))
         | None \<Rightarrow> (Err (Database operation), w'\<lparr> pg_state := Tx_Aborted \<rparr>))
       else (Err (PersistenceError_write operation entity NotADatabaseError),
         w'\<lparr> pg_state := Tx_Aborted \<rparr>))"

definition repository_error ::
  "string \<Rightarrow> string \<Rightarrow> (PersistenceError + 'a) \<times> 'w \<Rightarrow> (PersistenceError RepositoryError + 'a) \<times> 'w" where
  "repository_error entity operation rw = (map_err (RepositoryError entity operation) (fst rw), snd rw)"

definition encode_next_version :: "AggregateVersion \<Rightarrow> string \<Rightarrow> PersistenceError + i64 \<times> i64" where
  "encode_next_version version field =
    and_then (encode_aggregate_version version) (\<lambda>current.
    and_then (ok_or (checked_add_i64 current 1) (NumericValueOutOfRange field)) (\<lambda>next.
      Ok (current, next)))"

definition enforce_single_write :: "nat \<Rightarrow> string \<Rightarrow> PersistenceError + unit" where
  "enforce_single_write rows_affected entity =
    (if rows_affected \<noteq> 1 then Err (WriteConditionFailed entity) else Ok ())"

text \<open>
  The common shape of \<open>save_account\<close>, \<open>save_credential\<close> and \<open>save_reader\<close>: an insert at version 1,
  or an update of the row at the expected version.
\<close>

definition save_row ::
  "UuidApi \<Rightarrow> (DomainEventPayload \<Rightarrow> 'j option) \<Rightarrow> ('j \<Rightarrow> bool) \<Rightarrow> string \<Rightarrow> string
    \<Rightarrow> (i64 \<Rightarrow> 'j Statement) \<Rightarrow> (i64 \<Rightarrow> i64 \<Rightarrow> 'j Statement) \<Rightarrow> SaveCondition
    \<Rightarrow> ('j Pg, PersistenceError, unit) fallible" where
  "save_row api tv obj entity field insert_st update_st condition w =
    (case condition of
       MustNotExist \<Rightarrow>
         (case pg_execute api tv obj (''insert '' @ entity @ '' in transaction'') entity (insert_st 1) w of
            (r, w') \<Rightarrow> (and_then r (\<lambda>_. Ok ()), w'))
     | IfVersion expected \<Rightarrow>
         (case encode_next_version expected field of
            Err e \<Rightarrow> (Err e, w)
          | Ok (current, next) \<Rightarrow>
              (case pg_execute api tv obj (''update '' @ entity @ '' in transaction'') entity
                  (update_st next current) w of
                 (r, w') \<Rightarrow> (and_then r (\<lambda>n. enforce_single_write n entity), w'))))"

definition pg_find_account ::
  "UuidApi \<Rightarrow> (DomainEventPayload \<Rightarrow> 'j option) \<Rightarrow> ('j \<Rightarrow> bool) \<Rightarrow> TransitAccountId
    \<Rightarrow> ('j Pg, PersistenceError, TransitAccount VersionedAggregate option) fallible" where
  "pg_find_account api tv obj i = pg_query api tv obj ''find transit account in transaction''
    (\<lambda>db. map_transpose (TransitAccountRow_into_versioned api) (find_account_row db i))"

definition pg_save_account ::
  "UuidApi \<Rightarrow> (DomainEventPayload \<Rightarrow> 'j option) \<Rightarrow> ('j \<Rightarrow> bool) \<Rightarrow> TransitAccount \<Rightarrow> SaveCondition
    \<Rightarrow> ('j Pg, PersistenceError, unit) fallible" where
  "pg_save_account api tv obj a = save_row api tv obj ''transit account'' ''transit_accounts.aggregate_version''
    (\<lambda>v. InsertAccount (TransitAccountRow_from_domain a v))
    (\<lambda>v expected. UpdateAccount (TransitAccountRow_from_domain a v) expected)"

definition pg_find_credential ::
  "UuidApi \<Rightarrow> (DomainEventPayload \<Rightarrow> 'j option) \<Rightarrow> ('j \<Rightarrow> bool) \<Rightarrow> FareCredentialId
    \<Rightarrow> ('j Pg, PersistenceError, FareCredential VersionedAggregate option) fallible" where
  "pg_find_credential api tv obj i = pg_query api tv obj ''find fare credential in transaction''
    (\<lambda>db. map_transpose (FareCredentialRow_into_versioned api) (find_credential_row db i))"

definition pg_save_credential ::
  "UuidApi \<Rightarrow> (DomainEventPayload \<Rightarrow> 'j option) \<Rightarrow> ('j \<Rightarrow> bool) \<Rightarrow> FareCredential \<Rightarrow> SaveCondition
    \<Rightarrow> ('j Pg, PersistenceError, unit) fallible" where
  "pg_save_credential api tv obj c = save_row api tv obj ''fare credential'' ''fare_credentials.aggregate_version''
    (\<lambda>v. InsertCredential (FareCredentialRow_from_domain c v))
    (\<lambda>v expected. UpdateCredential (FareCredentialRow_from_domain c v) expected)"

definition pg_find_reader ::
  "UuidApi \<Rightarrow> (DomainEventPayload \<Rightarrow> 'j option) \<Rightarrow> ('j \<Rightarrow> bool) \<Rightarrow> ReaderId
    \<Rightarrow> ('j Pg, PersistenceError, ReaderEquipment VersionedAggregate option) fallible" where
  "pg_find_reader api tv obj i = pg_query api tv obj ''find reader equipment in transaction''
    (\<lambda>db. map_transpose (ReaderEquipmentRow_into_versioned api) (find_reader_row db i))"

definition pg_save_reader ::
  "UuidApi \<Rightarrow> (DomainEventPayload \<Rightarrow> 'j option) \<Rightarrow> ('j \<Rightarrow> bool) \<Rightarrow> ReaderEquipment \<Rightarrow> SaveCondition
    \<Rightarrow> ('j Pg, PersistenceError, unit) fallible" where
  "pg_save_reader api tv obj r = save_row api tv obj ''reader equipment'' ''reader_equipment.aggregate_version''
    (\<lambda>v. InsertReader (ReaderEquipmentRow_from_domain r v))
    (\<lambda>v expected. UpdateReader (ReaderEquipmentRow_from_domain r v) expected)"

definition pg_append_event ::
  "UuidApi \<Rightarrow> (DomainEventPayload \<Rightarrow> 'j option) \<Rightarrow> ('j \<Rightarrow> bool) \<Rightarrow> DomainEvent
    \<Rightarrow> ('j Pg, PersistenceError, unit) fallible" where
  "pg_append_event api tv obj ev w =
    (case DomainEventRecord_from_domain tv ev of
       Err e \<Rightarrow> (Err e, w)
     | Ok r \<Rightarrow>
         (case pg_execute api tv obj ''insert domain event in transaction'' ''domain event'' (InsertEvent r) w of
            (res, w') \<Rightarrow> (and_then res (\<lambda>_. Ok ()), w')))"

definition pg_begin ::
  "UuidApi \<Rightarrow> (DomainEventPayload \<Rightarrow> 'j option) \<Rightarrow> ('j \<Rightarrow> bool) \<Rightarrow> ('j Pg, PersistenceError, unit) fallible" where
  "pg_begin api tv obj w =
    (case advance api tv obj (closed w) of (fault, w') \<Rightarrow>
       if fault = NoFault then (Ok (), w'\<lparr> pg_state := Tx_Open \<rparr>)
       else (Err (Database ''begin application transaction''), w'))"

definition pg_commit ::
  "UuidApi \<Rightarrow> (DomainEventPayload \<Rightarrow> 'j option) \<Rightarrow> ('j \<Rightarrow> bool) \<Rightarrow> ('j Pg, PersistenceError, unit) fallible" where
  "pg_commit api tv obj w =
    (case advance api tv obj w of (fault, w') \<Rightarrow>
       let failed = (Err (Database ''commit application transaction''), closed w') in
       if fault = Refused then failed
       else case pg_state w' of
         Tx_None \<Rightarrow> failed
       | Tx_Aborted \<Rightarrow> (if fault = NoFault then Ok () else fst failed, closed w')
       | Tx_Open \<Rightarrow>
           (case exec_statements obj (pg_pending w') (pg_committed w') of
              None \<Rightarrow> failed
            | Some view \<Rightarrow>
                if deferred_ok view
                then (if fault = NoFault then Ok () else fst failed, closed (w'\<lparr> pg_committed := view \<rparr>))
                else failed))"

definition pg_rollback ::
  "UuidApi \<Rightarrow> (DomainEventPayload \<Rightarrow> 'j option) \<Rightarrow> ('j \<Rightarrow> bool) \<Rightarrow> ('j Pg, PersistenceError, unit) fallible" where
  "pg_rollback api tv obj w =
    (case advance api tv obj w of (fault, w') \<Rightarrow>
       (if fault = NoFault then Ok () else Err (Database ''rollback application transaction''), closed w'))"

definition pg_ports ::
  "UuidApi \<Rightarrow> (DomainEventPayload \<Rightarrow> 'j option) \<Rightarrow> ('j \<Rightarrow> bool) \<Rightarrow> ('j Pg, PersistenceError) TransactionPorts" where
  "pg_ports api tv obj =
    \<lparr> tx_begin = (\<lambda>w. repository_error ''application transaction'' ''begin'' (pg_begin api tv obj w)),
      tx_find_transit_account = (\<lambda>i w.
        repository_error ''transit account'' ''find by identifier'' (pg_find_account api tv obj i w)),
      tx_find_fare_credential = (\<lambda>i w.
        repository_error ''fare credential'' ''find by identifier'' (pg_find_credential api tv obj i w)),
      tx_save_fare_credential = (\<lambda>c cond w.
        repository_error ''fare credential'' ''save'' (pg_save_credential api tv obj c cond w)),
      tx_append_domain_event = (\<lambda>ev w.
        repository_error ''domain event'' ''append'' (pg_append_event api tv obj ev w)),
      tx_commit = (\<lambda>w. repository_error ''application transaction'' ''commit'' (pg_commit api tv obj w)),
      tx_rollback = (\<lambda>w. repository_error ''application transaction'' ''rollback'' (pg_rollback api tv obj w)) \<rparr>"

section \<open>Lemmas\<close>

definition db_ok :: "UuidApi \<Rightarrow> 'j Db \<Rightarrow> bool" where
  "db_ok api db \<longleftrightarrow> distinct (map credential_row_id (db_credentials db)) \<and>
    list_all (\<lambda>row. \<not> isl (FareCredentialRow_into_versioned api row)) (db_credentials db)"

fun statement_ok :: "UuidApi \<Rightarrow> 'j Statement \<Rightarrow> bool" where
  "statement_ok api (InsertCredential row) \<longleftrightarrow> \<not> isl (FareCredentialRow_into_versioned api row)"
| "statement_ok api (UpdateCredential row _) \<longleftrightarrow> \<not> isl (FareCredentialRow_into_versioned api row)"
| "statement_ok api (InsertEvent r) \<longleftrightarrow> True"
| "statement_ok api _ \<longleftrightarrow> False"

lemma not_isl_ex: "\<not> isl x \<longleftrightarrow> (\<exists>y. x = Ok y)"
  by (cases x) auto

lemma decoded_row_id:
  "FareCredentialRow_into_versioned api row = Ok va \<Longrightarrow>
    credential_id (va_aggregate va) = credential_row_id row \<and> va_version va = credential_row_version row"
  by (auto simp: credential_rows_decode FareCredentialRow_from_domain_def)

lemma abs_store_simps [simp]:
  "st_log (abs_store api db) = db_events db"
  "st_accounts (abs_store api (db\<lparr> db_credentials := x \<rparr>)) = st_accounts (abs_store api db)"
  "st_accounts (abs_store api (db\<lparr> db_events := y \<rparr>)) = st_accounts (abs_store api db)"
  "st_credentials (abs_store api (db\<lparr> db_events := y \<rparr>)) = st_credentials (abs_store api db)"
  by (simp_all add: abs_store_def find_account_row_def find_credential_row_def)

lemma insert_credential_effect:
  assumes "exec_statement obj (InsertCredential row) db = Ok (n, db')" "db_ok api db"
    and va: "FareCredentialRow_into_versioned api row = Ok va"
  shows "n = 1 \<and> db_ok api db' \<and> abs_store api db' = apply_write (PutCredential va) (abs_store api db) \<and>
    st_credentials (abs_store api db) (credential_row_id row) = None"
proof -
  have new: "credential_row_id row \<notin> set (map credential_row_id (db_credentials db))"
    and db': "n = 1" "db' = db\<lparr> db_credentials := db_credentials db @ [row] \<rparr>"
    using assms(1) by (auto simp: exec_statement.simps split: if_splits)
  have "st_credentials (abs_store api db') =
      (st_credentials (abs_store api db))(credential_id (va_aggregate va) := Some va)"
    using va decoded_row_id [OF va]
    by (auto simp: db' abs_store_def find_credential_row_def find_append_key [OF new] fun_eq_iff)
  then have "abs_store api db' = apply_write (PutCredential va) (abs_store api db)"
    by (intro Store.equality) (simp_all add: db')
  moreover have "db_ok api db'"
    using assms(2) new va by (simp add: db_ok_def db')
  moreover have "find_credential_row db (credential_row_id row) = None"
    using new by (simp add: find_credential_row_def find_key_None)
  ultimately show ?thesis
    using db' by (simp add: abs_store_def)
qed

lemma update_credential_effect:
  assumes "exec_statement obj (UpdateCredential row expected) db = Ok (n, db')" "n = 1" "db_ok api db"
    and va: "FareCredentialRow_into_versioned api row = Ok va"
  shows "db_ok api db' \<and> abs_store api db' = apply_write (PutCredential va) (abs_store api db) \<and>
    map_option va_version (st_credentials (abs_store api db) (credential_row_id row)) = Some expected"
proof -
  let ?P = "\<lambda>r. credential_row_version r = expected"
  have db': "db' = db\<lparr> db_credentials := map (\<lambda>r. if credential_row_id r = credential_row_id row \<and> ?P r
      then row else r) (db_credentials db) \<rparr>"
    and "list_ex (\<lambda>r. credential_row_id r = credential_row_id row \<and> ?P r) (db_credentials db)"
    using assms(1,2) by (auto simp: exec_statement.simps Let_def split: if_splits)
  then obtain old where old: "old \<in> set (db_credentials db)"
    "credential_row_id old = credential_row_id row" "?P old"
    by (auto simp: list_ex_iff)
  have dist: "distinct (map credential_row_id (db_credentials db))"
    using assms(3) by (simp add: db_ok_def)
  note upd = find_update_key [where P = ?P and key = credential_row_id, OF dist old]
  have "st_credentials (abs_store api db') =
      (st_credentials (abs_store api db))(credential_id (va_aggregate va) := Some va)"
    using va decoded_row_id [OF va]
    by (auto simp: db' abs_store_def find_credential_row_def upd fun_eq_iff)
  then have "abs_store api db' = apply_write (PutCredential va) (abs_store api db)"
    by (intro Store.equality) (simp_all add: db')
  moreover have "db_ok api db'"
  proof -
    have "map credential_row_id (db_credentials db') = map credential_row_id (db_credentials db)"
      by (simp add: db')
    then have "distinct (map credential_row_id (db_credentials db'))"
      using dist by simp
    moreover have "list_all (\<lambda>row. \<not> isl (FareCredentialRow_into_versioned api row)) (db_credentials db')"
      using assms(3) va by (auto simp: db_ok_def db' list_all_iff)
    ultimately show ?thesis
      by (simp add: db_ok_def)
  qed
  moreover have "find_credential_row db (credential_row_id row) = Some old"
    using find_unique_key [OF dist old(1)] old(2) by (simp add: find_credential_row_def)
  moreover obtain vb where "FareCredentialRow_into_versioned api old = Ok vb"
    using assms(3) old(1) by (auto simp: db_ok_def list_all_iff not_isl_ex)
  ultimately show ?thesis
    using old(3) decoded_row_id by (fastforce simp: abs_store_def)
qed

lemma insert_event_effect:
  assumes "exec_statement obj (InsertEvent r) db = Ok (n, db')" "db_ok api db"
  shows "n = 1 \<and> db_ok api db' \<and> abs_store api db' = apply_write (AppendRecord r) (abs_store api db)"
proof -
  have db': "n = 1" "db' = db\<lparr> db_events := db_events db @ [r] \<rparr>"
    using assms(1) by (auto simp: exec_statement.simps split: if_splits)
  then show ?thesis
    using assms(2) by (auto simp: db_ok_def intro!: Store.equality)
qed

lemma exec_statement_effect:
  assumes "exec_statement obj st db = Ok (1, db')" "statement_ok api st" "db_ok api db"
  shows "db_ok api db' \<and> abs_store api db' = apply_writes (write_of api st) (abs_store api db)"
proof (cases st)
  case (InsertCredential row)
  then show ?thesis
    using assms insert_credential_effect [of obj row db 1 db' api] by (auto simp: not_isl_ex)
next
  case (UpdateCredential row expected)
  then show ?thesis
    using assms update_credential_effect [of obj row expected db 1 db' api] by (auto simp: not_isl_ex)
next
  case (InsertEvent r)
  then show ?thesis
    using assms insert_event_effect [of obj r db 1 db' api] by auto
qed (use assms in simp_all)

lemma exec_statements_append:
  "exec_statements obj (sts @ sts') db = Option.bind (exec_statements obj sts db) (exec_statements obj sts')"
  by (induction sts arbitrary: db) (auto split: sum.splits)

lemma exec_statements_effect:
  assumes "exec_statements obj sts db = Some db'" "list_all (statement_ok api) sts" "db_ok api db"
  shows "db_ok api db' \<and> abs_store api db' = apply_writes (pending_writes api sts) (abs_store api db)"
  using assms
proof (induction sts arbitrary: db)
  case (Cons st sts)
  then obtain db1 where "exec_statement obj st db = Ok (1, db1)" "exec_statements obj sts db1 = Some db'"
    by (auto split: sum.splits if_splits)
  then show ?case
    using Cons exec_statement_effect [of obj st db db1 api]
    by (simp add: pending_writes_def apply_writes_append)
qed (simp add: pending_writes_def)

text \<open>The statements of another session's call, which are known only as writes.\<close>

lemma exec_write_effect:
  assumes "exec_statement obj (statement_of wr) db = Ok (1, db')" "db_ok api db"
    and "\<And>va. wr = PutCredential va \<Longrightarrow> credential_ok api (va_aggregate va)"
  shows "db_ok api db' \<and> abs_store api db' = apply_write wr (abs_store api db)"
proof (cases wr)
  case (PutCredential va)
  let ?row = "FareCredentialRow_from_domain (va_aggregate va) (va_version va)"
  have "credential_checks ?row"
    using assms(1) PutCredential by (auto simp: exec_statement.simps Let_def split: if_splits)
  then have "0 < sint (va_version va)"
    by (simp add: credential_checks_def FareCredentialRow_from_domain_def)
  then have "FareCredentialRow_into_versioned api ?row = Ok va"
    using assms(3) [OF PutCredential] by (simp add: credential_rows_decode versioned_ok_def)
  then show ?thesis
    using assms(1,2) PutCredential insert_credential_effect [of obj ?row db 1 db' api va]
      update_credential_effect [of obj ?row "va_version va - 1" db 1 db' api va]
    by (auto simp: Let_def split: if_splits)
next
  case (AppendRecord r)
  then show ?thesis
    using assms insert_event_effect [of obj r db 1 db' api] by auto
qed

lemma exec_writes_effect:
  assumes "exec_statements obj (map statement_of ws) db = Some db'" "db_ok api db"
    and "\<And>va. PutCredential va \<in> set ws \<Longrightarrow> credential_ok api (va_aggregate va)"
  shows "db_ok api db' \<and> abs_store api db' = apply_writes ws (abs_store api db)"
  using assms
proof (induction ws arbitrary: db)
  case (Cons wr ws)
  then obtain db1 where "exec_statement obj (statement_of wr) db = Ok (1, db1)"
    "exec_statements obj (map statement_of ws) db1 = Some db'"
    by (auto split: sum.splits if_splits)
  then show ?case
    using Cons exec_write_effect [of obj wr db db1 api] by simp
qed simp

lemma abs_credential_ok:
  "st_credentials (abs_store api db) i = Some va \<Longrightarrow> credential_ok api (va_aggregate va)"
  by (auto simp: abs_store_def credential_rows_decode versioned_ok_def split: option.splits sum.splits)

lemma written_credentials_ok:
  assumes ws: "writes_of tv time cmd (abs_store api db) = Some ws" and cmd: "command_ok api cmd"
    and put: "PutCredential va \<in> set ws"
  shows "credential_ok api (va_aggregate va)"
proof -
  have new: "credential_ok api (FareCredential_new_pending n a k)"
    if "valid_identifier api n" "valid_identifier api a" for n a k
    using that credential_inv_new by (simp add: credential_ok_def) (simp add: FareCredential_new_pending_def)
  have acct: "valid_identifier api (transit_account_id (va_aggregate vb))"
    if "st_credentials (abs_store api db) i = Some vb" for i vb
    using abs_credential_ok [OF that] by (simp add: credential_ok_def)
  have step: "credential_ok api c"
    if "st_credentials (abs_store api db) i = Some vb" "credential_step op (va_aggregate vb) = Ok c"
      "\<And>r. op = ReplaceCredential r \<Longrightarrow> valid_identifier api r" for i vb op c
    using abs_credential_ok [OF that(1)] that(2,3) by (rule credential_step_ok)
  show ?thesis
  proof (cases cmd)
    case (Cmd_Change ch cid ev)
    then show ?thesis
      using ws put step [where op = "change_op ch"] by (cases ch) (auto simp: writes_of_eqs)
  qed (use ws put cmd new acct step [where op = "ReplaceCredential _"] in \<open>auto simp: writes_of_eqs\<close>)
qed

lemma other_commit_law:
  assumes "db_ok api db" "exec_statements obj own db \<noteq> None"
  shows "db_ok api (other_commit api tv obj own call db) \<and>
    exec_statements obj own (other_commit api tv obj own call db) \<noteq> None \<and>
    others api tv (put_ids (pending_writes api own)) (abs_store api db)
      (abs_store api (other_commit api tv obj own call db))"
proof (cases "other_commit api tv obj own call db = db")
  case True
  then show ?thesis using assms by (simp add: others.nothing)
next
  case False
  then obtain ws db' where ws: "writes_of tv (fst call) (snd call) (abs_store api db) = Some ws"
    "command_ok api (snd call)" "put_ids ws \<inter> put_ids (pending_writes api own) = {}"
    and db': "exec_statements obj (map statement_of ws) db = Some db'"
    "exec_statements obj own db' \<noteq> None" "other_commit api tv obj own call db = db'"
    by (auto simp: other_commit_def split: option.splits if_splits)
  have "db_ok api db' \<and> abs_store api db' = apply_writes ws (abs_store api db)"
    using db'(1) assms(1) written_credentials_ok [OF ws(1,2)] by (rule exec_writes_effect)
  then show ?thesis
    using db' others.another [OF others.nothing ws(2,1,3)] by simp
qed

lemma others_fold:
  assumes "db_ok api db" "exec_statements obj own db \<noteq> None"
  shows "db_ok api (fold (other_commit api tv obj own) calls db) \<and>
    exec_statements obj own (fold (other_commit api tv obj own) calls db) \<noteq> None \<and>
    others api tv (put_ids (pending_writes api own)) (abs_store api db)
      (abs_store api (fold (other_commit api tv obj own) calls db))"
  using assms
proof (induction calls arbitrary: db)
  case (Cons call calls)
  note law = other_commit_law [OF Cons.prems, of tv call]
  note IH = Cons.IH [of "other_commit api tv obj own call db"]
  show ?case
    using law IH others_trans by fastforce
qed (simp add: others.nothing)

section \<open>The transaction provider\<close>

definition pg_durable :: "UuidApi \<Rightarrow> 'j Pg \<Rightarrow> 'j Store" where
  "pg_durable api w = abs_store api (pg_committed w)"

definition pg_sane :: "UuidApi \<Rightarrow> ('j \<Rightarrow> bool) \<Rightarrow> 'j Pg \<Rightarrow> bool" where
  "pg_sane api obj w \<longleftrightarrow> db_ok api (pg_committed w) \<and>
    exec_statements obj (pg_pending w) (pg_committed w) \<noteq> None"

definition pg_live :: "UuidApi \<Rightarrow> ('j \<Rightarrow> bool) \<Rightarrow> 'j Pg \<Rightarrow> bool" where
  "pg_live api obj w \<longleftrightarrow> pg_sane api obj w \<and> pg_state w = Tx_Open \<and>
    list_all (statement_ok api) (pg_pending w)"

lemma advance_law:
  assumes "advance api tv obj w = (fault, w')" "pg_sane api obj w"
  shows "pg_sane api obj w' \<and> pg_pending w' = pg_pending w \<and> pg_state w' = pg_state w \<and>
    others api tv (put_ids (pending_writes api (pg_pending w))) (pg_durable api w) (pg_durable api w')"
  using assms others_fold [of api "pg_committed w" obj "pg_pending w"]
  by (auto simp: advance_def pg_sane_def pg_durable_def others.nothing split: list.splits)

abbreviation pg_view :: "UuidApi \<Rightarrow> 'j Pg \<Rightarrow> 'j Store \<Rightarrow> 'j Store" where
  "pg_view api w \<equiv> apply_writes (pending_writes api (pg_pending w))"

lemma pg_aborted_sane: "pg_sane api obj (w\<lparr> pg_state := x \<rparr>) \<longleftrightarrow> pg_sane api obj w"
  by (simp add: pg_sane_def)

lemma pg_query_law:
  assumes "pg_live api obj w" "pg_query api tv obj operation f w = (r, w')"
  shows "pg_sane api obj w' \<and>
    others api tv (put_ids (pending_writes api (pg_pending w))) (pg_durable api w) (pg_durable api w') \<and>
    (\<forall>x. r = Ok x \<longrightarrow> pg_live api obj w' \<and> pg_pending w' = pg_pending w \<and>
      (\<exists>view. abs_store api view = pg_view api w (pg_durable api w') \<and> f view = Ok x))"
proof -
  obtain fault w1 where adv: "advance api tv obj w = (fault, w1)"
    by (cases "advance api tv obj w")
  note law = advance_law [OF adv]
  have live: "pg_sane api obj w" "pg_state w = Tx_Open" "list_all (statement_ok api) (pg_pending w)"
    using assms(1) by (simp_all add: pg_live_def)
  obtain view where view: "exec_statements obj (pg_pending w1) (pg_committed w1) = Some view"
    using law live(1) by (auto simp: pg_sane_def)
  have "abs_store api view = pg_view api w (pg_durable api w1)"
    using exec_statements_effect [OF view, of api] law live by (simp add: pg_durable_def pg_sane_def)
  then show ?thesis
    using assms(2) adv law live view
    by (auto simp: pg_query_def pg_aborted_sane pg_live_def pg_durable_def split: if_splits)
qed

lemma pg_execute_law:
  assumes "pg_live api obj w" "statement_ok api st"
    and run: "pg_execute api tv obj operation entity st w = (r, w')"
  shows "pg_sane api obj w' \<and>
    others api tv (put_ids (pending_writes api (pg_pending w))) (pg_durable api w) (pg_durable api w') \<and>
    (\<forall>n. r = Ok n \<longrightarrow> pg_live api obj w' \<and>
      (\<exists>view db. abs_store api view = pg_view api w (pg_durable api w') \<and> db_ok api view \<and>
        exec_statement obj st view = Ok (n, db)) \<and>
      pg_pending w' = (if n = 1 then pg_pending w @ [st] else pg_pending w))"
proof -
  obtain fault w1 where adv: "advance api tv obj w = (fault, w1)"
    by (cases "advance api tv obj w")
  note law = advance_law [OF adv]
  have live: "pg_sane api obj w" "pg_state w = Tx_Open" "list_all (statement_ok api) (pg_pending w)"
    using assms(1) by (simp_all add: pg_live_def)
  obtain view where view: "exec_statements obj (pg_pending w1) (pg_committed w1) = Some view"
    using law live(1) by (auto simp: pg_sane_def)
  have effect: "abs_store api view = pg_view api w (pg_durable api w1)" "db_ok api view"
    using exec_statements_effect [OF view, of api] law live by (simp_all add: pg_durable_def pg_sane_def)
  have durable: "pg_durable api (w1\<lparr> pg_pending := x \<rparr>) = pg_durable api w1"
    "pg_durable api (w1\<lparr> pg_state := y \<rparr>) = pg_durable api w1" for x y
    by (simp_all add: pg_durable_def)
  show ?thesis
  proof (cases "fault = NoFault")
    case False
    then show ?thesis
      using run adv law live by (auto simp: pg_execute_def pg_aborted_sane durable)
  next
    case True
    show ?thesis
    proof (cases "exec_statement obj st view")
      case (Inl d)
      then show ?thesis
        using run adv law live view True by (auto simp: pg_execute_def pg_aborted_sane durable)
    next
      case (Inr p)
      obtain n db where p: "p = (n, db)" by (cases p)
      have "r = Ok n" "w' = (if n = 1 then w1\<lparr> pg_pending := pg_pending w1 @ [st] \<rparr> else w1)"
        using run adv law live view True Inr p by (auto simp: pg_execute_def)
      then show ?thesis
        using law live view effect Inr p assms(2)
        by (auto simp: durable pg_live_def pg_sane_def exec_statements_append)
    qed
  qed
qed

lemma encode_next_version_eq_Ok:
  "encode_next_version v field = Ok (current, next) \<longleftrightarrow>
    uint v < i64_max \<and> current = v \<and> next = v + 1"
proof -
  have "checked_add_i64 v 1 = Some next \<longleftrightarrow> uint v < i64_max \<and> next = v + 1" if "uint v \<le> i64_max"
  proof -
    have sv: "sint v = uint v" using that by (rule sint_of_small_uint)
    have "in_i64 (sint v + 1) \<longleftrightarrow> uint v < i64_max"
      using sv unsigned_greater_eq [of v, where 'a = int]
      by (auto simp: in_i64_def i64_min_def i64_max_def)
    then show ?thesis
      by (auto simp: checked_add_i64_def i64_try_from_def i64_of_int_def)
  qed
  then show ?thesis
    by (auto simp: encode_next_version_def result_simps)
qed

lemma saved_row_decodes:
  assumes "credential_ok api c" "0 < sint v"
  shows "FareCredentialRow_into_versioned api (FareCredentialRow_from_domain c v) = Ok (VersionedAggregate c v)"
  using assms by (simp add: credential_row_decode_eq)

lemma next_stored_version_positive:
  assumes "uint v < i64_max"
  shows "0 < sint (v + 1 :: 64 word)"
proof -
  have "sint v = uint v" using assms by (intro sint_of_small_uint) simp
  moreover have "in_i64 (sint v + sint (1 :: 64 word))"
    using calculation assms unsigned_greater_eq [of v, where 'a = int]
    by (simp add: in_i64_def i64_min_def i64_max_def)
  ultimately show ?thesis
    using sint_add_exact [of v 1] unsigned_greater_eq [of v, where 'a = int] by simp
qed

lemma pending_writes_append [simp]:
  "pending_writes api (sts @ sts') = pending_writes api sts @ pending_writes api sts'"
  by (simp add: pending_writes_def)

lemma pending_writes_single [simp]: "pending_writes api [st] = write_of api st"
  by (simp add: pending_writes_def)

lemma pg_insert_law:
  assumes live: "pg_live api obj w" and c: "credential_ok api c"
    and run: "pg_save_credential api tv obj c MustNotExist w = (r, w')"
  shows "pg_sane api obj w' \<and>
    others api tv (put_ids (pending_writes api (pg_pending w))) (pg_durable api w) (pg_durable api w') \<and>
    (isl r \<or> pg_live api obj w' \<and>
      save_allowed (credential_id c) MustNotExist (pg_view api w (pg_durable api w')) \<and>
      pending_writes api (pg_pending w') = pending_writes api (pg_pending w) @
        [PutCredential (VersionedAggregate c 1)])"
proof -
  let ?row = "FareCredentialRow_from_domain c 1"
  have row: "FareCredentialRow_into_versioned api ?row = Ok (VersionedAggregate c 1)"
    using c by (intro saved_row_decodes) simp_all
  have id: "credential_row_id ?row = credential_id c"
    by (simp add: FareCredentialRow_from_domain_def)
  obtain q where q: "pg_execute api tv obj ''insert fare credential in transaction'' ''fare credential''
      (InsertCredential ?row) w = (q, w')" "r = and_then q (\<lambda>_. Ok ())"
    using run by (auto simp: pg_save_credential_def save_row_def split: prod.splits)
  have law: "pg_sane api obj w' \<and>
      others api tv (put_ids (pending_writes api (pg_pending w))) (pg_durable api w) (pg_durable api w') \<and>
      (\<forall>n. q = Ok n \<longrightarrow> pg_live api obj w' \<and>
        (\<exists>view db. abs_store api view = pg_view api w (pg_durable api w') \<and> db_ok api view \<and>
          exec_statement obj (InsertCredential ?row) view = Ok (n, db)) \<and>
        pg_pending w' = (if n = 1 then pg_pending w @ [InsertCredential ?row] else pg_pending w))"
    using live q(1) row by (intro pg_execute_law) auto
  show ?thesis
  proof (cases q)
    case (Inl e)
    then show ?thesis using law q(2) by simp
  next
    case (Inr n)
    then obtain view db where view: "abs_store api view = pg_view api w (pg_durable api w')"
      "db_ok api view" "exec_statement obj (InsertCredential ?row) view = Ok (n, db)"
      using law by blast
    from insert_credential_effect [OF view(3,2) row] show ?thesis
      using law Inr view(1) row id by auto
  qed
qed

lemma pg_update_law:
  assumes live: "pg_live api obj w" and c: "credential_ok api c"
    and run: "pg_save_credential api tv obj c (IfVersion v) w = (r, w')"
  shows "pg_sane api obj w' \<and>
    others api tv (put_ids (pending_writes api (pg_pending w))) (pg_durable api w) (pg_durable api w') \<and>
    (isl r \<or> pg_live api obj w' \<and>
      save_allowed (credential_id c) (IfVersion v) (pg_view api w (pg_durable api w')) \<and>
      pending_writes api (pg_pending w') = pending_writes api (pg_pending w) @
        [PutCredential (VersionedAggregate c (v + 1))])"
proof (cases "encode_next_version v ''fare_credentials.aggregate_version''")
  case (Inl e)
  then show ?thesis
    using live run by (auto simp: pg_save_credential_def save_row_def pg_live_def others.nothing)
next
  case (Inr p)
  let ?row = "FareCredentialRow_from_domain c (v + 1)"
  have p: "p = (v, v + 1)" "uint v < i64_max"
    using Inr encode_next_version_eq_Ok by (cases p, fastforce)+
  have row: "FareCredentialRow_into_versioned api ?row = Ok (VersionedAggregate c (v + 1))"
    using c next_stored_version_positive [OF p(2)] by (rule saved_row_decodes)
  have id: "credential_row_id ?row = credential_id c"
    by (simp add: FareCredentialRow_from_domain_def)
  obtain q where q: "pg_execute api tv obj ''update fare credential in transaction'' ''fare credential''
      (UpdateCredential ?row v) w = (q, w')" "r = and_then q (\<lambda>n. enforce_single_write n ''fare credential'')"
    using run Inr p by (auto simp: pg_save_credential_def save_row_def split: prod.splits)
  have law: "pg_sane api obj w' \<and>
      others api tv (put_ids (pending_writes api (pg_pending w))) (pg_durable api w) (pg_durable api w') \<and>
      (\<forall>n. q = Ok n \<longrightarrow> pg_live api obj w' \<and>
        (\<exists>view db. abs_store api view = pg_view api w (pg_durable api w') \<and> db_ok api view \<and>
          exec_statement obj (UpdateCredential ?row v) view = Ok (n, db)) \<and>
        pg_pending w' = (if n = 1 then pg_pending w @ [UpdateCredential ?row v] else pg_pending w))"
    using live q(1) row by (intro pg_execute_law) auto
  show ?thesis
  proof (cases "q = Ok 1")
    case False
    then show ?thesis
      using law q(2) by (cases q) (auto simp: enforce_single_write_def)
  next
    case True
    then obtain view db where view: "abs_store api view = pg_view api w (pg_durable api w')"
      "db_ok api view" "exec_statement obj (UpdateCredential ?row v) view = Ok (1, db)"
      using law by blast
    from update_credential_effect [OF view(3) refl view(2) row] show ?thesis
      using law True view(1) row id by auto
  qed
qed

lemma pg_append_law:
  assumes live: "pg_live api obj w" and run: "pg_append_event api tv obj ev w = (r, w')"
  shows "pg_sane api obj w' \<and>
    others api tv (put_ids (pending_writes api (pg_pending w))) (pg_durable api w) (pg_durable api w') \<and>
    (isl r \<or> pg_live api obj w' \<and> (\<exists>rec. DomainEventRecord_from_domain tv ev = Ok rec \<and>
      pending_writes api (pg_pending w') = pending_writes api (pg_pending w) @ [AppendRecord rec]))"
proof (cases "DomainEventRecord_from_domain tv ev")
  case (Inl e)
  then show ?thesis
    using live run by (auto simp: pg_append_event_def pg_live_def others.nothing)
next
  case (Inr rec)
  obtain q where q: "pg_execute api tv obj ''insert domain event in transaction'' ''domain event''
      (InsertEvent rec) w = (q, w')" "r = and_then q (\<lambda>_. Ok ())"
    using run Inr by (auto simp: pg_append_event_def split: prod.splits)
  have law: "pg_sane api obj w' \<and>
      others api tv (put_ids (pending_writes api (pg_pending w))) (pg_durable api w) (pg_durable api w') \<and>
      (\<forall>n. q = Ok n \<longrightarrow> pg_live api obj w' \<and>
        (\<exists>view db. abs_store api view = pg_view api w (pg_durable api w') \<and> db_ok api view \<and>
          exec_statement obj (InsertEvent rec) view = Ok (n, db)) \<and>
        pg_pending w' = (if n = 1 then pg_pending w @ [InsertEvent rec] else pg_pending w))"
    using live q(1) by (intro pg_execute_law) auto
  show ?thesis
  proof (cases q)
    case (Inl e)
    then show ?thesis using law q(2) by simp
  next
    case (Inr n)
    then obtain view db where "db_ok api view" "exec_statement obj (InsertEvent rec) view = Ok (n, db)"
      using law by blast
    then have "n = 1"
      using insert_event_effect by blast
    then show ?thesis
      using law Inr \<open>DomainEventRecord_from_domain tv ev = Ok rec\<close> by simp
  qed
qed

lemma closed_simps [simp]:
  "pg_pending (closed w) = []" "pg_committed (closed w) = pg_committed w" "pg_state (closed w) = Tx_None"
  by (simp_all add: closed_def)

lemma closed_sane: "pg_sane api obj w \<Longrightarrow> pg_sane api obj (closed w)"
  by (simp add: pg_sane_def)

lemma closed_durable [simp]: "pg_durable api (closed w) = pg_durable api w"
  by (simp add: pg_durable_def)

lemma pg_commit_law:
  assumes live: "pg_live api obj w" and run: "pg_commit api tv obj w = (r, w')"
  shows "pg_sane api obj w' \<and>
    ((\<exists>s. others api tv (put_ids (pending_writes api (pg_pending w))) (pg_durable api w) s \<and>
       others api tv {} (pg_view api w s) (pg_durable api w')) \<or>
     isl r \<and> others api tv {} (pg_durable api w) (pg_durable api w'))"
proof -
  obtain fault w1 where adv: "advance api tv obj w = (fault, w1)"
    by (cases "advance api tv obj w")
  have sane: "pg_sane api obj w" "pg_state w = Tx_Open" "list_all (statement_ok api) (pg_pending w)"
    using live by (simp_all add: pg_live_def)
  note law = advance_law [OF adv sane(1)]
  have failed: "others api tv {} (pg_durable api w) (pg_durable api w1)"
    using law others_mono by blast
  obtain view where view: "exec_statements obj (pg_pending w1) (pg_committed w1) = Some view"
    using law by (auto simp: pg_sane_def)
  have effect: "abs_store api view = pg_view api w (pg_durable api w1)" "db_ok api view"
    using exec_statements_effect [OF view, of api] law sane by (simp_all add: pg_durable_def pg_sane_def)
  show ?thesis
  proof (cases "fault = Refused \<or> \<not> deferred_ok view")
    case True
    then have "isl r" "w' = closed w1"
      using run adv law view sane(2) by (auto simp: pg_commit_def Let_def split: if_splits)
    then show ?thesis
      using law failed closed_sane by auto
  next
    case False
    then have w': "w' = closed (w1\<lparr> pg_committed := view \<rparr>)"
      using run adv law view sane(2) by (auto simp: pg_commit_def Let_def)
    then have "pg_sane api obj w'" "pg_durable api w' = pg_view api w (pg_durable api w1)"
      using effect by (simp_all add: pg_sane_def pg_durable_def)
    then show ?thesis
      using law others.nothing by metis
  qed
qed

lemma pg_begin_law:
  assumes "pg_sane api obj w" "pg_begin api tv obj w = (r, w')"
  shows "pg_sane api obj w' \<and> others api tv {} (pg_durable api w) (pg_durable api w') \<and>
    (isl r \<or> pg_live api obj w' \<and> pg_pending w' = [])"
proof -
  obtain fault w1 where adv: "advance api tv obj (closed w) = (fault, w1)"
    by (cases "advance api tv obj (closed w)")
  note law = advance_law [OF adv closed_sane [OF assms(1)]]
  have "pg_durable api (w1\<lparr> pg_state := x \<rparr>) = pg_durable api w1" for x
    by (simp add: pg_durable_def)
  then show ?thesis
    using assms(2) adv law
    by (auto simp: pg_begin_def pg_live_def pg_aborted_sane pending_writes_def split: if_splits)
qed

lemma pg_rollback_law:
  assumes "pg_sane api obj w" "pg_rollback api tv obj w = (r, w')"
  shows "pg_sane api obj w' \<and> others api tv {} (pg_durable api w) (pg_durable api w')"
proof -
  obtain fault w1 where adv: "advance api tv obj w = (fault, w1)"
    by (cases "advance api tv obj w")
  note law = advance_law [OF adv assms(1)]
  then have "others api tv {} (pg_durable api w) (pg_durable api w1)"
    using others_mono by blast
  then show ?thesis
    using assms(2) adv law closed_sane by (auto simp: pg_rollback_def)
qed

lemma pg_save_law:
  assumes "pg_live api obj w" "credential_ok api c" "pg_save_credential api tv obj c cond w = (r, w')"
  shows "pg_sane api obj w' \<and>
    others api tv (put_ids (pending_writes api (pg_pending w))) (pg_durable api w) (pg_durable api w') \<and>
    (isl r \<or> pg_live api obj w' \<and>
      save_allowed (credential_id c) cond (pg_view api w (pg_durable api w')) \<and>
      pending_writes api (pg_pending w') = pending_writes api (pg_pending w) @
        [PutCredential (VersionedAggregate c (saved_version cond))])"
  using assms pg_insert_law [of api obj w c tv r w'] pg_update_law [of api obj w c tv _ r w']
  by (cases cond) simp_all

lemma transpose_find:
  "map_transpose f x = Ok y \<Longrightarrow> y = (case x of None \<Rightarrow> None | Some row \<Rightarrow> (case f row of Ok va \<Rightarrow> Some va | Err _ \<Rightarrow> None))"
  by (cases x) (auto simp: result_simps)

lemma pg_find_credential_law:
  assumes "pg_live api obj w" "pg_find_credential api tv obj i w = (r, w')"
  shows "pg_sane api obj w' \<and>
    others api tv (put_ids (pending_writes api (pg_pending w))) (pg_durable api w) (pg_durable api w') \<and>
    (\<forall>x. r = Ok x \<longrightarrow> pg_live api obj w' \<and> pg_pending w' = pg_pending w \<and>
      x = st_credentials (pg_view api w (pg_durable api w')) i)"
proof -
  have found: "x = st_credentials (abs_store api view) i"
    if "map_transpose (FareCredentialRow_into_versioned api) (find_credential_row view i) = Ok x" for x view
    using transpose_find [OF that] by (simp add: abs_store_def)
  show ?thesis
    using pg_query_law [OF assms(1) assms(2) [unfolded pg_find_credential_def]] found by metis
qed

lemma pg_find_account_law:
  assumes "pg_live api obj w" "pg_find_account api tv obj i w = (r, w')"
  shows "pg_sane api obj w' \<and>
    others api tv (put_ids (pending_writes api (pg_pending w))) (pg_durable api w) (pg_durable api w') \<and>
    (\<forall>x. r = Ok x \<longrightarrow> pg_live api obj w' \<and> pg_pending w' = pg_pending w \<and>
      x = st_accounts (pg_view api w (pg_durable api w')) i)"
proof -
  have found: "x = st_accounts (abs_store api view) i"
    if "map_transpose (TransitAccountRow_into_versioned api) (find_account_row view i) = Ok x" for x view
    using transpose_find [OF that] by (simp add: abs_store_def)
  show ?thesis
    using pg_query_law [OF assms(1) assms(2) [unfolded pg_find_account_def]] found by metis
qed

lemma repository_error_cases:
  assumes "repository_error entity operation x = (r, w')"
  obtains q where "x = (q, w')" "isl r = isl q" "\<And>y. r = Ok y \<longleftrightarrow> q = Ok y"
proof -
  have "x = (fst x, w')" "r = map_err (RepositoryError entity operation) (fst x)"
    using assms by (auto simp: repository_error_def)
  then show thesis
    by (intro that [of "fst x"]) (cases "fst x"; simp)+
qed

interpretation pg: application_transaction api tv "pg_ports api tv obj" "pg_durable api"
  "\<lambda>w. pending_writes api (pg_pending w)" "pg_sane api obj" "pg_live api obj"
  for api :: UuidApi and tv :: "DomainEventPayload \<Rightarrow> 'j option" and obj :: "'j \<Rightarrow> bool"
proof (unfold_locales, goal_cases)
  case (1 w)
  then show ?case by (simp add: pg_live_def)
next
  case (2 w r w')
  then obtain q where q: "pg_begin api tv obj w = (q, w')" "isl r = isl q" "\<And>y. r = Ok y \<longleftrightarrow> q = Ok y"
    by (auto simp: pg_ports_def elim!: repository_error_cases)
  then show ?case
    using pg_begin_law [OF 2(1) q(1)] by (auto simp: pending_writes_def)
next
  case (3 w a ra w')
  then obtain q where q: "pg_find_account api tv obj a w = (q, w')" "isl ra = isl q" "\<And>y. ra = Ok y \<longleftrightarrow> q = Ok y"
    by (auto simp: pg_ports_def elim!: repository_error_cases)
  then show ?case
    using pg_find_account_law [OF 3(1) q(1)] by (simp)
next
  case (4 w i rc w')
  then obtain q where q: "pg_find_credential api tv obj i w = (q, w')" "isl rc = isl q" "\<And>y. rc = Ok y \<longleftrightarrow> q = Ok y"
    by (auto simp: pg_ports_def elim!: repository_error_cases)
  then show ?case
    using pg_find_credential_law [OF 4(1) q(1)] by (simp)
next
  case (5 w c cond r w')
  then obtain q where q: "pg_save_credential api tv obj c cond w = (q, w')" "isl r = isl q" "\<And>y. r = Ok y \<longleftrightarrow> q = Ok y"
    by (auto simp: pg_ports_def elim!: repository_error_cases)
  then show ?case
    using pg_save_law [OF 5(1,2) q(1)] by (simp)
next
  case (6 w ev r w')
  then obtain q where q: "pg_append_event api tv obj ev w = (q, w')" "isl r = isl q" "\<And>y. r = Ok y \<longleftrightarrow> q = Ok y"
    by (auto simp: pg_ports_def elim!: repository_error_cases)
  then show ?case
    using pg_append_law [OF 6(1) q(1)] by (simp)
next
  case (7 w r w')
  then obtain q where q: "pg_commit api tv obj w = (q, w')" "isl r = isl q" "\<And>y. r = Ok y \<longleftrightarrow> q = Ok y"
    by (auto simp: pg_ports_def elim!: repository_error_cases)
  then show ?case
    using pg_commit_law [OF 7(1) q(1)] by (simp)
next
  case (8 w r w')
  then obtain q where q: "pg_rollback api tv obj w = (q, w')" "isl r = isl q" "\<And>y. r = Ok y \<longleftrightarrow> q = Ok y"
    by (auto simp: pg_ports_def elim!: repository_error_cases)
  then show ?case
    using pg_rollback_law [OF 8(1) q(1)] by (simp)
qed

section \<open>Examples\<close>

text \<open>
  A database with one active account and one credential, issued to it and still pending; the
  payload of an event is kept as it is.
\<close>

definition example_account_row :: TransitAccountRow where
  "example_account_row = \<lparr> account_row_id = example_uuid 2, account_row_rider_id = example_uuid 3,
    account_row_status = ''active'', account_row_eligibility = ''standard'',
    account_row_minor_units = 500, account_row_currency = ''USD'', account_row_version = 1 \<rparr>"

definition example_credential :: FareCredential where
  "example_credential = FareCredential_new_pending (example_uuid 5) (example_uuid 2) Card"

definition example_issue_record :: "DomainEventPayload DomainEventRecord" where
  "example_issue_record = \<lparr> record_id = example_uuid 6, record_aggregate_kind = ''fare_credential'',
    record_aggregate_id = example_uuid 5, record_aggregate_version = 1,
    record_event_name = ''fare_credential.issued'', record_occurred_at = 1000,
    record_payload = FareCredentialIssued (example_uuid 5) (example_uuid 2) Card \<rparr>"

definition example_db :: "DomainEventPayload Db" where
  "example_db = \<lparr> db_accounts = [example_account_row],
    db_credentials = [FareCredentialRow_from_domain example_credential 1], db_readers = [],
    db_events = [example_issue_record] \<rparr>"

definition example_pg :: "Tick list \<Rightarrow> DomainEventPayload Pg" where
  "example_pg script = \<lparr> pg_committed = example_db, pg_pending = [], pg_state = Tx_None, pg_script = script \<rparr>"

end
