(* ===== verification/CredentialServices.thy ===== *)
theory CredentialServices
  imports PostgresTransaction
begin

text \<open>
  The credential services on the PostgreSQL transaction: the properties that join the services of
  \<open>crates/application/src/use_cases/\<close>, the domain aggregates and the adapter of
  \<open>crates/persistence/src/transaction.rs\<close>.  They rest on the facts of the interpretation \<open>pg\<close>.
\<close>

section \<open>Sequences of service calls\<close>

datatype 'c ServiceCall =
    Call_Issue "'c ClockError + DomainEventTime" FareCredentialId DomainEventId IssueFareCredentialCommand
  | Call_Activate "'c ClockError + DomainEventTime" DomainEventId FareCredentialId
  | Call_Suspend "'c ClockError + DomainEventTime" DomainEventId FareCredentialId
  | Call_Revoke "'c ClockError + DomainEventTime" DomainEventId RevokeFareCredentialCommand
  | Call_Replace "'c ClockError + DomainEventTime" FareCredentialId DomainEventId DomainEventId
      ReplaceFareCredentialCommand

fun call_ok :: "UuidApi \<Rightarrow> 'c ServiceCall \<Rightarrow> bool" where
  "call_ok api (Call_Issue clock new_id ev command) \<longleftrightarrow>
    valid_identifier api (issue_account_id command) \<and> valid_identifier api new_id"
| "call_ok api (Call_Replace clock new_id ev new_ev command) \<longleftrightarrow> valid_identifier api new_id"
| "call_ok api _ \<longleftrightarrow> True"

fun run_call :: "UuidApi \<Rightarrow> ('w, 'e) TransactionPorts \<Rightarrow> 'c ServiceCall \<Rightarrow> 'w \<Rightarrow> 'w" where
  "run_call api P (Call_Issue clock new_id ev command) w =
    snd (IssueFareCredential_execute api P clock new_id ev command w)"
| "run_call api P (Call_Activate clock ev cid) w =
    snd (ActivateFareCredential_execute api P clock ev cid w)"
| "run_call api P (Call_Suspend clock ev cid) w =
    snd (SuspendFareCredential_execute api P clock ev cid w)"
| "run_call api P (Call_Revoke clock ev command) w =
    snd (RevokeFareCredential_execute api P clock ev command w)"
| "run_call api P (Call_Replace clock new_id ev new_ev command) w =
    snd (ReplaceFareCredential_execute api P clock new_id ev new_ev command w)"

section \<open>Lemmas\<close>

lemma credential_steps:
  "FareCredential_activate = credential_step (change_op ToActive)"
  "FareCredential_suspend = credential_step (change_op ToSuspended)"
  "FareCredential_revoke reason = credential_step (change_op (ToRevoked reason))"
  by (rule ext, simp)+

text \<open>A call that took effect, or did not, is itself a sequence of complete calls.\<close>

lemma linearized_others:
  assumes "linearized api tv time cmd s0 s s1" "command_ok api cmd"
  shows "others api tv {} s0 s1"
proof -
  obtain ws where ws: "others api tv {} s0 s" "writes_of tv time cmd s = Some ws"
    "others api tv {} (apply_writes ws s) s1"
    using assms(1) by (auto simp: linearized_def)
  have "others api tv {} s0 (apply_writes ws s)"
    using ws(1) assms(2) ws(2) by (rule others.another) simp
  then show ?thesis using ws(3) others_trans by blast
qed

lemma change_post_others:
  "change_post api tv clock ch cid ev unchanged changed s0 r s1 \<Longrightarrow> others api tv {} s0 s1"
  by (auto simp: change_post_def intro: linearized_others others_trans split: sum.splits if_splits)

lemma issue_post_others:
  "issue_post api tv clock new_id ev command s0 r s1 \<Longrightarrow>
    valid_identifier api (issue_account_id command) \<Longrightarrow> valid_identifier api new_id \<Longrightarrow>
    others api tv {} s0 s1"
  by (auto simp: issue_post_def Let_def intro: linearized_others split: sum.splits)

lemma replace_post_others:
  "replace_post api tv clock new_id ev new_ev command s0 r s1 \<Longrightarrow> valid_identifier api new_id \<Longrightarrow>
    others api tv {} s0 s1"
  by (auto simp: replace_post_def Let_def intro: linearized_others others_trans
      split: sum.splits if_splits)

lemma activate_law:
  assumes "pg_sane api obj w" "store_inv api (pg_durable api w)"
    and "ActivateFareCredential_execute api (pg_ports api tv obj) clock ev cid w = (r, w')"
  shows "pg_sane api obj w' \<and> change_post api tv clock ToActive cid ev
    (\<lambda>c. \<lparr> activated_credential_id = cid, activated_previous_status = credential_status c,
       activated_current_status = Credential_Active, activated_changed = False \<rparr>)
    (\<lambda>c c'. \<lparr> activated_credential_id = cid, activated_previous_status = credential_status c,
       activated_current_status = credential_status c', activated_changed = True \<rparr>)
    (pg_durable api w) r (pg_durable api w')"
  using assms(3) unfolding activate_is_change_status credential_steps
  by (intro pg.change_status_linearized [where ch = ToActive, OF assms(1,2)]) simp

lemma suspend_law:
  assumes "pg_sane api obj w" "store_inv api (pg_durable api w)"
    and "SuspendFareCredential_execute api (pg_ports api tv obj) clock ev cid w = (r, w')"
  shows "pg_sane api obj w' \<and> change_post api tv clock ToSuspended cid ev
    (\<lambda>c. \<lparr> suspended_credential_id = cid, suspended_previous_status = credential_status c,
       suspended_current_status = Credential_Suspended, suspended_changed = False \<rparr>)
    (\<lambda>c c'. \<lparr> suspended_credential_id = cid, suspended_previous_status = credential_status c,
       suspended_current_status = credential_status c', suspended_changed = True \<rparr>)
    (pg_durable api w) r (pg_durable api w')"
  using assms(3) unfolding suspend_is_change_status credential_steps
  by (intro pg.change_status_linearized [where ch = ToSuspended, OF assms(1,2)]) simp

lemma revoke_law:
  assumes "pg_sane api obj w" "store_inv api (pg_durable api w)"
    and "RevokeFareCredential_execute api (pg_ports api tv obj) clock ev command w = (r, w')"
  shows "pg_sane api obj w' \<and> change_post api tv clock (ToRevoked (revoke_reason command))
    (revoke_credential_id command) ev
    (\<lambda>c. \<lparr> revoked_credential_id = revoke_credential_id command,
       revoked_previous_status = credential_status c, revoked_current_status = Credential_Revoked,
       revoked_reason = (case credential_revocation_reason c of
          Some reason \<Rightarrow> reason | None \<Rightarrow> revoke_reason command), revoked_changed = False \<rparr>)
    (\<lambda>c c'. \<lparr> revoked_credential_id = revoke_credential_id command,
       revoked_previous_status = credential_status c, revoked_current_status = credential_status c',
       revoked_reason = (case credential_revocation_reason c' of
          Some reason \<Rightarrow> reason | None \<Rightarrow> revoke_reason command), revoked_changed = True \<rparr>)
    (pg_durable api w) r (pg_durable api w')"
  using assms(3) unfolding revoke_is_change_status credential_steps
  by (intro pg.change_status_linearized [where ch = "ToRevoked (revoke_reason command)", OF assms(1,2)]) simp

lemma run_call_others:
  assumes "pg_sane api obj w" "store_inv api (pg_durable api w)" "call_ok api call"
  shows "pg_sane api obj (run_call api (pg_ports api tv obj) call w) \<and>
    others api tv {} (pg_durable api w) (pg_durable api (run_call api (pg_ports api tv obj) call w))"
proof (cases call)
  case (Call_Issue clock new_id ev command)
  then show ?thesis
    using pg.issue_linearized [where command = command and new_id = new_id, OF assms(1)] assms(3) issue_post_others
    by (cases "IssueFareCredential_execute api (pg_ports api tv obj) clock new_id ev command w") fastforce
next
  case (Call_Activate clock ev cid)
  then show ?thesis
    using activate_law [OF assms(1,2)] change_post_others
    by (cases "ActivateFareCredential_execute api (pg_ports api tv obj) clock ev cid w") fastforce
next
  case (Call_Suspend clock ev cid)
  then show ?thesis
    using suspend_law [OF assms(1,2)] change_post_others
    by (cases "SuspendFareCredential_execute api (pg_ports api tv obj) clock ev cid w") fastforce
next
  case (Call_Revoke clock ev command)
  then show ?thesis
    using revoke_law [OF assms(1,2)] change_post_others
    by (cases "RevokeFareCredential_execute api (pg_ports api tv obj) clock ev command w") fastforce
next
  case (Call_Replace clock new_id ev new_ev command)
  then show ?thesis
    using pg.replace_linearized [where new_id = new_id, OF assms(1,2)] assms(3)
      replace_post_others
    by (cases "ReplaceFareCredential_execute api (pg_ports api tv obj) clock new_id ev new_ev command w") fastforce
qed

lemma run_calls_others:
  assumes "pg_sane api obj w" "store_inv api (pg_durable api w)" "list_all (call_ok api) calls"
  shows "pg_sane api obj (fold (run_call api (pg_ports api tv obj)) calls w) \<and>
    others api tv {} (pg_durable api w) (pg_durable api (fold (run_call api (pg_ports api tv obj)) calls w))"
  using assms
proof (induction calls arbitrary: w)
  case (Cons call calls)
  let ?w = "run_call api (pg_ports api tv obj) call w"
  have 1: "pg_sane api obj ?w" "others api tv {} (pg_durable api w) (pg_durable api ?w)"
    using run_call_others [OF Cons.prems(1,2), of call tv] Cons.prems(3) by simp_all
  then have "store_inv api (pg_durable api ?w)"
    using Cons.prems(2) others_store_inv by blast
  from Cons.IH [OF 1(1) this] show ?case
    using Cons.prems(3) 1(2) others_trans by auto
qed (simp add: others.nothing)

text \<open>The example database is consistent.\<close>

lemma example_stored:
  "st_credentials (abs_store layout_uuid_api example_db) i =
    (if i = example_uuid 5 then Some (VersionedAggregate example_credential 1) else None)"
proof -
  have row: "FareCredentialRow_into_versioned layout_uuid_api
      (FareCredentialRow_from_domain example_credential 1) = Ok (VersionedAggregate example_credential 1)"
    by code_simp
  have id: "credential_row_id (FareCredentialRow_from_domain example_credential 1) = example_uuid 5"
    by (simp add: FareCredentialRow_from_domain_def example_credential_def FareCredential_new_pending_def)
  show ?thesis
    by (simp add: abs_store_def find_credential_row_def example_db_def row id)
qed

lemma example_consistent: "store_inv layout_uuid_api (pg_durable layout_uuid_api (example_pg script))"
proof -
  have ok: "credential_ok layout_uuid_api example_credential" by code_simp
  have log: "credential_log (abs_store layout_uuid_api example_db) i =
      (if i = example_uuid 5 then [example_issue_record] else [])" for i
    by (simp add: credential_log_def example_db_def example_issue_record_def)
  have fields: "credential_id example_credential = example_uuid 5"
    "replacement_id example_credential = None" "record_aggregate_version example_issue_record = 1"
    by (simp_all add: example_credential_def FareCredential_new_pending_def example_issue_record_def)
  have "credential_entry_ok layout_uuid_api (abs_store layout_uuid_api example_db) i" for i
    unfolding credential_entry_ok_def example_stored log
    using ok by (simp add: fields versions_upto_1)
  then show ?thesis
    by (simp add: store_inv_def pg_durable_def example_pg_def)
qed

lemma example_sane: "pg_sane layout_uuid_api (\<lambda>_. True) (example_pg script)"
proof -
  have "pg_sane layout_uuid_api (\<lambda>_. True) (example_pg [])" by code_simp
  then show ?thesis by (simp add: pg_sane_def example_pg_def)
qed

text \<open>
  Calling the replacement service again for a credential that was replaced: whatever fails, the
  credential stays as it is, and the only answers are the recorded successor and repository errors.
\<close>

context application_transaction
begin

lemma replace_retry:
  fixes clock :: "'c ClockError + DomainEventTime"
  assumes "sane w" "store_inv api (durable w)"
    and va: "st_credentials (durable w) (replace_credential_id command) = Some va"
      "credential_status (va_aggregate va) = Credential_Replaced"
    and run: "ReplaceFareCredential_execute api P clock new_id ev_id new_ev_id command w = (r, w')"
  shows "sane w' \<and> others api tv {} (durable w) (durable w') \<and>
    st_credentials (durable w') (replace_credential_id command) = Some va \<and>
    (case r of
       Err e \<Rightarrow> (\<exists>re. e = App_Repository re)
     | Ok res \<Rightarrow> replacement_id (va_aggregate va) = Some (replaced_replacement_id res) \<and>
         \<not> replaced_changed res)"
proof -
  let ?cid = "replace_credential_id command"
  define Q where "Q = (\<lambda>(r :: ('e, 'c) ApplicationError + ReplacedFareCredential, w'). sane w' \<and>
    others api tv {} (durable w) (durable w') \<and>
    (case r of
       Err e \<Rightarrow> (\<exists>re. e = App_Repository re)
     | Ok res \<Rightarrow> replacement_id (va_aggregate va) = Some (replaced_replacement_id res) \<and>
         \<not> replaced_changed res))"
  have fail: "Q (Err (App_Repository e), w')"
    if "sane w'" "others api tv {} (durable w) (durable w')" for e w'
    using that by (simp add: Q_def)
  have reported: "Q (report_replacement P ?cid va w2)"
    if w2: "live w2" "pending w2 = []" "others api tv {} (durable w) (durable w2)"
      "st_credentials (durable w2) ?cid = Some va" for w2
  proof (rule report_step [where Q = Q, OF w2(1,2) assms(2) w2(3,4) va(2) fail])
    fix s' new vb w3
    assume "sane w3" "replacement_id (va_aggregate va) = Some new" "others api tv {} (durable w2) s'"
      "others api tv {} s' (durable w3)"
    then show "Q (Ok \<lparr> replaced_original_id = ?cid, replaced_replacement_id = new,
        replaced_previous_status = Credential_Replaced, replaced_current_status = Credential_Replaced,
        replaced_replacement_status = credential_status (va_aggregate vb),
        replaced_changed = False \<rparr>, w3)"
      using w2(3) by (auto simp: Q_def intro: others_trans)
  qed
  have "Q (ReplaceFareCredential_execute api P clock new_id ev_id new_ev_id command w)"
    unfolding ReplaceFareCredential_execute_def Let_def
  proof (rule began_cases [where Q = Q])
    fix e w1
    assume "tx_begin P w = (Err e, w1)"
    with begin_law [OF assms(1) this] show "Q (Err (App_Repository e), w1)"
      by (intro fail) simp_all
  next
    fix w1
    assume "tx_begin P w = (Ok (), w1)"
    note b = begin_law [OF assms(1) this]
    show "Q (attempt P (tx_find_fare_credential P ?cid) (\<lambda>found.
        or_rollback P (ok_or found (NotFound ''fare credential'' (identifier_to_string api ?cid))) (\<lambda>loaded.
        if credential_status (va_aggregate loaded) = Credential_Replaced
        then report_replacement P ?cid loaded
        else perform_replacement P clock new_id ev_id new_ev_id command loaded)) w1)"
    proof (rule attempt_cases [where Q = Q])
      fix e w2
      assume "tx_find_fare_credential P ?cid w1 = (Err e, w2)"
      from find_credential_law [OF _ this] b have "sane w2" "others api tv {} (durable w) (durable w2)"
        using others_trans by auto
      then show "Q (rollback_with P (App_Repository e) w2)"
        by (rule rollback_repository) (rule fail)
    next
      fix x w2
      assume "tx_find_fare_credential P ?cid w1 = (Ok x, w2)"
      from find_credential_law [OF _ this] b
      have w2: "live w2" "pending w2 = []" "others api tv {} (durable w) (durable w2)"
        "x = st_credentials (durable w2) ?cid"
        using others_trans by auto
      moreover have "st_credentials (durable w2) ?cid = Some va"
        using w2(3) assms(2) va by (rule others_replaced_frozen)
      ultimately show "Q (or_rollback P (ok_or x (NotFound ''fare credential'' (identifier_to_string api ?cid)))
          (\<lambda>loaded. if credential_status (va_aggregate loaded) = Credential_Replaced
            then report_replacement P ?cid loaded
            else perform_replacement P clock new_id ev_id new_ev_id command loaded) w2)"
        using reported va(2) by (simp add: or_rollback_def)
    qed
  qed
  then show ?thesis
    using run others_replaced_frozen [OF _ assms(2) va] by (auto simp: Q_def)
qed

end

section \<open>Examples\<close>

abbreviation example_ports :: "(DomainEventPayload Pg, PersistenceError) TransactionPorts" where
  "example_ports \<equiv> pg_ports layout_uuid_api Some (\<lambda>_. True)"

abbreviation example_clock :: "unit ClockError + DomainEventTime" where
  "example_clock \<equiv> Ok 2000"

definition example_replace :: "DomainEventPayload Pg
    \<Rightarrow> ((PersistenceError, unit) ApplicationError + ReplacedFareCredential) \<times> DomainEventPayload Pg" where
  "example_replace w = ReplaceFareCredential_execute layout_uuid_api example_ports example_clock
    (example_uuid 8) (example_uuid 9) (example_uuid 10)
    \<lparr> replace_credential_id = example_uuid 5, replacement_kind = Mobile \<rparr> w"

text \<open>The example database after an activation, and after the replacement that follows.\<close>

definition example_event :: "nat \<Rightarrow> nat \<Rightarrow> AggregateVersion \<Rightarrow> string \<Rightarrow> DomainEventPayload
    \<Rightarrow> DomainEventPayload DomainEventRecord" where
  "example_event i credential version name p =
    \<lparr> record_id = example_uuid i, record_aggregate_kind = ''fare_credential'',
      record_aggregate_id = example_uuid credential, record_aggregate_version = version,
      record_event_name = name, record_occurred_at = 2000, record_payload = p \<rparr>"

definition example_active_credential :: FareCredential where
  "example_active_credential = example_credential\<lparr> credential_status := Credential_Active \<rparr>"

definition example_active :: "DomainEventPayload Pg" where
  "example_active = (example_pg [])\<lparr> pg_committed := example_db\<lparr>
    db_credentials := [FareCredentialRow_from_domain example_active_credential 2],
    db_events := [example_issue_record,
      example_event 7 5 2 ''fare_credential.status_changed''
        (FareCredentialStatusChanged (example_uuid 5) Credential_Pending Credential_Active)] \<rparr> \<rparr>"

definition example_replaced_credential :: FareCredential where
  "example_replaced_credential = example_credential\<lparr> credential_status := Credential_Replaced,
    replacement_id := Some (example_uuid 8) \<rparr>"

definition example_successor :: FareCredential where
  "example_successor = FareCredential_new_pending (example_uuid 8) (example_uuid 2) Mobile"

definition example_replaced :: "DomainEventPayload Pg" where
  "example_replaced = (example_pg [])\<lparr> pg_committed := example_db\<lparr>
    db_credentials := [FareCredentialRow_from_domain example_replaced_credential 3,
      FareCredentialRow_from_domain example_successor 1],
    db_events := [example_issue_record,
      example_event 7 5 2 ''fare_credential.status_changed''
        (FareCredentialStatusChanged (example_uuid 5) Credential_Pending Credential_Active),
      example_event 9 5 3 ''fare_credential.status_changed''
        (FareCredentialStatusChanged (example_uuid 5) Credential_Active Credential_Replaced),
      example_event 10 8 1 ''fare_credential.issued''
        (FareCredentialIssued (example_uuid 8) (example_uuid 2) Mobile)] \<rparr> \<rparr>"

lemma example_uuids: "example_uuid 8 \<noteq> example_uuid 5" "example_uuid 5 \<noteq> example_uuid 8"
  "valid_identifier layout_uuid_api (example_uuid 8)"
  by (simp_all add: valid_identifier_def layout_uuid_api_def example_uuid_def)

lemma example_active_stored:
  "st_credentials (pg_durable layout_uuid_api example_active) i =
    (if i = example_uuid 5 then Some (VersionedAggregate example_active_credential 2) else None)"
proof -
  have row: "FareCredentialRow_into_versioned layout_uuid_api
      (FareCredentialRow_from_domain example_active_credential 2) =
      Ok (VersionedAggregate example_active_credential 2)"
    by code_simp
  have id: "credential_row_id (FareCredentialRow_from_domain example_active_credential 2) = example_uuid 5"
    by (simp add: FareCredentialRow_from_domain_def example_active_credential_def example_credential_def
        FareCredential_new_pending_def)
  show ?thesis
    by (simp add: pg_durable_def abs_store_def find_credential_row_def example_active_def row id)
qed

lemma example_replaced_stored:
  "st_credentials (pg_durable layout_uuid_api example_replaced) i =
    (if i = example_uuid 5 then Some (VersionedAggregate example_replaced_credential 3)
     else if i = example_uuid 8 then Some (VersionedAggregate example_successor 1) else None)"
proof -
  have row: "FareCredentialRow_into_versioned layout_uuid_api
      (FareCredentialRow_from_domain example_replaced_credential 3) =
      Ok (VersionedAggregate example_replaced_credential 3)"
    "FareCredentialRow_into_versioned layout_uuid_api
      (FareCredentialRow_from_domain example_successor 1) = Ok (VersionedAggregate example_successor 1)"
    by code_simp+
  have id: "credential_row_id (FareCredentialRow_from_domain example_replaced_credential 3) = example_uuid 5"
    "credential_row_id (FareCredentialRow_from_domain example_successor 1) = example_uuid 8"
    by (simp_all add: FareCredentialRow_from_domain_def example_replaced_credential_def
        example_successor_def example_credential_def FareCredential_new_pending_def)
  show ?thesis
    by (simp add: pg_durable_def abs_store_def find_credential_row_def example_replaced_def row id)
qed

lemma example_active_consistent:
  "pg_sane layout_uuid_api (\<lambda>_. True) example_active"
  "store_inv layout_uuid_api (pg_durable layout_uuid_api example_active)"
proof -
  show "pg_sane layout_uuid_api (\<lambda>_. True) example_active" by code_simp
  have ok: "credential_ok layout_uuid_api example_active_credential" by code_simp
  have log: "map record_aggregate_version (credential_log (pg_durable layout_uuid_api example_active) i) =
      (if i = example_uuid 5 then [1, 2] else [])" for i
    by (simp add: credential_log_def pg_durable_def example_active_def example_issue_record_def
        example_event_def)
  have fields: "credential_id example_active_credential = example_uuid 5"
    "replacement_id example_active_credential = None"
    by (simp_all add: example_active_credential_def example_credential_def FareCredential_new_pending_def)
  have "versions_upto 2 = [1, 2]" by code_simp
  then have "credential_entry_ok layout_uuid_api (pg_durable layout_uuid_api example_active) i" for i
    using ok log [of i] by (auto simp: credential_entry_ok_def example_active_stored fields)
  then show "store_inv layout_uuid_api (pg_durable layout_uuid_api example_active)"
    by (simp add: store_inv_def)
qed

lemma example_replaced_consistent:
  "pg_sane layout_uuid_api (\<lambda>_. True) example_replaced"
  "store_inv layout_uuid_api (pg_durable layout_uuid_api example_replaced)"
proof -
  show "pg_sane layout_uuid_api (\<lambda>_. True) example_replaced" by code_simp
  have ok: "credential_ok layout_uuid_api example_replaced_credential"
    "credential_ok layout_uuid_api example_successor" by code_simp+
  have log: "map record_aggregate_version (credential_log (pg_durable layout_uuid_api example_replaced) i) =
      (if i = example_uuid 5 then [1, 2, 3] else if i = example_uuid 8 then [1] else [])" for i
    by (simp add: credential_log_def pg_durable_def example_replaced_def example_issue_record_def
        example_event_def example_uuids)
  have fields: "credential_id example_replaced_credential = example_uuid 5"
    "replacement_id example_replaced_credential = Some (example_uuid 8)"
    "credential_id example_successor = example_uuid 8" "replacement_id example_successor = None"
    "transit_account_id example_replaced_credential = transit_account_id example_successor"
    by (simp_all add: example_replaced_credential_def example_successor_def example_credential_def
        FareCredential_new_pending_def)
  have "versions_upto 3 = [1, 2, 3]" by code_simp
  then have "credential_entry_ok layout_uuid_api (pg_durable layout_uuid_api example_replaced) i" for i
    using ok log [of i]
    by (auto simp: credential_entry_ok_def example_replaced_stored fields example_uuids versions_upto_1)
  then show "store_inv layout_uuid_api (pg_durable layout_uuid_api example_replaced)"
    by (simp add: store_inv_def)
qed

lemma example_activated:
  "fst (ActivateFareCredential_execute layout_uuid_api example_ports example_clock
    (example_uuid 7) (example_uuid 5) (example_pg [])) =
    Ok \<lparr> activated_credential_id = example_uuid 5, activated_previous_status = Credential_Pending,
      activated_current_status = Credential_Active, activated_changed = True \<rparr>"
  by code_simp

lemma example_replacement:
  "fst (example_replace example_active) =
    Ok \<lparr> replaced_original_id = example_uuid 5, replaced_replacement_id = example_uuid 8,
      replaced_previous_status = Credential_Active, replaced_current_status = Credential_Replaced,
      replaced_replacement_status = Credential_Pending, replaced_changed = True \<rparr>"
  by code_simp

section \<open>Properties\<close>





text \<open>
  C14. Replacing a credential is atomic under concurrency and failures: \<open>Ok\<close> with \<open>changed\<close> means that in one
  step the original became replaced, its successor was stored pending for the same account, and both
  events were recorded; \<open>Ok\<close> without \<open>changed\<close> names the successor recorded earlier with
  its status; \<open>Err\<close> means no effect, or the complete effect when the answer to the commit was lost.
\<close>

theorem replace_linearizable:
  assumes "pg_sane api obj w" "store_inv api (pg_durable api w)" "valid_identifier api new_id"
  shows "case ReplaceFareCredential_execute api (pg_ports api tv obj) clock new_id ev new_ev command w of
      (r, w') \<Rightarrow> pg_sane api obj w' \<and>
    replace_post api tv clock new_id ev new_ev command (pg_durable api w) r (pg_durable api w')"
  by (rule case_prodI2) (rule pg.replace_linearized [OF assms])

theorem replace_linearizable_witness:
  "case example_replace example_active of (r, w') \<Rightarrow> \<not> isl r \<and>
    replace_post layout_uuid_api Some example_clock (example_uuid 8) (example_uuid 9) (example_uuid 10)
      \<lparr> replace_credential_id = example_uuid 5, replacement_kind = Mobile \<rparr>
      (pg_durable layout_uuid_api example_active) r (pg_durable layout_uuid_api w')"
  using replace_linearizable [where tv = Some and clock = example_clock and ev = "example_uuid 9"
      and new_ev = "example_uuid 10" and command = "\<lparr> replace_credential_id = example_uuid 5,
      replacement_kind = Mobile \<rparr>", OF example_active_consistent example_uuids(3)] example_replacement
  by (auto simp: example_replace_def split: prod.splits)



text \<open>
  C13. The backend's store stays consistent: after any sequence of service calls, with any calls of other
  sessions between their statements and any failures, every credential is well formed, its successor exists and
  belongs to the same account, and the event log holds exactly one event per version of every credential, in
  order; no credential disappears, none changes without a new version, and no account is touched.
\<close>

theorem services_keep_store_consistent:
  assumes "pg_sane api obj w" "store_inv api (pg_durable api w)" "list_all (call_ok api) calls"
  shows "let w' = fold (run_call api (pg_ports api tv obj)) calls w in
    pg_sane api obj w' \<and> store_inv api (pg_durable api w') \<and>
    st_accounts (pg_durable api w') = st_accounts (pg_durable api w) \<and>
    (\<forall>i va. st_credentials (pg_durable api w) i = Some va \<longrightarrow>
      (\<exists>vb. st_credentials (pg_durable api w') i = Some vb \<and>
        (vb = va \<or> va_version va < va_version vb)))"
  using run_calls_others [OF assms, of tv] others_store_inv others_accounts others_grown assms(2)
  unfolding grown_def Let_def by blast

theorem services_keep_store_consistent_witness:
  "store_inv layout_uuid_api (pg_durable layout_uuid_api
    (fold (run_call layout_uuid_api example_ports)
      [Call_Activate example_clock (example_uuid 7) (example_uuid 5),
       Call_Replace example_clock (example_uuid 8) (example_uuid 9) (example_uuid 10)
         \<lparr> replace_credential_id = example_uuid 5, replacement_kind = Mobile \<rparr>] (example_pg [])))"
proof -
  have "list_all (call_ok layout_uuid_api)
      [Call_Activate example_clock (example_uuid 7) (example_uuid 5),
       Call_Replace example_clock (example_uuid 8) (example_uuid 9) (example_uuid 10)
         \<lparr> replace_credential_id = example_uuid 5, replacement_kind = Mobile \<rparr>]"
    by (simp add: example_uuids)
  from services_keep_store_consistent [OF example_sane example_consistent this, where tv = Some]
  show ?thesis by (simp only: Let_def)
qed

end
