(* ===== verification/FarePolicy.thy ===== *)
theory FarePolicy
  imports Account FareTransaction
begin

text \<open>
  Validated fare-policy values of \<open>crates/fare-engine/src/policy.rs\<close> and the contract the
  discount stages of the fare engine share.
\<close>

datatype FarePolicyValueError =
    ZeroZoneId
  | ZeroTransferWindow
  | DiscountAboveFullFare u16

datatype FarePolicyError =
    Policy_CurrencyMismatch string Currency Currency
  | Policy_NegativeAmount string Money
  | DailyCapBelowBaseFare Money Money
  | WeeklyCapBelowDailyCap Money Money
  | TransferDiscountExceedsBaseFare Money Money

type_synonym ZoneId = u16
type_synonym TransferWindow = u64
type_synonym DiscountBasisPoints = u16

definition ZoneId_new :: "u16 \<Rightarrow> FarePolicyValueError + ZoneId" where
  "ZoneId_new v = (if v = 0 then Err ZeroZoneId else Ok v)"

definition TransferWindow_from_milliseconds :: "u64 \<Rightarrow> FarePolicyValueError + TransferWindow" where
  "TransferWindow_from_milliseconds v = (if v = 0 then Err ZeroTransferWindow else Ok v)"

definition DiscountBasisPoints_new :: "u16 \<Rightarrow> FarePolicyValueError + DiscountBasisPoints" where
  "DiscountBasisPoints_new v = (if 10000 < v then Err (DiscountAboveFullFare v) else Ok v)"

record EligibilityDiscounts =
  youth_rate :: DiscountBasisPoints
  senior_rate :: DiscountBasisPoints
  reduced_fare_rate :: DiscountBasisPoints
  employee_test_account_rate :: DiscountBasisPoints

definition EligibilityDiscounts_none :: EligibilityDiscounts where
  "EligibilityDiscounts_none =
    \<lparr> youth_rate = 0, senior_rate = 0, reduced_fare_rate = 0, employee_test_account_rate = 0 \<rparr>"

fun rate_for :: "EligibilityDiscounts \<Rightarrow> EligibilityClassification \<Rightarrow> DiscountBasisPoints" where
  "rate_for d Standard = 0"
| "rate_for d Youth = youth_rate d"
| "rate_for d Senior = senior_rate d"
| "rate_for d ReducedFare = reduced_fare_rate d"
| "rate_for d EmployeeTestAccount = employee_test_account_rate d"

record FarePolicyDefinition =
  policy_id :: FarePolicyId
  policy_version :: FarePolicyVersion
  policy_currency :: Currency
  base_fare :: Money
  zone_surcharge :: Money
  transfer_window :: TransferWindow
  transfer_discount :: Money
  daily_cap :: Money
  weekly_cap :: Money
  eligibility_discounts :: EligibilityDiscounts

datatype FarePolicy = FarePolicy (definition_of: FarePolicyDefinition)

definition validate_money :: "string \<Rightarrow> Money \<Rightarrow> Currency \<Rightarrow> FarePolicyError + unit" where
  "validate_money field m expected =
    (if currency m \<noteq> expected then Err (Policy_CurrencyMismatch field expected (currency m))
     else if is_negative m then Err (Policy_NegativeAmount field m)
     else Ok ())"

definition FarePolicy_validate :: "FarePolicyDefinition \<Rightarrow> FarePolicyError + FarePolicy" where
  "FarePolicy_validate d =
    and_then (try_each (\<lambda>(field, m). validate_money field m (policy_currency d))
       [(''base_fare'', base_fare d),
        (''zone_surcharge'', zone_surcharge d),
        (''transfer_discount'', transfer_discount d),
        (''daily_cap'', daily_cap d),
        (''weekly_cap'', weekly_cap d)]) (\<lambda>_.
     if sint (minor_units (daily_cap d)) < sint (minor_units (base_fare d))
     then Err (DailyCapBelowBaseFare (base_fare d) (daily_cap d))
     else if sint (minor_units (weekly_cap d)) < sint (minor_units (daily_cap d))
     then Err (WeeklyCapBelowDailyCap (daily_cap d) (weekly_cap d))
     else if sint (minor_units (base_fare d)) < sint (minor_units (transfer_discount d))
     then Err (TransferDiscountExceedsBaseFare (base_fare d) (transfer_discount d))
     else Ok (FarePolicy d))"

section \<open>Lemmas\<close>

abbreviation p_currency :: "FarePolicy \<Rightarrow> Currency" where
  "p_currency p \<equiv> policy_currency (definition_of p)"
abbreviation p_base_fare :: "FarePolicy \<Rightarrow> Money" where
  "p_base_fare p \<equiv> base_fare (definition_of p)"
abbreviation p_zone_surcharge :: "FarePolicy \<Rightarrow> Money" where
  "p_zone_surcharge p \<equiv> zone_surcharge (definition_of p)"
abbreviation p_transfer_window :: "FarePolicy \<Rightarrow> TransferWindow" where
  "p_transfer_window p \<equiv> transfer_window (definition_of p)"
abbreviation p_transfer_discount :: "FarePolicy \<Rightarrow> Money" where
  "p_transfer_discount p \<equiv> transfer_discount (definition_of p)"
abbreviation p_daily_cap :: "FarePolicy \<Rightarrow> Money" where
  "p_daily_cap p \<equiv> daily_cap (definition_of p)"
abbreviation p_weekly_cap :: "FarePolicy \<Rightarrow> Money" where
  "p_weekly_cap p \<equiv> weekly_cap (definition_of p)"
abbreviation p_discounts :: "FarePolicy \<Rightarrow> EligibilityDiscounts" where
  "p_discounts p \<equiv> eligibility_discounts (definition_of p)"

text \<open>An amount a policy in currency \<open>c\<close> can work with.\<close>

definition good_amount :: "Currency \<Rightarrow> Money \<Rightarrow> bool" where
  "good_amount c m \<longleftrightarrow> currency m = c \<and> 0 \<le> units m"

definition definition_ok :: "FarePolicyDefinition \<Rightarrow> bool" where
  "definition_ok d \<longleftrightarrow>
    good_amount (policy_currency d) (base_fare d) \<and>
    good_amount (policy_currency d) (zone_surcharge d) \<and>
    good_amount (policy_currency d) (transfer_discount d) \<and>
    good_amount (policy_currency d) (daily_cap d) \<and>
    good_amount (policy_currency d) (weekly_cap d) \<and>
    units (transfer_discount d) \<le> units (base_fare d) \<and>
    units (base_fare d) \<le> units (daily_cap d) \<and>
    units (daily_cap d) \<le> units (weekly_cap d)"

definition policy_ok :: "FarePolicy \<Rightarrow> bool" where
  "policy_ok p \<longleftrightarrow> definition_ok (definition_of p)"

text \<open>Rates are built by \<open>DiscountBasisPoints::new\<close> only, so none exceeds the full fare.\<close>

definition discounts_ok :: "EligibilityDiscounts \<Rightarrow> bool" where
  "discounts_ok d \<longleftrightarrow> youth_rate d \<le> 10000 \<and> senior_rate d \<le> 10000 \<and>
    reduced_fare_rate d \<le> 10000 \<and> employee_test_account_rate d \<le> 10000"

lemma good_amountD:
  "good_amount c m \<Longrightarrow> currency m = c" "good_amount c m \<Longrightarrow> 0 \<le> units m"
  by (simp_all add: good_amount_def)

lemma good_amount_zero [simp]: "good_amount c (Money_zero c)"
  by (simp add: good_amount_def)

lemma validate_money_eq_Ok [result_simps]:
  "validate_money field m c = Ok u \<longleftrightarrow> good_amount c m"
  by (auto simp: validate_money_def good_amount_def is_negative_def)

lemma FarePolicy_validate_eq_Ok:
  "FarePolicy_validate d = Ok p \<longleftrightarrow> definition_ok d \<and> p = FarePolicy d"
  by (auto simp: FarePolicy_validate_def result_simps definition_ok_def not_less)

lemma rate_for_bound:
  assumes "discounts_ok d"
  shows "uint (rate_for d e) \<le> 10000"
proof -
  have "rate_for d e \<le> 10000"
    using assms by (cases e) (auto simp: discounts_ok_def)
  then show ?thesis
    by (simp add: word_le_def)
qed

lemma validated_policy_ok:
  "FarePolicy_validate d = Ok p \<Longrightarrow> policy_ok p"
  by (auto simp: FarePolicy_validate_eq_Ok policy_ok_def)

lemma policy_okD:
  assumes "policy_ok p"
  shows "good_amount (p_currency p) (p_base_fare p)"
    "good_amount (p_currency p) (p_zone_surcharge p)"
    "good_amount (p_currency p) (p_transfer_discount p)"
    "good_amount (p_currency p) (p_daily_cap p)"
    "good_amount (p_currency p) (p_weekly_cap p)"
  using assms by (simp_all add: policy_ok_def definition_ok_def)

text \<open>
  A discount stage of the engine: on an amount the policy can work with, a stage that
  accepts its input lowers the fare by the discount it reports and never below zero, and it
  reports amounts in the policy's currency.
\<close>

locale discount_stage =
  fixes stage :: "FarePolicy \<Rightarrow> 'i \<Rightarrow> Money \<Rightarrow> 'e + 'a"
    and discount :: "'a \<Rightarrow> Money"
    and after :: "'a \<Rightarrow> Money"
  assumes accepts: "stage p i fare = Inr app \<Longrightarrow> good_amount (p_currency p) fare"
    and stage_after: "policy_ok p \<Longrightarrow> stage p i fare = Inr app \<Longrightarrow>
      good_amount (p_currency p) (after app) \<and> units (after app) \<le> units fare"
    and stage_discount: "policy_ok p \<Longrightarrow> stage p i fare = Inr app \<Longrightarrow>
      currency (discount app) = p_currency p \<and>
      units (discount app) = units fare - units (after app)"
begin

lemma discount_good:
  "policy_ok p \<Longrightarrow> stage p i fare = Inr app \<Longrightarrow> good_amount (p_currency p) (discount app)"
  using stage_after stage_discount by (fastforce simp: good_amount_def)

lemma discount_le_fare:
  "policy_ok p \<Longrightarrow> stage p i fare = Inr app \<Longrightarrow> units (discount app) \<le> units fare"
  using stage_after stage_discount by (fastforce simp: good_amount_def)

lemma no_discount_iff:
  "policy_ok p \<Longrightarrow> stage p i fare = Inr app \<Longrightarrow>
    units (discount app) = 0 \<longleftrightarrow> after app = fare"
  using accepts stage_after stage_discount
  by (fastforce simp: good_amount_def Money_eq_iff)

lemmas stage_facts = accepts stage_after stage_discount discount_good discount_le_fare

end

text \<open>A concrete policy the evaluations of later theories use: 2.75 base fare, 0.50 a zone, a
  1.00 transfer discount within two hours, caps of 8.00 a day and 30.00 a week.\<close>

definition example_definition :: FarePolicyDefinition where
  "example_definition =
    \<lparr> policy_id = 11, policy_version = 3, policy_currency = Usd,
      base_fare = from_minor_units 275 Usd, zone_surcharge = from_minor_units 50 Usd,
      transfer_window = 7200000, transfer_discount = from_minor_units 100 Usd,
      daily_cap = from_minor_units 800 Usd, weekly_cap = from_minor_units 3000 Usd,
      eligibility_discounts = \<lparr> youth_rate = 5000, senior_rate = 5000, reduced_fare_rate = 3333,
        employee_test_account_rate = 10000 \<rparr> \<rparr>"

section \<open>Properties\<close>

text \<open>
  Policy validation accepts exactly the well-formed definitions, unchanged: every
  amount is in the policy's currency and non-negative, the transfer discount does not exceed
  the base fare, which does not exceed the daily cap, which does not exceed the weekly cap.
\<close>

theorem policy_validation_exact:
  "(case FarePolicy_validate d of
      Ok p \<Rightarrow> definition_ok d \<and> definition_of p = d
    | Err e \<Rightarrow> \<not> definition_ok d \<and>
        (case e of
           Policy_CurrencyMismatch _ expected actual \<Rightarrow> expected = policy_currency d \<and> actual \<noteq> expected
         | Policy_NegativeAmount _ m \<Rightarrow> units m < 0
         | DailyCapBelowBaseFare b c \<Rightarrow> b = base_fare d \<and> c = daily_cap d \<and> units c < units b
         | WeeklyCapBelowDailyCap c w \<Rightarrow> c = daily_cap d \<and> w = weekly_cap d \<and> units w < units c
         | TransferDiscountExceedsBaseFare b t \<Rightarrow>
             b = base_fare d \<and> t = transfer_discount d \<and> units b < units t))"
proof (cases "FarePolicy_validate d")
  case (Inr p)
  then have "definition_ok d" "p = FarePolicy d" by (simp_all add: FarePolicy_validate_eq_Ok)
  with Inr show ?thesis by simp
next
  case (Inl e)
  then have "\<not> definition_ok d"
    using FarePolicy_validate_eq_Ok [of d "FarePolicy d"] by auto
  moreover have "case e of
           Policy_CurrencyMismatch _ expected actual \<Rightarrow> expected = policy_currency d \<and> actual \<noteq> expected
         | Policy_NegativeAmount _ m \<Rightarrow> units m < 0
         | DailyCapBelowBaseFare b c \<Rightarrow> b = base_fare d \<and> c = daily_cap d \<and> units c < units b
         | WeeklyCapBelowDailyCap c w \<Rightarrow> c = daily_cap d \<and> w = weekly_cap d \<and> units w < units c
         | TransferDiscountExceedsBaseFare b t \<Rightarrow>
             b = base_fare d \<and> t = transfer_discount d \<and> units b < units t"
    using Inl
    by (auto simp: FarePolicy_validate_def and_then_eq_Err validate_money_def is_negative_def
        split: if_splits)
  ultimately show ?thesis using Inl by simp
qed

end
