(* ===== verification/FareTransfer.thy ===== *)
theory FareTransfer
  imports FarePolicy
begin

text \<open>
  Transfer evaluation of \<open>crates/fare-engine/src/transfer.rs\<close>.  The subtraction of the two
  event times is the machine subtraction of the source; \<open>elapsed_exact\<close> shows that it is exact
  on the times the engine sees.
\<close>

record TransferHistory =
  previous_paid_fare_event_time :: "EventTime option"

datatype TransferEvaluationError =
    Transfer_CurrencyMismatch Currency Currency
  | Transfer_NegativeFare Money
  | PreviousFareOccursAfterCurrent i64 i64
  | Transfer_ArithmeticFailure

record TransferApplication =
  ta_policy_id :: FarePolicyId
  ta_policy_version :: FarePolicyVersion
  ta_eligible :: bool
  ta_discount_applied :: Money
  ta_fare_after_transfer :: Money

definition unsigned_abs :: "i64 \<Rightarrow> u64" where
  "unsigned_abs x = (if sint x < 0 then - x else x)"

definition Transfer_validate_fare :: "FarePolicy \<Rightarrow> Money \<Rightarrow> TransferEvaluationError + unit" where
  "Transfer_validate_fare p fare =
    (if currency fare \<noteq> p_currency p then Err (Transfer_CurrencyMismatch (p_currency p) (currency fare))
     else if is_negative fare then Err (Transfer_NegativeFare fare)
     else Ok ())"

definition transfer_is_eligible ::
  "FarePolicy \<Rightarrow> EventTime \<Rightarrow> TransferHistory \<Rightarrow> TransferEvaluationError + bool" where
  "transfer_is_eligible p now h =
    (case previous_paid_fare_event_time h of
       None \<Rightarrow> Ok False
     | Some previous \<Rightarrow>
         if sint now < sint previous then Err (PreviousFareOccursAfterCurrent previous now)
         else Ok (unsigned_abs (now - previous) \<le> p_transfer_window p))"

definition i64_minimum :: "i64 \<Rightarrow> i64 \<Rightarrow> i64" where
  "i64_minimum a b = (if sint b < sint a then b else a)"

definition apply_transfer ::
  "FarePolicy \<Rightarrow> EventTime \<Rightarrow> TransferHistory \<Rightarrow> Money \<Rightarrow> TransferEvaluationError + TransferApplication" where
  "apply_transfer p now h fare =
    and_then (Transfer_validate_fare p fare) (\<lambda>_.
    and_then (transfer_is_eligible p now h) (\<lambda>eligible.
    let discount = (if eligible
          then from_minor_units
                 (i64_minimum (minor_units (p_transfer_discount p)) (minor_units fare)) (p_currency p)
          else Money_zero (p_currency p))
    in and_then (map_err (\<lambda>_. Transfer_ArithmeticFailure) (checked_subtract fare discount)) (\<lambda>rest.
       Ok \<lparr> ta_policy_id = policy_id (definition_of p),
            ta_policy_version = policy_version (definition_of p),
            ta_eligible = eligible, ta_discount_applied = discount,
            ta_fare_after_transfer = rest \<rparr>)))"

section \<open>Lemmas\<close>

lemma sint_i64_minimum [simp]: "sint (i64_minimum a b) = min (sint a) (sint b)"
  by (simp add: i64_minimum_def)

lemma elapsed_exact:
  assumes "0 \<le> sint previous" "sint previous \<le> sint now"
  shows "uint (unsigned_abs (now - previous)) = sint now - sint previous"
  using assms by (simp add: unsigned_abs_def sint_diff_nonneg uint_of_nonneg_sint)

definition history_ok :: "EventTime \<Rightarrow> TransferHistory \<Rightarrow> bool" where
  "history_ok now h \<longleftrightarrow>
    (case previous_paid_fare_event_time h of None \<Rightarrow> True
     | Some t \<Rightarrow> 0 \<le> sint t \<and> sint t \<le> sint now)"

text \<open>The transfer rule over the integers: the previous paid fare lies at most a window back.\<close>

definition within_window :: "FarePolicy \<Rightarrow> EventTime \<Rightarrow> TransferHistory \<Rightarrow> bool" where
  "within_window p now h \<longleftrightarrow>
    (case previous_paid_fare_event_time h of None \<Rightarrow> False
     | Some t \<Rightarrow> sint now - sint t \<le> uint (p_transfer_window p))"

lemma transfer_is_eligible_exact:
  "history_ok now h \<Longrightarrow> transfer_is_eligible p now h = Ok (within_window p now h)"
  by (auto simp: transfer_is_eligible_def history_ok_def within_window_def word_le_def elapsed_exact
      split: option.splits)

lemma Transfer_validate_fare_eq_Ok [result_simps]:
  "Transfer_validate_fare p fare = Ok u \<longleftrightarrow> good_amount (p_currency p) fare"
  by (auto simp: Transfer_validate_fare_def good_amount_def is_negative_def)

lemma Transfer_validate_fare_good [simp]:
  "good_amount (p_currency p) fare \<Longrightarrow> Transfer_validate_fare p fare = Ok ()"
  by (simp add: Transfer_validate_fare_eq_Ok)

definition transfer_reduction :: "FarePolicy \<Rightarrow> bool \<Rightarrow> Money \<Rightarrow> int" where
  "transfer_reduction p eligible fare =
    (if eligible then min (units (p_transfer_discount p)) (units fare) else 0)"

lemma transfer_reduction_bounds:
  assumes "policy_ok p" "0 \<le> units fare"
  shows "0 \<le> transfer_reduction p eligible fare" "transfer_reduction p eligible fare \<le> units fare"
  using assms policy_okD(3) [OF assms(1)] by (auto simp: transfer_reduction_def good_amount_def)

lemma apply_transfer_facts:
  assumes "policy_ok p" "apply_transfer p now h fare = Ok app"
  shows "good_amount (p_currency p) fare"
    "transfer_is_eligible p now h = Ok (ta_eligible app)"
    "currency (ta_discount_applied app) = p_currency p"
    "units (ta_discount_applied app) = transfer_reduction p (ta_eligible app) fare"
    "currency (ta_fare_after_transfer app) = p_currency p"
    "units (ta_fare_after_transfer app) = units fare - transfer_reduction p (ta_eligible app) fare"
  using assms(2)
  by (auto simp: apply_transfer_def result_simps Let_def checked_subtract_eq_Ok good_amount_def
      transfer_reduction_def split: if_splits)

lemma apply_transfer_succeeds:
  assumes "policy_ok p" "good_amount (p_currency p) fare" "transfer_is_eligible p now h = Ok el"
  shows "\<exists>app. apply_transfer p now h fare = Ok app"
  using assms policy_okD(3) [OF assms(1)]
  by (auto simp: apply_transfer_def Let_def good_amount_def checked_subtract_nonneg)

lemma apply_transfer_accepts:
  "apply_transfer p now h fare = Ok app \<Longrightarrow> good_amount (p_currency p) fare"
  by (auto simp: apply_transfer_def result_simps)

interpretation transfer_stage: discount_stage "\<lambda>p (now, h). apply_transfer p now h"
  ta_discount_applied ta_fare_after_transfer
proof
  fix p fare app and i :: "EventTime \<times> TransferHistory"
  obtain now h where i: "i = (now, h)" by (cases i)
  assume "(case i of (now, h) \<Rightarrow> apply_transfer p now h) fare = Ok app"
  then have app: "apply_transfer p now h fare = Ok app" by (simp add: i)
  show "good_amount (p_currency p) fare"
    using app by (rule apply_transfer_accepts)
  assume ok: "policy_ok p"
  note facts = apply_transfer_facts [OF ok app]
  note bounds = transfer_reduction_bounds [OF ok good_amountD(2) [OF facts(1)], of "ta_eligible app"]
  show "good_amount (p_currency p) (ta_fare_after_transfer app) \<and>
      units (ta_fare_after_transfer app) \<le> units fare"
    using facts bounds by (simp add: good_amount_def)
  show "currency (ta_discount_applied app) = p_currency p \<and>
      units (ta_discount_applied app) = units fare - units (ta_fare_after_transfer app)"
    using facts by simp
qed

lemma apply_transfer_exact:
  assumes "policy_ok p" "good_amount (p_currency p) fare" "history_ok now h"
  shows "\<exists>app. apply_transfer p now h fare = Ok app \<and>
    ta_eligible app = within_window p now h \<and>
    units (ta_fare_after_transfer app) =
      (if within_window p now h then max 0 (units fare - units (p_transfer_discount p))
       else units fare) \<and>
    units (ta_discount_applied app) + units (ta_fare_after_transfer app) = units fare"
proof -
  obtain app where app: "apply_transfer p now h fare = Ok app"
    using apply_transfer_succeeds assms transfer_is_eligible_exact by blast
  have "ta_eligible app = within_window p now h"
    using apply_transfer_facts(2) [OF assms(1) app] transfer_is_eligible_exact [OF assms(3)] by simp
  then show ?thesis
    using app apply_transfer_facts(4,6) [OF assms(1) app] by (auto simp: transfer_reduction_def)
qed

section \<open>Properties\<close>

text \<open>
  C32. A transfer discount is granted exactly when an earlier paid fare lies at most one
  transfer window (inclusive) before the current one; the stage then succeeds and lowers the fare
  by the policy's discount, but never below zero.  The elapsed time of the source, a machine
  subtraction, is exact on non-negative event times.
\<close>

theorem apply_transfer_correct:
  assumes "policy_ok p" "good_amount (p_currency p) fare" "history_ok now h"
  shows "\<exists>app. apply_transfer p now h fare = Ok app \<and>
    ta_eligible app = within_window p now h \<and>
    units (ta_fare_after_transfer app) =
      (if within_window p now h then max 0 (units fare - units (p_transfer_discount p))
       else units fare) \<and>
    units (ta_discount_applied app) + units (ta_fare_after_transfer app) = units fare"
  using assms by (rule apply_transfer_exact)

theorem apply_transfer_correct_witness:
  "\<exists>app. apply_transfer (FarePolicy example_definition) 7200000
      \<lparr> previous_paid_fare_event_time = Some 0 \<rparr> (from_minor_units 75 Usd) = Ok app \<and>
    units (ta_fare_after_transfer app) = 0"
proof -
  have "policy_ok (FarePolicy example_definition)"
    "good_amount (p_currency (FarePolicy example_definition)) (from_minor_units 75 Usd)"
    "history_ok 7200000 \<lparr> previous_paid_fare_event_time = Some 0 \<rparr>"
    by code_simp+
  from apply_transfer_correct [OF this]
  obtain app where app: "apply_transfer (FarePolicy example_definition) 7200000
      \<lparr> previous_paid_fare_event_time = Some 0 \<rparr> (from_minor_units 75 Usd) = Ok app"
    "units (ta_fare_after_transfer app) =
      (if within_window (FarePolicy example_definition) 7200000 \<lparr> previous_paid_fare_event_time = Some 0 \<rparr>
       then max 0 (units (from_minor_units 75 Usd) - units (p_transfer_discount (FarePolicy example_definition)))
       else units (from_minor_units 75 Usd))"
    by blast
  have "within_window (FarePolicy example_definition) 7200000 \<lparr> previous_paid_fare_event_time = Some 0 \<rparr>"
    "max 0 (units (from_minor_units 75 Usd) - units (p_transfer_discount (FarePolicy example_definition))) = 0"
    by code_simp+
  with app show ?thesis by auto
qed

end
