(* ===== verification/FareCaps.thy ===== *)
theory FareCaps
  imports FareTransfer
begin

text \<open>
  Daily and weekly fare caps of \<open>crates/fare-engine/src/cap.rs\<close>.  The two sums that decide
  whether a cap is reached are the unchecked machine additions of the source;
  \<open>cap_sum_exact\<close> shows that they cannot overflow.
\<close>

record FareCapHistory =
  daily_charged :: Money
  weekly_charged :: Money

definition FareCapHistory_zero :: "Currency \<Rightarrow> FareCapHistory" where
  "FareCapHistory_zero c = \<lparr> daily_charged = Money_zero c, weekly_charged = Money_zero c \<rparr>"

datatype FareCapEvaluationError =
    Cap_CurrencyMismatch string Currency Currency
  | Cap_NegativeAmount string Money
  | DailyChargedExceedsWeeklyCharged Money Money
  | Cap_ArithmeticFailure

record FareCapApplication =
  ca_policy_id :: FarePolicyId
  ca_policy_version :: FarePolicyVersion
  ca_daily_remaining_before :: Money
  ca_weekly_remaining_before :: Money
  ca_discount_applied :: Money
  ca_fare_after_caps :: Money
  ca_daily_cap_reached :: bool
  ca_weekly_cap_reached :: bool

definition Cap_validate_amount ::
  "FarePolicy \<Rightarrow> string \<Rightarrow> Money \<Rightarrow> FareCapEvaluationError + unit" where
  "Cap_validate_amount p field m =
    (if currency m \<noteq> p_currency p then Err (Cap_CurrencyMismatch field (p_currency p) (currency m))
     else if is_negative m then Err (Cap_NegativeAmount field m)
     else Ok ())"

definition remaining_allowance :: "Money \<Rightarrow> Money \<Rightarrow> FareCapEvaluationError + Money" where
  "remaining_allowance cap charged =
    (if sint (minor_units cap) \<le> sint (minor_units charged) then Ok (Money_zero (currency cap))
     else map_err (\<lambda>_. Cap_ArithmeticFailure) (checked_subtract cap charged))"

definition apply_fare_caps ::
  "FarePolicy \<Rightarrow> FareCapHistory \<Rightarrow> Money \<Rightarrow> FareCapEvaluationError + FareCapApplication" where
  "apply_fare_caps p h fare =
    and_then (Cap_validate_amount p ''daily_charged'' (daily_charged h)) (\<lambda>_.
    and_then (Cap_validate_amount p ''weekly_charged'' (weekly_charged h)) (\<lambda>_.
    and_then (Cap_validate_amount p ''fare_after_transfer'' fare) (\<lambda>_.
    if sint (minor_units (weekly_charged h)) < sint (minor_units (daily_charged h))
    then Err (DailyChargedExceedsWeeklyCharged (daily_charged h) (weekly_charged h))
    else
    and_then (remaining_allowance (p_daily_cap p) (daily_charged h)) (\<lambda>daily_remaining.
    and_then (remaining_allowance (p_weekly_cap p) (weekly_charged h)) (\<lambda>weekly_remaining.
    let capped = from_minor_units
          (i64_minimum (i64_minimum (minor_units fare) (minor_units daily_remaining))
            (minor_units weekly_remaining)) (p_currency p)
    in and_then (map_err (\<lambda>_. Cap_ArithmeticFailure) (checked_subtract fare capped)) (\<lambda>discount.
       Ok \<lparr> ca_policy_id = policy_id (definition_of p),
            ca_policy_version = policy_version (definition_of p),
            ca_daily_remaining_before = daily_remaining,
            ca_weekly_remaining_before = weekly_remaining,
            ca_discount_applied = discount,
            ca_fare_after_caps = capped,
            ca_daily_cap_reached =
              (sint (minor_units (p_daily_cap p))
                \<le> sint (minor_units (daily_charged h) + minor_units capped)),
            ca_weekly_cap_reached =
              (sint (minor_units (p_weekly_cap p))
                \<le> sint (minor_units (weekly_charged h) + minor_units capped)) \<rparr>))))))"

section \<open>Lemmas\<close>

lemma Cap_validate_amount_eq_Ok [result_simps]:
  "Cap_validate_amount p field m = Ok u \<longleftrightarrow> good_amount (p_currency p) m"
  by (auto simp: Cap_validate_amount_def good_amount_def is_negative_def)

lemma Cap_validate_amount_good [simp]:
  "good_amount (p_currency p) m \<Longrightarrow> Cap_validate_amount p field m = Ok ()"
  by (simp add: Cap_validate_amount_eq_Ok)

lemma remaining_allowance_exact:
  assumes "good_amount c cap" "good_amount c charged"
  shows "remaining_allowance cap charged =
    Ok (from_minor_units (i64_of_int (max 0 (units cap - units charged))) c)"
proof (cases "units cap \<le> units charged")
  case True
  then show ?thesis
    using assms by (simp add: remaining_allowance_def Money_zero_def good_amount_def i64_of_int_def)
next
  case False
  then show ?thesis
    using assms by (simp add: remaining_allowance_def good_amount_def checked_subtract_nonneg max_def)
qed

lemma in_i64_allowance:
  assumes "0 \<le> units charged" "0 \<le> units cap"
  shows "in_i64 (max 0 (units cap - units charged))"
  using assms sint_i64_bounds [of "minor_units cap"]
  by (simp add: in_i64_def i64_min_def i64_max_def)

text \<open>The amount the caps leave of a fare, over the integers.\<close>

definition capped_units :: "FarePolicy \<Rightarrow> FareCapHistory \<Rightarrow> int \<Rightarrow> int" where
  "capped_units p h n =
    min n (min (max 0 (units (p_daily_cap p) - units (daily_charged h)))
      (max 0 (units (p_weekly_cap p) - units (weekly_charged h))))"

definition cap_history_ok :: "FarePolicy \<Rightarrow> FareCapHistory \<Rightarrow> bool" where
  "cap_history_ok p h \<longleftrightarrow>
    good_amount (p_currency p) (daily_charged h) \<and> good_amount (p_currency p) (weekly_charged h) \<and>
    units (daily_charged h) \<le> units (weekly_charged h)"

lemma capped_units_bounds:
  "capped_units p h n \<le> n" "0 \<le> n \<Longrightarrow> 0 \<le> capped_units p h n"
  by (simp_all add: capped_units_def)

lemma capped_units_room:
  "units (daily_charged h) + capped_units p h n \<le> max (units (p_daily_cap p)) (units (daily_charged h))"
  "units (weekly_charged h) + capped_units p h n \<le> max (units (p_weekly_cap p)) (units (weekly_charged h))"
  unfolding capped_units_def by linarith+

lemma capped_units_full:
  assumes "0 \<le> n" "units (daily_charged h) + n \<le> units (p_daily_cap p)"
    "units (weekly_charged h) + n \<le> units (p_weekly_cap p)"
  shows "capped_units p h n = n"
  using assms unfolding capped_units_def by linarith

text \<open>Adding what the caps leave to what was charged stays below the cap or the charge itself.\<close>

lemma cap_sum_exact:
  assumes "0 \<le> sint (charged :: 64 word)" "0 \<le> sint n"
    "sint n \<le> max 0 (sint (cap :: 64 word) - sint charged)"
  shows "sint (charged + n) = sint charged + sint n"
proof (rule sint_add_exact)
  have "sint charged + sint n \<le> max (sint cap) (sint charged)"
    using assms by (auto simp: max_def split: if_splits)
  then show "in_i64 (sint charged + sint n)"
    using assms sint_i64_bounds [of cap] sint_i64_bounds [of charged]
    by (auto simp: in_i64_def i64_min_def i64_max_def max_def split: if_splits)
qed

lemma apply_fare_caps_accepts:
  "apply_fare_caps p h fare = Ok app \<Longrightarrow> good_amount (p_currency p) fare \<and> cap_history_ok p h"
  by (auto simp: apply_fare_caps_def result_simps cap_history_ok_def)

lemma apply_fare_caps_exact:
  assumes "policy_ok p" "good_amount (p_currency p) fare" "cap_history_ok p h"
  shows "\<exists>app. apply_fare_caps p h fare = Ok app \<and>
    currency (ca_fare_after_caps app) = p_currency p \<and>
    units (ca_fare_after_caps app) = capped_units p h (units fare) \<and>
    currency (ca_discount_applied app) = p_currency p \<and>
    units (ca_discount_applied app) = units fare - capped_units p h (units fare) \<and>
    ca_daily_cap_reached app =
      (units (p_daily_cap p) \<le> units (daily_charged h) + capped_units p h (units fare)) \<and>
    ca_weekly_cap_reached app =
      (units (p_weekly_cap p) \<le> units (weekly_charged h) + capped_units p h (units fare))"
proof -
  let ?c = "p_currency p"
  note caps = policy_okD(4,5) [OF assms(1)]
  have hist: "good_amount ?c (daily_charged h)" "good_amount ?c (weekly_charged h)"
    "units (daily_charged h) \<le> units (weekly_charged h)"
    using assms(3) by (simp_all add: cap_history_ok_def)
  define dr where "dr = i64_of_int (max 0 (units (p_daily_cap p) - units (daily_charged h)))"
  define wr where "wr = i64_of_int (max 0 (units (p_weekly_cap p) - units (weekly_charged h)))"
  define n where "n = i64_minimum (i64_minimum (minor_units fare) dr) wr"
  have dr: "sint dr = max 0 (units (p_daily_cap p) - units (daily_charged h))"
    and wr: "sint wr = max 0 (units (p_weekly_cap p) - units (weekly_charged h))"
    unfolding dr_def wr_def using hist caps by (simp_all add: good_amount_def in_i64_allowance)
  have n: "sint n = capped_units p h (units fare)"
    unfolding n_def by (simp add: dr wr capped_units_def min.assoc)
  have n0: "0 \<le> sint n" and n_le: "sint n \<le> units fare" "sint n \<le> sint dr" "sint n \<le> sint wr"
    using n capped_units_bounds [where p = p and h = h and n = "units fare"] good_amountD(2) [OF assms(2)]
    by (simp_all add: capped_units_def dr wr)
  have sums: "sint (minor_units (daily_charged h) + n) = units (daily_charged h) + sint n"
    "sint (minor_units (weekly_charged h) + n) = units (weekly_charged h) + sint n"
    using cap_sum_exact [of "minor_units (daily_charged h)" n "minor_units (p_daily_cap p)"]
      cap_sum_exact [of "minor_units (weekly_charged h)" n "minor_units (p_weekly_cap p)"]
      hist n0 n_le dr wr by (simp_all add: good_amount_def)
  have sub: "checked_subtract fare (from_minor_units n ?c) =
      Ok (from_minor_units (i64_of_int (units fare - sint n)) ?c)"
    using checked_subtract_nonneg [of fare "from_minor_units n ?c"] assms(2) n0
    by (simp add: good_amount_def)
  have in_range: "in_i64 (units fare - sint n)"
    using n0 n_le sint_i64_bounds [of "minor_units fare"]
    by (simp add: in_i64_def i64_min_def i64_max_def)
  show ?thesis
    using hist assms(2) sums sub in_range n
      remaining_allowance_exact [OF caps(1) hist(1)] remaining_allowance_exact [OF caps(2) hist(2)]
    by (simp add: apply_fare_caps_def Let_def dr_def [symmetric] wr_def [symmetric] n_def [symmetric])
qed

interpretation cap_stage: discount_stage apply_fare_caps ca_discount_applied ca_fare_after_caps
proof
  fix p h fare app
  assume app: "apply_fare_caps p h fare = Ok app"
  then show good: "good_amount (p_currency p) fare"
    using apply_fare_caps_accepts by blast
  assume "policy_ok p"
  from apply_fare_caps_exact [OF this good, of h] apply_fare_caps_accepts [OF app] app
  have "currency (ca_fare_after_caps app) = p_currency p"
    "units (ca_fare_after_caps app) = capped_units p h (units fare)"
    "currency (ca_discount_applied app) = p_currency p"
    "units (ca_discount_applied app) = units fare - capped_units p h (units fare)"
    by auto
  then show "good_amount (p_currency p) (ca_fare_after_caps app) \<and>
      units (ca_fare_after_caps app) \<le> units fare"
    and "currency (ca_discount_applied app) = p_currency p \<and>
      units (ca_discount_applied app) = units fare - units (ca_fare_after_caps app)"
    using capped_units_bounds good by (auto simp: good_amount_def)
qed

text \<open>The history after a charge, as a caller accumulates it.\<close>

definition charge_history :: "FareCapHistory \<Rightarrow> Money \<Rightarrow> int \<times> int" where
  "charge_history h m = (units (daily_charged h) + units m, units (weekly_charged h) + units m)"

section \<open>Properties\<close>



end
