(* ===== verification/TransitProduct.thy ===== *)
theory TransitProduct
  imports FareCaps
begin

text \<open>Transit products of \<open>crates/fare-engine/src/product.rs\<close>.\<close>

datatype TransitProductError =
    InvalidValidityInterval i64 i64
  | InvalidZoneRange u16 u16

datatype TransitProductCoverage = AllZones | ZoneRange ZoneId ZoneId

definition TransitProductCoverage_zone_range ::
  "ZoneId \<Rightarrow> ZoneId \<Rightarrow> TransitProductError + TransitProductCoverage" where
  "TransitProductCoverage_zone_range first_zone last_zone =
    (if last_zone < first_zone then Err (InvalidZoneRange first_zone last_zone)
     else Ok (ZoneRange first_zone last_zone))"

fun covers :: "TransitProductCoverage \<Rightarrow> ZoneId \<Rightarrow> bool" where
  "covers AllZones zone = True"
| "covers (ZoneRange first_zone last_zone) zone = (first_zone \<le> zone \<and> zone \<le> last_zone)"

record TransitProductDefinition =
  product_id :: TransitProductId
  instance_id :: TransitProductInstanceId
  valid_from :: EventTime
  valid_until :: EventTime
  coverage :: TransitProductCoverage

datatype TransitProduct = TransitProduct (product_definition: TransitProductDefinition)

definition TransitProduct_validate :: "TransitProductDefinition \<Rightarrow> TransitProductError + TransitProduct" where
  "TransitProduct_validate d =
    (if sint (valid_until d) < sint (valid_from d)
     then Err (InvalidValidityInterval (valid_from d) (valid_until d))
     else Ok (TransitProduct d))"

datatype ProductInvalidReason = NotYetValid | ProductExpired | OutsideZoneCoverage

datatype ProductApplicationOutcome =
  NotPresented | Covered | ProductInvalid ProductInvalidReason

datatype ProductEvaluationError =
    Product_CurrencyMismatch Currency Currency
  | Product_NegativeFare Money
  | Product_ArithmeticFailure

record ProductApplication =
  pa_policy_id :: FarePolicyId
  pa_policy_version :: FarePolicyVersion
  pa_product_id :: "TransitProductId option"
  pa_instance_id :: "TransitProductInstanceId option"
  pa_outcome :: ProductApplicationOutcome
  pa_discount_applied :: Money
  pa_fare_after_product :: Money

definition Product_validate_fare :: "FarePolicy \<Rightarrow> Money \<Rightarrow> ProductEvaluationError + unit" where
  "Product_validate_fare p fare =
    (if currency fare \<noteq> p_currency p then Err (Product_CurrencyMismatch (p_currency p) (currency fare))
     else if is_negative fare then Err (Product_NegativeFare fare)
     else Ok ())"

definition determine_outcome ::
  "TransitProduct \<Rightarrow> EventTime \<Rightarrow> ZoneId \<Rightarrow> ZoneId \<Rightarrow> ProductApplicationOutcome" where
  "determine_outcome product now origin destination =
    (let d = product_definition product in
     if sint now < sint (valid_from d) then ProductInvalid NotYetValid
     else if sint (valid_until d) < sint now then ProductInvalid ProductExpired
     else if \<not> covers (coverage d) origin \<or> \<not> covers (coverage d) destination
     then ProductInvalid OutsideZoneCoverage
     else Covered)"

definition apply_transit_product ::
  "FarePolicy \<Rightarrow> TransitProduct option \<Rightarrow> EventTime \<Rightarrow> ZoneId \<Rightarrow> ZoneId \<Rightarrow> Money
    \<Rightarrow> ProductEvaluationError + ProductApplication" where
  "apply_transit_product p product now origin destination fare =
    and_then (Product_validate_fare p fare) (\<lambda>_.
    case product of
      None \<Rightarrow>
        Ok \<lparr> pa_policy_id = policy_id (definition_of p),
             pa_policy_version = policy_version (definition_of p),
             pa_product_id = None, pa_instance_id = None, pa_outcome = NotPresented,
             pa_discount_applied = Money_zero (p_currency p), pa_fare_after_product = fare \<rparr>
    | Some pass \<Rightarrow>
        let outcome = determine_outcome pass now origin destination;
            discount = (case outcome of Covered \<Rightarrow> fare | _ \<Rightarrow> Money_zero (p_currency p))
        in and_then (map_err (\<lambda>_. Product_ArithmeticFailure) (checked_subtract fare discount)) (\<lambda>rest.
           Ok \<lparr> pa_policy_id = policy_id (definition_of p),
                pa_policy_version = policy_version (definition_of p),
                pa_product_id = Some (product_id (product_definition pass)),
                pa_instance_id = Some (instance_id (product_definition pass)),
                pa_outcome = outcome, pa_discount_applied = discount,
                pa_fare_after_product = rest \<rparr>))"

section \<open>Lemmas\<close>

lemma Product_validate_fare_eq_Ok [result_simps]:
  "Product_validate_fare p fare = Ok u \<longleftrightarrow> good_amount (p_currency p) fare"
  by (auto simp: Product_validate_fare_def good_amount_def is_negative_def)

lemma Product_validate_fare_good [simp]:
  "good_amount (p_currency p) fare \<Longrightarrow> Product_validate_fare p fare = Ok ()"
  by (simp add: Product_validate_fare_eq_Ok)

text \<open>When a presented product pays for a trip.\<close>

definition product_pays :: "TransitProduct \<Rightarrow> EventTime \<Rightarrow> ZoneId \<Rightarrow> ZoneId \<Rightarrow> bool" where
  "product_pays product now origin destination \<longleftrightarrow>
    (let d = product_definition product in
     sint (valid_from d) \<le> sint now \<and> sint now \<le> sint (valid_until d) \<and>
     covers (coverage d) origin \<and> covers (coverage d) destination)"

definition presented_outcome ::
  "TransitProduct option \<Rightarrow> EventTime \<Rightarrow> ZoneId \<Rightarrow> ZoneId \<Rightarrow> ProductApplicationOutcome" where
  "presented_outcome product now origin destination =
    (case product of None \<Rightarrow> NotPresented
     | Some pass \<Rightarrow> determine_outcome pass now origin destination)"

lemma determine_outcome_Covered:
  "determine_outcome product now origin destination = Covered \<longleftrightarrow>
    product_pays product now origin destination"
  by (auto simp: determine_outcome_def product_pays_def Let_def)

lemma determine_outcome_presented [simp]:
  "determine_outcome product now origin destination \<noteq> NotPresented"
  by (simp add: determine_outcome_def Let_def)

lemma presented_outcome_simps:
  "presented_outcome product now origin destination = NotPresented \<longleftrightarrow> product = None"
  "presented_outcome product now origin destination = Covered \<longleftrightarrow>
    (\<exists>pass. product = Some pass \<and> product_pays pass now origin destination)"
  by (auto simp: presented_outcome_def determine_outcome_Covered split: option.splits)

lemma apply_transit_product_exact:
  assumes "good_amount (p_currency p) fare"
  shows "\<exists>app. apply_transit_product p product now origin destination fare = Ok app \<and>
    pa_outcome app = presented_outcome product now origin destination \<and>
    currency (pa_discount_applied app) = p_currency p \<and>
    currency (pa_fare_after_product app) = p_currency p \<and>
    units (pa_fare_after_product app) =
      (if presented_outcome product now origin destination = Covered then 0 else units fare) \<and>
    units (pa_discount_applied app) = units fare - units (pa_fare_after_product app)"
proof (cases product)
  case None
  with assms show ?thesis
    by (simp add: apply_transit_product_def presented_outcome_def good_amount_def)
next
  case (Some pass)
  let ?o = "determine_outcome pass now origin destination"
  let ?discount = "case ?o of Covered \<Rightarrow> fare | _ \<Rightarrow> Money_zero (p_currency p)"
  have "currency fare = currency ?discount" "0 \<le> units ?discount" "units ?discount \<le> units fare"
    using assms by (auto simp: good_amount_def split: ProductApplicationOutcome.splits)
  moreover from this have "in_i64 (units fare - units ?discount)"
    using sint_i64_bounds [of "minor_units fare"] by (simp add: in_i64_def i64_min_def i64_max_def)
  ultimately show ?thesis
    using Some assms
    by (auto simp: apply_transit_product_def Let_def presented_outcome_def good_amount_def
        checked_subtract_nonneg split: ProductApplicationOutcome.splits)
qed

lemma apply_transit_product_accepts:
  "apply_transit_product p product now origin destination fare = Ok app \<Longrightarrow>
    good_amount (p_currency p) fare"
  by (auto simp: apply_transit_product_def result_simps)

interpretation product_stage: discount_stage
  "\<lambda>p (product, now, origin, destination). apply_transit_product p product now origin destination"
  pa_discount_applied pa_fare_after_product
proof
  fix p fare app and i :: "TransitProduct option \<times> EventTime \<times> ZoneId \<times> ZoneId"
  obtain product now origin destination where i: "i = (product, now, origin, destination)"
    by (cases i)
  assume "(case i of (product, now, origin, destination) \<Rightarrow>
      apply_transit_product p product now origin destination) fare = Ok app"
  then have app: "apply_transit_product p product now origin destination fare = Ok app"
    by (simp add: i)
  then show good: "good_amount (p_currency p) fare"
    by (rule apply_transit_product_accepts)
  assume "policy_ok p"
  show "good_amount (p_currency p) (pa_fare_after_product app) \<and>
      units (pa_fare_after_product app) \<le> units fare"
    and "currency (pa_discount_applied app) = p_currency p \<and>
      units (pa_discount_applied app) = units fare - units (pa_fare_after_product app)"
    using apply_transit_product_exact [OF good, of product now origin destination] app
      good_amountD(2) [OF good]
    by (auto simp: good_amount_def split: if_splits)
qed

text \<open>
  The range constructor rejects reversed ranges, but the variant itself is public and
  validation of a product does not look at its coverage: a product with a reversed range
  passes validation and covers no zone at all.
\<close>

lemma reversed_range_validates:
  assumes "coverage d = ZoneRange first_zone last_zone" "last_zone < first_zone"
    "sint (valid_from d) \<le> sint (valid_until d)"
  shows "TransitProduct_validate d = Ok (TransitProduct d) \<and> \<not> covers (coverage d) zone"
  using assms by (auto simp: TransitProduct_validate_def)

section \<open>Properties\<close>

text \<open>
  C33. A product pays for a trip exactly when the event lies in its validity interval and
  both zones are covered; only then is the fare taken to zero, in every other case it stays what
  it was, and the stage never fails on a fare of the policy.
\<close>

theorem apply_transit_product_correct:
  assumes "good_amount (p_currency p) fare"
  shows "\<exists>app. apply_transit_product p product now origin destination fare = Ok app \<and>
    (case product of
       None \<Rightarrow> pa_outcome app = NotPresented \<and> pa_fare_after_product app = fare
     | Some pass \<Rightarrow>
         (if product_pays pass now origin destination
          then pa_outcome app = Covered \<and> is_zero (pa_fare_after_product app)
          else (\<exists>reason. pa_outcome app = ProductInvalid reason) \<and>
            pa_fare_after_product app = fare))"
proof -
  from apply_transit_product_exact [OF assms, of product now origin destination] obtain app where
    app: "apply_transit_product p product now origin destination fare = Ok app"
      "pa_outcome app = presented_outcome product now origin destination"
      "currency (pa_fare_after_product app) = p_currency p"
      "units (pa_fare_after_product app) =
        (if presented_outcome product now origin destination = Covered then 0 else units fare)"
    by blast
  moreover have "determine_outcome pass now origin destination \<noteq> Covered \<Longrightarrow>
      \<exists>reason. determine_outcome pass now origin destination = ProductInvalid reason" for pass
    by (cases "determine_outcome pass now origin destination") auto
  ultimately show ?thesis
    using good_amountD(1) [OF assms]
    by (auto simp: presented_outcome_def determine_outcome_Covered is_zero_iff Money_eq_iff
        split: option.splits)
qed

theorem apply_transit_product_correct_witness:
  "\<exists>app. apply_transit_product (FarePolicy example_definition)
      (Some (TransitProduct \<lparr> product_id = 1, instance_id = 2, valid_from = 10, valid_until = 20,
         coverage = ZoneRange 1 3 \<rparr>)) 20 1 3 (from_minor_units 275 Usd) = Ok app \<and>
    pa_outcome app = Covered"
proof -
  have pre: "good_amount (p_currency (FarePolicy example_definition)) (from_minor_units 275 Usd)"
    by code_simp
  have "product_pays (TransitProduct \<lparr> product_id = 1, instance_id = 2, valid_from = 10,
      valid_until = 20, coverage = ZoneRange 1 3 \<rparr>) 20 1 3"
    by code_simp
  then show ?thesis
    using apply_transit_product_correct [OF pre, of "Some (TransitProduct \<lparr> product_id = 1,
      instance_id = 2, valid_from = 10, valid_until = 20, coverage = ZoneRange 1 3 \<rparr>)" 20 1 3]
    by auto
qed

end
