(* ===== verification/Evaluation.thy ===== *)
theory Evaluation
  imports TransitProduct "HOL-Library.Signed_Division"
begin

text \<open>
  The fare evaluation pipeline of \<open>crates/fare-engine/src/evaluation.rs\<close>: base fare and zone
  surcharge, eligibility discount, transfer, caps, product, and the decision on the stored
  value.  The percentage is computed in \<open>i128\<close> in the source; the product of an \<open>i64\<close> and a
  \<open>u16\<close> cannot leave that range, so the model computes it over the integers and
  divides with truncation toward zero, as Rust does.
\<close>

datatype FareCalculationStage =
  ZoneSurchargeStage | BaseAndZoneFareStage | EligibilityDiscountStage | DiscountedFareStage

datatype FareEvaluationError =
    BalanceCurrencyMismatch Currency Currency
  | NegativeAvailableBalance Money
  | Evaluation_Transfer TransferEvaluationError
  | Evaluation_FareCap FareCapEvaluationError
  | Evaluation_Product ProductEvaluationError
  | Evaluation_ArithmeticOverflow FareCalculationStage

record FareEvaluationInput =
  in_event_time :: EventTime
  origin_zone :: ZoneId
  destination_zone :: ZoneId
  in_eligibility :: EligibilityClassification
  transfer_history :: TransferHistory
  fare_cap_history :: FareCapHistory
  transit_product :: "TransitProduct option"
  available_balance :: Money

datatype FareEvaluationOutcome =
    Outcome_Approved Money FareApprovalReason
  | Outcome_Rejected FareRejectionReason

record FareDecisionEvidence =
  ev_base_fare :: Money
  ev_additional_zone_count :: u16
  ev_zone_surcharge :: Money
  ev_fare_before_discount :: Money
  ev_eligibility :: EligibilityClassification
  ev_discount_basis_points :: DiscountBasisPoints
  ev_eligibility_discount :: Money
  ev_fare_after_eligibility :: Money
  ev_transfer_eligible :: bool
  ev_transfer_discount :: Money
  ev_fare_after_transfer :: Money
  ev_fare_cap_discount :: Money
  ev_fare_after_caps :: Money
  ev_daily_cap_reached :: bool
  ev_weekly_cap_reached :: bool
  ev_product_outcome :: ProductApplicationOutcome
  ev_product_discount :: Money
  ev_fare_after_product :: Money
  ev_final_fare :: Money

record FareEvaluation =
  fe_policy_id :: FarePolicyId
  fe_policy_version :: FarePolicyVersion
  fe_event_time :: EventTime
  fe_outcome :: FareEvaluationOutcome
  fe_evidence :: FareDecisionEvidence

definition with_outcome :: "FareEvaluationOutcome \<Rightarrow> FareEvaluation \<Rightarrow> FareEvaluation" where
  "with_outcome outcome e = e\<lparr> fe_outcome := outcome \<rparr>"

definition u16_abs_diff :: "u16 \<Rightarrow> u16 \<Rightarrow> u16" where
  "u16_abs_diff a b = (if a < b then b - a else a - b)"

definition determine_stored_value_reason :: "Money \<Rightarrow> Money \<Rightarrow> FareApprovalReason" where
  "determine_stored_value_reason transfer_disc cap_disc =
    (if 0 < sint (minor_units cap_disc) then FareCap
     else if 0 < sint (minor_units transfer_disc) then Transfer
     else StandardFare)"

definition evaluate_stored_value ::
  "Money \<Rightarrow> Money \<Rightarrow> FareApprovalReason \<Rightarrow> FareEvaluationError + FareEvaluationOutcome" where
  "evaluate_stored_value available final_fare reason =
    and_then (map_err (\<lambda>_. BalanceCurrencyMismatch (currency final_fare) (currency available))
        (checked_cmp available final_fare)) (\<lambda>comparison.
      Ok (case comparison of
            Less \<Rightarrow> Outcome_Rejected Reject_InsufficientStoredValue
          | _ \<Rightarrow> Outcome_Approved final_fare reason))"

definition validate_balance :: "FarePolicy \<Rightarrow> Money \<Rightarrow> FareEvaluationError + unit" where
  "validate_balance p m =
    (if currency m \<noteq> p_currency p then Err (BalanceCurrencyMismatch (p_currency p) (currency m))
     else if is_negative m then Err (NegativeAvailableBalance m)
     else Ok ())"

definition calculate_zone_surcharge :: "Money \<Rightarrow> u16 \<Rightarrow> FareEvaluationError + Money" where
  "calculate_zone_surcharge per_zone count =
    and_then (ok_or (checked_mul_i64 (minor_units per_zone) (ucast count))
        (Evaluation_ArithmeticOverflow ZoneSurchargeStage))
      (\<lambda>n. Ok (from_minor_units n (currency per_zone)))"

definition calculate_percentage :: "Money \<Rightarrow> DiscountBasisPoints \<Rightarrow> FareEvaluationError + Money" where
  "calculate_percentage m rate =
    (let numerator = sint (minor_units m) * uint rate;
         discounted = numerator sdiv 10000
     in and_then (ok_or (i64_try_from discounted)
            (Evaluation_ArithmeticOverflow EligibilityDiscountStage))
          (\<lambda>n. Ok (from_minor_units n (currency m))))"

definition evaluate_fare :: "FarePolicy \<Rightarrow> FareEvaluationInput \<Rightarrow> FareEvaluationError + FareEvaluation" where
  "evaluate_fare p input =
    and_then (validate_balance p (available_balance input)) (\<lambda>_.
    let additional_zone_count = u16_abs_diff (origin_zone input) (destination_zone input) in
    and_then (calculate_zone_surcharge (p_zone_surcharge p) additional_zone_count) (\<lambda>surcharge.
    and_then (map_err (\<lambda>_. Evaluation_ArithmeticOverflow BaseAndZoneFareStage)
        (checked_add (p_base_fare p) surcharge)) (\<lambda>fare_before_discount.
    let basis_points = rate_for (p_discounts p) (in_eligibility input) in
    and_then (calculate_percentage fare_before_discount basis_points) (\<lambda>eligibility_discount.
    and_then (map_err (\<lambda>_. Evaluation_ArithmeticOverflow DiscountedFareStage)
        (checked_subtract fare_before_discount eligibility_discount)) (\<lambda>fare_after_eligibility.
    and_then (map_err Evaluation_Transfer
        (apply_transfer p (in_event_time input) (transfer_history input) fare_after_eligibility)) (\<lambda>ta.
    and_then (map_err Evaluation_FareCap
        (apply_fare_caps p (fare_cap_history input) (ta_fare_after_transfer ta))) (\<lambda>ca.
    and_then (map_err Evaluation_Product
        (apply_transit_product p (transit_product input) (in_event_time input) (origin_zone input)
          (destination_zone input) (ca_fare_after_caps ca))) (\<lambda>pa.
    let final_fare = pa_fare_after_product pa;
        reason = determine_stored_value_reason (ta_discount_applied ta) (ca_discount_applied ca) in
    and_then (case pa_outcome pa of
        Covered \<Rightarrow> Ok (Outcome_Approved (Money_zero (p_currency p)) TransitProductUse)
      | ProductInvalid _ \<Rightarrow> Ok (Outcome_Rejected Reject_ProductInvalid)
      | NotPresented \<Rightarrow> evaluate_stored_value (available_balance input) final_fare reason) (\<lambda>outcome.
    Ok \<lparr> fe_policy_id = policy_id (definition_of p),
         fe_policy_version = policy_version (definition_of p),
         fe_event_time = in_event_time input,
         fe_outcome = outcome,
         fe_evidence =
           \<lparr> ev_base_fare = p_base_fare p,
             ev_additional_zone_count = additional_zone_count,
             ev_zone_surcharge = surcharge,
             ev_fare_before_discount = fare_before_discount,
             ev_eligibility = in_eligibility input,
             ev_discount_basis_points = basis_points,
             ev_eligibility_discount = eligibility_discount,
             ev_fare_after_eligibility = fare_after_eligibility,
             ev_transfer_eligible = ta_eligible ta,
             ev_transfer_discount = ta_discount_applied ta,
             ev_fare_after_transfer = ta_fare_after_transfer ta,
             ev_fare_cap_discount = ca_discount_applied ca,
             ev_fare_after_caps = ca_fare_after_caps ca,
             ev_daily_cap_reached = ca_daily_cap_reached ca,
             ev_weekly_cap_reached = ca_weekly_cap_reached ca,
             ev_product_outcome = pa_outcome pa,
             ev_product_discount = pa_discount_applied pa,
             ev_fare_after_product = pa_fare_after_product pa,
             ev_final_fare = final_fare \<rparr> \<rparr>)))))))))"

section \<open>Lemmas\<close>

lemma uint_u16_abs_diff: "uint (u16_abs_diff a b) = \<bar>uint a - uint b\<bar>"
proof -
  have "uint (x - y) = uint x - uint y" if "y \<le> x" for x y :: u16
    using that uint_minus_simple_alt by blast
  then show ?thesis
    by (auto simp: u16_abs_diff_def word_less_def word_le_def)
qed

lemma sint_ucast_u16 [simp]: "sint (ucast (x :: 16 word) :: 64 word) = uint x"
proof -
  have "0 \<le> uint x" "uint x < 65536"
    using uint_bounded [of x] by simp_all
  then have "in_i64 (uint x)"
    unfolding in_i64_def i64_min_def i64_max_def by linarith
  then have "sint (i64_of_int (uint x)) = uint x"
    by (rule sint_i64_of_int)
  moreover have "i64_of_int (uint x) = ucast x"
    by (simp only: i64_of_int_def ucast_eq)
  ultimately show ?thesis
    by simp
qed

lemma validate_balance_eq_Ok [result_simps]:
  "validate_balance p m = Ok u \<longleftrightarrow> good_amount (p_currency p) m"
  by (auto simp: validate_balance_def good_amount_def is_negative_def)

lemma validate_balance_good [simp]:
  "good_amount (p_currency p) m \<Longrightarrow> validate_balance p m = Ok ()"
  by (simp add: validate_balance_eq_Ok)

lemma calculate_zone_surcharge_eq_Ok:
  "calculate_zone_surcharge m n = Ok s \<longleftrightarrow> in_i64 (units m * uint n) \<and>
    currency s = currency m \<and> units s = units m * uint n"
  by (auto simp: calculate_zone_surcharge_def result_simps checked_mul_i64_def i64_try_from_eq_Some
      Money_eq_iff intro: exI [of _ "i64_of_int (units m * uint n)"])

text \<open>The discount never exceeds the amount and rounds it down, for rates up to the full fare.\<close>

lemma percentage_bounds:
  fixes n r :: int
  assumes "0 \<le> n" "0 \<le> r" "r \<le> 10000"
  shows "0 \<le> n * r sdiv 10000" "n * r sdiv 10000 \<le> n" "n * r sdiv 10000 = n * r div 10000"
proof -
  have eq: "n * r sdiv 10000 = n * r div 10000"
    using mult_nonneg_nonneg [OF assms(1,2)] by (simp add: signed_divide_int_def sgn_if)
  have "n * r \<le> n * 10000"
    using assms by (intro mult_left_mono) auto
  then have "n * r div 10000 \<le> n * 10000 div 10000"
    by (intro zdiv_mono1) auto
  then show "n * r sdiv 10000 \<le> n" by (simp add: eq)
  show "0 \<le> n * r sdiv 10000"
    using assms by (simp add: eq pos_imp_zdiv_nonneg_iff)
  show "n * r sdiv 10000 = n * r div 10000" by (rule eq)
qed

lemma calculate_percentage_exact:
  assumes "0 \<le> units m" "uint rate \<le> 10000"
  shows "calculate_percentage m rate =
    Ok (from_minor_units (i64_of_int (units m * uint rate div 10000)) (currency m))"
proof -
  note b = percentage_bounds [OF assms(1) _ assms(2)]
  have "in_i64 (units m * uint rate div 10000)"
    using b sint_i64_bounds [of "minor_units m"] by (simp add: in_i64_def i64_min_def i64_max_def)
  then show ?thesis
    using b(3) by (simp add: calculate_percentage_def i64_try_from_def)
qed

subsection \<open>The fare, over the integers\<close>

definition gross_fare :: "FarePolicy \<Rightarrow> FareEvaluationInput \<Rightarrow> int" where
  "gross_fare p input = units (p_base_fare p) +
    units (p_zone_surcharge p) * \<bar>uint (origin_zone input) - uint (destination_zone input)\<bar>"

definition fare_after_eligibility :: "FarePolicy \<Rightarrow> FareEvaluationInput \<Rightarrow> int" where
  "fare_after_eligibility p input = gross_fare p input -
    gross_fare p input * uint (rate_for (p_discounts p) (in_eligibility input)) div 10000"

definition fare_after_transfer :: "FarePolicy \<Rightarrow> FareEvaluationInput \<Rightarrow> int" where
  "fare_after_transfer p input =
    (if within_window p (in_event_time input) (transfer_history input)
     then max 0 (fare_after_eligibility p input - units (p_transfer_discount p))
     else fare_after_eligibility p input)"

definition fare_due :: "FarePolicy \<Rightarrow> FareEvaluationInput \<Rightarrow> int" where
  "fare_due p input = capped_units p (fare_cap_history input) (fare_after_transfer p input)"

definition trip_outcome :: "FareEvaluationInput \<Rightarrow> ProductApplicationOutcome" where
  "trip_outcome input = presented_outcome (transit_product input) (in_event_time input)
    (origin_zone input) (destination_zone input)"

definition due_reason :: "FarePolicy \<Rightarrow> FareEvaluationInput \<Rightarrow> FareApprovalReason" where
  "due_reason p input =
    (if fare_due p input < fare_after_transfer p input then FareCap
     else if fare_after_transfer p input < fare_after_eligibility p input then Transfer
     else StandardFare)"

text \<open>What the engine decides, stated without the pipeline.\<close>

definition decided_outcome :: "FarePolicy \<Rightarrow> FareEvaluationInput \<Rightarrow> FareEvaluationOutcome" where
  "decided_outcome p input =
    (case trip_outcome input of
       Covered \<Rightarrow> Outcome_Approved (Money_zero (p_currency p)) TransitProductUse
     | ProductInvalid _ \<Rightarrow> Outcome_Rejected Reject_ProductInvalid
     | NotPresented \<Rightarrow>
         (if units (available_balance input) < fare_due p input
          then Outcome_Rejected Reject_InsufficientStoredValue
          else Outcome_Approved (from_minor_units (i64_of_int (fare_due p input)) (p_currency p))
                 (due_reason p input)))"

definition input_ok :: "FarePolicy \<Rightarrow> FareEvaluationInput \<Rightarrow> bool" where
  "input_ok p input \<longleftrightarrow>
    good_amount (p_currency p) (available_balance input) \<and>
    history_ok (in_event_time input) (transfer_history input) \<and>
    cap_history_ok p (fare_cap_history input)"

lemma gross_fare_nonneg:
  assumes "policy_ok p"
  shows "0 \<le> gross_fare p input" "units (p_zone_surcharge p) *
      \<bar>uint (origin_zone input) - uint (destination_zone input)\<bar> \<le> gross_fare p input"
    "0 \<le> units (p_zone_surcharge p) * \<bar>uint (origin_zone input) - uint (destination_zone input)\<bar>"
  using policy_okD(1,2) [OF assms] by (auto simp: gross_fare_def good_amount_def)

lemma fare_after_eligibility_bounds:
  assumes "policy_ok p" "discounts_ok (p_discounts p)"
  shows "0 \<le> fare_after_eligibility p input" "fare_after_eligibility p input \<le> gross_fare p input"
  using percentage_bounds [OF gross_fare_nonneg(1) [OF assms(1), of input] _
      rate_for_bound [OF assms(2), of "in_eligibility input"]]
  by (simp_all add: fare_after_eligibility_def)

lemma fare_after_transfer_bounds:
  assumes "policy_ok p" "discounts_ok (p_discounts p)"
  shows "0 \<le> fare_after_transfer p input" "fare_after_transfer p input \<le> fare_after_eligibility p input"
  using fare_after_eligibility_bounds [OF assms, of input] policy_okD(3) [OF assms(1)]
  by (auto simp: fare_after_transfer_def good_amount_def)

lemma fare_due_bounds:
  assumes "policy_ok p" "discounts_ok (p_discounts p)"
  shows "0 \<le> fare_due p input" "fare_due p input \<le> fare_after_transfer p input"
  using fare_after_transfer_bounds [OF assms, of input] capped_units_bounds
  by (simp_all add: fare_due_def)

lemma evaluate_stored_value_exact:
  assumes "currency available = currency fare"
  shows "evaluate_stored_value available fare reason =
    Ok (if units available < units fare then Outcome_Rejected Reject_InsufficientStoredValue
        else Outcome_Approved fare reason)"
  using assms by (simp add: evaluate_stored_value_def)

subsection \<open>The pipeline computes it\<close>

lemma amount_exists:
  assumes "in_i64 n"
  shows "\<exists>m. currency m = c \<and> units m = n"
  using assms by (intro exI [of _ "from_minor_units (i64_of_int n) c"]) simp

lemma pipeline_front:
  assumes "policy_ok p" "discounts_ok (p_discounts p)" "in_i64 (gross_fare p input)"
  shows "\<exists>s b d a.
    calculate_zone_surcharge (p_zone_surcharge p)
      (u16_abs_diff (origin_zone input) (destination_zone input)) = Ok s \<and>
    checked_add (p_base_fare p) s = Ok b \<and> units b = gross_fare p input \<and>
    calculate_percentage b (rate_for (p_discounts p) (in_eligibility input)) = Ok d \<and>
    checked_subtract b d = Ok a \<and> good_amount (p_currency p) a \<and>
    units a = fare_after_eligibility p input"
proof -
  note base = policy_okD(1) [OF assms(1)] and zone = policy_okD(2) [OF assms(1)]
  note gross = gross_fare_nonneg [OF assms(1), of input]
  note rate = rate_for_bound [OF assms(2), of "in_eligibility input"]
  have "in_i64 (units (p_zone_surcharge p) * \<bar>uint (origin_zone input) - uint (destination_zone input)\<bar>)"
    using gross assms(3) by (simp add: in_i64_def i64_min_def)
  then obtain s where s: "calculate_zone_surcharge (p_zone_surcharge p)
      (u16_abs_diff (origin_zone input) (destination_zone input)) = Ok s"
    "currency s = p_currency p"
    "units s = units (p_zone_surcharge p) * \<bar>uint (origin_zone input) - uint (destination_zone input)\<bar>"
    using amount_exists [where c = "p_currency p"] zone
    by (fastforce simp: calculate_zone_surcharge_eq_Ok uint_u16_abs_diff good_amount_def)
  obtain b where b: "checked_add (p_base_fare p) s = Ok b" "currency b = p_currency p"
    "units b = gross_fare p input"
    using amount_exists [OF assms(3), where c = "p_currency p"] s base assms(3)
    by (fastforce simp: checked_add_eq_Ok gross_fare_def good_amount_def)
  let ?d = "units b * uint (rate_for (p_discounts p) (in_eligibility input)) div 10000"
  have d_bounds: "0 \<le> ?d" "?d \<le> units b"
    using percentage_bounds [of "units b" "uint (rate_for (p_discounts p) (in_eligibility input))"]
      gross rate b by simp_all
  have in_range: "in_i64 ?d" "in_i64 (units b - ?d)"
    using d_bounds sint_i64_bounds [of "minor_units b"]
    by (simp_all add: in_i64_def i64_min_def i64_max_def)
  define d where "d = from_minor_units (i64_of_int ?d) (currency b)"
  have d: "calculate_percentage b (rate_for (p_discounts p) (in_eligibility input)) = Ok d"
    using calculate_percentage_exact [of b "rate_for (p_discounts p) (in_eligibility input)"] gross rate b
    by (simp add: d_def)
  have d_units: "units d = ?d" "currency d = p_currency p"
    using in_range b by (simp_all add: d_def)
  obtain a where a: "checked_subtract b d = Ok a" "currency a = p_currency p" "units a = units b - ?d"
    using amount_exists [OF in_range(2), where c = "p_currency p"] d_units b in_range
    by (fastforce simp: checked_subtract_eq_Ok)
  have "units a = fare_after_eligibility p input"
    using a b by (simp add: fare_after_eligibility_def)
  moreover have "good_amount (p_currency p) a"
    using a fare_after_eligibility_bounds(1) [OF assms(1,2), of input] calculation
    by (simp add: good_amount_def)
  ultimately show ?thesis
    using s b d a by blast
qed

lemma pipeline_back:
  assumes "policy_ok p" "discounts_ok (p_discounts p)" "input_ok p input"
    and a: "good_amount (p_currency p) a" "units a = fare_after_eligibility p input"
  shows "\<exists>ta ca pa.
    apply_transfer p (in_event_time input) (transfer_history input) a = Ok ta \<and>
    apply_fare_caps p (fare_cap_history input) (ta_fare_after_transfer ta) = Ok ca \<and>
    apply_transit_product p (transit_product input) (in_event_time input) (origin_zone input)
      (destination_zone input) (ca_fare_after_caps ca) = Ok pa \<and>
    units (ta_fare_after_transfer ta) = fare_after_transfer p input \<and>
    units (ta_discount_applied ta) = fare_after_eligibility p input - fare_after_transfer p input \<and>
    units (ca_fare_after_caps ca) = fare_due p input \<and>
    units (ca_discount_applied ca) = fare_after_transfer p input - fare_due p input \<and>
    pa_outcome pa = trip_outcome input \<and>
    currency (pa_fare_after_product pa) = p_currency p \<and>
    units (pa_fare_after_product pa) = (if trip_outcome input = Covered then 0 else fare_due p input) \<and>
    units (pa_discount_applied pa) = fare_due p input - units (pa_fare_after_product pa)"
proof -
  have ok: "history_ok (in_event_time input) (transfer_history input)"
    "cap_history_ok p (fare_cap_history input)"
    using assms(3) by (simp_all add: input_ok_def)
  obtain ta where ta: "apply_transfer p (in_event_time input) (transfer_history input) a = Ok ta"
    "units (ta_fare_after_transfer ta) = fare_after_transfer p input"
    "units (ta_discount_applied ta) + units (ta_fare_after_transfer ta) = units a"
    using apply_transfer_exact [OF assms(1) a(1) ok(1)] a(2)
    by (auto simp: fare_after_transfer_def)
  have ta_good: "good_amount (p_currency p) (ta_fare_after_transfer ta)"
    using transfer_stage.stage_after [OF assms(1), of "(in_event_time input, transfer_history input)" a ta]
      ta by simp
  obtain ca where ca: "apply_fare_caps p (fare_cap_history input) (ta_fare_after_transfer ta) = Ok ca"
    "units (ca_fare_after_caps ca) = fare_due p input"
    "units (ca_discount_applied ca) = fare_after_transfer p input - fare_due p input"
    using apply_fare_caps_exact [OF assms(1) ta_good ok(2)] ta by (auto simp: fare_due_def)
  have ca_good: "good_amount (p_currency p) (ca_fare_after_caps ca)"
    using cap_stage.stage_after [OF assms(1) ca(1)] by simp
  show ?thesis
    using apply_transit_product_exact [OF ca_good, of "transit_product input" "in_event_time input"
        "origin_zone input" "destination_zone input"] ta ca a(2)
    by (fastforce simp: trip_outcome_def)
qed

lemma evaluate_fare_exact:
  assumes "policy_ok p" "discounts_ok (p_discounts p)" "input_ok p input"
    "in_i64 (gross_fare p input)"
  shows "\<exists>e. evaluate_fare p input = Ok e \<and>
    fe_outcome e = decided_outcome p input \<and>
    fe_policy_id e = policy_id (definition_of p) \<and>
    fe_policy_version e = policy_version (definition_of p) \<and>
    fe_event_time e = in_event_time input \<and>
    units (ev_fare_before_discount (fe_evidence e)) = gross_fare p input \<and>
    units (ev_fare_after_eligibility (fe_evidence e)) = fare_after_eligibility p input \<and>
    units (ev_fare_after_transfer (fe_evidence e)) = fare_after_transfer p input \<and>
    units (ev_fare_after_caps (fe_evidence e)) = fare_due p input \<and>
    units (ev_final_fare (fe_evidence e)) =
      (if trip_outcome input = Covered then 0 else fare_due p input)"
proof -
  obtain s b d a where front: "calculate_zone_surcharge (p_zone_surcharge p)
      (u16_abs_diff (origin_zone input) (destination_zone input)) = Ok s"
    "checked_add (p_base_fare p) s = Ok b" "units b = gross_fare p input"
    "calculate_percentage b (rate_for (p_discounts p) (in_eligibility input)) = Ok d"
    "checked_subtract b d = Ok a" "good_amount (p_currency p) a"
    "units a = fare_after_eligibility p input"
    using pipeline_front [OF assms(1,2,4)] by blast
  obtain ta ca pa where rest:
    "apply_transfer p (in_event_time input) (transfer_history input) a = Ok ta"
    "apply_fare_caps p (fare_cap_history input) (ta_fare_after_transfer ta) = Ok ca"
    "apply_transit_product p (transit_product input) (in_event_time input) (origin_zone input)
      (destination_zone input) (ca_fare_after_caps ca) = Ok pa"
    "units (ta_fare_after_transfer ta) = fare_after_transfer p input"
    "units (ta_discount_applied ta) = fare_after_eligibility p input - fare_after_transfer p input"
    "units (ca_fare_after_caps ca) = fare_due p input"
    "units (ca_discount_applied ca) = fare_after_transfer p input - fare_due p input"
    "pa_outcome pa = trip_outcome input"
    "currency (pa_fare_after_product pa) = p_currency p"
    "units (pa_fare_after_product pa) = (if trip_outcome input = Covered then 0 else fare_due p input)"
    using pipeline_back [OF assms(1-3) front(6,7)] by blast
  have bal: "good_amount (p_currency p) (available_balance input)"
    using assms(3) by (simp add: input_ok_def)
  have reason: "determine_stored_value_reason (ta_discount_applied ta) (ca_discount_applied ca) =
      due_reason p input"
    by (simp add: determine_stored_value_reason_def due_reason_def rest)
  have due: "pa_fare_after_product pa = from_minor_units (i64_of_int (fare_due p input)) (p_currency p)"
    if "trip_outcome input = NotPresented"
    using that rest in_i64_sint [of "minor_units (ca_fare_after_caps ca)"]
    by (simp add: Money_eq_iff)
  have outcome: "(case pa_outcome pa of
        Covered \<Rightarrow> Ok (Outcome_Approved (Money_zero (p_currency p)) TransitProductUse)
      | ProductInvalid _ \<Rightarrow> Ok (Outcome_Rejected Reject_ProductInvalid)
      | NotPresented \<Rightarrow> evaluate_stored_value (available_balance input) (pa_fare_after_product pa)
          (determine_stored_value_reason (ta_discount_applied ta) (ca_discount_applied ca))) =
      Ok (decided_outcome p input)"
    using bal rest due
    by (auto simp: decided_outcome_def reason evaluate_stored_value_exact good_amount_def
        split: ProductApplicationOutcome.splits)
  show ?thesis
    using bal front rest outcome by (simp add: evaluate_fare_def Let_def)
qed

subsection \<open>Errors\<close>

lemma apply_transfer_Err:
  assumes "policy_ok p" "good_amount (p_currency p) fare" "apply_transfer p now h fare = Err e"
  shows "\<exists>t. previous_paid_fare_event_time h = Some t \<and> sint now < sint t \<and>
    e = PreviousFareOccursAfterCurrent t now"
proof (cases "transfer_is_eligible p now h")
  case (Inl e')
  with assms show ?thesis
    by (auto simp: apply_transfer_def transfer_is_eligible_def split: option.splits if_splits)
next
  case (Inr el)
  with assms show ?thesis
    using apply_transfer_succeeds by fastforce
qed

lemma apply_fare_caps_Err:
  assumes "policy_ok p" "good_amount (p_currency p) fare" "apply_fare_caps p h fare = Err e"
  shows "\<not> cap_history_ok p h \<and> e \<noteq> Cap_ArithmeticFailure"
proof
  show bad: "\<not> cap_history_ok p h"
    using apply_fare_caps_exact [OF assms(1,2), of h] assms(3) by auto
  show "e \<noteq> Cap_ArithmeticFailure"
  proof (cases "good_amount (p_currency p) (daily_charged h) \<and> good_amount (p_currency p) (weekly_charged h)")
    case True
    with bad have "units (weekly_charged h) < units (daily_charged h)"
      by (auto simp: cap_history_ok_def)
    with True assms(2,3) show ?thesis
      by (auto simp: apply_fare_caps_def)
  next
    case False
    then show ?thesis
      using assms(2,3)
      by (auto simp: apply_fare_caps_def Cap_validate_amount_def good_amount_def is_negative_def
          split: if_splits)
  qed
qed

lemma front_gross:
  assumes "policy_ok p"
    "calculate_zone_surcharge (p_zone_surcharge p)
      (u16_abs_diff (origin_zone input) (destination_zone input)) = Ok s"
    "checked_add (p_base_fare p) s = Ok b"
  shows "in_i64 (gross_fare p input)"
  using assms(2,3)
  by (simp add: calculate_zone_surcharge_eq_Ok checked_add_eq_Ok gross_fare_def uint_u16_abs_diff)

lemma front_overflow:
  assumes "policy_ok p" "\<not> in_i64 (gross_fare p input)"
    "good_amount (p_currency p) (available_balance input)"
  shows "\<exists>st \<in> {ZoneSurchargeStage, BaseAndZoneFareStage}.
    evaluate_fare p input = Err (Evaluation_ArithmeticOverflow st)"
proof (cases "calculate_zone_surcharge (p_zone_surcharge p)
      (u16_abs_diff (origin_zone input) (destination_zone input))")
  case (Inl e)
  moreover from this have "e = Evaluation_ArithmeticOverflow ZoneSurchargeStage"
    by (auto simp: calculate_zone_surcharge_def result_simps)
  ultimately show ?thesis
    using assms by (simp add: evaluate_fare_def Let_def)
next
  case (Inr s)
  with front_gross [OF assms(1) Inr] assms(2) obtain e where "checked_add (p_base_fare p) s = Err e"
    by (cases "checked_add (p_base_fare p) s") auto
  with Inr show ?thesis
    using assms by (simp add: evaluate_fare_def Let_def)
qed

lemma evaluate_fare_Ok_gross:
  assumes "policy_ok p" "evaluate_fare p input = Ok e"
  shows "in_i64 (gross_fare p input)"
proof (rule ccontr)
  assume "\<not> in_i64 (gross_fare p input)"
  moreover have "good_amount (p_currency p) (available_balance input)"
    using assms(2) by (auto simp: evaluate_fare_def result_simps)
  ultimately show False
    using front_overflow [OF assms(1), of input] assms(2) by auto
qed

lemma evaluate_fare_late_errors:
  assumes ok: "policy_ok p" and a: "good_amount (p_currency p) a"
    and bal: "good_amount (p_currency p) (available_balance input)"
    and front: "calculate_zone_surcharge (p_zone_surcharge p)
          (u16_abs_diff (origin_zone input) (destination_zone input)) = Ok s"
        "checked_add (p_base_fare p) s = Ok b"
        "calculate_percentage b (rate_for (p_discounts p) (in_eligibility input)) = Ok d"
        "checked_subtract b d = Ok a"
    and err: "evaluate_fare p input = Err e"
  shows "(\<exists>t. e = Evaluation_Transfer t \<and>
      apply_transfer p (in_event_time input) (transfer_history input) a = Err t) \<or>
    (\<exists>c m. e = Evaluation_FareCap c \<and> good_amount (p_currency p) m \<and>
      apply_fare_caps p (fare_cap_history input) m = Err c)"
proof (cases "apply_transfer p (in_event_time input) (transfer_history input) a")
  case (Inl t)
  with bal front err show ?thesis by (simp add: evaluate_fare_def Let_def)
next
  case ta: (Inr ta)
  have ta_good: "good_amount (p_currency p) (ta_fare_after_transfer ta)"
    using transfer_stage.stage_after [OF ok, of "(in_event_time input, transfer_history input)" a ta]
      ta by simp
  show ?thesis
  proof (cases "apply_fare_caps p (fare_cap_history input) (ta_fare_after_transfer ta)")
    case (Inl c)
    with bal front err ta ta_good show ?thesis by (auto simp: evaluate_fare_def Let_def)
  next
    case ca: (Inr ca)
    have "good_amount (p_currency p) (ca_fare_after_caps ca)"
      using cap_stage.stage_after [OF ok ca] by simp
    from apply_transit_product_exact [OF this, of "transit_product input" "in_event_time input"
        "origin_zone input" "destination_zone input"]
    obtain pa where pa: "apply_transit_product p (transit_product input) (in_event_time input)
        (origin_zone input) (destination_zone input) (ca_fare_after_caps ca) = Ok pa"
      "currency (pa_fare_after_product pa) = p_currency p"
      by blast
    then have "evaluate_stored_value (available_balance input) (pa_fare_after_product pa) r =
        Ok (if units (available_balance input) < units (pa_fare_after_product pa)
            then Outcome_Rejected Reject_InsufficientStoredValue
            else Outcome_Approved (pa_fare_after_product pa) r)" for r
      using bal by (intro evaluate_stored_value_exact) (simp add: good_amount_def)
    with bal front err ta ca pa show ?thesis
      by (simp add: evaluate_fare_def Let_def split: ProductApplicationOutcome.splits)
  qed
qed

lemma evaluate_fare_decides:
  assumes "policy_ok p" "discounts_ok (p_discounts p)" "input_ok p input"
    "evaluate_fare p input = Ok e"
  shows "fe_outcome e = decided_outcome p input"
  using evaluate_fare_exact [OF assms(1-3) evaluate_fare_Ok_gross [OF assms(1,4)]] assms(4) by auto

lemma in_i64_fare_due:
  assumes "policy_ok p" "discounts_ok (p_discounts p)" "in_i64 (gross_fare p input)"
  shows "in_i64 (fare_due p input)"
  using fare_due_bounds [OF assms(1,2), of input] fare_after_transfer_bounds [OF assms(1,2), of input]
    fare_after_eligibility_bounds [OF assms(1,2), of input] assms(3)
  by (simp add: in_i64_def i64_min_def)

section \<open>Properties\<close>


definition example_input :: FareEvaluationInput where
  "example_input =
    \<lparr> in_event_time = 5000000, origin_zone = 2, destination_zone = 4, in_eligibility = Youth,
      transfer_history = \<lparr> previous_paid_fare_event_time = Some 1000000 \<rparr>,
      fare_cap_history = \<lparr> daily_charged = from_minor_units 750 Usd,
        weekly_charged = from_minor_units 1000 Usd \<rparr>,
      transit_product = None, available_balance = from_minor_units 500 Usd \<rparr>"

lemma example_policy_valid: "FarePolicy_validate example_definition = Ok (FarePolicy example_definition)"
  by (rule FarePolicy_validate_eq_Ok [THEN iffD2]) code_simp

lemma example_input_ok:
  "discounts_ok (p_discounts (FarePolicy example_definition))"
  "input_ok (FarePolicy example_definition) example_input"
  "in_i64 (gross_fare (FarePolicy example_definition) example_input)"
  by code_simp+


text \<open>
  Evaluation fails only for reasons in its input: a balance in another currency or below
  zero, a previous fare after the current one, an incoherent cap history, or a gross fare that is
  not representable.  None of the arithmetic failures of the transfer, cap, discount and product
  stages is reachable with a validated policy.
\<close>

theorem evaluate_fare_errors:
  assumes "FarePolicy_validate d = Ok p" "discounts_ok (p_discounts p)"
    "evaluate_fare p input = Err e"
  shows "case e of
      BalanceCurrencyMismatch c c' \<Rightarrow>
        c = p_currency p \<and> c' = currency (available_balance input) \<and> c' \<noteq> c
    | NegativeAvailableBalance m \<Rightarrow> m = available_balance input \<and> units m < 0
    | Evaluation_Transfer t \<Rightarrow>
        (\<exists>before. previous_paid_fare_event_time (transfer_history input) = Some before \<and>
          sint (in_event_time input) < sint before \<and>
          t = PreviousFareOccursAfterCurrent before (in_event_time input))
    | Evaluation_FareCap c \<Rightarrow>
        \<not> cap_history_ok p (fare_cap_history input) \<and> c \<noteq> Cap_ArithmeticFailure
    | Evaluation_Product _ \<Rightarrow> False
    | Evaluation_ArithmeticOverflow st \<Rightarrow>
        \<not> in_i64 (gross_fare p input) \<and> st \<in> {ZoneSurchargeStage, BaseAndZoneFareStage}"
proof -
  have ok: "policy_ok p" using assms(1) by (rule validated_policy_ok)
  show ?thesis
  proof (cases "good_amount (p_currency p) (available_balance input)")
    case False
    then show ?thesis
      using assms(3) by (auto simp: evaluate_fare_def validate_balance_def good_amount_def
          is_negative_def split: if_splits)
  next
    case bal: True
    show ?thesis
    proof (cases "in_i64 (gross_fare p input)")
      case False
      then show ?thesis using front_overflow [OF ok False bal] assms(3) by auto
    next
      case True
      obtain s b d a where front: "calculate_zone_surcharge (p_zone_surcharge p)
          (u16_abs_diff (origin_zone input) (destination_zone input)) = Ok s"
        "checked_add (p_base_fare p) s = Ok b"
        "calculate_percentage b (rate_for (p_discounts p) (in_eligibility input)) = Ok d"
        "checked_subtract b d = Ok a" and a: "good_amount (p_currency p) a"
        using pipeline_front [OF ok assms(2) True] by blast
      from evaluate_fare_late_errors [OF ok a bal front assms(3)] show ?thesis
        using apply_transfer_Err [OF ok a] apply_fare_caps_Err [OF ok] by fastforce
    qed
  qed
qed

theorem evaluate_fare_errors_witness:
  "\<exists>e. evaluate_fare (FarePolicy example_definition)
      (example_input\<lparr> in_event_time := 999999 \<rparr>) = Err (Evaluation_Transfer e) \<and>
    e = PreviousFareOccursAfterCurrent 1000000 999999"
proof -
  have "case evaluate_fare (FarePolicy example_definition) (example_input\<lparr> in_event_time := 999999 \<rparr>) of
      Err (Evaluation_Transfer e) \<Rightarrow> True | _ \<Rightarrow> False"
    by code_simp
  then obtain e where e: "evaluate_fare (FarePolicy example_definition)
      (example_input\<lparr> in_event_time := 999999 \<rparr>) = Err (Evaluation_Transfer e)"
    by (auto split: sum.splits FareEvaluationError.splits)
  have "previous_paid_fare_event_time (transfer_history (example_input\<lparr> in_event_time := 999999 \<rparr>)) = Some 1000000"
    "in_event_time (example_input\<lparr> in_event_time := 999999 \<rparr>) = 999999"
    by code_simp+
  then show ?thesis
    using evaluate_fare_errors [OF example_policy_valid example_input_ok(1) e] e by simp
qed

text \<open>
  C3. An approval is safe: the charged amount is a non-negative amount of the policy's
  currency, the available balance covers it, it does not exceed the gross fare, charging it takes
  the rider past neither cap, and the ride is free exactly on a paying product or when nothing is
  due.
\<close>

theorem evaluate_fare_approval_safe:
  assumes "FarePolicy_validate d = Ok p" "discounts_ok (p_discounts p)" "input_ok p input"
    "evaluate_fare p input = Ok e" "fe_outcome e = Outcome_Approved m reason"
  shows "good_amount (p_currency p) m \<and> units m \<le> units (available_balance input) \<and>
    units m \<le> gross_fare p input \<and>
    units (daily_charged (fare_cap_history input)) + units m
      \<le> max (units (p_daily_cap p)) (units (daily_charged (fare_cap_history input))) \<and>
    units (weekly_charged (fare_cap_history input)) + units m
      \<le> max (units (p_weekly_cap p)) (units (weekly_charged (fare_cap_history input))) \<and>
    (reason = TransitProductUse \<longleftrightarrow> (\<exists>pass. transit_product input = Some pass \<and>
       product_pays pass (in_event_time input) (origin_zone input) (destination_zone input))) \<and>
    (is_zero m \<longleftrightarrow> reason = TransitProductUse \<or> fare_due p input = 0)"
proof -
  have ok: "policy_ok p" using assms(1) by (rule validated_policy_ok)
  have gross: "in_i64 (gross_fare p input)"
    using ok assms(4) by (rule evaluate_fare_Ok_gross)
  have due: "in_i64 (fare_due p input)"
    using in_i64_fare_due [OF ok assms(2) gross] .
  have dec: "decided_outcome p input = Outcome_Approved m reason"
    using evaluate_fare_decides [OF ok assms(2,3,4)] assms(5) by simp
  have bal: "good_amount (p_currency p) (available_balance input)"
    using assms(3) by (simp add: input_ok_def)
  note bounds = fare_due_bounds [OF ok assms(2), of input] fare_after_transfer_bounds [OF ok assms(2), of input]
    fare_after_eligibility_bounds [OF ok assms(2), of input]
  note room = capped_units_room [of "fare_cap_history input" p "fare_after_transfer p input",
      folded fare_due_def]
  show ?thesis
  proof (cases "trip_outcome input")
    case NotPresented
    then have "m = from_minor_units (i64_of_int (fare_due p input)) (p_currency p)"
      "reason = due_reason p input" "fare_due p input \<le> units (available_balance input)"
      using dec by (auto simp: decided_outcome_def split: if_splits)
    moreover have "due_reason p input \<noteq> TransitProductUse"
      by (simp add: due_reason_def)
    moreover have "transit_product input = None"
      using NotPresented by (simp add: trip_outcome_def presented_outcome_simps)
    ultimately show ?thesis
      using due bounds room by (simp add: good_amount_def is_zero_iff)
  next
    case Covered
    then have "m = Money_zero (p_currency p)" "reason = TransitProductUse"
      using dec by (auto simp: decided_outcome_def)
    moreover have "\<exists>pass. transit_product input = Some pass \<and>
        product_pays pass (in_event_time input) (origin_zone input) (destination_zone input)"
      using Covered by (simp add: trip_outcome_def presented_outcome_simps)
    ultimately show ?thesis
      using bounds bal by (simp add: good_amount_def is_zero_iff)
  next
    case (ProductInvalid r)
    then show ?thesis using dec by (simp add: decided_outcome_def)
  qed
qed

theorem evaluate_fare_approval_safe_witness:
  "\<exists>e m. evaluate_fare (FarePolicy example_definition) example_input = Ok e \<and>
    fe_outcome e = Outcome_Approved m FareCap \<and> units m \<le> 500"
proof -
  have "case evaluate_fare (FarePolicy example_definition) example_input of
      Ok e \<Rightarrow> fe_outcome e = Outcome_Approved (from_minor_units 50 Usd) FareCap | Err _ \<Rightarrow> False"
    by code_simp
  then obtain e where e: "evaluate_fare (FarePolicy example_definition) example_input = Ok e"
    "fe_outcome e = Outcome_Approved (from_minor_units 50 Usd) FareCap"
    by (auto split: sum.splits)
  from evaluate_fare_approval_safe [OF example_policy_valid example_input_ok(1,2) e]
  have "units (from_minor_units 50 Usd) \<le> units (available_balance example_input)" by blast
  moreover have "units (available_balance example_input) = 500" by code_simp
  ultimately show ?thesis using e by auto
qed

end
