(* ===== verification/OfflineEvaluation.thy ===== *)
theory OfflineEvaluation
  imports Evaluation
begin

text \<open>
  Offline evaluation of \<open>crates/fare-engine/src/offline.rs\<close>: the online pipeline restricted by
  the age of the reader's cached snapshots and by a provisional charge limit.
\<close>

datatype OfflineSnapshotKind = FarePolicySnapshot | RevocationDataSnapshot

record OfflineEvaluationContext =
  policy_cached_at :: EventTime
  maximum_policy_age_milliseconds :: u64
  revocation_data_cached_at :: EventTime
  maximum_revocation_age_milliseconds :: u64
  context_charge_limit :: Money

datatype OfflineEvaluationError =
    Offline_FareEvaluation FareEvaluationError
  | ProvisionalLimitCurrencyMismatch Currency Currency
  | NegativeProvisionalLimit Money
  | SnapshotOccursAfterEvent OfflineSnapshotKind i64 i64

record OfflineFareEvaluation =
  oe_evaluation :: FareEvaluation
  oe_policy_age_milliseconds :: u64
  oe_revocation_data_age_milliseconds :: u64
  oe_provisional_charge_limit :: Money

definition validate_provisional_limit :: "FarePolicy \<Rightarrow> Money \<Rightarrow> OfflineEvaluationError + unit" where
  "validate_provisional_limit p limit =
    (if currency limit \<noteq> p_currency p
     then Err (ProvisionalLimitCurrencyMismatch (p_currency p) (currency limit))
     else if is_negative limit then Err (NegativeProvisionalLimit limit)
     else Ok ())"

definition snapshot_age ::
  "OfflineSnapshotKind \<Rightarrow> EventTime \<Rightarrow> EventTime \<Rightarrow> OfflineEvaluationError + u64" where
  "snapshot_age kind cached_at now =
    (if sint now < sint cached_at then Err (SnapshotOccursAfterEvent kind cached_at now)
     else Ok (unsigned_abs (now - cached_at)))"

definition apply_offline_limit ::
  "FareEvaluation \<Rightarrow> Money \<Rightarrow> OfflineEvaluationError + FareEvaluation" where
  "apply_offline_limit e limit =
    and_then (case fe_outcome e of
        Outcome_Rejected reason \<Rightarrow> Ok (Outcome_Rejected reason)
      | Outcome_Approved charged _ \<Rightarrow>
          and_then (map_err (\<lambda>_. ProvisionalLimitCurrencyMismatch (currency limit) (currency charged))
              (checked_cmp charged limit)) (\<lambda>comparison.
            if comparison = Greater then Ok (Outcome_Rejected Reject_OfflineLimitExceeded)
            else Ok (Outcome_Approved charged OfflineProvisional)))
      (\<lambda>outcome. Ok (with_outcome outcome e))"

definition evaluate_fare_offline ::
  "FarePolicy \<Rightarrow> FareEvaluationInput \<Rightarrow> OfflineEvaluationContext
    \<Rightarrow> OfflineEvaluationError + OfflineFareEvaluation" where
  "evaluate_fare_offline p input ctx =
    and_then (validate_provisional_limit p (context_charge_limit ctx)) (\<lambda>_.
    and_then (snapshot_age FarePolicySnapshot (policy_cached_at ctx) (in_event_time input)) (\<lambda>policy_age.
    and_then (snapshot_age RevocationDataSnapshot (revocation_data_cached_at ctx) (in_event_time input))
      (\<lambda>revocation_age.
    and_then (map_err Offline_FareEvaluation (evaluate_fare p input)) (\<lambda>online.
    and_then
      (if maximum_policy_age_milliseconds ctx < policy_age
       then Ok (with_outcome (Outcome_Rejected Reject_StalePolicy) online)
       else if maximum_revocation_age_milliseconds ctx < revocation_age
       then Ok (with_outcome (Outcome_Rejected Reject_StaleRevocationData) online)
       else apply_offline_limit online (context_charge_limit ctx)) (\<lambda>evaluation.
    Ok \<lparr> oe_evaluation = evaluation, oe_policy_age_milliseconds = policy_age,
         oe_revocation_data_age_milliseconds = revocation_age,
         oe_provisional_charge_limit = context_charge_limit ctx \<rparr>)))))"

section \<open>Lemmas\<close>

definition context_ok :: "FarePolicy \<Rightarrow> EventTime \<Rightarrow> OfflineEvaluationContext \<Rightarrow> bool" where
  "context_ok p now ctx \<longleftrightarrow> good_amount (p_currency p) (context_charge_limit ctx) \<and>
    0 \<le> sint (policy_cached_at ctx) \<and> sint (policy_cached_at ctx) \<le> sint now \<and>
    0 \<le> sint (revocation_data_cached_at ctx) \<and> sint (revocation_data_cached_at ctx) \<le> sint now"

definition policy_stale :: "EventTime \<Rightarrow> OfflineEvaluationContext \<Rightarrow> bool" where
  "policy_stale now ctx \<longleftrightarrow>
    uint (maximum_policy_age_milliseconds ctx) < sint now - sint (policy_cached_at ctx)"

definition revocation_stale :: "EventTime \<Rightarrow> OfflineEvaluationContext \<Rightarrow> bool" where
  "revocation_stale now ctx \<longleftrightarrow>
    uint (maximum_revocation_age_milliseconds ctx) < sint now - sint (revocation_data_cached_at ctx)"

text \<open>What the offline engine makes of an online outcome.\<close>

definition offline_outcome ::
  "EventTime \<Rightarrow> OfflineEvaluationContext \<Rightarrow> FareEvaluationOutcome \<Rightarrow> FareEvaluationOutcome" where
  "offline_outcome now ctx online =
    (if policy_stale now ctx then Outcome_Rejected Reject_StalePolicy
     else if revocation_stale now ctx then Outcome_Rejected Reject_StaleRevocationData
     else case online of
       Outcome_Rejected reason \<Rightarrow> Outcome_Rejected reason
     | Outcome_Approved charged _ \<Rightarrow>
         (if units (context_charge_limit ctx) < units charged
          then Outcome_Rejected Reject_OfflineLimitExceeded
          else Outcome_Approved charged OfflineProvisional))"

lemma snapshot_age_exact:
  assumes "0 \<le> sint cached_at" "sint cached_at \<le> sint now"
  shows "\<exists>age. snapshot_age kind cached_at now = Ok age \<and> uint age = sint now - sint cached_at"
  using assms by (auto simp: snapshot_age_def elapsed_exact)

lemma with_outcome_simps [simp]:
  "fe_outcome (with_outcome o' e) = o'" "fe_evidence (with_outcome o' e) = fe_evidence e"
  "fe_event_time (with_outcome o' e) = fe_event_time e"
  "fe_policy_id (with_outcome o' e) = fe_policy_id e"
  "fe_policy_version (with_outcome o' e) = fe_policy_version e"
  by (simp_all add: with_outcome_def)

lemma apply_offline_limit_exact:
  assumes "\<And>m r. fe_outcome e = Outcome_Approved m r \<Longrightarrow> currency m = currency limit"
  shows "apply_offline_limit e limit = Ok (with_outcome
    (case fe_outcome e of
       Outcome_Rejected reason \<Rightarrow> Outcome_Rejected reason
     | Outcome_Approved charged _ \<Rightarrow>
         (if units limit < units charged then Outcome_Rejected Reject_OfflineLimitExceeded
          else Outcome_Approved charged OfflineProvisional)) e)"
proof (cases "fe_outcome e")
  case (Outcome_Approved m r)
  with assms have "currency m = currency limit" by blast
  with Outcome_Approved show ?thesis
    by (auto simp: apply_offline_limit_def)
qed (simp add: apply_offline_limit_def)

lemma evaluate_stored_value_approves:
  assumes "evaluate_stored_value available fare r = Ok (Outcome_Approved m r')"
  shows "m = fare"
proof (cases "checked_cmp available fare")
  case (Inr comparison)
  with assms show ?thesis
    by (cases comparison) (simp_all add: evaluate_stored_value_def)
qed (use assms in \<open>simp add: evaluate_stored_value_def\<close>)

lemma online_approval_currency:
  assumes "policy_ok p" "evaluate_fare p input = Ok e" "fe_outcome e = Outcome_Approved m r"
  shows "currency m = p_currency p"
proof -
  obtain fare ta ca pa where
    ca: "apply_fare_caps p (fare_cap_history input) fare = Ok ca" and
    pa: "apply_transit_product p (transit_product input) (in_event_time input) (origin_zone input)
      (destination_zone input) (ca_fare_after_caps ca) = Ok pa" and
    out: "(case pa_outcome pa of
        Covered \<Rightarrow> Ok (Outcome_Approved (Money_zero (p_currency p)) TransitProductUse)
      | ProductInvalid _ \<Rightarrow> Ok (Outcome_Rejected Reject_ProductInvalid)
      | NotPresented \<Rightarrow> evaluate_stored_value (available_balance input) (pa_fare_after_product pa)
          (determine_stored_value_reason ta (ca_discount_applied ca))) = Ok (fe_outcome e)"
    using assms(2) by (auto simp: evaluate_fare_def Let_def result_simps)
  have "currency (pa_fare_after_product pa) = p_currency p"
    using product_stage.stage_after [OF assms(1), of "(transit_product input, in_event_time input,
        origin_zone input, destination_zone input)" "ca_fare_after_caps ca" pa] pa
    by (simp add: good_amount_def)
  with out assms(3) show ?thesis
    by (auto dest: evaluate_stored_value_approves split: ProductApplicationOutcome.splits)
qed

lemma evaluate_fare_offline_exact:
  assumes "policy_ok p" "context_ok p (in_event_time input) ctx" "evaluate_fare p input = Ok e"
  shows "\<exists>oe. evaluate_fare_offline p input ctx = Ok oe \<and>
    oe_evaluation oe = with_outcome (offline_outcome (in_event_time input) ctx (fe_outcome e)) e \<and>
    uint (oe_policy_age_milliseconds oe) = sint (in_event_time input) - sint (policy_cached_at ctx) \<and>
    uint (oe_revocation_data_age_milliseconds oe) =
      sint (in_event_time input) - sint (revocation_data_cached_at ctx)"
proof -
  let ?now = "in_event_time input"
  have ctx: "good_amount (p_currency p) (context_charge_limit ctx)"
    "0 \<le> sint (policy_cached_at ctx)" "sint (policy_cached_at ctx) \<le> sint ?now"
    "0 \<le> sint (revocation_data_cached_at ctx)" "sint (revocation_data_cached_at ctx) \<le> sint ?now"
    using assms(2) by (simp_all add: context_ok_def)
  obtain age1 where age1: "snapshot_age FarePolicySnapshot (policy_cached_at ctx) ?now = Ok age1"
    "uint age1 = sint ?now - sint (policy_cached_at ctx)"
    using snapshot_age_exact ctx(2,3) by blast
  obtain age2 where age2: "snapshot_age RevocationDataSnapshot (revocation_data_cached_at ctx) ?now = Ok age2"
    "uint age2 = sint ?now - sint (revocation_data_cached_at ctx)"
    using snapshot_age_exact ctx(4,5) by blast
  have limit: "validate_provisional_limit p (context_charge_limit ctx) = Ok ()"
    using ctx(1) by (simp add: validate_provisional_limit_def good_amount_def is_negative_def)
  have lim: "apply_offline_limit e (context_charge_limit ctx) = Ok (with_outcome
    (case fe_outcome e of
       Outcome_Rejected reason \<Rightarrow> Outcome_Rejected reason
     | Outcome_Approved charged _ \<Rightarrow>
         (if units (context_charge_limit ctx) < units charged
          then Outcome_Rejected Reject_OfflineLimitExceeded
          else Outcome_Approved charged OfflineProvisional)) e)"
    using online_approval_currency [OF assms(1,3)] ctx(1)
    by (intro apply_offline_limit_exact) (simp add: good_amount_def)
  show ?thesis
    using limit age1 age2 assms(3) lim
    by (simp add: evaluate_fare_offline_def offline_outcome_def policy_stale_def revocation_stale_def
        word_less_def)
qed

section \<open>Properties\<close>


definition example_context :: OfflineEvaluationContext where
  "example_context =
    \<lparr> policy_cached_at = 4000000, maximum_policy_age_milliseconds = 2000000,
      revocation_data_cached_at = 4500000, maximum_revocation_age_milliseconds = 600000,
      context_charge_limit = from_minor_units 40 Usd \<rparr>"

lemma example_context_ok:
  "policy_ok (FarePolicy example_definition)"
  "context_ok (FarePolicy example_definition) (in_event_time example_input) example_context"
  by code_simp+


text \<open>
  C23. No offline approval without fresh data and within the limit: an offline approval is
  always provisional, its charge is covered by the balance and by the provisional limit, both
  snapshots are no older than allowed, and the online engine approves the same charge.
\<close>

theorem offline_approval_bounded:
  assumes "FarePolicy_validate d = Ok p" "discounts_ok (p_discounts p)" "input_ok p input"
    "context_ok p (in_event_time input) ctx"
    "evaluate_fare_offline p input ctx = Ok oe"
    "fe_outcome (oe_evaluation oe) = Outcome_Approved m reason"
  shows "reason = OfflineProvisional \<and> units m \<le> units (context_charge_limit ctx) \<and>
    units m \<le> units (available_balance input) \<and>
    \<not> policy_stale (in_event_time input) ctx \<and> \<not> revocation_stale (in_event_time input) ctx \<and>
    (\<exists>e r. evaluate_fare p input = Ok e \<and> fe_outcome e = Outcome_Approved m r)"
proof -
  have ok: "policy_ok p" using assms(1) by (rule validated_policy_ok)
  obtain e where e: "evaluate_fare p input = Ok e"
    using assms(5) by (auto simp: evaluate_fare_offline_def result_simps)
  have "oe_evaluation oe = with_outcome (offline_outcome (in_event_time input) ctx (fe_outcome e)) e"
    using evaluate_fare_offline_exact [OF ok assms(4) e] assms(5) by auto
  then have out: "offline_outcome (in_event_time input) ctx (fe_outcome e) = Outcome_Approved m reason"
    using assms(6) by simp
  then obtain r where r: "fe_outcome e = Outcome_Approved m r" "reason = OfflineProvisional"
    "units m \<le> units (context_charge_limit ctx)"
    "\<not> policy_stale (in_event_time input) ctx" "\<not> revocation_stale (in_event_time input) ctx"
    by (auto simp: offline_outcome_def split: if_splits FareEvaluationOutcome.splits)
  have "decided_outcome p input = Outcome_Approved m r"
    using evaluate_fare_decides [OF ok assms(2,3) e] r by simp
  then have "units m \<le> units (available_balance input)"
    using in_i64_fare_due [OF ok assms(2) evaluate_fare_Ok_gross [OF ok e]] assms(3)
    by (auto simp: decided_outcome_def input_ok_def good_amount_def
        split: ProductApplicationOutcome.splits if_splits)
  then show ?thesis using r e by auto
qed

theorem offline_approval_bounded_witness:
  "\<exists>oe m. evaluate_fare_offline (FarePolicy example_definition) example_input
      (example_context\<lparr> context_charge_limit := from_minor_units 50 Usd \<rparr>) = Ok oe \<and>
    fe_outcome (oe_evaluation oe) = Outcome_Approved m OfflineProvisional \<and> units m \<le> 50"
proof -
  let ?ctx = "example_context\<lparr> context_charge_limit := from_minor_units 50 Usd \<rparr>"
  have "case evaluate_fare_offline (FarePolicy example_definition) example_input ?ctx of
      Ok oe \<Rightarrow> (case fe_outcome (oe_evaluation oe) of Outcome_Approved _ _ \<Rightarrow> True | _ \<Rightarrow> False)
    | Err _ \<Rightarrow> False"
    by code_simp
  then obtain oe m r where oe: "evaluate_fare_offline (FarePolicy example_definition) example_input ?ctx = Ok oe"
    "fe_outcome (oe_evaluation oe) = Outcome_Approved m r"
    by (auto split: sum.splits FareEvaluationOutcome.splits)
  have ctx: "context_ok (FarePolicy example_definition) (in_event_time example_input) ?ctx"
    by code_simp
  have "r = OfflineProvisional" "units m \<le> units (context_charge_limit ?ctx)"
    using offline_approval_bounded [OF example_policy_valid example_input_ok(1,2) ctx oe] by blast+
  moreover have "units (context_charge_limit ?ctx) = 50" by code_simp
  ultimately show ?thesis using oe by auto
qed

end
