(* ===== verification/Protocol.thy ===== *)
theory Protocol
  imports Text Identifier
begin

text \<open>
  The reader synchronization messages of \<open>crates/device-protocol/src/synchronization.rs\<close> and
  \<open>version.rs\<close>: validated texts, canonical envelopes, batch requests and acknowledgements and
  the matching of an acknowledgement with its request.  JSON parsing and printing
  (\<open>serde_json\<close>) is the parameter \<open>JsonApi\<close>.
\<close>

type_synonym DeviceProtocolVersion = u16
type_synonym LocalSequence = u64

datatype DeviceProtocolVersionError = ZeroVersion

definition DeviceProtocolVersion_CURRENT :: DeviceProtocolVersion where
  "DeviceProtocolVersion_CURRENT = 1"

definition DeviceProtocolVersion_new :: "u16 \<Rightarrow> DeviceProtocolVersionError + DeviceProtocolVersion" where
  "DeviceProtocolVersion_new v = (if v = 0 then Err ZeroVersion else Ok v)"

definition MAX_SYNCHRONIZATION_BATCH_ENTRIES :: nat where
  "MAX_SYNCHRONIZATION_BATCH_ENTRIES = 256"

definition MAX_TRANSACTION_ENVELOPE_BYTES :: nat where
  "MAX_TRANSACTION_ENVELOPE_BYTES = 64 * 1024"

definition MAX_ENVIRONMENT_ID_BYTES :: nat where
  "MAX_ENVIRONMENT_ID_BYTES = 128"

definition MAX_SOFTWARE_VERSION_BYTES :: nat where
  "MAX_SOFTWARE_VERSION_BYTES = 128"

datatype SynchronizationFailureCategory =
    NetworkTimeout
  | ConnectionFailure
  | ResponseDecodeFailure
  | PayloadTooLarge
  | UnsupportedProtocol
  | ReaderNotRegistered
  | ReaderNotOperational
  | EnvironmentMismatch
  | BatchIdentityConflict
  | BatchRangeMismatch
  | EntryOrderMismatch
  | TransactionIdentityConflict
  | BackendTemporarilyUnavailable
  | BackendValidationFailure
  | ManualReviewRequired

fun SynchronizationFailureCategory_as_str :: "SynchronizationFailureCategory \<Rightarrow> string" where
  "SynchronizationFailureCategory_as_str NetworkTimeout = ''network_timeout''"
| "SynchronizationFailureCategory_as_str ConnectionFailure = ''connection_failure''"
| "SynchronizationFailureCategory_as_str ResponseDecodeFailure = ''response_decode_failure''"
| "SynchronizationFailureCategory_as_str PayloadTooLarge = ''payload_too_large''"
| "SynchronizationFailureCategory_as_str UnsupportedProtocol = ''unsupported_protocol''"
| "SynchronizationFailureCategory_as_str ReaderNotRegistered = ''reader_not_registered''"
| "SynchronizationFailureCategory_as_str ReaderNotOperational = ''reader_not_operational''"
| "SynchronizationFailureCategory_as_str EnvironmentMismatch = ''environment_mismatch''"
| "SynchronizationFailureCategory_as_str BatchIdentityConflict = ''batch_identity_conflict''"
| "SynchronizationFailureCategory_as_str BatchRangeMismatch = ''batch_range_mismatch''"
| "SynchronizationFailureCategory_as_str EntryOrderMismatch = ''entry_order_mismatch''"
| "SynchronizationFailureCategory_as_str TransactionIdentityConflict = ''transaction_identity_conflict''"
| "SynchronizationFailureCategory_as_str BackendTemporarilyUnavailable = ''backend_temporarily_unavailable''"
| "SynchronizationFailureCategory_as_str BackendValidationFailure = ''backend_validation_failure''"
| "SynchronizationFailureCategory_as_str ManualReviewRequired = ''manual_review_required''"

datatype SynchronizationEntryOutcome =
  Acknowledged | RetryableFailure | PermanentFailure | ManualReview

datatype SynchronizationProtocolError =
    EmptyText string
  | TextTooLong string nat nat
  | ControlCharacter string
  | InvalidTransactionEnvelopeJson
  | TransactionEnvelopeNotObject
  | TransactionEnvelopeTooLarge nat nat
  | NegativeTimestamp string i64
  | EmptyBatch
  | TooManyEntries nat nat
  | InvalidSequenceRange u64 u64
  | FirstSequenceMismatch u64 u64
  | LastSequenceMismatch u64 u64
  | EntrySequenceNotIncreasing u64 u64
  | DuplicateTransaction FareTransactionId
  | InvalidOutcomeMetadata SynchronizationEntryOutcome
  | AcknowledgementIdentityMismatch string
  | AcknowledgementEntryCountMismatch nat nat
  | AcknowledgementTransactionMismatch nat
  | AcknowledgementSequenceMismatch nat u64 u64

definition validate_text :: "string \<Rightarrow> ustr \<Rightarrow> nat \<Rightarrow> SynchronizationProtocolError + ustr" where
  "validate_text field v max_bytes =
    (let normalized = trim v in
     if normalized = [] then Err (EmptyText field)
     else if max_bytes < text_len normalized
     then Err (TextTooLong field max_bytes (text_len normalized))
     else if list_ex is_control normalized then Err (ControlCharacter field)
     else Ok normalized)"

type_synonym ProtocolEnvironmentId = ustr
type_synonym ReaderSoftwareVersion = ustr
type_synonym CanonicalTransactionEnvelope = ustr

definition ProtocolEnvironmentId_new :: "ustr \<Rightarrow> SynchronizationProtocolError + ProtocolEnvironmentId" where
  "ProtocolEnvironmentId_new v = validate_text ''environment_id'' v MAX_ENVIRONMENT_ID_BYTES"

definition ReaderSoftwareVersion_new :: "ustr \<Rightarrow> SynchronizationProtocolError + ReaderSoftwareVersion" where
  "ReaderSoftwareVersion_new v =
    validate_text ''reader_software_version'' v MAX_SOFTWARE_VERSION_BYTES"

record 'j JsonApi =
  json_parse :: "ustr \<Rightarrow> 'j option"
  json_is_object :: "'j \<Rightarrow> bool"
  json_to_string :: "'j \<Rightarrow> ustr option"

definition CanonicalTransactionEnvelope_from_json ::
  "'j JsonApi \<Rightarrow> ustr \<Rightarrow> SynchronizationProtocolError + CanonicalTransactionEnvelope" where
  "CanonicalTransactionEnvelope_from_json api v =
    (if MAX_TRANSACTION_ENVELOPE_BYTES < text_len v
     then Err (TransactionEnvelopeTooLarge MAX_TRANSACTION_ENVELOPE_BYTES (text_len v))
     else and_then (ok_or (json_parse api v) InvalidTransactionEnvelopeJson) (\<lambda>parsed.
       if \<not> json_is_object api parsed then Err TransactionEnvelopeNotObject
       else and_then (ok_or (json_to_string api parsed) InvalidTransactionEnvelopeJson) (\<lambda>canonical.
         if MAX_TRANSACTION_ENVELOPE_BYTES < text_len canonical
         then Err (TransactionEnvelopeTooLarge MAX_TRANSACTION_ENVELOPE_BYTES (text_len canonical))
         else Ok canonical)))"

definition validate_timestamp :: "string \<Rightarrow> i64 \<Rightarrow> SynchronizationProtocolError + unit" where
  "validate_timestamp field t = (if sint t < 0 then Err (NegativeTimestamp field t) else Ok ())"

definition validate_entry_count :: "nat \<Rightarrow> SynchronizationProtocolError + unit" where
  "validate_entry_count n =
    (if n = 0 then Err EmptyBatch
     else if MAX_SYNCHRONIZATION_BATCH_ENTRIES < n
     then Err (TooManyEntries MAX_SYNCHRONIZATION_BATCH_ENTRIES n)
     else Ok ())"

definition validate_range :: "u64 \<Rightarrow> u64 \<Rightarrow> SynchronizationProtocolError + unit" where
  "validate_range first_seq last_seq =
    (if last_seq < first_seq then Err (InvalidSequenceRange first_seq last_seq) else Ok ())"

definition validate_boundary_sequences ::
  "u64 \<Rightarrow> u64 \<Rightarrow> u64 \<Rightarrow> u64 \<Rightarrow> SynchronizationProtocolError + unit" where
  "validate_boundary_sequences declared_first declared_last actual_first actual_last =
    (if declared_first \<noteq> actual_first
     then Err (FirstSequenceMismatch declared_first actual_first)
     else if declared_last \<noteq> actual_last
     then Err (LastSequenceMismatch declared_last actual_last)
     else Ok ())"

text \<open>The loop that inserts every transaction identity into a set, from the set built so far.\<close>

fun insert_identities ::
  "FareTransactionId list \<Rightarrow> FareTransactionId list \<Rightarrow> SynchronizationProtocolError + unit" where
  "insert_identities seen [] = Ok ()"
| "insert_identities seen (i # is) =
    (if i \<in> set seen then Err (DuplicateTransaction i) else insert_identities (i # seen) is)"

fun increasing_from :: "u64 option \<Rightarrow> u64 list \<Rightarrow> SynchronizationProtocolError + unit" where
  "increasing_from before [] = Ok ()"
| "increasing_from None (s # ss) = increasing_from (Some s) ss"
| "increasing_from (Some p) (s # ss) =
    (if s \<le> p then Err (EntrySequenceNotIncreasing p s) else increasing_from (Some s) ss)"

definition validate_increasing_sequences :: "u64 list \<Rightarrow> SynchronizationProtocolError + unit" where
  "validate_increasing_sequences ss = increasing_from None ss"

definition validate_outcome_metadata ::
  "SynchronizationEntryOutcome \<Rightarrow> SynchronizationFailureCategory option \<Rightarrow> i64 option
    \<Rightarrow> SynchronizationProtocolError + unit" where
  "validate_outcome_metadata outcome category retry_at =
    and_then (case retry_at of None \<Rightarrow> Ok ()
       | Some t \<Rightarrow> validate_timestamp ''next_retry_at_unix_milliseconds'' t) (\<lambda>_.
     let valid = (case outcome of
           Acknowledged \<Rightarrow> category = None \<and> retry_at = None
         | RetryableFailure \<Rightarrow> category \<noteq> None \<and> retry_at \<noteq> None
         | _ \<Rightarrow> category \<noteq> None \<and> retry_at = None)
     in if \<not> valid then Err (InvalidOutcomeMetadata outcome) else Ok ())"

record SynchronizationRequestEntry =
  re_transaction_id :: FareTransactionId
  re_local_sequence_number :: LocalSequence
  re_transaction_envelope :: CanonicalTransactionEnvelope

record SynchronizationBatchRequest =
  rq_protocol_version :: DeviceProtocolVersion
  rq_environment_id :: ProtocolEnvironmentId
  rq_reader_id :: ReaderId
  rq_reader_software_version :: ReaderSoftwareVersion
  rq_batch_id :: SynchronizationBatchId
  rq_first_local_sequence_number :: LocalSequence
  rq_last_local_sequence_number :: LocalSequence
  rq_submitted_at_unix_milliseconds :: i64
  rq_entries :: "SynchronizationRequestEntry list"

definition validate_request_entries ::
  "u64 \<Rightarrow> u64 \<Rightarrow> SynchronizationRequestEntry list \<Rightarrow> SynchronizationProtocolError + unit" where
  "validate_request_entries first_seq last_seq entries =
    and_then (validate_entry_count (length entries)) (\<lambda>_.
    and_then (validate_range first_seq last_seq) (\<lambda>_.
    case entries of [] \<Rightarrow> Err EmptyBatch
    | first_entry # _ \<Rightarrow>
      and_then (validate_boundary_sequences first_seq last_seq
          (re_local_sequence_number first_entry) (re_local_sequence_number (last entries))) (\<lambda>_.
      and_then (insert_identities [] (map re_transaction_id entries)) (\<lambda>_.
      validate_increasing_sequences (map re_local_sequence_number entries)))))"

definition SynchronizationBatchRequest_new ::
  "SynchronizationBatchRequest \<Rightarrow> SynchronizationProtocolError + SynchronizationBatchRequest" where
  "SynchronizationBatchRequest_new d =
    and_then (validate_timestamp ''submitted_at_unix_milliseconds''
       (rq_submitted_at_unix_milliseconds d)) (\<lambda>_.
    and_then (validate_request_entries (rq_first_local_sequence_number d)
       (rq_last_local_sequence_number d) (rq_entries d)) (\<lambda>_.
    Ok d))"

record SynchronizationAcknowledgementEntry =
  ae_transaction_id :: FareTransactionId
  ae_local_sequence_number :: LocalSequence
  ae_outcome :: SynchronizationEntryOutcome
  ae_failure_category :: "SynchronizationFailureCategory option"
  ae_next_retry_at :: "i64 option"

definition SynchronizationAcknowledgementEntry_new ::
  "FareTransactionId \<Rightarrow> LocalSequence \<Rightarrow> SynchronizationEntryOutcome
    \<Rightarrow> SynchronizationFailureCategory option \<Rightarrow> i64 option
    \<Rightarrow> SynchronizationProtocolError + SynchronizationAcknowledgementEntry" where
  "SynchronizationAcknowledgementEntry_new i s outcome category retry_at =
    and_then (validate_outcome_metadata outcome category retry_at) (\<lambda>_.
      Ok \<lparr> ae_transaction_id = i, ae_local_sequence_number = s, ae_outcome = outcome,
           ae_failure_category = category, ae_next_retry_at = retry_at \<rparr>)"

record SynchronizationBatchAcknowledgement =
  ak_protocol_version :: DeviceProtocolVersion
  ak_environment_id :: ProtocolEnvironmentId
  ak_reader_id :: ReaderId
  ak_batch_id :: SynchronizationBatchId
  ak_first_local_sequence_number :: LocalSequence
  ak_last_local_sequence_number :: LocalSequence
  ak_received_at_unix_milliseconds :: i64
  ak_replayed :: bool
  ak_entries :: "SynchronizationAcknowledgementEntry list"

definition validate_acknowledgement_entries ::
  "u64 \<Rightarrow> u64 \<Rightarrow> SynchronizationAcknowledgementEntry list \<Rightarrow> SynchronizationProtocolError + unit" where
  "validate_acknowledgement_entries first_seq last_seq entries =
    and_then (validate_entry_count (length entries)) (\<lambda>_.
    and_then (validate_range first_seq last_seq) (\<lambda>_.
    case entries of [] \<Rightarrow> Err EmptyBatch
    | first_entry # _ \<Rightarrow>
      and_then (validate_boundary_sequences first_seq last_seq
          (ae_local_sequence_number first_entry) (ae_local_sequence_number (last entries))) (\<lambda>_.
      and_then (insert_identities [] (map ae_transaction_id entries)) (\<lambda>_.
      validate_increasing_sequences (map ae_local_sequence_number entries)))))"

definition SynchronizationBatchAcknowledgement_new ::
  "SynchronizationBatchAcknowledgement
    \<Rightarrow> SynchronizationProtocolError + SynchronizationBatchAcknowledgement" where
  "SynchronizationBatchAcknowledgement_new d =
    and_then (validate_timestamp ''received_at_unix_milliseconds''
       (ak_received_at_unix_milliseconds d)) (\<lambda>_.
    and_then (validate_acknowledgement_entries (ak_first_local_sequence_number d)
       (ak_last_local_sequence_number d) (ak_entries d)) (\<lambda>_.
    Ok d))"

definition with_replayed ::
  "bool \<Rightarrow> SynchronizationBatchAcknowledgement \<Rightarrow> SynchronizationBatchAcknowledgement" where
  "with_replayed replayed a = a\<lparr> ak_replayed := replayed \<rparr>"

text \<open>The loop over the zipped entries, from a position.\<close>

fun match_entries ::
  "nat \<Rightarrow> (SynchronizationAcknowledgementEntry \<times> SynchronizationRequestEntry) list
    \<Rightarrow> SynchronizationProtocolError + unit" where
  "match_entries position [] = Ok ()"
| "match_entries position ((a, r) # rest) =
    (if ae_transaction_id a \<noteq> re_transaction_id r
     then Err (AcknowledgementTransactionMismatch position)
     else if ae_local_sequence_number a \<noteq> re_local_sequence_number r
     then Err (AcknowledgementSequenceMismatch position (re_local_sequence_number r)
       (ae_local_sequence_number a))
     else match_entries (Suc position) rest)"

definition validate_against_request ::
  "SynchronizationBatchAcknowledgement \<Rightarrow> SynchronizationBatchRequest
    \<Rightarrow> SynchronizationProtocolError + unit" where
  "validate_against_request a r =
    (if ak_protocol_version a \<noteq> rq_protocol_version r
     then Err (AcknowledgementIdentityMismatch ''protocol_version'')
     else if ak_environment_id a \<noteq> rq_environment_id r
     then Err (AcknowledgementIdentityMismatch ''environment_id'')
     else if ak_reader_id a \<noteq> rq_reader_id r
     then Err (AcknowledgementIdentityMismatch ''reader_id'')
     else if ak_batch_id a \<noteq> rq_batch_id r
     then Err (AcknowledgementIdentityMismatch ''batch_id'')
     else if ak_first_local_sequence_number a \<noteq> rq_first_local_sequence_number r
     then Err (AcknowledgementIdentityMismatch ''first_local_sequence_number'')
     else if ak_last_local_sequence_number a \<noteq> rq_last_local_sequence_number r
     then Err (AcknowledgementIdentityMismatch ''last_local_sequence_number'')
     else if length (ak_entries a) \<noteq> length (rq_entries r)
     then Err (AcknowledgementEntryCountMismatch (length (rq_entries r)) (length (ak_entries a)))
     else match_entries 0 (zip (ak_entries a) (rq_entries r)))"

section \<open>Lemmas\<close>

lemma validate_text_eq_Ok:
  "validate_text field v n = Ok t \<longleftrightarrow>
    t = trim v \<and> t \<noteq> [] \<and> text_len t \<le> n \<and> (\<forall>c\<in>set t. \<not> is_control c)"
  by (auto simp: validate_text_def Let_def list_ex_iff)

lemma validate_timestamp_eq_Ok [result_simps]:
  "validate_timestamp field t = Ok u \<longleftrightarrow> 0 \<le> sint t"
  by (auto simp: validate_timestamp_def)

lemma validate_entry_count_eq_Ok [result_simps]:
  "validate_entry_count n = Ok u \<longleftrightarrow> 1 \<le> n \<and> n \<le> 256"
  by (auto simp: validate_entry_count_def MAX_SYNCHRONIZATION_BATCH_ENTRIES_def)

lemma validate_range_eq_Ok [result_simps]:
  "validate_range a b = Ok u \<longleftrightarrow> a \<le> b"
  by (auto simp: validate_range_def)

lemma validate_boundary_sequences_eq_Ok [result_simps]:
  "validate_boundary_sequences a b c d = Ok u \<longleftrightarrow> a = c \<and> b = d"
  by (auto simp: validate_boundary_sequences_def)

lemma insert_identities_eq_Ok:
  "insert_identities seen is = Ok u \<longleftrightarrow> distinct is \<and> set is \<inter> set seen = {}"
  by (induction seen "is" rule: insert_identities.induct) auto

lemma increasing_from_Some:
  "increasing_from (Some p) ss = Ok u \<longleftrightarrow> sorted_wrt (<) (p # ss)"
proof (induction ss arbitrary: p)
  case (Cons s ss)
  show ?case
  proof (cases "p < s")
    case True
    then show ?thesis
      using Cons.IH [of s] by (auto intro: order.strict_trans)
  next
    case False
    then show ?thesis by (simp add: not_less)
  qed
qed simp

lemma validate_increasing_sequences_eq_Ok [result_simps]:
  "validate_increasing_sequences ss = Ok u \<longleftrightarrow> sorted_wrt (<) ss"
  by (cases ss) (simp_all add: validate_increasing_sequences_def increasing_from_Some)

text \<open>What a valid list of batch entries is, whatever else the entries carry.\<close>

definition batch_shape :: "u64 \<Rightarrow> u64 \<Rightarrow> (FareTransactionId \<times> u64) list \<Rightarrow> bool" where
  "batch_shape first_seq last_seq es \<longleftrightarrow>
    1 \<le> length es \<and> length es \<le> 256 \<and>
    snd (hd es) = first_seq \<and> snd (last es) = last_seq \<and>
    distinct (map fst es) \<and> sorted_wrt (<) (map snd es)"

lemma sorted_hd_le_last:
  fixes xs :: "u64 list"
  assumes "sorted_wrt (<) xs" "xs \<noteq> []"
  shows "hd xs \<le> last xs"
  using assms by (cases xs) (auto dest: last_in_set order.strict_implies_order)

text \<open>
  The two validators of the source run the same checks over requests and over
  acknowledgements; this is their contract over the accessors of either entry type.
\<close>

locale entry_validator =
  fixes validate :: "u64 \<Rightarrow> u64 \<Rightarrow> 'entry list \<Rightarrow> SynchronizationProtocolError + unit"
    and tid :: "'entry \<Rightarrow> FareTransactionId"
    and sequence :: "'entry \<Rightarrow> u64"
  assumes validate_run: "validate a b es =
    and_then (validate_entry_count (length es)) (\<lambda>_.
    and_then (validate_range a b) (\<lambda>_.
    case es of [] \<Rightarrow> Inl EmptyBatch
    | e # _ \<Rightarrow>
      and_then (validate_boundary_sequences a b (sequence e) (sequence (last es))) (\<lambda>_.
      and_then (insert_identities [] (map tid es)) (\<lambda>_.
      validate_increasing_sequences (map sequence es)))))"
begin

lemma validate_eq_Ok:
  "validate a b es = Inr u \<longleftrightarrow> batch_shape a b (map (\<lambda>e. (tid e, sequence e)) es)"
proof (cases es)
  case (Cons e rest)
  have "a \<le> b" if "sequence e = a" "sequence (last es) = b" "sorted_wrt (<) (map sequence es)"
    using sorted_hd_le_last [OF that(3)] that(1,2) Cons by (auto simp: last_map split: if_splits)
  then show ?thesis
    using Cons
    by (auto simp: validate_run result_simps insert_identities_eq_Ok batch_shape_def comp_def
        last_map)
qed (simp add: validate_run validate_entry_count_def batch_shape_def)

lemma validate_shape:
  assumes "validate a b es = Inr u"
  shows "es \<noteq> []" "length es \<le> 256" "distinct (map tid es)" "distinct (map sequence es)"
    "sequence (hd es) = a" "sequence (last es) = b"
proof -
  have *: "batch_shape a b (map (\<lambda>e. (tid e, sequence e)) es)"
    using assms by (simp add: validate_eq_Ok)
  then show ne: "es \<noteq> []" and "length es \<le> 256" "distinct (map tid es)"
    by (auto simp: batch_shape_def comp_def)
  show "distinct (map sequence es)"
    using * by (intro sorted_wrt_less_distinct) (simp add: batch_shape_def comp_def)
  show "sequence (hd es) = a" "sequence (last es) = b"
    using * ne by (simp_all add: batch_shape_def hd_map last_map)
qed

end

interpretation requests: entry_validator validate_request_entries re_transaction_id
  re_local_sequence_number
  by unfold_locales (rule validate_request_entries_def)

interpretation acknowledgements: entry_validator validate_acknowledgement_entries
  ae_transaction_id ae_local_sequence_number
  by unfold_locales (rule validate_acknowledgement_entries_def)

abbreviation request_keys :: "SynchronizationRequestEntry list \<Rightarrow> (FareTransactionId \<times> u64) list" where
  "request_keys es \<equiv> map (\<lambda>e. (re_transaction_id e, re_local_sequence_number e)) es"

abbreviation ack_keys :: "SynchronizationAcknowledgementEntry list \<Rightarrow> (FareTransactionId \<times> u64) list" where
  "ack_keys es \<equiv> map (\<lambda>e. (ae_transaction_id e, ae_local_sequence_number e)) es"

definition request_ok :: "SynchronizationBatchRequest \<Rightarrow> bool" where
  "request_ok r \<longleftrightarrow> 0 \<le> sint (rq_submitted_at_unix_milliseconds r) \<and>
    batch_shape (rq_first_local_sequence_number r) (rq_last_local_sequence_number r)
      (request_keys (rq_entries r))"

definition acknowledgement_ok :: "SynchronizationBatchAcknowledgement \<Rightarrow> bool" where
  "acknowledgement_ok a \<longleftrightarrow> 0 \<le> sint (ak_received_at_unix_milliseconds a) \<and>
    batch_shape (ak_first_local_sequence_number a) (ak_last_local_sequence_number a)
      (ack_keys (ak_entries a))"

lemma SynchronizationBatchRequest_new_eq_Ok:
  "SynchronizationBatchRequest_new d = Ok r \<longleftrightarrow> request_ok d \<and> r = d"
  by (auto simp: SynchronizationBatchRequest_new_def result_simps requests.validate_eq_Ok request_ok_def)

lemma SynchronizationBatchAcknowledgement_new_eq_Ok:
  "SynchronizationBatchAcknowledgement_new d = Ok a \<longleftrightarrow> acknowledgement_ok d \<and> a = d"
  by (auto simp: SynchronizationBatchAcknowledgement_new_def result_simps
      acknowledgements.validate_eq_Ok acknowledgement_ok_def)

lemma match_entries_eq_Ok:
  "match_entries n ps = Ok u \<longleftrightarrow>
    (\<forall>(a, r) \<in> set ps. ae_transaction_id a = re_transaction_id r \<and>
      ae_local_sequence_number a = re_local_sequence_number r)"
  by (induction n ps rule: match_entries.induct) auto

lemma zip_keys_eq:
  assumes "length as = length rs"
  shows "(\<forall>(a, r) \<in> set (zip as rs). ae_transaction_id a = re_transaction_id r \<and>
      ae_local_sequence_number a = re_local_sequence_number r) \<longleftrightarrow> ack_keys as = request_keys rs"
  using assms by (induction as rs rule: list_induct2) auto

lemma match_zip_eq_Ok:
  assumes "length as = length rs"
  shows "match_entries n (zip as rs) = Ok u \<longleftrightarrow> ack_keys as = request_keys rs"
  by (simp only: match_entries_eq_Ok zip_keys_eq [OF assms])

text \<open>The identity of a batch, which an acknowledgement has to repeat.\<close>

definition acknowledges :: "SynchronizationBatchAcknowledgement \<Rightarrow> SynchronizationBatchRequest \<Rightarrow> bool" where
  "acknowledges a r \<longleftrightarrow>
    ak_protocol_version a = rq_protocol_version r \<and> ak_environment_id a = rq_environment_id r \<and>
    ak_reader_id a = rq_reader_id r \<and> ak_batch_id a = rq_batch_id r \<and>
    ak_first_local_sequence_number a = rq_first_local_sequence_number r \<and>
    ak_last_local_sequence_number a = rq_last_local_sequence_number r \<and>
    ack_keys (ak_entries a) = request_keys (rq_entries r)"

lemma validate_against_request_eq_Ok:
  "validate_against_request a r = Ok u \<longleftrightarrow> acknowledges a r"
proof -
  have "length (ak_entries a) = length (rq_entries r)"
    if "ack_keys (ak_entries a) = request_keys (rq_entries r)"
    using arg_cong [OF that, of length] by simp
  then show ?thesis
    by (auto simp: validate_against_request_def acknowledges_def result_simps match_zip_eq_Ok)
qed

definition metadata_ok ::
  "SynchronizationEntryOutcome \<Rightarrow> SynchronizationFailureCategory option \<Rightarrow> i64 option \<Rightarrow> bool" where
  "metadata_ok outcome category retry_at \<longleftrightarrow>
    (category = None \<longleftrightarrow> outcome = Acknowledged) \<and>
    (case retry_at of None \<Rightarrow> outcome \<noteq> RetryableFailure
     | Some t \<Rightarrow> outcome = RetryableFailure \<and> 0 \<le> sint t)"

lemma validate_outcome_metadata_eq_Ok:
  "validate_outcome_metadata outcome category retry_at = Ok u \<longleftrightarrow> metadata_ok outcome category retry_at"
  by (cases outcome; cases category; cases retry_at)
    (auto simp: validate_outcome_metadata_def metadata_ok_def result_simps)

lemma category_as_str_inject [simp]:
  "SynchronizationFailureCategory_as_str a = SynchronizationFailureCategory_as_str b \<longleftrightarrow> a = b"
  by (cases a; cases b) simp_all

lemma acknowledges_replayed [simp]: "acknowledges (with_replayed b a) r = acknowledges a r"
  by (simp add: acknowledges_def with_replayed_def)

lemma with_replayed_with_replayed [simp]: "with_replayed b (with_replayed c a) = with_replayed b a"
  by (simp add: with_replayed_def)

section \<open>Properties\<close>

text \<open>
  A batch request is accepted exactly when it is well formed, and is not altered: a
  non-negative submission time, between 1 and 256 entries, the declared first and last sequence at
  its ends, strictly increasing sequences and pairwise different transactions (the range check of
  the source follows from these).
\<close>

theorem request_validation_exact:
  "SynchronizationBatchRequest_new d = Ok r \<longleftrightarrow> r = d \<and>
    0 \<le> sint (rq_submitted_at_unix_milliseconds d) \<and>
    1 \<le> length (rq_entries d) \<and> length (rq_entries d) \<le> 256 \<and>
    re_local_sequence_number (hd (rq_entries d)) = rq_first_local_sequence_number d \<and>
    re_local_sequence_number (last (rq_entries d)) = rq_last_local_sequence_number d \<and>
    distinct (map re_transaction_id (rq_entries d)) \<and>
    sorted_wrt (<) (map re_local_sequence_number (rq_entries d))"
  by (cases "rq_entries d = []")
    (auto simp: SynchronizationBatchRequest_new_eq_Ok request_ok_def batch_shape_def comp_def
      hd_map last_map)


definition example_request :: SynchronizationBatchRequest where
  "example_request =
    \<lparr> rq_protocol_version = 1, rq_environment_id = ascii ''local'', rq_reader_id = 77,
      rq_reader_software_version = ascii ''1.0.0'', rq_batch_id = 900,
      rq_first_local_sequence_number = 4, rq_last_local_sequence_number = 6,
      rq_submitted_at_unix_milliseconds = 1000,
      rq_entries =
        [\<lparr> re_transaction_id = 501, re_local_sequence_number = 4, re_transaction_envelope = ascii ''{}'' \<rparr>,
         \<lparr> re_transaction_id = 502, re_local_sequence_number = 6, re_transaction_envelope = ascii ''{}'' \<rparr>] \<rparr>"

definition example_acknowledgement :: SynchronizationBatchAcknowledgement where
  "example_acknowledgement =
    \<lparr> ak_protocol_version = 1, ak_environment_id = ascii ''local'', ak_reader_id = 77,
      ak_batch_id = 900, ak_first_local_sequence_number = 4, ak_last_local_sequence_number = 6,
      ak_received_at_unix_milliseconds = 2000, ak_replayed = False,
      ak_entries =
        [\<lparr> ae_transaction_id = 501, ae_local_sequence_number = 4, ae_outcome = Acknowledged,
            ae_failure_category = None, ae_next_retry_at = None \<rparr>,
         \<lparr> ae_transaction_id = 502, ae_local_sequence_number = 6, ae_outcome = RetryableFailure,
            ae_failure_category = Some BackendTemporarilyUnavailable, ae_next_retry_at = Some 9000 \<rparr>] \<rparr>"


text \<open>
  Canonical envelopes are canonical: when the JSON printer's output parses back to the
  value it was printed from, an accepted envelope is accepted again unchanged.
\<close>

theorem envelope_canonical:
  assumes "\<And>v t. json_to_string api v = Some t \<Longrightarrow> json_parse api t = Some v"
    and "CanonicalTransactionEnvelope_from_json api v = Ok c"
  shows "CanonicalTransactionEnvelope_from_json api c = Ok c \<and>
    text_len c \<le> MAX_TRANSACTION_ENVELOPE_BYTES"
  using assms
  by (fastforce simp: CanonicalTransactionEnvelope_from_json_def result_simps)

text \<open>A tiny JSON dialect for evaluation: objects without members, padded by blanks.\<close>

definition blank_json :: "unit JsonApi" where
  "blank_json = \<lparr> json_parse = (\<lambda>t. if trim t = ascii ''{}'' then Some () else None),
    json_is_object = (\<lambda>_. True), json_to_string = (\<lambda>_. Some (ascii ''{}'')) \<rparr>"

theorem envelope_canonical_witness:
  "CanonicalTransactionEnvelope_from_json blank_json (ascii '' {} '') = Ok (ascii ''{}'') \<and>
   CanonicalTransactionEnvelope_from_json blank_json (ascii ''{}'') = Ok (ascii ''{}'')"
proof -
  have parse: "json_parse blank_json t = Some v" if "json_to_string blank_json v = Some t" for v t
  proof -
    have "trim (ascii ''{}'') = ascii ''{}''" by code_simp
    with that show ?thesis by (auto simp: blank_json_def)
  qed
  have "trim (ascii '' {} '') = ascii ''{}''" "text_len (ascii '' {} '') = 4" "text_len (ascii ''{}'') = 2"
    by code_simp+
  then have first_time: "CanonicalTransactionEnvelope_from_json blank_json (ascii '' {} '') = Ok (ascii ''{}'')"
    by (simp add: CanonicalTransactionEnvelope_from_json_def blank_json_def
        MAX_TRANSACTION_ENVELOPE_BYTES_def)
  show ?thesis
    using envelope_canonical [OF parse first_time] first_time by blast
qed

end
