(* ===== verification/Simulator.thy ===== *)
theory Simulator
  imports OfflineEvaluation Protocol Ports
begin

text \<open>
  The in-memory reader of \<open>apps/reader-simulator/src\<close>: credential presentations
  (\<open>crates/device-protocol/src/presentation.rs\<close>), the operating states and sequence numbers of
  \<open>lib.rs\<close>, taps that are priced by the fare engine (\<open>fare_processing.rs\<close>), scenarios
  (\<open>scenario.rs\<close>) and the built-in demonstration (\<open>demo.rs\<close>).  A generated identifier is an
  argument of the operation that generates it.
\<close>

section \<open>Presentations\<close>

datatype PresentationValueError = Presentation_ZeroZoneId

type_synonym ProtocolZoneId = u16

definition ProtocolZoneId_new :: "u16 \<Rightarrow> PresentationValueError + ProtocolZoneId" where
  "ProtocolZoneId_new v = (if v = 0 then Err Presentation_ZeroZoneId else Ok v)"

datatype CredentialMedium = Medium_Card | Medium_Mobile

record CredentialPresentation =
  cp_protocol_version :: DeviceProtocolVersion
  cp_transaction_id :: FareTransactionId
  cp_reader_id :: ReaderId
  cp_local_sequence_number :: LocalSequenceNumber
  cp_credential_id :: FareCredentialId
  cp_credential_medium :: CredentialMedium
  cp_event_time :: EventTime
  cp_origin_zone :: ProtocolZoneId
  cp_destination_zone :: ProtocolZoneId
  cp_processing_mode :: FareProcessingMode

section \<open>The reader\<close>

datatype ReaderConnectivity = Connected | Disconnected

datatype ReaderOperatingState = Booting | ReadyOnline | ReadyOffline | Stopped

datatype ReaderSimulatorError =
    InvalidSoftwareVersion
  | InvalidStateTransition ReaderOperatingState string
  | NotReady ReaderOperatingState
  | SequenceExhausted

record ReaderPresentationInput =
  tap_credential_id :: FareCredentialId
  tap_credential_medium :: CredentialMedium
  tap_event_time :: EventTime
  tap_origin_zone :: ProtocolZoneId
  tap_destination_zone :: ProtocolZoneId

record ReaderHealthSnapshot =
  hs_reader_id :: ReaderId
  hs_state :: ReaderOperatingState
  hs_protocol_version :: DeviceProtocolVersion
  hs_software_version :: ustr
  hs_next_local_sequence :: u64

record ReaderSimulator =
  sim_reader_id :: ReaderId
  sim_protocol_version :: DeviceProtocolVersion
  sim_software_version :: ustr
  sim_state :: ReaderOperatingState
  sim_next_local_sequence :: u64

definition version_byte :: "u8 \<Rightarrow> bool" where
  "version_byte b \<longleftrightarrow> 48 \<le> b \<and> b \<le> 57 \<or> 65 \<le> b \<and> b \<le> 90 \<or> 97 \<le> b \<and> b \<le> 122 \<or> b \<in> {46, 45, 43, 95}"

definition validate_software_version :: "ustr \<Rightarrow> ReaderSimulatorError + unit" where
  "validate_software_version value =
    (let valid_length = (value \<noteq> [] \<and> text_len value \<le> 64);
         valid_characters = list_all version_byte (utf8 value)
     in if \<not> valid_length \<or> \<not> valid_characters then Err InvalidSoftwareVersion else Ok ())"

definition ReaderSimulator_new ::
  "ReaderId \<Rightarrow> DeviceProtocolVersion \<Rightarrow> ustr \<Rightarrow> ReaderSimulatorError + ReaderSimulator" where
  "ReaderSimulator_new reader version software =
    and_then (validate_software_version software) (\<lambda>_.
    Ok \<lparr> sim_reader_id = reader, sim_protocol_version = version, sim_software_version = software,
      sim_state = Booting, sim_next_local_sequence = 1 \<rparr>)"

fun state_for_connectivity :: "ReaderConnectivity \<Rightarrow> ReaderOperatingState" where
  "state_for_connectivity Connected = ReadyOnline"
| "state_for_connectivity Disconnected = ReadyOffline"

definition ReaderSimulator_start ::
  "ReaderConnectivity \<Rightarrow> ReaderSimulator \<Rightarrow> (ReaderSimulatorError + unit) \<times> ReaderSimulator" where
  "ReaderSimulator_start connectivity r =
    (if sim_state r \<noteq> Booting then (Err (InvalidStateTransition (sim_state r) ''start''), r)
     else (Ok (), r\<lparr> sim_state := state_for_connectivity connectivity \<rparr>))"

definition set_connectivity ::
  "ReaderConnectivity \<Rightarrow> ReaderSimulator \<Rightarrow> (ReaderSimulatorError + unit) \<times> ReaderSimulator" where
  "set_connectivity connectivity r =
    (if sim_state r = ReadyOnline \<or> sim_state r = ReadyOffline
     then (Ok (), r\<lparr> sim_state := state_for_connectivity connectivity \<rparr>)
     else (Err (InvalidStateTransition (sim_state r) ''set_connectivity''), r))"

definition ReaderSimulator_stop :: "ReaderSimulator \<Rightarrow> (ReaderSimulatorError + unit) \<times> ReaderSimulator" where
  "ReaderSimulator_stop r =
    (if sim_state r = Stopped then (Err (InvalidStateTransition (sim_state r) ''stop''), r)
     else (Ok (), r\<lparr> sim_state := Stopped \<rparr>))"

fun mode_of_state :: "ReaderOperatingState \<Rightarrow> ReaderSimulatorError + FareProcessingMode" where
  "mode_of_state ReadyOnline = Ok Online"
| "mode_of_state ReadyOffline = Ok Offline"
| "mode_of_state state = Err (NotReady state)"

definition present_credential ::
  "FareTransactionId \<Rightarrow> ReaderPresentationInput \<Rightarrow> ReaderSimulator
    \<Rightarrow> (ReaderSimulatorError + CredentialPresentation) \<times> ReaderSimulator" where
  "present_credential generated input r =
    (case and_then (mode_of_state (sim_state r)) (\<lambda>mode.
       and_then (ok_or (checked_add_u64 (sim_next_local_sequence r) 1) SequenceExhausted) (\<lambda>following_sequence.
       and_then (map_err (\<lambda>_. SequenceExhausted) (LocalSequenceNumber_new (sim_next_local_sequence r))) (\<lambda>sequence.
       Ok (following_sequence,
         \<lparr> cp_protocol_version = sim_protocol_version r, cp_transaction_id = generated,
           cp_reader_id = sim_reader_id r, cp_local_sequence_number = sequence,
           cp_credential_id = tap_credential_id input, cp_credential_medium = tap_credential_medium input,
           cp_event_time = tap_event_time input, cp_origin_zone = tap_origin_zone input,
           cp_destination_zone = tap_destination_zone input, cp_processing_mode = mode \<rparr>)))) of
       Err e \<Rightarrow> (Err e, r)
     | Ok (following_sequence, presentation) \<Rightarrow>
         (Ok presentation, r\<lparr> sim_next_local_sequence := following_sequence \<rparr>))"

definition health_snapshot :: "ReaderSimulator \<Rightarrow> ReaderHealthSnapshot" where
  "health_snapshot r =
    \<lparr> hs_reader_id = sim_reader_id r, hs_state = sim_state r, hs_protocol_version = sim_protocol_version r,
      hs_software_version = sim_software_version r, hs_next_local_sequence = sim_next_local_sequence r \<rparr>"

section \<open>Taps\<close>

record ReaderFareContext =
  fc_eligibility :: EligibilityClassification
  fc_transfer_history :: TransferHistory
  fc_fare_cap_history :: FareCapHistory
  fc_transit_product :: "TransitProduct option"
  fc_available_balance :: Money
  fc_offline_context :: "OfflineEvaluationContext option"

datatype ReaderFareEvaluation = Reader_Online FareEvaluation | Reader_Offline OfflineFareEvaluation

fun reader_evaluation :: "ReaderFareEvaluation \<Rightarrow> FareEvaluation" where
  "reader_evaluation (Reader_Online e) = e"
| "reader_evaluation (Reader_Offline e) = oe_evaluation e"

record ReaderTapDecision =
  td_presentation :: CredentialPresentation
  td_fare_evaluation :: ReaderFareEvaluation

datatype ReaderFareProcessingError =
    Processing_Reader ReaderSimulatorError
  | Processing_FareEvaluation FareEvaluationError
  | Processing_OfflineEvaluation OfflineEvaluationError
  | MissingOfflineContext
  | ZoneTranslationFailed u16

definition translate_zone :: "ProtocolZoneId \<Rightarrow> ReaderFareProcessingError + ZoneId" where
  "translate_zone zone = map_err (\<lambda>_. ZoneTranslationFailed zone) (ZoneId_new zone)"

definition evaluate_tap ::
  "FareProcessingMode \<Rightarrow> FarePolicy \<Rightarrow> ReaderPresentationInput \<Rightarrow> ReaderFareContext
    \<Rightarrow> ReaderFareProcessingError + ReaderFareEvaluation" where
  "evaluate_tap mode policy input context =
    and_then (translate_zone (tap_origin_zone input)) (\<lambda>origin.
    and_then (translate_zone (tap_destination_zone input)) (\<lambda>destination.
    let evaluation_input = \<lparr> in_event_time = tap_event_time input, origin_zone = origin,
          destination_zone = destination, in_eligibility = fc_eligibility context,
          transfer_history = fc_transfer_history context, fare_cap_history = fc_fare_cap_history context,
          transit_product = fc_transit_product context, available_balance = fc_available_balance context \<rparr>
    in case mode of
        Online \<Rightarrow> and_then (map_err Processing_FareEvaluation (evaluate_fare policy evaluation_input))
          (\<lambda>e. Ok (Reader_Online e))
      | Offline \<Rightarrow> and_then (ok_or (fc_offline_context context) MissingOfflineContext) (\<lambda>offline_context.
          and_then (map_err Processing_OfflineEvaluation (evaluate_fare_offline policy evaluation_input offline_context))
            (\<lambda>e. Ok (Reader_Offline e)))))"

definition process_fare ::
  "FareTransactionId \<Rightarrow> FarePolicy \<Rightarrow> ReaderPresentationInput \<Rightarrow> ReaderFareContext \<Rightarrow> ReaderSimulator
    \<Rightarrow> (ReaderFareProcessingError + ReaderTapDecision) \<times> ReaderSimulator" where
  "process_fare generated policy input context r =
    (case and_then (map_err Processing_Reader (mode_of_state (sim_state r)))
       (\<lambda>mode. evaluate_tap mode policy input context) of
       Err e \<Rightarrow> (Err e, r)
     | Ok evaluation \<Rightarrow>
         (case present_credential generated input r of
            (Err e, r') \<Rightarrow> (Err (Processing_Reader e), r')
          | (Ok presentation, r') \<Rightarrow>
              (Ok \<lparr> td_presentation = presentation, td_fare_evaluation = evaluation \<rparr>, r')))"

section \<open>Scenarios\<close>

datatype ScenarioAction =
    SetConnectivity ReaderConnectivity
  | ProcessFare ReaderPresentationInput ReaderFareContext

datatype ScenarioActionKind = ConnectivityChange | FarePresentation

datatype ScenarioFailureCategory =
    Scenario_ReaderConfiguration
  | Scenario_ReaderNotReady
  | Scenario_ReaderStateTransition
  | Scenario_SequenceExhausted
  | Scenario_FareEvaluation
  | Scenario_OfflineEvaluation
  | Scenario_MissingOfflineContext
  | Scenario_ZoneTranslation

datatype ScenarioStepResult =
    ConnectivityChanged ReaderConnectivity
  | FareProcessed u64 FareProcessingMode FareEvaluationOutcome Money
  | Scenario_Failed ScenarioFailureCategory

record ScenarioStepRecord =
  step_number :: nat
  step_action :: ScenarioActionKind
  step_state :: ReaderOperatingState
  step_next_local_sequence :: u64
  step_result :: ScenarioStepResult

fun map_reader_error :: "ReaderSimulatorError \<Rightarrow> ScenarioFailureCategory" where
  "map_reader_error InvalidSoftwareVersion = Scenario_ReaderConfiguration"
| "map_reader_error (InvalidStateTransition _ _) = Scenario_ReaderStateTransition"
| "map_reader_error (NotReady _) = Scenario_ReaderNotReady"
| "map_reader_error SequenceExhausted = Scenario_SequenceExhausted"

fun map_fare_error :: "ReaderFareProcessingError \<Rightarrow> ScenarioFailureCategory" where
  "map_fare_error (Processing_Reader e) = map_reader_error e"
| "map_fare_error (Processing_FareEvaluation _) = Scenario_FareEvaluation"
| "map_fare_error (Processing_OfflineEvaluation _) = Scenario_OfflineEvaluation"
| "map_fare_error MissingOfflineContext = Scenario_MissingOfflineContext"
| "map_fare_error (ZoneTranslationFailed _) = Scenario_ZoneTranslation"

text \<open>One turn of the loop: the kind of the action, its result and the reader after it.\<close>

fun run_action ::
  "FareTransactionId \<Rightarrow> FarePolicy \<Rightarrow> ScenarioAction \<Rightarrow> ReaderSimulator
    \<Rightarrow> ScenarioActionKind \<times> ScenarioStepResult \<times> ReaderSimulator" where
  "run_action generated policy (SetConnectivity connectivity) r =
    (case set_connectivity connectivity r of
       (Ok _, r') \<Rightarrow> (ConnectivityChange, ConnectivityChanged connectivity, r')
     | (Err e, r') \<Rightarrow> (ConnectivityChange, Scenario_Failed (map_reader_error e), r'))"
| "run_action generated policy (ProcessFare input context) r =
    (case process_fare generated policy input context r of
       (Ok d, r') \<Rightarrow> (FarePresentation, FareProcessed (cp_local_sequence_number (td_presentation d))
         (cp_processing_mode (td_presentation d)) (fe_outcome (reader_evaluation (td_fare_evaluation d)))
         (ev_final_fare (fe_evidence (reader_evaluation (td_fare_evaluation d)))), r')
     | (Err e, r') \<Rightarrow> (FarePresentation, Scenario_Failed (map_fare_error e), r'))"

text \<open>\<open>generated n\<close> is the transaction identifier generated in step \<open>n\<close>.\<close>

fun run_actions ::
  "(nat \<Rightarrow> FareTransactionId) \<Rightarrow> FarePolicy \<Rightarrow> nat \<Rightarrow> ScenarioAction list \<Rightarrow> ReaderSimulator
    \<Rightarrow> ScenarioStepRecord list \<times> ReaderSimulator" where
  "run_actions generated policy index [] r = ([], r)"
| "run_actions generated policy index (action # actions) r =
    (case run_action (generated index) policy action r of
       (kind, result, r1) \<Rightarrow>
         (let health = health_snapshot r1;
              step = \<lparr> step_number = index + 1, step_action = kind, step_state = hs_state health,
                step_next_local_sequence = hs_next_local_sequence health, step_result = result \<rparr>
          in case run_actions generated policy (index + 1) actions r1 of
               (steps, r2) \<Rightarrow> (step # steps, r2)))"

definition run_scenario ::
  "(nat \<Rightarrow> FareTransactionId) \<Rightarrow> FarePolicy \<Rightarrow> ScenarioAction list \<Rightarrow> ReaderSimulator
    \<Rightarrow> ScenarioStepRecord list \<times> ReaderSimulator" where
  "run_scenario generated policy actions r = run_actions generated policy 0 actions r"

section \<open>The demonstration\<close>

datatype DemoScenarioError =
    InvalidStaticConfiguration string
  | Demo_Reader ReaderSimulatorError

definition BASE_TIME_MILLISECONDS :: i64 where
  "BASE_TIME_MILLISECONDS = 1700000000000"

definition checked :: "'e + 'a \<Rightarrow> string \<Rightarrow> DemoScenarioError + 'a" where
  "checked result field = map_err (\<lambda>_. InvalidStaticConfiguration field) result"

definition demo_event_time :: "i64 \<Rightarrow> DemoScenarioError + EventTime" where
  "demo_event_time milliseconds = checked (EventTime_from_unix_milliseconds milliseconds) ''event time''"

definition demo_protocol_zone :: "u16 \<Rightarrow> DemoScenarioError + ProtocolZoneId" where
  "demo_protocol_zone value = checked (ProtocolZoneId_new value) ''protocol zone''"

definition demo_presentation_input ::
  "FareCredentialId \<Rightarrow> i64 \<Rightarrow> u16 \<Rightarrow> u16 \<Rightarrow> DemoScenarioError + ReaderPresentationInput" where
  "demo_presentation_input generated time origin destination =
    and_then (demo_event_time time) (\<lambda>event_time.
    and_then (demo_protocol_zone origin) (\<lambda>origin_zone.
    and_then (demo_protocol_zone destination) (\<lambda>destination_zone.
    Ok \<lparr> tap_credential_id = generated, tap_credential_medium = Medium_Card, tap_event_time = event_time,
      tap_origin_zone = origin_zone, tap_destination_zone = destination_zone \<rparr>)))"

definition demo_online_context :: ReaderFareContext where
  "demo_online_context =
    \<lparr> fc_eligibility = Standard, fc_transfer_history = \<lparr> previous_paid_fare_event_time = None \<rparr>,
      fc_fare_cap_history = FareCapHistory_zero Usd, fc_transit_product = None,
      fc_available_balance = from_minor_units 1000 Usd, fc_offline_context = None \<rparr>"

definition demo_offline_context :: "i64 \<Rightarrow> DemoScenarioError + ReaderFareContext" where
  "demo_offline_context time =
    and_then (demo_event_time (time - 500)) (\<lambda>cached_at.
    Ok (demo_online_context\<lparr> fc_offline_context := Some
      \<lparr> policy_cached_at = cached_at, maximum_policy_age_milliseconds = 1000,
        revocation_data_cached_at = cached_at, maximum_revocation_age_milliseconds = 1000,
        context_charge_limit = from_minor_units 500 Usd \<rparr> \<rparr>))"

definition demo_policy :: "FarePolicyId \<Rightarrow> DemoScenarioError + FarePolicy" where
  "demo_policy generated =
    and_then (checked (FarePolicyVersion_new 1) ''fare policy version'') (\<lambda>version.
    and_then (checked (TransferWindow_from_milliseconds 5400000) ''transfer window'') (\<lambda>window.
    checked (FarePolicy_validate
      \<lparr> policy_id = generated, policy_version = version, policy_currency = Usd,
        base_fare = from_minor_units 250 Usd, zone_surcharge = from_minor_units 75 Usd,
        transfer_window = window, transfer_discount = from_minor_units 250 Usd,
        daily_cap = from_minor_units 750 Usd, weekly_cap = from_minor_units 3000 Usd,
        eligibility_discounts = EligibilityDiscounts_none \<rparr>) ''fare policy''))"

text \<open>\<open>generated n\<close> is the \<open>n\<close>th credential identifier generated.\<close>

definition demo_actions :: "(nat \<Rightarrow> FareCredentialId) \<Rightarrow> DemoScenarioError + ScenarioAction list" where
  "demo_actions generated =
    (let offline_time = BASE_TIME_MILLISECONDS + 1000 in
     and_then (demo_presentation_input (generated 0) BASE_TIME_MILLISECONDS 1 3) (\<lambda>first.
     and_then (demo_presentation_input (generated 1) offline_time 1 3) (\<lambda>second.
     and_then (demo_presentation_input (generated 2) offline_time 1 3) (\<lambda>third.
     and_then (demo_offline_context offline_time) (\<lambda>offline_context.
     and_then (demo_presentation_input (generated 3) (BASE_TIME_MILLISECONDS + 2000) 2 2) (\<lambda>fourth.
     Ok [ProcessFare first demo_online_context, SetConnectivity Disconnected,
       ProcessFare second demo_online_context, ProcessFare third offline_context,
       SetConnectivity Connected, ProcessFare fourth demo_online_context]))))))"

definition CARGO_PKG_VERSION :: ustr where
  "CARGO_PKG_VERSION = ascii ''0.1.0''"

definition run_demo_scenario ::
  "ReaderId \<Rightarrow> FarePolicyId \<Rightarrow> (nat \<Rightarrow> FareCredentialId) \<Rightarrow> (nat \<Rightarrow> FareTransactionId)
    \<Rightarrow> DemoScenarioError + ScenarioStepRecord list" where
  "run_demo_scenario reader_uuid policy_uuid credential_ids transaction_ids =
    and_then (map_err Demo_Reader (ReaderSimulator_new reader_uuid DeviceProtocolVersion_CURRENT CARGO_PKG_VERSION)) (\<lambda>reader.
    case ReaderSimulator_start Connected reader of
      (Err e, _) \<Rightarrow> Err (Demo_Reader e)
    | (Ok _, reader) \<Rightarrow>
        and_then (demo_policy policy_uuid) (\<lambda>policy.
        and_then (demo_actions credential_ids) (\<lambda>actions.
        Ok (fst (run_scenario transaction_ids policy actions reader)))))"

section \<open>What a reader presents\<close>

datatype SimulatorCall =
    Call_start ReaderConnectivity
  | Call_set_connectivity ReaderConnectivity
  | Call_stop
  | Call_present_credential FareTransactionId ReaderPresentationInput
  | Call_process_fare FareTransactionId FarePolicy ReaderPresentationInput ReaderFareContext

text \<open>A call with the presentations it makes, and whether it fails.\<close>

fun simulator_call :: "SimulatorCall \<Rightarrow> ReaderSimulator \<Rightarrow> bool \<times> CredentialPresentation list \<times> ReaderSimulator" where
  "simulator_call (Call_start c) r = (case ReaderSimulator_start c r of (x, r') \<Rightarrow> (isl x, [], r'))"
| "simulator_call (Call_set_connectivity c) r = (case set_connectivity c r of (x, r') \<Rightarrow> (isl x, [], r'))"
| "simulator_call Call_stop r = (case ReaderSimulator_stop r of (x, r') \<Rightarrow> (isl x, [], r'))"
| "simulator_call (Call_present_credential i input) r =
    (case present_credential i input r of (Ok p, r') \<Rightarrow> (False, [p], r') | (Err e, r') \<Rightarrow> (True, [], r'))"
| "simulator_call (Call_process_fare i policy input fares) r =
    (case process_fare i policy input fares r of
       (Ok d, r') \<Rightarrow> (False, [td_presentation d], r') | (Err e, r') \<Rightarrow> (True, [], r'))"

text \<open>The presentations of a sequence of calls, each with the state of the reader that made it.\<close>

fun simulator_run ::
  "SimulatorCall list \<Rightarrow> ReaderSimulator \<Rightarrow> (ReaderOperatingState \<times> CredentialPresentation) list \<times> ReaderSimulator" where
  "simulator_run [] r = ([], r)"
| "simulator_run (c # cs) r =
    (case simulator_call c r of (_, ps, r1) \<Rightarrow>
       (case simulator_run cs r1 of (qs, r2) \<Rightarrow> (map (Pair (sim_state r)) ps @ qs, r2)))"

definition presents :: "ReaderSimulator \<Rightarrow> CredentialPresentation \<Rightarrow> ReaderSimulator \<Rightarrow> bool" where
  "presents r p r' \<longleftrightarrow>
    mode_of_state (sim_state r) = Ok (cp_processing_mode p) \<and> cp_reader_id p = sim_reader_id r \<and>
    cp_protocol_version p = sim_protocol_version r \<and> cp_local_sequence_number p = sim_next_local_sequence r \<and>
    checked_add_u64 (sim_next_local_sequence r) 1 = Some (sim_next_local_sequence r') \<and>
    r' = r\<lparr> sim_next_local_sequence := sim_next_local_sequence r' \<rparr>"

lemma present_credential_cases:
  "present_credential i input r = (x, r') \<Longrightarrow>
    (case x of Err e \<Rightarrow> r' = r | Ok p \<Rightarrow> presents r p r')"
  by (auto simp: present_credential_def presents_def result_simps LocalSequenceNumber_new_def
      split: sum.splits prod.splits if_splits)

lemma process_fare_cases:
  "process_fare i policy input fares r = (x, r') \<Longrightarrow>
    (case x of Err e \<Rightarrow> r' = r | Ok d \<Rightarrow> presents r (td_presentation d) r')"
  by (auto simp: process_fare_def split: sum.splits prod.splits dest!: present_credential_cases)

text \<open>What a call does to the reader: nothing, a change of state, or one presentation.\<close>

lemma simulator_call_cases:
  assumes "simulator_call c r = (failed, ps, r')"
  shows "failed \<and> ps = [] \<and> r' = r \<or>
    \<not> failed \<and> ps = [] \<and> sim_state r \<noteq> Stopped \<and> sim_state r' \<noteq> Booting \<and> r' = r\<lparr> sim_state := sim_state r' \<rparr> \<or>
    (\<exists>p. \<not> failed \<and> ps = [p] \<and> presents r p r')"
proof -
  have ready: "state_for_connectivity k \<noteq> Booting" for k by (cases k) simp_all
  show ?thesis
    using assms
    by (cases c) (auto simp: ReaderSimulator_start_def set_connectivity_def ReaderSimulator_stop_def ready
        split: if_splits prod.splits sum.splits dest!: present_credential_cases process_fare_cases)
qed

lemma presents_ready: "presents r p r' \<Longrightarrow> sim_state r \<noteq> Stopped"
  by (auto simp: presents_def)

lemma simulator_run_stopped: "sim_state r = Stopped \<Longrightarrow> simulator_run cs r = ([], r)"
proof (induction cs)
  case (Cons c cs)
  obtain failed ps r1 where call: "simulator_call c r = (failed, ps, r1)" by (cases "simulator_call c r")
  then have "ps = []" "r1 = r"
    using simulator_call_cases [OF call] Cons.prems presents_ready by auto
  then show ?case using call Cons by simp
qed simp

lemma simulator_run_numbers:
  assumes "simulator_run cs r = (ps, r')" "0 < uint (sim_next_local_sequence r)"
  shows "map (\<lambda>(s, p). uint (cp_local_sequence_number p)) ps =
      map (\<lambda>k. uint (sim_next_local_sequence r) + int k) [0..<length ps] \<and>
    uint (sim_next_local_sequence r') = uint (sim_next_local_sequence r) + int (length ps) \<and>
    (\<forall>(s, p) \<in> set ps. mode_of_state s = Ok (cp_processing_mode p) \<and> cp_reader_id p = sim_reader_id r \<and>
      cp_protocol_version p = sim_protocol_version r)"
  using assms
proof (induction cs arbitrary: r ps)
  case (Cons c cs)
  obtain failed ps1 r1 where call: "simulator_call c r = (failed, ps1, r1)" by (cases "simulator_call c r")
  obtain ps2 where rest: "simulator_run cs r1 = (ps2, r')" and ps: "ps = map (Pair (sim_state r)) ps1 @ ps2"
    using Cons.prems(1) call by (auto split: prod.splits)
  note IH = Cons.IH [OF rest]
  from simulator_call_cases [OF call] show ?case
  proof (elim disjE conjE exE)
    assume "ps1 = []" "r1 = r"
    then show ?thesis using IH Cons.prems(2) ps by simp
  next
    assume "ps1 = []" "r1 = r\<lparr> sim_state := sim_state r1 \<rparr>"
    note fields = this(2) [THEN arg_cong, of sim_reader_id] this(2) [THEN arg_cong, of sim_protocol_version]
      this(2) [THEN arg_cong, of sim_next_local_sequence]
    have "ps = ps2" using \<open>ps1 = []\<close> ps by simp
    then show ?thesis using IH Cons.prems(2) fields by simp
  next
    fix p assume p: "ps1 = [p]" "presents r p r1"
    then have "r1 = r\<lparr> sim_next_local_sequence := sim_next_local_sequence r1 \<rparr>" by (simp add: presents_def)
    then have "sim_reader_id r1 = sim_reader_id r" "sim_protocol_version r1 = sim_protocol_version r"
      by (auto dest: arg_cong [of _ _ sim_reader_id] arg_cong [of _ _ sim_protocol_version])
    moreover have "sim_next_local_sequence r1 = sim_next_local_sequence r + 1" "sim_next_local_sequence r + 1 \<noteq> 0"
      using p(2) by (auto simp: presents_def checked_add_u64_def checked_succ_u64 split: if_splits)
    then have "uint (sim_next_local_sequence r1) = uint (sim_next_local_sequence r) + 1"
      by (simp add: uint_succ_u64)
    ultimately show ?thesis
      using IH Cons.prems(2) ps p
      by (auto simp: presents_def upt_conv_Cons map_Suc_upt [symmetric] simp del: upt_Suc map_Suc_upt)
  qed
qed simp

section \<open>Reports do not show identifiers\<close>

definition map_ok :: "('a \<Rightarrow> 'b) \<Rightarrow> 'e + 'a \<Rightarrow> 'e + 'b" where
  "map_ok f r = and_then r (\<lambda>x. Ok (f x))"

lemma map_ok_Ok [simp]: "map_ok f (Ok x) = Ok (f x)"
  by (simp add: map_ok_def)

lemma map_ok_Err [simp]: "map_ok f (Err e) = Err e"
  by (simp add: map_ok_def)

lemma map_ok_and_then [simp]: "map_ok f (and_then m k) = and_then m (\<lambda>x. map_ok f (k x))"
  by (cases m) simp_all

lemma and_then_map_ok [simp]: "and_then (map_ok f m) h = and_then m (\<lambda>x. h (f x))"
  by (cases m) simp_all

lemma map_err_map_ok [simp]: "map_err g (map_ok f m) = map_ok f (map_err g m)"
  by (cases m) simp_all

definition renamed :: "FarePolicyId \<Rightarrow> FarePolicy \<Rightarrow> FarePolicy" where
  "renamed i p = FarePolicy ((definition_of p)\<lparr> policy_id := i \<rparr>)"

lemma renamed_simps [simp]:
  "definition_of (renamed i p) = (definition_of p)\<lparr> policy_id := i \<rparr>"
  by (simp add: renamed_def)

lemma apply_transfer_renamed:
  "apply_transfer (renamed i p) now h fare = map_ok (\<lambda>t. t\<lparr> ta_policy_id := i \<rparr>) (apply_transfer p now h fare)"
  by (simp add: apply_transfer_def Transfer_validate_fare_def transfer_is_eligible_def Let_def cong: if_cong option.case_cong)

lemma apply_fare_caps_renamed:
  "apply_fare_caps (renamed i p) h fare = map_ok (\<lambda>t. t\<lparr> ca_policy_id := i \<rparr>) (apply_fare_caps p h fare)"
  by (simp add: apply_fare_caps_def Cap_validate_amount_def Let_def cong: if_cong)

lemma apply_transit_product_renamed:
  "apply_transit_product (renamed i p) product now origin destination fare =
    map_ok (\<lambda>t. t\<lparr> pa_policy_id := i \<rparr>) (apply_transit_product p product now origin destination fare)"
  by (simp add: apply_transit_product_def Product_validate_fare_def Let_def
      cong: if_cong option.case_cong ProductApplicationOutcome.case_cong split: option.split)

lemma evaluate_fare_renamed:
  "evaluate_fare (renamed i p) input = map_ok (\<lambda>e. e\<lparr> fe_policy_id := i \<rparr>) (evaluate_fare p input)"
  by (simp add: evaluate_fare_def validate_balance_def apply_transfer_renamed apply_fare_caps_renamed
      apply_transit_product_renamed Let_def cong: if_cong ProductApplicationOutcome.case_cong)

lemma policy_id_outcome:
  "e\<lparr> fe_policy_id := i, fe_outcome := outcome \<rparr> = e\<lparr> fe_outcome := outcome, fe_policy_id := i \<rparr>" for e :: FareEvaluation
  by (cases e) simp

lemma apply_offline_limit_renamed:
  "apply_offline_limit (e\<lparr> fe_policy_id := i \<rparr>) limit = map_ok (\<lambda>e. e\<lparr> fe_policy_id := i \<rparr>) (apply_offline_limit e limit)"
  by (simp add: apply_offline_limit_def with_outcome_def policy_id_outcome)

lemma and_then_if: "and_then (if b then x else y) k = (if b then and_then x k else and_then y k)"
  by simp

lemma evaluate_fare_offline_renamed:
  "evaluate_fare_offline (renamed i p) input ctx =
    map_ok (\<lambda>e. e\<lparr> oe_evaluation := (oe_evaluation e)\<lparr> fe_policy_id := i \<rparr> \<rparr>) (evaluate_fare_offline p input ctx)"
  by (simp add: evaluate_fare_offline_def validate_provisional_limit_def evaluate_fare_renamed
      apply_offline_limit_renamed with_outcome_def policy_id_outcome and_then_if if_distrib [of "map_ok _"] cong: if_cong)

text \<open>Two readings of an action that differ in the credential identifier only.\<close>

fun same_action :: "ScenarioAction \<Rightarrow> ScenarioAction \<Rightarrow> bool" where
  "same_action (SetConnectivity c) (SetConnectivity c') \<longleftrightarrow> c = c'"
| "same_action (ProcessFare input fares) (ProcessFare input' fares') \<longleftrightarrow>
    input\<lparr> tap_credential_id := 0 \<rparr> = input'\<lparr> tap_credential_id := 0 \<rparr> \<and> fares = fares'"
| "same_action _ _ \<longleftrightarrow> False"

definition same_reader :: "ReaderSimulator \<Rightarrow> ReaderSimulator \<Rightarrow> bool" where
  "same_reader r r' \<longleftrightarrow> sim_protocol_version r = sim_protocol_version r' \<and>
    sim_software_version r = sim_software_version r' \<and> sim_state r = sim_state r' \<and>
    sim_next_local_sequence r = sim_next_local_sequence r'"

text \<open>What a report shows of a tap.\<close>

definition tap_summary :: "ReaderFareProcessingError + ReaderFareEvaluation
    \<Rightarrow> ReaderFareProcessingError + FareEvaluationOutcome \<times> Money" where
  "tap_summary = map_ok (\<lambda>e. (fe_outcome (reader_evaluation e), ev_final_fare (fe_evidence (reader_evaluation e))))"

lemma evaluate_tap_summary:
  assumes "input\<lparr> tap_credential_id := 0 \<rparr> = input'\<lparr> tap_credential_id := 0 \<rparr>"
  shows "tap_summary (evaluate_tap mode (renamed i p) input' fares) = tap_summary (evaluate_tap mode p input fares)"
proof -
  have "tap_event_time input' = tap_event_time input" "tap_origin_zone input' = tap_origin_zone input"
    "tap_destination_zone input' = tap_destination_zone input"
    using assms by (cases input; cases input'; simp)+
  then show ?thesis
    by (cases mode) (simp_all add: tap_summary_def evaluate_tap_def evaluate_fare_renamed evaluate_fare_offline_renamed)
qed

lemma tap_summary_cases:
  assumes "tap_summary x = tap_summary y"
  shows "case x of Err e \<Rightarrow> y = Err e
    | Ok u \<Rightarrow> (\<exists>v. y = Ok v \<and> fe_outcome (reader_evaluation u) = fe_outcome (reader_evaluation v) \<and>
        ev_final_fare (fe_evidence (reader_evaluation u)) = ev_final_fare (fe_evidence (reader_evaluation v)))"
  using assms by (cases x; cases y) (auto simp: tap_summary_def)

lemma present_credential_same:
  assumes "same_reader r r'" "present_credential g input r = (x, s)" "present_credential g' input' r' = (x', s')"
  shows "same_reader s s' \<and> (case x of Err e \<Rightarrow> x' = Err e
    | Ok u \<Rightarrow> (\<exists>v. x' = Ok v \<and> cp_local_sequence_number u = cp_local_sequence_number v \<and>
        cp_processing_mode u = cp_processing_mode v))"
  using assms
  by (cases "mode_of_state (sim_state r')"; cases "checked_add_u64 (sim_next_local_sequence r') 1";
      cases "LocalSequenceNumber_new (sim_next_local_sequence r')")
    (auto simp: present_credential_def same_reader_def)

lemma process_fare_same:
  assumes "same_reader r r'" and input: "input\<lparr> tap_credential_id := 0 \<rparr> = input'\<lparr> tap_credential_id := 0 \<rparr>"
    and runs: "process_fare g p input fares r = (x, s)" "process_fare g' (renamed i p) input' fares r' = (x', s')"
  shows "same_reader s s' \<and> (case x of Err e \<Rightarrow> x' = Err e
    | Ok u \<Rightarrow> (\<exists>v. x' = Ok v \<and>
        cp_local_sequence_number (td_presentation u) = cp_local_sequence_number (td_presentation v) \<and>
        cp_processing_mode (td_presentation u) = cp_processing_mode (td_presentation v) \<and>
        tap_summary (Ok (td_fare_evaluation u)) = tap_summary (Ok (td_fare_evaluation v))))"
proof (cases "mode_of_state (sim_state r)")
  case (Inl e)
  then show ?thesis using assms(1) runs by (auto simp: process_fare_def same_reader_def)
next
  case (Inr mode)
  then have mode: "mode_of_state (sim_state r') = Ok mode" using assms(1) by (simp add: same_reader_def)
  note tap = tap_summary_cases [OF evaluate_tap_summary [OF input, of mode i p fares, symmetric]]
  show ?thesis
  proof (cases "evaluate_tap mode p input fares")
    case (Inl e)
    then show ?thesis using tap Inr mode runs assms(1) by (auto simp: process_fare_def)
  next
    case (Inr u)
    then obtain v where v: "evaluate_tap mode (renamed i p) input' fares = Ok v"
      and uv: "tap_summary (Ok u :: ReaderFareProcessingError + _) = tap_summary (Ok v)"
      using tap by (auto simp: tap_summary_def)
    obtain y t y' t' where shown: "present_credential g input r = (y, t)" "present_credential g' input' r' = (y', t')"
      by fastforce
    show ?thesis
      using present_credential_same [OF assms(1) shown] runs Inr v uv mode \<open>mode_of_state (sim_state r) = Ok mode\<close> shown
      by (cases y) (auto simp: process_fare_def)
  qed
qed

lemma run_action_same:
  assumes "same_action a b" "same_reader r r'"
    "run_action g p a r = (kind, result, s)" "run_action g' (renamed i p) b r' = (kind', result', s')"
  shows "kind = kind' \<and> result = result' \<and> same_reader s s'"
proof (cases a)
  case (SetConnectivity c)
  then have b: "b = SetConnectivity c" using assms(1) by (cases b) auto
  show ?thesis using assms(2-4) unfolding SetConnectivity b
    by (auto simp: set_connectivity_def same_reader_def split: if_splits)
next
  case (ProcessFare input fares)
  then obtain input' where b: "b = ProcessFare input' fares"
    and input: "input\<lparr> tap_credential_id := 0 \<rparr> = input'\<lparr> tap_credential_id := 0 \<rparr>"
    using assms(1) by (cases b) auto
  obtain x t x' t' where taps: "process_fare g p input fares r = (x, t)"
    "process_fare g' (renamed i p) input' fares r' = (x', t')" by fastforce
  show ?thesis
    using process_fare_same [OF assms(2) input taps] assms(3,4) taps unfolding ProcessFare b
    by (cases x) (auto simp: tap_summary_def)
qed

lemma run_actions_same:
  assumes "list_all2 same_action as bs" "same_reader r r'"
  shows "fst (run_actions g p n as r) = fst (run_actions g' (renamed i p) n bs r')"
  using assms
proof (induction as bs arbitrary: n r r' rule: list_all2_induct)
  case (Cons a as b bs)
  obtain kind result s kind' result' s' where
    run: "run_action (g n) p a r = (kind, result, s)" "run_action (g' n) (renamed i p) b r' = (kind', result', s')"
    by (metis prod_cases3)
  note same = run_action_same [OF Cons.hyps(1) Cons.prems run]
  show ?case
    using Cons.IH [of s s' "n + 1"] same run
    by (simp add: health_snapshot_def same_reader_def case_prod_beta)
qed simp

lemma demo_policy_renamed: "demo_policy i = map_ok (renamed i) (demo_policy 0)"
  by (simp add: demo_policy_def checked_def FarePolicyVersion_new_def TransferWindow_from_milliseconds_def
      FarePolicy_validate_def validate_money_def is_negative_def from_minor_units_def renamed_def)

lemma demo_input_renamed:
  "demo_presentation_input g t a b = map_ok (\<lambda>x. x\<lparr> tap_credential_id := g \<rparr>) (demo_presentation_input 0 t a b)"
  by (simp add: demo_presentation_input_def)

lemma demo_actions_same:
  "\<exists>actions actions'. demo_actions credentials = Ok actions \<and> demo_actions (\<lambda>_. 0) = Ok actions' \<and>
    list_all2 same_action actions' actions"
proof -
  have time: "demo_event_time t = Ok t" if "0 \<le> sint t" for t
    using that by (simp add: demo_event_time_def checked_def EventTime_from_unix_milliseconds_def)
  show ?thesis
    by (simp add: demo_actions_def demo_presentation_input_def demo_offline_context_def demo_protocol_zone_def
        checked_def ProtocolZoneId_new_def time BASE_TIME_MILLISECONDS_def)
qed

lemma demo_independent:
  "run_demo_scenario reader policy credentials transactions = run_demo_scenario 0 0 (\<lambda>_. 0) (\<lambda>_. 0)"
proof -
  define start :: "ReaderId \<Rightarrow> ReaderSimulator" where
    "start i = \<lparr> sim_reader_id = i, sim_protocol_version = DeviceProtocolVersion_CURRENT,
      sim_software_version = CARGO_PKG_VERSION, sim_state = ReadyOnline, sim_next_local_sequence = 1 \<rparr>" for i
  have "validate_software_version CARGO_PKG_VERSION = Ok ()" by code_simp
  then have new: "and_then (map_err Demo_Reader (ReaderSimulator_new i DeviceProtocolVersion_CURRENT CARGO_PKG_VERSION))
      (\<lambda>reader. case ReaderSimulator_start Connected reader of (Err e, _) \<Rightarrow> Err (Demo_Reader e) | (Ok _, reader) \<Rightarrow> k reader)
    = k (start i)" for i and k :: "ReaderSimulator \<Rightarrow> DemoScenarioError + 'a"
    by (simp add: ReaderSimulator_new_def ReaderSimulator_start_def start_def)
  obtain actions actions' where acts: "demo_actions credentials = Ok actions" "demo_actions (\<lambda>_. 0) = Ok actions'"
    "list_all2 same_action actions' actions" using demo_actions_same by blast
  obtain p where p: "demo_policy 0 = Ok p"
    by (simp add: demo_policy_def checked_def FarePolicyVersion_new_def TransferWindow_from_milliseconds_def
      FarePolicy_validate_def validate_money_def is_negative_def from_minor_units_def)
  have "same_reader (start 0) (start reader)" by (simp add: same_reader_def start_def)
  then have "fst (run_scenario (\<lambda>_. 0) p actions' (start 0)) = fst (run_scenario transactions (renamed policy p) actions (start reader))"
    unfolding run_scenario_def by (rule run_actions_same [OF acts(3)])
  then show ?thesis
    unfolding run_demo_scenario_def new using acts p demo_policy_renamed [of policy] by simp
qed

section \<open>Properties\<close>

text \<open>
  C28. A reader numbers its presentations without gaps: whatever calls are made of a new reader, its
  presentations carry the sequence numbers 1, 2, 3 and so on, its own identity and protocol
  version, and the processing mode of the state it was in; a call that fails changes nothing; and a
  stopped reader presents nothing more.
\<close>

theorem presentations_numbered:
  assumes "ReaderSimulator_new reader version software = Ok r" "simulator_run calls r = (ps, r')"
  shows "map (\<lambda>(s, p). uint (cp_local_sequence_number p)) ps = map int [1..<Suc (length ps)] \<and>
    uint (sim_next_local_sequence r') = int (length ps) + 1 \<and>
    (\<forall>(s, p) \<in> set ps. mode_of_state s = Ok (cp_processing_mode p) \<and> cp_reader_id p = reader \<and>
      cp_protocol_version p = version) \<and>
    (fst (simulator_call call r') \<longrightarrow> simulator_call call r' = (True, [], r')) \<and>
    (sim_state r' = Stopped \<longrightarrow> simulator_run later r' = ([], r'))"
proof -
  have r: "sim_next_local_sequence r = 1" "sim_reader_id r = reader" "sim_protocol_version r = version"
    using assms(1) by (auto simp: ReaderSimulator_new_def result_simps)
  have "map int [1..<Suc n] = map (\<lambda>k. 1 + int k) [0..<n]" for n
    by (simp add: map_Suc_upt [symmetric] comp_def del: upt_Suc map_Suc_upt)
  moreover have "fst (simulator_call call r') \<longrightarrow> simulator_call call r' = (True, [], r')"
    using simulator_call_cases [of call r' True] by (cases "simulator_call call r'") auto
  ultimately show ?thesis
    using simulator_run_numbers [OF assms(2)] r simulator_run_stopped by simp
qed

theorem presentations_numbered_witness:
  "\<exists>r ps r'. ReaderSimulator_new 7 DeviceProtocolVersion_CURRENT CARGO_PKG_VERSION = Ok r \<and>
    simulator_run [Call_start Connected, Call_present_credential 3
        \<lparr> tap_credential_id = 1, tap_credential_medium = Medium_Card, tap_event_time = 5, tap_origin_zone = 1,
          tap_destination_zone = 2 \<rparr>, Call_stop, Call_stop] r = (ps, r') \<and>
    map (\<lambda>(s, p). uint (cp_local_sequence_number p)) ps = [1] \<and> uint (sim_next_local_sequence r') = 2 \<and>
    simulator_call (Call_start Connected) r' = (True, [], r') \<and> simulator_run [Call_start Connected] r' = ([], r')"
proof -
  define r :: ReaderSimulator where "r = \<lparr> sim_reader_id = 7, sim_protocol_version = DeviceProtocolVersion_CURRENT,
    sim_software_version = CARGO_PKG_VERSION, sim_state = Booting, sim_next_local_sequence = 1 \<rparr>"
  define tap :: ReaderPresentationInput where "tap = \<lparr> tap_credential_id = 1, tap_credential_medium = Medium_Card,
    tap_event_time = 5, tap_origin_zone = 1, tap_destination_zone = 2 \<rparr>"
  have new: "ReaderSimulator_new 7 DeviceProtocolVersion_CURRENT CARGO_PKG_VERSION = Ok r"
    unfolding r_def by code_simp
  obtain ps r' where run: "simulator_run [Call_start Connected, Call_present_credential 3 tap, Call_stop, Call_stop] r = (ps, r')"
    by fastforce
  have "length ps = 1" "sim_state r' = Stopped"
    using run unfolding r_def tap_def
    by (auto simp: ReaderSimulator_start_def ReaderSimulator_stop_def present_credential_def checked_add_u64_def
        LocalSequenceNumber_new_def)
  moreover have "fst (simulator_call (Call_start Connected) r')"
    using \<open>sim_state r' = Stopped\<close> by (simp add: ReaderSimulator_start_def)
  ultimately show ?thesis
    using presentations_numbered [OF new run, of "Call_start Connected" "[Call_start Connected]"] new run
    unfolding tap_def by (intro exI [of _ r] exI [of _ ps] exI [of _ r']) simp
qed

text \<open>
  C30. Reports are deterministic: the report of a scenario does not depend on the identifiers that are
  generated for the reader, the policy, the credentials and the transactions.
\<close>

theorem scenario_deterministic:
  assumes "list_all2 same_action actions actions'" "same_reader r r'"
  shows "fst (run_scenario g policy actions r) = fst (run_scenario g' (renamed i policy) actions' r')"
  unfolding run_scenario_def by (rule run_actions_same [OF assms])

definition plain_tap :: "FareCredentialId \<Rightarrow> ReaderPresentationInput" where
  "plain_tap i = \<lparr> tap_credential_id = i, tap_credential_medium = Medium_Card, tap_event_time = 5000000,
    tap_origin_zone = 1, tap_destination_zone = 3 \<rparr>"

definition plain_reader :: "ReaderId \<Rightarrow> ReaderSimulator" where
  "plain_reader i = \<lparr> sim_reader_id = i, sim_protocol_version = DeviceProtocolVersion_CURRENT,
    sim_software_version = CARGO_PKG_VERSION, sim_state = ReadyOnline, sim_next_local_sequence = 1 \<rparr>"

theorem scenario_deterministic_witness:
  "fst (run_scenario (\<lambda>_. 1) (FarePolicy example_definition) [ProcessFare (plain_tap 2) demo_online_context] (plain_reader 3)) =
   fst (run_scenario (\<lambda>n. of_nat n) (renamed 4 (FarePolicy example_definition))
     [ProcessFare (plain_tap 5) demo_online_context] (plain_reader 6))"
  by (rule scenario_deterministic) (simp_all add: same_reader_def plain_tap_def plain_reader_def)

text \<open>
  The demonstration always runs to its end and always reports the same six steps: an online tap of
  400, the loss of the connection, a tap that lacks the offline context and takes no sequence number,
  an offline tap of 400 approved provisionally, the return of the connection, and an online tap of
  250.
\<close>

theorem demo_report:
  "run_demo_scenario reader policy credentials transactions =
    Ok [\<lparr> step_number = 1, step_action = FarePresentation, step_state = ReadyOnline, step_next_local_sequence = 2,
          step_result = FareProcessed 1 Online (Outcome_Approved (from_minor_units 400 Usd) StandardFare) (from_minor_units 400 Usd) \<rparr>,
        \<lparr> step_number = 2, step_action = ConnectivityChange, step_state = ReadyOffline, step_next_local_sequence = 2,
          step_result = ConnectivityChanged Disconnected \<rparr>,
        \<lparr> step_number = 3, step_action = FarePresentation, step_state = ReadyOffline, step_next_local_sequence = 2,
          step_result = Scenario_Failed Scenario_MissingOfflineContext \<rparr>,
        \<lparr> step_number = 4, step_action = FarePresentation, step_state = ReadyOffline, step_next_local_sequence = 3,
          step_result = FareProcessed 2 Offline (Outcome_Approved (from_minor_units 400 Usd) OfflineProvisional) (from_minor_units 400 Usd) \<rparr>,
        \<lparr> step_number = 5, step_action = ConnectivityChange, step_state = ReadyOnline, step_next_local_sequence = 3,
          step_result = ConnectivityChanged Connected \<rparr>,
        \<lparr> step_number = 6, step_action = FarePresentation, step_state = ReadyOnline, step_next_local_sequence = 4,
          step_result = FareProcessed 3 Online (Outcome_Approved (from_minor_units 250 Usd) StandardFare) (from_minor_units 250 Usd) \<rparr>]"
  unfolding demo_independent [of reader policy credentials transactions] by code_simp

end
