(* ===== verification/ReaderTables.thy ===== *)
theory ReaderTables
  imports FareTransaction Protocol
begin

text \<open>
  The reader's SQLite database: the tables and constraints of
  \<open>crates/persistence/reader_migrations/*.sql\<close> as lists of rows, the driver calls the reader
  modules make, and the transactions around them.  Identifier columns hold the text of an
  identifier; an \<open>INTEGER\<close> column is an \<open>int\<close> (a value bound to one is an \<open>i64\<close>, and the only
  arithmetic, the two counters, cannot leave that range before a guard or a decoder refuses it).
  Free text is a list of Unicode scalar values.  The pool has one connection, so nothing runs
  between the statements of a transaction.

  A driver call consumes one entry of \<open>sq_faults\<close>: \<open>Call_Refused\<close> makes it fail without effect,
  \<open>Call_AnswerLost\<close> makes a commit (or a statement outside a transaction) take effect and fail.
  When the script is used up no call fails.  A transaction that is dropped is rolled back.
\<close>

type_synonym UnixMs = int
type_synonym u32 = "32 word"

text \<open>\<open>try_from\<close> between column values and Rust integers.\<close>

definition u64_try_from :: "int \<Rightarrow> u64 option" where
  "u64_try_from k = (if 0 \<le> k \<and> k < 18446744073709551616 then Some (word_of_int k) else None)"

definition u32_try_from :: "int \<Rightarrow> u32 option" where
  "u32_try_from k = (if 0 \<le> k \<and> k < 4294967296 then Some (word_of_int k) else None)"

definition u16_try_from :: "int \<Rightarrow> u16 option" where
  "u16_try_from k = (if 0 \<le> k \<and> k < 65536 then Some (word_of_int k) else None)"

definition i64_column :: "u64 \<Rightarrow> int option" where
  "i64_column v = (if uint v \<le> i64_max then Some (uint v) else None)"

record ReaderStateRow =
  rs_reader_id :: string
  rs_environment_id :: ustr
  rs_software_version :: ustr
  rs_protocol_version :: int
  rs_next_local_sequence :: int
  rs_last_acknowledged_sequence :: int
  rs_created_at :: UnixMs
  rs_updated_at :: UnixMs

record OfflineTransactionRow =
  ot_transaction_id :: string
  ot_reader_id :: string
  ot_sequence :: int
  ot_credential_id :: string
  ot_event_time :: int
  ot_policy_version :: int
  ot_decision_json :: ustr
  ot_envelope_json :: ustr
  ot_queue_state :: string
  ot_attempt_count :: int
  ot_next_retry_at :: "UnixMs option"
  ot_failure_category :: "ustr option"
  ot_created_at :: UnixMs
  ot_updated_at :: UnixMs

record BatchRow =
  sb_batch_id :: string
  sb_reader_id :: string
  sb_protocol_version :: int
  sb_first_sequence :: int
  sb_last_sequence :: int
  sb_state :: string
  sb_attempt_count :: int
  sb_submitted_at :: "UnixMs option"
  sb_next_retry_at :: "UnixMs option"
  sb_failure_category :: "ustr option"
  sb_created_at :: UnixMs
  sb_updated_at :: UnixMs

record BatchEntryRow =
  se_batch_id :: string
  se_reader_id :: string
  se_transaction_id :: string
  se_sequence :: int
  se_position :: int

record AcknowledgementRow =
  sa_batch_id :: string
  sa_reader_id :: string
  sa_protocol_version :: int
  sa_first_sequence :: int
  sa_last_sequence :: int
  sa_received_at :: UnixMs
  sa_payload_json :: ustr
  sa_applied_at :: "UnixMs option"

record AcknowledgementEntryRow =
  ar_batch_id :: string
  ar_reader_id :: string
  ar_transaction_id :: string
  ar_sequence :: int
  ar_position :: int
  ar_outcome :: string
  ar_failure_category :: "ustr option"
  ar_retry_at :: "UnixMs option"

record ReaderDb =
  rd_state :: "ReaderStateRow option"
  rd_queue :: "OfflineTransactionRow list"
  rd_batches :: "BatchRow list"
  rd_entries :: "BatchEntryRow list"
  rd_acks :: "AcknowledgementRow list"
  rd_ack_entries :: "AcknowledgementEntryRow list"

definition empty_reader_db :: ReaderDb where
  "empty_reader_db = \<lparr> rd_state = None, rd_queue = [], rd_batches = [], rd_entries = [],
    rd_acks = [], rd_ack_entries = [] \<rparr>"

section \<open>Constraints\<close>

text \<open>SQLite's \<open>trim\<close> removes spaces only.\<close>

definition sqlite_trim :: "ustr \<Rightarrow> ustr" where
  "sqlite_trim t = rev (dropWhile (\<lambda>c. c = 32) (rev (dropWhile (\<lambda>c. c = 32) t)))"

definition not_negative :: "int option \<Rightarrow> bool" where
  "not_negative v \<longleftrightarrow> (case v of None \<Rightarrow> True | Some x \<Rightarrow> 0 \<le> x)"

definition protocol_column_ok :: "int \<Rightarrow> bool" where
  "protocol_column_ok v \<longleftrightarrow> 0 < v \<and> v \<le> 65535"

definition reader_state_checks :: "ReaderStateRow \<Rightarrow> bool" where
  "reader_state_checks r \<longleftrightarrow>
    length (rs_reader_id r) = 36 \<and> sqlite_trim (rs_environment_id r) \<noteq> [] \<and>
    sqlite_trim (rs_software_version r) \<noteq> [] \<and> protocol_column_ok (rs_protocol_version r) \<and>
    0 < rs_next_local_sequence r \<and> 0 \<le> rs_last_acknowledged_sequence r \<and>
    rs_last_acknowledged_sequence r < rs_next_local_sequence r \<and>
    0 \<le> rs_created_at r \<and> rs_created_at r \<le> rs_updated_at r"

definition queue_checks :: "OfflineTransactionRow \<Rightarrow> bool" where
  "queue_checks r \<longleftrightarrow>
    length (ot_transaction_id r) = 36 \<and> length (ot_reader_id r) = 36 \<and> 0 < ot_sequence r \<and>
    length (ot_credential_id r) = 36 \<and> 0 \<le> ot_event_time r \<and> 0 < ot_policy_version r \<and>
    sqlite_trim (ot_decision_json r) \<noteq> [] \<and> sqlite_trim (ot_envelope_json r) \<noteq> [] \<and>
    ot_queue_state r \<in> {''pending'', ''in_flight'', ''acknowledged'', ''retryable_failure'',
      ''permanent_failure'', ''manual_review''} \<and>
    0 \<le> ot_attempt_count r \<and> not_negative (ot_next_retry_at r) \<and>
    0 \<le> ot_created_at r \<and> ot_created_at r \<le> ot_updated_at r"

definition batch_checks :: "BatchRow \<Rightarrow> bool" where
  "batch_checks r \<longleftrightarrow>
    length (sb_batch_id r) = 36 \<and> length (sb_reader_id r) = 36 \<and>
    protocol_column_ok (sb_protocol_version r) \<and>
    0 < sb_first_sequence r \<and> sb_first_sequence r \<le> sb_last_sequence r \<and>
    sb_state r \<in> {''prepared'', ''in_flight'', ''retryable_failure'', ''acknowledged'',
      ''permanent_failure'', ''manual_review''} \<and>
    0 \<le> sb_attempt_count r \<and> not_negative (sb_submitted_at r) \<and> not_negative (sb_next_retry_at r) \<and>
    0 \<le> sb_created_at r \<and> sb_created_at r \<le> sb_updated_at r"

definition entry_checks :: "BatchEntryRow \<Rightarrow> bool" where
  "entry_checks r \<longleftrightarrow>
    length (se_batch_id r) = 36 \<and> length (se_reader_id r) = 36 \<and>
    length (se_transaction_id r) = 36 \<and> 0 < se_sequence r \<and> 0 \<le> se_position r"

definition ack_checks :: "AcknowledgementRow \<Rightarrow> bool" where
  "ack_checks r \<longleftrightarrow>
    length (sa_batch_id r) = 36 \<and> length (sa_reader_id r) = 36 \<and>
    protocol_column_ok (sa_protocol_version r) \<and>
    0 < sa_first_sequence r \<and> sa_first_sequence r \<le> sa_last_sequence r \<and>
    0 \<le> sa_received_at r \<and> sqlite_trim (sa_payload_json r) \<noteq> [] \<and>
    (case sa_applied_at r of None \<Rightarrow> True | Some t \<Rightarrow> sa_received_at r \<le> t)"

definition ack_entry_checks :: "AcknowledgementEntryRow \<Rightarrow> bool" where
  "ack_entry_checks r \<longleftrightarrow>
    length (ar_batch_id r) = 36 \<and> length (ar_reader_id r) = 36 \<and>
    length (ar_transaction_id r) = 36 \<and> 0 < ar_sequence r \<and> 0 \<le> ar_position r \<and>
    not_negative (ar_retry_at r) \<and>
    (ar_outcome r = ''acknowledged'' \<and> ar_failure_category r = None \<and> ar_retry_at r = None \<or>
     ar_outcome r = ''retryable_failure'' \<and>
       (\<exists>c \<in> set_option (ar_failure_category r). sqlite_trim c \<noteq> []) \<and> ar_retry_at r \<noteq> None \<or>
     (ar_outcome r = ''permanent_failure'' \<or> ar_outcome r = ''manual_review'') \<and>
       (\<exists>c \<in> set_option (ar_failure_category r). sqlite_trim c \<noteq> []) \<and> ar_retry_at r = None)"

section \<open>Statements\<close>

datatype SqliteError = Sqlite_Unique | Sqlite_Other

type_synonym 'a statement = "ReaderDb \<Rightarrow> SqliteError + 'a \<times> ReaderDb"

definition sql_select :: "(ReaderDb \<Rightarrow> 'a) \<Rightarrow> 'a statement" where
  "sql_select f db = Ok (f db, db)"

text \<open>\<open>INSERT\<close>: check constraints, then unique keys, then foreign keys.\<close>

definition insert_offline_transaction :: "OfflineTransactionRow \<Rightarrow> unit statement" where
  "insert_offline_transaction row db =
    (if \<not> queue_checks row then Err Sqlite_Other
     else if ot_transaction_id row \<in> set (map ot_transaction_id (rd_queue db)) then Err Sqlite_Unique
     else if list_ex (\<lambda>r. ot_reader_id r = ot_reader_id row \<and> ot_sequence r = ot_sequence row) (rd_queue db)
     then Err Sqlite_Unique
     else if map_option rs_reader_id (rd_state db) \<noteq> Some (ot_reader_id row) then Err Sqlite_Other
     else Ok ((), db\<lparr> rd_queue := rd_queue db @ [row] \<rparr>))"

definition insert_batch :: "BatchRow \<Rightarrow> unit statement" where
  "insert_batch row db =
    (if \<not> batch_checks row then Err Sqlite_Other
     else if sb_batch_id row \<in> set (map sb_batch_id (rd_batches db)) then Err Sqlite_Unique
     else if map_option rs_reader_id (rd_state db) \<noteq> Some (sb_reader_id row) then Err Sqlite_Other
     else Ok ((), db\<lparr> rd_batches := rd_batches db @ [row] \<rparr>))"

definition insert_batch_entry :: "BatchEntryRow \<Rightarrow> unit statement" where
  "insert_batch_entry row db =
    (if \<not> entry_checks row then Err Sqlite_Other
     else if list_ex (\<lambda>r. se_batch_id r = se_batch_id row \<and>
         (se_transaction_id r = se_transaction_id row \<or> se_sequence r = se_sequence row \<or>
          se_position r = se_position row)) (rd_entries db)
     then Err Sqlite_Unique
     else if \<not> list_ex (\<lambda>b. sb_batch_id b = se_batch_id row \<and> sb_reader_id b = se_reader_id row) (rd_batches db)
       \<or> \<not> list_ex (\<lambda>t. ot_transaction_id t = se_transaction_id row \<and> ot_reader_id t = se_reader_id row \<and>
           ot_sequence t = se_sequence row) (rd_queue db)
     then Err Sqlite_Other
     else Ok ((), db\<lparr> rd_entries := rd_entries db @ [row] \<rparr>))"

definition insert_acknowledgement :: "AcknowledgementRow \<Rightarrow> unit statement" where
  "insert_acknowledgement row db =
    (if \<not> ack_checks row then Err Sqlite_Other
     else if sa_batch_id row \<in> set (map sa_batch_id (rd_acks db)) then Err Sqlite_Unique
     else if \<not> list_ex (\<lambda>b. sb_batch_id b = sa_batch_id row \<and> sb_reader_id b = sa_reader_id row) (rd_batches db)
     then Err Sqlite_Other
     else Ok ((), db\<lparr> rd_acks := rd_acks db @ [row] \<rparr>))"

definition insert_acknowledgement_entry :: "AcknowledgementEntryRow \<Rightarrow> unit statement" where
  "insert_acknowledgement_entry row db =
    (if \<not> ack_entry_checks row then Err Sqlite_Other
     else if list_ex (\<lambda>r. ar_batch_id r = ar_batch_id row \<and>
         (ar_transaction_id r = ar_transaction_id row \<or> ar_sequence r = ar_sequence row \<or>
          ar_position r = ar_position row)) (rd_ack_entries db)
     then Err Sqlite_Unique
     else if \<not> list_ex (\<lambda>a. sa_batch_id a = ar_batch_id row \<and> sa_reader_id a = ar_reader_id row) (rd_acks db)
       \<or> \<not> list_ex (\<lambda>e. se_batch_id e = ar_batch_id row \<and> se_transaction_id e = ar_transaction_id row)
           (rd_entries db)
     then Err Sqlite_Other
     else Ok ((), db\<lparr> rd_ack_entries := rd_ack_entries db @ [row] \<rparr>))"

text \<open>
  \<open>UPDATE\<close> of the rows that satisfy \<open>hit\<close>, with the number of rows as its answer.  No update of the
  reader modules changes a key column.
\<close>

definition update_rows :: "('r \<Rightarrow> bool) \<Rightarrow> ('r \<Rightarrow> bool) \<Rightarrow> ('r \<Rightarrow> 'r) \<Rightarrow> 'r list \<Rightarrow> (nat \<times> 'r list) option" where
  "update_rows checks hit set_values rows =
    (if list_all (\<lambda>r. hit r \<longrightarrow> checks (set_values r)) rows
     then Some (length (filter hit rows), map (\<lambda>r. if hit r then set_values r else r) rows)
     else None)"

definition update_queue :: "(OfflineTransactionRow \<Rightarrow> bool) \<Rightarrow> (OfflineTransactionRow \<Rightarrow> OfflineTransactionRow)
    \<Rightarrow> nat statement" where
  "update_queue hit set_values db =
    (case update_rows queue_checks hit set_values (rd_queue db) of
       None \<Rightarrow> Err Sqlite_Other
     | Some (n, rows) \<Rightarrow> Ok (n, db\<lparr> rd_queue := rows \<rparr>))"

definition update_batches :: "(BatchRow \<Rightarrow> bool) \<Rightarrow> (BatchRow \<Rightarrow> BatchRow) \<Rightarrow> nat statement" where
  "update_batches hit set_values db =
    (case update_rows batch_checks hit set_values (rd_batches db) of
       None \<Rightarrow> Err Sqlite_Other
     | Some (n, rows) \<Rightarrow> Ok (n, db\<lparr> rd_batches := rows \<rparr>))"

definition update_acknowledgements ::
  "(AcknowledgementRow \<Rightarrow> bool) \<Rightarrow> (AcknowledgementRow \<Rightarrow> AcknowledgementRow) \<Rightarrow> nat statement" where
  "update_acknowledgements hit set_values db =
    (case update_rows ack_checks hit set_values (rd_acks db) of
       None \<Rightarrow> Err Sqlite_Other
     | Some (n, rows) \<Rightarrow> Ok (n, db\<lparr> rd_acks := rows \<rparr>))"

definition update_reader_state ::
  "(ReaderStateRow \<Rightarrow> bool) \<Rightarrow> (ReaderStateRow \<Rightarrow> ReaderStateRow) \<Rightarrow> ReaderStateRow option statement" where
  "update_reader_state hit set_values db =
    (case rd_state db of
       None \<Rightarrow> Ok (None, db)
     | Some r \<Rightarrow>
         if \<not> hit r then Ok (None, db)
         else if \<not> reader_state_checks (set_values r) then Err Sqlite_Other
         else Ok (Some (set_values r), db\<lparr> rd_state := Some (set_values r) \<rparr>))"

section \<open>Driver calls and transactions\<close>

datatype SqliteFault = Call_Ok | Call_Refused | Call_AnswerLost

record Sqlite =
  sq_db :: ReaderDb
  sq_faults :: "SqliteFault list"

definition next_fault :: "SqliteFault list \<Rightarrow> SqliteFault \<times> SqliteFault list" where
  "next_fault fs = (case fs of [] \<Rightarrow> (Call_Ok, []) | f # fs' \<Rightarrow> (f, fs'))"

text \<open>
  Code inside a transaction: it works on the transaction's copy of the tables, and a failure
  abandons that copy.  \<open>commit\<close> names the error of the commit for a result, or \<open>None\<close> where the
  code returns that result without committing.
\<close>

type_synonym ('e, 'a) tx = "ReaderDb \<times> SqliteFault list \<Rightarrow> ('e + 'a \<times> ReaderDb) \<times> SqliteFault list"

definition tx_bind :: "('e, 'a) tx \<Rightarrow> ('a \<Rightarrow> ('e, 'b) tx) \<Rightarrow> ('e, 'b) tx" where
  "tx_bind m k s =
    (case m s of
       (Err e, fs) \<Rightarrow> (Err e, fs)
     | (Ok (x, db), fs) \<Rightarrow> k x (db, fs))"

definition tx_result :: "'e + 'a \<Rightarrow> ('e, 'a) tx" where
  "tx_result r s = (and_then r (\<lambda>x. Ok (x, fst s)), snd s)"

definition tx_call :: "(SqliteError \<Rightarrow> 'e) \<Rightarrow> 'a statement \<Rightarrow> ('e, 'a) tx" where
  "tx_call err st s =
    (case next_fault (snd s) of
       (f, fs) \<Rightarrow> (if f = Call_Ok then map_err err (st (fst s)) else Err (err Sqlite_Other), fs))"

fun tx_each :: "('a \<Rightarrow> ('e, unit) tx) \<Rightarrow> 'a list \<Rightarrow> ('e, unit) tx" where
  "tx_each body [] = tx_result (Ok ())"
| "tx_each body (x # xs) = tx_bind (body x) (\<lambda>_. tx_each body xs)"

definition transaction :: "(SqliteError \<Rightarrow> 'e) \<Rightarrow> ('a \<Rightarrow> (SqliteError \<Rightarrow> 'e) option) \<Rightarrow> ('e, 'a) tx
    \<Rightarrow> Sqlite \<Rightarrow> ('e + 'a) \<times> Sqlite" where
  "transaction begin_err commit body w =
    (case next_fault (sq_faults w) of (f, fs) \<Rightarrow>
     if f \<noteq> Call_Ok then (Err (begin_err Sqlite_Other), w\<lparr> sq_faults := fs \<rparr>)
     else case body (sq_db w, fs) of
       (Err e, fs') \<Rightarrow> (Err e, w\<lparr> sq_faults := fs' \<rparr>)
     | (Ok (x, db), fs') \<Rightarrow>
         (case commit x of
            None \<Rightarrow> (Ok x, w\<lparr> sq_faults := fs' \<rparr>)
          | Some commit_err \<Rightarrow>
         (case next_fault fs' of (g, fs'') \<Rightarrow>
            (if g = Call_Ok then Ok x else Err (commit_err Sqlite_Other),
             \<lparr> sq_db = (if g = Call_Refused then sq_db w else db), sq_faults = fs'' \<rparr>))))"

text \<open>A statement outside a transaction commits by itself.\<close>

definition autocommit :: "(SqliteError \<Rightarrow> 'e) \<Rightarrow> 'a statement \<Rightarrow> Sqlite \<Rightarrow> ('e + 'a) \<times> Sqlite" where
  "autocommit err st w =
    (case next_fault (sq_faults w) of (f, fs) \<Rightarrow>
       case st (sq_db w) of
         Err e \<Rightarrow> (Err (err (if f = Call_Ok then e else Sqlite_Other)), w\<lparr> sq_faults := fs \<rparr>)
       | Ok (x, db) \<Rightarrow>
           (if f = Call_Ok then Ok x else Err (err Sqlite_Other),
            \<lparr> sq_db = (if f = Call_Refused then sq_db w else db), sq_faults = fs \<rparr>))"

text \<open>One fallible call after another, outside a transaction.\<close>

definition and_next :: "('e + 'a) \<times> Sqlite \<Rightarrow> ('a \<Rightarrow> Sqlite \<Rightarrow> ('e + 'b) \<times> Sqlite) \<Rightarrow> ('e + 'b) \<times> Sqlite" where
  "and_next rw k = (case rw of (Err e, w) \<Rightarrow> (Err e, w) | (Ok x, w) \<Rightarrow> k x w)"

definition map_failure :: "('e \<Rightarrow> 'f) \<Rightarrow> ('e + 'a) \<times> Sqlite \<Rightarrow> ('f + 'a) \<times> Sqlite" where
  "map_failure f rw = (map_err f (fst rw), snd rw)"

section \<open>Lemmas\<close>

lemma u64_try_from_eq_Some [result_simps]: "u64_try_from k = Some w \<longleftrightarrow> k = uint w"
  using uint_bounded [of w] by (auto simp: u64_try_from_def uint_word_of_int)

lemma i64_column_eq_Some [result_simps]: "i64_column v = Some k \<longleftrightarrow> k = uint v \<and> uint v \<le> i64_max"
  by (auto simp: i64_column_def)

named_theorems steady_intros \<open>code inside a transaction depends on the driver only through failures\<close>
named_theorems tx_simps \<open>code inside a transaction when no call fails\<close>

text \<open>
  What a transaction's body computes when no call fails, and that a body that succeeds computes
  just that.
\<close>

definition tx_ran :: "('e, 'a) tx \<Rightarrow> ReaderDb \<Rightarrow> 'e + 'a \<times> ReaderDb" where
  "tx_ran m db = fst (m (db, []))"

definition steady :: "('e, 'a) tx \<Rightarrow> bool" where
  "steady m \<longleftrightarrow> (\<forall>db. snd (m (db, [])) = []) \<and>
    (\<forall>db fs x db' fs'. m (db, fs) = (Ok (x, db'), fs') \<longrightarrow> tx_ran m db = Ok (x, db'))"

lemma steadyD: "steady m \<Longrightarrow> m (db, fs) = (Ok (x, db'), fs') \<Longrightarrow> tx_ran m db = Ok (x, db')"
  unfolding steady_def by blast

lemma next_fault_simps [simp]: "next_fault [] = (Call_Ok, [])" "next_fault (f # fs) = (f, fs)"
  by (simp_all add: next_fault_def)

lemma ran_result [tx_simps]: "tx_ran (tx_result r) db = and_then r (\<lambda>x. Ok (x, db))"
  by (simp add: tx_ran_def tx_result_def)

lemma ran_call [tx_simps]: "tx_ran (tx_call err st) db = map_err err (st db)"
  by (simp add: tx_ran_def tx_call_def)

lemma steady_result [steady_intros]: "steady (tx_result r)"
  by (auto simp: steady_def tx_ran_def tx_result_def)

lemma steady_call [steady_intros]: "steady (tx_call err st)"
  by (auto simp: steady_def tx_ran_def tx_call_def split: prod.splits if_splits)

lemma ran_bind:
  assumes "steady m"
  shows "tx_ran (tx_bind m k) db = and_then (tx_ran m db) (\<lambda>(x, db'). tx_ran (k x) db')"
proof -
  have "snd (m (db, [])) = []" using assms by (simp add: steady_def)
  then show ?thesis
    by (cases "m (db, [])") (auto simp: tx_ran_def tx_bind_def and_then_def split: sum.split)
qed

lemmas ran_binds [tx_simps] = ran_bind [OF steady_result] ran_bind [OF steady_call]

lemma steady_bind [steady_intros]:
  assumes "steady m" "\<And>x. steady (k x)"
  shows "steady (tx_bind m k)"
  unfolding steady_def
proof (intro conjI allI impI)
  fix db
  have "snd (m (db, [])) = []" "\<And>x db. snd (k x (db, [])) = []"
    using assms by (auto simp: steady_def)
  then show "snd (tx_bind m k (db, [])) = []"
    by (cases "m (db, [])") (auto simp: tx_bind_def split: sum.split)
next
  fix db fs y db' fs'
  assume run: "tx_bind m k (db, fs) = (Ok (y, db'), fs')"
  then obtain x db1 fs1 where "m (db, fs) = (Ok (x, db1), fs1)" "k x (db1, fs1) = (Ok (y, db'), fs')"
    by (auto simp: tx_bind_def split: prod.splits sum.splits)
  then have "tx_ran m db = Ok (x, db1)" "tx_ran (k x) db1 = Ok (y, db')"
    by (simp_all add: steadyD [OF assms(1)] steadyD [OF assms(2)])
  then show "tx_ran (tx_bind m k) db = Ok (y, db')"
    by (simp add: ran_bind [OF assms(1)])
qed

lemma steady_each [steady_intros]:
  assumes "\<And>x. steady (body x)"
  shows "steady (tx_each body xs)"
  using assms by (induction xs) (auto intro: steady_intros)

lemma ran_each_simps [tx_simps]:
  assumes "\<And>x. steady (body x)"
  shows "tx_ran (tx_each body []) db = Ok ((), db)"
    "tx_ran (tx_each body (x # xs)) db = and_then (tx_ran (body x) db) (\<lambda>(_, db'). tx_ran (tx_each body xs) db')"
  using assms by (simp_all add: tx_simps ran_bind)

lemma steady_if [steady_intros]: "steady m \<Longrightarrow> steady m' \<Longrightarrow> steady (if b then m else m')"
  by simp

lemma steady_option [steady_intros]:
  "steady m \<Longrightarrow> (\<And>x. steady (k x)) \<Longrightarrow> steady (case v of None \<Rightarrow> m | Some x \<Rightarrow> k x)"
  by (cases v) auto

lemma steady_prod [steady_intros]: "(\<And>x y. steady (k x y)) \<Longrightarrow> steady (case p of (x, y) \<Rightarrow> k x y)"
  by (cases p) auto

text \<open>
  A transaction either leaves the tables as they were, or leaves what its body computed;
  the second may fail too, when the answer to the commit was lost.
\<close>

lemma transaction_cases:
  assumes "transaction b commit body w = (r, w')" "steady body"
  obtains (failed) e where "sq_db w' = sq_db w" "r = Err e"
  | (dropped) x db where "sq_db w' = sq_db w" "r = Ok x" "tx_ran body (sq_db w) = Ok (x, db)" "commit x = None"
  | (committed) x where "tx_ran body (sq_db w) = Ok (x, sq_db w')" "r = Ok x \<or> isl r"
proof -
  obtain f fs where nf: "next_fault (sq_faults w) = (f, fs)" by (cases "next_fault (sq_faults w)")
  show thesis
  proof (cases "f = Call_Ok \<and> \<not> isl (fst (body (sq_db w, fs)))")
    case False
    then show thesis
      using assms(1) nf
      by (intro failed [of "projl r"])
        (auto simp: transaction_def split: prod.splits if_splits sum.splits option.splits)
  next
    case True
    then obtain x db fs' where body: "body (sq_db w, fs) = (Ok (x, db), fs')"
      by (cases "body (sq_db w, fs)", cases "fst (body (sq_db w, fs))") auto
    have ran: "tx_ran body (sq_db w) = Ok (x, db)"
      using assms(2) body by (rule steadyD)
    obtain g fs'' where ng: "next_fault fs' = (g, fs'')" by (cases "next_fault fs'")
    show thesis
    proof (cases "commit x")
      case None
      then show thesis
        using assms(1) True nf body ran by (intro dropped [of x db]) (auto simp: transaction_def)
    next
      case (Some c)
      have "w' = \<lparr> sq_db = (if g = Call_Refused then sq_db w else db), sq_faults = fs'' \<rparr>"
        "r = (if g = Call_Ok then Ok x else Err (c Sqlite_Other))"
        using assms(1) True nf body ng Some by (auto simp: transaction_def)
      then show thesis
        using ran failed committed by (cases g) auto
    qed
  qed
qed

lemma transaction_quiet:
  assumes "sq_faults w = []" "steady body"
  shows "transaction b commit body w =
    (case tx_ran body (sq_db w) of
       Err e \<Rightarrow> (Err e, w)
     | Ok (x, db) \<Rightarrow> (Ok x, if commit x = None then w else w\<lparr> sq_db := db \<rparr>))"
proof -
  have "body (sq_db w, []) = (tx_ran body (sq_db w), [])"
    using assms(2) by (simp add: steady_def tx_ran_def prod_eq_iff)
  then show ?thesis
    using assms(1) by (cases w) (auto simp: transaction_def split: sum.split prod.split option.split)
qed

lemma autocommit_cases:
  assumes "autocommit err st w = (r, w')"
  obtains (failed) e where "sq_db w' = sq_db w" "r = Err e"
  | (committed) x where "st (sq_db w) = Ok (x, sq_db w')" "r = Ok x \<or> isl r"
proof -
  obtain f fs where nf: "next_fault (sq_faults w) = (f, fs)" by (cases "next_fault (sq_faults w)")
  show thesis
  proof (cases "st (sq_db w)")
    case (Inl e)
    then show thesis
      using assms nf by (intro failed [of "projl r"]) (auto simp: autocommit_def)
  next
    case (Inr p)
    then show thesis
      using assms nf failed committed
      by (cases p; cases f) (auto simp: autocommit_def)
  qed
qed

lemma autocommit_quiet:
  assumes "sq_faults w = []"
  shows "autocommit err st w =
    (case st (sq_db w) of
       Err e \<Rightarrow> (Err (err e), w)
     | Ok (x, db) \<Rightarrow> (Ok x, w\<lparr> sq_db := db \<rparr>))"
  using assms by (cases w) (auto simp: autocommit_def split: sum.split prod.split)

lemma select_keeps:
  assumes "autocommit err (sql_select f) w = (r, w')"
  shows "sq_db w' = sq_db w \<and> (\<forall>x. r = Ok x \<longrightarrow> x = f (sq_db w))"
  using assms by (rule autocommit_cases) (auto simp: sql_select_def)

text \<open>What an \<open>UPDATE\<close> does to the rows.\<close>

lemma update_rows_eq_Some:
  "update_rows checks hit set_values rows = Some (n, rows') \<longleftrightarrow>
    (\<forall>r \<in> set rows. hit r \<longrightarrow> checks (set_values r)) \<and> n = length (filter hit rows) \<and>
    rows' = map (\<lambda>r. if hit r then set_values r else r) rows"
  by (auto simp: update_rows_def list_all_iff)

lemma update_queue_eq_Ok:
  "update_queue hit sv db = Ok (n, db') \<longleftrightarrow>
    (\<forall>r \<in> set (rd_queue db). hit r \<longrightarrow> queue_checks (sv r)) \<and> n = length (filter hit (rd_queue db)) \<and>
    db' = db\<lparr> rd_queue := map (\<lambda>r. if hit r then sv r else r) (rd_queue db) \<rparr>"
  by (auto simp: update_queue_def update_rows_def list_all_iff split: if_splits)

lemma update_batches_eq_Ok:
  "update_batches hit sv db = Ok (n, db') \<longleftrightarrow>
    (\<forall>r \<in> set (rd_batches db). hit r \<longrightarrow> batch_checks (sv r)) \<and> n = length (filter hit (rd_batches db)) \<and>
    db' = db\<lparr> rd_batches := map (\<lambda>r. if hit r then sv r else r) (rd_batches db) \<rparr>"
  by (auto simp: update_batches_def update_rows_def list_all_iff split: if_splits)

lemma update_acknowledgements_eq_Ok:
  "update_acknowledgements hit sv db = Ok (n, db') \<longleftrightarrow>
    (\<forall>r \<in> set (rd_acks db). hit r \<longrightarrow> ack_checks (sv r)) \<and> n = length (filter hit (rd_acks db)) \<and>
    db' = db\<lparr> rd_acks := map (\<lambda>r. if hit r then sv r else r) (rd_acks db) \<rparr>"
  by (auto simp: update_acknowledgements_def update_rows_def list_all_iff split: if_splits)

lemma update_reader_state_eq_Ok:
  "update_reader_state hit sv db = Ok (x, db') \<longleftrightarrow>
    (case rd_state db of
       None \<Rightarrow> x = None \<and> db' = db
     | Some r \<Rightarrow>
         if hit r then reader_state_checks (sv r) \<and> x = Some (sv r) \<and> db' = db\<lparr> rd_state := Some (sv r) \<rparr>
         else x = None \<and> db' = db)"
  by (auto simp: update_reader_state_def split: option.split)

lemmas update_eq_Ok = update_queue_eq_Ok update_batches_eq_Ok update_acknowledgements_eq_Ok
  update_reader_state_eq_Ok

lemma sql_select_eq_Ok [simp]: "sql_select f db = Ok (x, db') \<longleftrightarrow> x = f db \<and> db' = db"
  by (auto simp: sql_select_def)

section \<open>Relations kept by every call\<close>

text \<open>
  A reflexive and transitive relation on databases that holds across every statement of a piece of
  code holds across the code, whatever fails.
\<close>

definition statement_in :: "(ReaderDb \<Rightarrow> ReaderDb \<Rightarrow> bool) \<Rightarrow> 'a statement \<Rightarrow> bool" where
  "statement_in R st \<longleftrightarrow> (\<forall>db x db'. st db = Ok (x, db') \<longrightarrow> R db db')"

definition tx_in :: "(ReaderDb \<Rightarrow> ReaderDb \<Rightarrow> bool) \<Rightarrow> ('e, 'a) tx \<Rightarrow> bool" where
  "tx_in R m \<longleftrightarrow> steady m \<and> (\<forall>db x db'. tx_ran m db = Ok (x, db') \<longrightarrow> R db db')"

definition call_in :: "(ReaderDb \<Rightarrow> ReaderDb \<Rightarrow> bool) \<Rightarrow> (Sqlite \<Rightarrow> 'r \<times> Sqlite) \<Rightarrow> bool" where
  "call_in R f \<longleftrightarrow> (\<forall>w. R (sq_db w) (sq_db (snd (f w))))"

lemma call_inD: "call_in R f \<Longrightarrow> R (sq_db w) (sq_db (snd (f w)))"
  by (simp add: call_in_def)

locale table_preorder =
  fixes R :: "ReaderDb \<Rightarrow> ReaderDb \<Rightarrow> bool"
  assumes refl: "R db db"
    and trans: "R a b \<Longrightarrow> R b c \<Longrightarrow> R a c"
begin

lemma select_in: "statement_in R (sql_select f)"
  by (simp add: statement_in_def refl)

lemma call_tx_in: "statement_in R st \<Longrightarrow> tx_in R (tx_call err st)"
  by (auto simp: tx_in_def statement_in_def tx_simps steady_intros result_simps)

lemma result_tx_in: "tx_in R (tx_result r)"
  by (auto simp: tx_in_def tx_simps steady_intros result_simps refl)

lemma bind_tx_in:
  assumes "tx_in R m" "\<And>x. tx_in R (k x)"
  shows "tx_in R (tx_bind m k)"
proof -
  have steady: "steady m" "\<And>x. steady (k x)"
    using assms by (simp_all add: tx_in_def)
  have "R db db'" if run: "tx_ran (tx_bind m k) db = Ok (y, db')" for db y db'
  proof -
    obtain x db1 where "tx_ran m db = Ok (x, db1)" "tx_ran (k x) db1 = Ok (y, db')"
      using run steady by (auto simp: ran_bind result_simps)
    then have "R db db1" "R db1 db'"
      using assms by (auto simp: tx_in_def)
    then show ?thesis by (rule trans)
  qed
  then show ?thesis
    using steady by (auto simp: tx_in_def intro: steady_bind)
qed

lemma each_tx_in: "(\<And>x. tx_in R (body x)) \<Longrightarrow> tx_in R (tx_each body xs)"
  by (induction xs) (auto intro: result_tx_in bind_tx_in)

lemma if_tx_in: "tx_in R m \<Longrightarrow> tx_in R m' \<Longrightarrow> tx_in R (if b then m else m')"
  by simp

lemma option_tx_in:
  "tx_in R m \<Longrightarrow> (\<And>x. tx_in R (k x)) \<Longrightarrow> tx_in R (case v of None \<Rightarrow> m | Some x \<Rightarrow> k x)"
  by (cases v) auto

lemma prod_tx_in: "(\<And>x y. tx_in R (k x y)) \<Longrightarrow> tx_in R (case p of (x, y) \<Rightarrow> k x y)"
  by (cases p) auto

lemma transaction_in:
  assumes "tx_in R body"
  shows "call_in R (transaction b c body)"
  unfolding call_in_def
proof
  fix w
  obtain r w' where run: "transaction b c body w = (r, w')" by (cases "transaction b c body w")
  have "steady body" using assms by (simp add: tx_in_def)
  with run have "R (sq_db w) (sq_db w')"
    using assms by (cases rule: transaction_cases) (auto simp: tx_in_def refl)
  then show "R (sq_db w) (sq_db (snd (transaction b c body w)))"
    using run by simp
qed

lemma autocommit_in:
  assumes "statement_in R st"
  shows "call_in R (autocommit err st)"
  unfolding call_in_def
proof
  fix w
  obtain r w' where run: "autocommit err st w = (r, w')" by (cases "autocommit err st w")
  then have "R (sq_db w) (sq_db w')"
    using assms by (cases rule: autocommit_cases) (auto simp: statement_in_def refl)
  then show "R (sq_db w) (sq_db (snd (autocommit err st w)))"
    using run by simp
qed

lemma pure_in: "call_in R (\<lambda>w. (r, w))"
  by (simp add: call_in_def refl)

lemma and_next_in:
  assumes "call_in R f" "\<And>x. call_in R (k x)"
  shows "call_in R (\<lambda>w. and_next (f w) k)"
  unfolding call_in_def
proof
  fix w
  obtain r w' where f: "f w = (r, w')" by (cases "f w")
  have "R (sq_db w) (sq_db w')" "\<And>x. R (sq_db w') (sq_db (snd (k x w')))"
    using assms f by (auto simp: call_in_def dest: spec [of _ w])
  then show "R (sq_db w) (sq_db (snd (and_next (f w) k)))"
    using f by (cases r) (auto simp: and_next_def intro: trans)
qed

lemma map_failure_in: "call_in R f \<Longrightarrow> call_in R (\<lambda>w. map_failure g (f w))"
  by (simp add: call_in_def map_failure_def)

lemma option_in:
  "call_in R f \<Longrightarrow> (\<And>x. call_in R (k x)) \<Longrightarrow> call_in R (\<lambda>w. case v of None \<Rightarrow> f w | Some x \<Rightarrow> k x w)"
  by (cases v) auto

lemma calls_in:
  assumes "\<And>call w. R (sq_db w) (sq_db (run call w))"
  shows "R (sq_db w) (sq_db (fold run calls w))"
proof (induction calls arbitrary: w)
  case (Cons call calls)
  show ?case
    using trans [OF assms Cons.IH] by simp
qed (simp add: refl)

lemmas closed_intros = select_in call_tx_in result_tx_in bind_tx_in each_tx_in if_tx_in option_tx_in
  prod_tx_in transaction_in autocommit_in pure_in and_next_in map_failure_in option_in

end

end
