(* ===== verification/ReaderStorage.thy ===== *)
theory ReaderStorage
  imports ReaderTables
begin

text \<open>
  The identity of a reader database: \<open>crates/persistence/src/reader_sqlite.rs\<close>.  Opening the file and
  running the migrations are I/O; the tables the migrations create are in \<open>ReaderTables\<close>.
\<close>

datatype ReaderStorageError =
    EmptyEnvironmentId
  | EmptySoftwareVersion
  | NegativeInitializationTime UnixMs
  | Storage_ReaderIdentityMismatch ReaderId ReaderId
  | Storage_EnvironmentMismatch ustr ustr
  | Storage_InvalidStoredValue string
  | Storage_Database string

definition Storage_database :: "string \<Rightarrow> SqliteError \<Rightarrow> ReaderStorageError" where
  "Storage_database operation e = Storage_Database operation"

record ReaderDatabaseIdentity =
  identity_reader_id :: ReaderId
  identity_environment_id :: ustr
  identity_software_version :: ustr
  identity_protocol_version :: DeviceProtocolVersion
  identity_initialized_at :: UnixMs

definition ReaderDatabaseIdentity_new ::
  "ReaderId \<Rightarrow> ustr \<Rightarrow> ustr \<Rightarrow> DeviceProtocolVersion \<Rightarrow> UnixMs \<Rightarrow> ReaderStorageError + ReaderDatabaseIdentity" where
  "ReaderDatabaseIdentity_new reader environment software version initialized_at =
    (if trim environment = [] then Err EmptyEnvironmentId
     else if trim software = [] then Err EmptySoftwareVersion
     else if initialized_at < 0 then Err (NegativeInitializationTime initialized_at)
     else Ok \<lparr> identity_reader_id = reader, identity_environment_id = trim environment,
       identity_software_version = trim software, identity_protocol_version = version,
       identity_initialized_at = initialized_at \<rparr>)"

record ReaderDatabaseState =
  state_reader_id :: ReaderId
  state_environment_id :: ustr
  state_software_version :: ustr
  state_protocol_version :: DeviceProtocolVersion
  state_next_local_sequence :: u64
  state_last_acknowledged_sequence :: u64
  state_created_at :: UnixMs
  state_updated_at :: UnixMs

definition decode_stored_state :: "UuidApi \<Rightarrow> ReaderStateRow \<Rightarrow> ReaderStorageError + ReaderDatabaseState" where
  "decode_stored_state api stored =
    and_then (map_err (\<lambda>_. Storage_InvalidStoredValue ''reader_id'')
      (identifier_from_str api ''reader identifier'' (rs_reader_id stored))) (\<lambda>reader.
    and_then (ok_or (u16_try_from (rs_protocol_version stored))
      (Storage_InvalidStoredValue ''protocol_version'')) (\<lambda>protocol_value.
    and_then (map_err (\<lambda>_. Storage_InvalidStoredValue ''protocol_version'')
      (DeviceProtocolVersion_new protocol_value)) (\<lambda>version.
    and_then (ok_or (u64_try_from (rs_next_local_sequence stored))
      (Storage_InvalidStoredValue ''next_local_sequence'')) (\<lambda>next_sequence.
    and_then (ensure (next_sequence \<noteq> 0) (Storage_InvalidStoredValue ''next_local_sequence'')) (\<lambda>_.
    and_then (ok_or (u64_try_from (rs_last_acknowledged_sequence stored))
      (Storage_InvalidStoredValue ''last_acknowledged_sequence'')) (\<lambda>last_sequence.
    and_then (ensure (last_sequence < next_sequence)
      (Storage_InvalidStoredValue ''last_acknowledged_sequence'')) (\<lambda>_.
    and_then (ensure (0 \<le> rs_created_at stored)
      (Storage_InvalidStoredValue ''created_at_unix_milliseconds'')) (\<lambda>_.
    and_then (ensure (rs_created_at stored \<le> rs_updated_at stored)
      (Storage_InvalidStoredValue ''updated_at_unix_milliseconds'')) (\<lambda>_.
    Ok \<lparr> state_reader_id = reader, state_environment_id = rs_environment_id stored,
      state_software_version = rs_software_version stored, state_protocol_version = version,
      state_next_local_sequence = next_sequence, state_last_acknowledged_sequence = last_sequence,
      state_created_at = rs_created_at stored, state_updated_at = rs_updated_at stored \<rparr>)))))))))"

text \<open>\<open>INSERT .. ON CONFLICT(singleton) DO NOTHING\<close>.\<close>

definition insert_reader_state :: "ReaderStateRow \<Rightarrow> unit statement" where
  "insert_reader_state row db =
    (if \<not> reader_state_checks row then Err Sqlite_Other
     else Ok ((), if rd_state db = None then db\<lparr> rd_state := Some row \<rparr> else db))"

definition bind_body :: "UuidApi \<Rightarrow> ReaderDatabaseIdentity \<Rightarrow> (ReaderStorageError, ReaderDatabaseState) tx" where
  "bind_body api identity =
    tx_bind (tx_call (Storage_database ''initialize reader identity'') (insert_reader_state
      \<lparr> rs_reader_id = identifier_to_string api (identity_reader_id identity),
        rs_environment_id = identity_environment_id identity,
        rs_software_version = identity_software_version identity,
        rs_protocol_version = uint (identity_protocol_version identity),
        rs_next_local_sequence = 1, rs_last_acknowledged_sequence = 0,
        rs_created_at = identity_initialized_at identity,
        rs_updated_at = identity_initialized_at identity \<rparr>)) (\<lambda>_.
    tx_bind (tx_call (Storage_database ''load reader identity'') (\<lambda>db.
      case rd_state db of None \<Rightarrow> Err Sqlite_Other | Some r \<Rightarrow> Ok (r, db))) (\<lambda>stored.
    tx_bind (tx_result (decode_stored_state api stored)) (\<lambda>state.
    tx_bind (tx_result (ensure (state_reader_id state = identity_reader_id identity)
      (Storage_ReaderIdentityMismatch (identity_reader_id identity) (state_reader_id state)))) (\<lambda>_.
    tx_bind (tx_result (ensure (state_environment_id state = identity_environment_id identity)
      (Storage_EnvironmentMismatch (identity_environment_id identity) (state_environment_id state)))) (\<lambda>_.
    tx_result (Ok state))))))"

definition bind_reader_database ::
  "UuidApi \<Rightarrow> ReaderDatabaseIdentity \<Rightarrow> Sqlite \<Rightarrow> (ReaderStorageError + ReaderDatabaseState) \<times> Sqlite" where
  "bind_reader_database api identity w =
    transaction (Storage_database ''begin identity binding'')
      (\<lambda>_. Some (Storage_database ''commit identity binding'')) (bind_body api identity) w"

end
