(* ===== verification/ReaderQueue.thy ===== *)
theory ReaderQueue
  imports ReaderTables
begin

text \<open>
  The reader's durable queue of offline transactions: \<open>crates/persistence/src/reader_queue.rs\<close>
  (sequence assignment and loading) and \<open>reader_queue_state.rs\<close> (the state of one transaction).
  \<open>DecisionJson\<close> is what the modules use of \<open>serde_json\<close>.
\<close>

datatype OfflineQueueState =
    Queue_Pending | Queue_InFlight | Queue_Acknowledged | Queue_RetryableFailure
  | Queue_PermanentFailure | Queue_ManualReview

fun OfflineQueueState_as_str :: "OfflineQueueState \<Rightarrow> string" where
  "OfflineQueueState_as_str Queue_Pending = ''pending''"
| "OfflineQueueState_as_str Queue_InFlight = ''in_flight''"
| "OfflineQueueState_as_str Queue_Acknowledged = ''acknowledged''"
| "OfflineQueueState_as_str Queue_RetryableFailure = ''retryable_failure''"
| "OfflineQueueState_as_str Queue_PermanentFailure = ''permanent_failure''"
| "OfflineQueueState_as_str Queue_ManualReview = ''manual_review''"

datatype ReaderQueueError =
    NegativePersistenceTime UnixMs
  | SequenceUnavailable ReaderId
  | Queue_WriteConflict
  | Queue_Serialization string
  | Queue_InvalidStoredValue string
  | Queue_Database string

definition ReaderQueueError_database :: "string \<Rightarrow> SqliteError \<Rightarrow> ReaderQueueError" where
  "ReaderQueueError_database operation e =
    (case e of Sqlite_Unique \<Rightarrow> Queue_WriteConflict | Sqlite_Other \<Rightarrow> Queue_Database operation)"

definition OfflineQueueState_parse :: "string \<Rightarrow> ReaderQueueError + OfflineQueueState" where
  "OfflineQueueState_parse v =
    (if v = ''pending'' then Ok Queue_Pending
     else if v = ''in_flight'' then Ok Queue_InFlight
     else if v = ''acknowledged'' then Ok Queue_Acknowledged
     else if v = ''retryable_failure'' then Ok Queue_RetryableFailure
     else if v = ''permanent_failure'' then Ok Queue_PermanentFailure
     else if v = ''manual_review'' then Ok Queue_ManualReview
     else Err (Queue_InvalidStoredValue ''queue_state''))"

record 'j DecisionJson = "'j JsonApi" +
  decision_to_string :: "FareDecision \<Rightarrow> ustr option"
  decision_from_string :: "ustr \<Rightarrow> FareDecision option"

record 'j OfflineTransactionDraft =
  draft_transaction_id :: FareTransactionId
  draft_credential_id :: FareCredentialId
  draft_event_time :: EventTime
  draft_policy_version :: FarePolicyVersion
  draft_decision :: FareDecision
  draft_envelope :: 'j
  draft_created_at :: UnixMs

definition OfflineTransactionDraft_new ::
  "FareTransactionId \<Rightarrow> FareCredentialId \<Rightarrow> EventTime \<Rightarrow> FarePolicyVersion \<Rightarrow> FareDecision \<Rightarrow> 'j \<Rightarrow> UnixMs
    \<Rightarrow> ReaderQueueError + 'j OfflineTransactionDraft" where
  "OfflineTransactionDraft_new tid cid time policy dec envelope created_at =
    (if created_at < 0 then Err (NegativePersistenceTime created_at)
     else Ok \<lparr> draft_transaction_id = tid, draft_credential_id = cid, draft_event_time = time,
       draft_policy_version = policy, draft_decision = dec, draft_envelope = envelope,
       draft_created_at = created_at \<rparr>)"

record 'j QueuedOfflineTransaction =
  queued_transaction_id :: FareTransactionId
  queued_reader_id :: ReaderId
  queued_sequence :: LocalSequenceNumber
  queued_credential_id :: FareCredentialId
  queued_event_time :: EventTime
  queued_policy_version :: FarePolicyVersion
  queued_decision :: FareDecision
  queued_envelope :: 'j
  queued_state :: OfflineQueueState
  queued_attempt_count :: u32
  queued_next_retry_at :: "UnixMs option"
  queued_failure_category :: "ustr option"
  queued_created_at :: UnixMs
  queued_updated_at :: UnixMs

definition queued_row ::
  "UuidApi \<Rightarrow> ReaderId \<Rightarrow> 'j OfflineTransactionDraft \<Rightarrow> int \<Rightarrow> int \<Rightarrow> ustr \<Rightarrow> ustr \<Rightarrow> OfflineTransactionRow" where
  "queued_row api reader draft sequence policy decision_json envelope_json =
    \<lparr> ot_transaction_id = identifier_to_string api (draft_transaction_id draft),
      ot_reader_id = identifier_to_string api reader, ot_sequence = sequence,
      ot_credential_id = identifier_to_string api (draft_credential_id draft),
      ot_event_time = sint (draft_event_time draft), ot_policy_version = policy,
      ot_decision_json = decision_json, ot_envelope_json = envelope_json,
      ot_queue_state = OfflineQueueState_as_str Queue_Pending, ot_attempt_count = 0,
      ot_next_retry_at = None, ot_failure_category = None,
      ot_created_at = draft_created_at draft, ot_updated_at = draft_created_at draft \<rparr>"

definition assign_local_sequence :: "string \<Rightarrow> UnixMs \<Rightarrow> int option statement" where
  "assign_local_sequence reader now db =
    and_then (update_reader_state
      (\<lambda>r. rs_reader_id r = reader \<and> rs_next_local_sequence r < i64_max)
      (\<lambda>r. r\<lparr> rs_next_local_sequence := rs_next_local_sequence r + 1, rs_updated_at := now \<rparr>) db)
    (\<lambda>(row, db'). Ok (map_option (\<lambda>r. rs_next_local_sequence r - 1) row, db'))"

definition enqueue_body ::
  "UuidApi \<Rightarrow> ReaderId \<Rightarrow> 'j OfflineTransactionDraft \<Rightarrow> ustr \<Rightarrow> ustr
    \<Rightarrow> (ReaderQueueError, LocalSequenceNumber) tx" where
  "enqueue_body api reader draft decision_json envelope_json =
    tx_bind (tx_call (ReaderQueueError_database ''assign local sequence'')
      (assign_local_sequence (identifier_to_string api reader) (draft_created_at draft))) (\<lambda>assigned.
    tx_bind (tx_result (ok_or assigned (SequenceUnavailable reader))) (\<lambda>sequence.
    tx_bind (tx_result (ok_or (u64_try_from sequence)
      (Queue_InvalidStoredValue ''local_sequence_number''))) (\<lambda>sequence_value.
    tx_bind (tx_result (map_err (\<lambda>_. Queue_InvalidStoredValue ''local_sequence_number'')
      (LocalSequenceNumber_new sequence_value))) (\<lambda>local_sequence_number.
    tx_bind (tx_result (ok_or (i64_column (draft_policy_version draft))
      (Queue_InvalidStoredValue ''fare_policy_version''))) (\<lambda>policy.
    tx_bind (tx_call (ReaderQueueError_database ''insert offline transaction'')
      (insert_offline_transaction
        (queued_row api reader draft sequence policy decision_json envelope_json))) (\<lambda>_.
    tx_result (Ok local_sequence_number)))))))"

definition queued_of_draft ::
  "ReaderId \<Rightarrow> 'j OfflineTransactionDraft \<Rightarrow> LocalSequenceNumber \<Rightarrow> 'j QueuedOfflineTransaction" where
  "queued_of_draft reader draft sequence =
    \<lparr> queued_transaction_id = draft_transaction_id draft, queued_reader_id = reader,
      queued_sequence = sequence, queued_credential_id = draft_credential_id draft,
      queued_event_time = draft_event_time draft, queued_policy_version = draft_policy_version draft,
      queued_decision = draft_decision draft, queued_envelope = draft_envelope draft,
      queued_state = Queue_Pending, queued_attempt_count = 0, queued_next_retry_at = None,
      queued_failure_category = None, queued_created_at = draft_created_at draft,
      queued_updated_at = draft_created_at draft \<rparr>"

definition enqueue_offline_transaction ::
  "UuidApi \<Rightarrow> 'j DecisionJson \<Rightarrow> ReaderId \<Rightarrow> 'j OfflineTransactionDraft \<Rightarrow> Sqlite
    \<Rightarrow> (ReaderQueueError + 'j QueuedOfflineTransaction) \<times> Sqlite" where
  "enqueue_offline_transaction api json reader draft w =
    (case decision_to_string json (draft_decision draft) of
       None \<Rightarrow> (Err (Queue_Serialization ''provisional_decision''), w)
     | Some decision_json \<Rightarrow>
    (case json_to_string json (draft_envelope draft) of
       None \<Rightarrow> (Err (Queue_Serialization ''transaction_envelope''), w)
     | Some envelope_json \<Rightarrow>
    and_next (transaction (ReaderQueueError_database ''begin queue insertion'')
      (\<lambda>_. Some (ReaderQueueError_database ''commit queue insertion''))
      (enqueue_body api reader draft decision_json envelope_json) w) (\<lambda>sequence w'.
    (Ok (queued_of_draft reader draft sequence), w'))))"

definition decode_stored_transaction ::
  "UuidApi \<Rightarrow> 'j DecisionJson \<Rightarrow> OfflineTransactionRow \<Rightarrow> ReaderQueueError + 'j QueuedOfflineTransaction" where
  "decode_stored_transaction api json stored =
    and_then (map_err (\<lambda>_. Queue_InvalidStoredValue ''fare_transaction_id'')
      (identifier_from_str api ''fare transaction identifier'' (ot_transaction_id stored))) (\<lambda>tid.
    and_then (map_err (\<lambda>_. Queue_InvalidStoredValue ''reader_id'')
      (identifier_from_str api ''reader identifier'' (ot_reader_id stored))) (\<lambda>reader.
    and_then (ok_or (u64_try_from (ot_sequence stored))
      (Queue_InvalidStoredValue ''local_sequence_number'')) (\<lambda>sequence_value.
    and_then (map_err (\<lambda>_. Queue_InvalidStoredValue ''local_sequence_number'')
      (LocalSequenceNumber_new sequence_value)) (\<lambda>sequence.
    and_then (map_err (\<lambda>_. Queue_InvalidStoredValue ''fare_credential_id'')
      (identifier_from_str api ''fare credential identifier'' (ot_credential_id stored))) (\<lambda>cid.
    and_then (map_err (\<lambda>_. Queue_InvalidStoredValue ''event_time_unix_milliseconds'')
      (EventTime_from_unix_milliseconds (i64_of_int (ot_event_time stored)))) (\<lambda>time.
    and_then (ok_or (u64_try_from (ot_policy_version stored))
      (Queue_InvalidStoredValue ''fare_policy_version'')) (\<lambda>policy_value.
    and_then (map_err (\<lambda>_. Queue_InvalidStoredValue ''fare_policy_version'')
      (FarePolicyVersion_new policy_value)) (\<lambda>policy.
    and_then (ok_or (decision_from_string json (ot_decision_json stored))
      (Queue_Serialization ''provisional_decision'')) (\<lambda>dec.
    and_then (ok_or (json_parse json (ot_envelope_json stored))
      (Queue_Serialization ''transaction_envelope'')) (\<lambda>envelope.
    and_then (OfflineQueueState_parse (ot_queue_state stored)) (\<lambda>state.
    and_then (ok_or (u32_try_from (ot_attempt_count stored))
      (Queue_InvalidStoredValue ''attempt_count'')) (\<lambda>attempts.
    and_then (ensure (not_negative (ot_next_retry_at stored))
      (Queue_InvalidStoredValue ''next_retry_at_unix_milliseconds'')) (\<lambda>_.
    and_then (ensure (0 \<le> ot_created_at stored)
      (Queue_InvalidStoredValue ''created_at_unix_milliseconds'')) (\<lambda>_.
    and_then (ensure (ot_created_at stored \<le> ot_updated_at stored)
      (Queue_InvalidStoredValue ''updated_at_unix_milliseconds'')) (\<lambda>_.
    Ok \<lparr> queued_transaction_id = tid, queued_reader_id = reader, queued_sequence = sequence,
      queued_credential_id = cid, queued_event_time = time, queued_policy_version = policy,
      queued_decision = dec, queued_envelope = envelope, queued_state = state,
      queued_attempt_count = attempts, queued_next_retry_at = ot_next_retry_at stored,
      queued_failure_category = ot_failure_category stored, queued_created_at = ot_created_at stored,
      queued_updated_at = ot_updated_at stored \<rparr>)))))))))))))))"

definition load_offline_queue ::
  "UuidApi \<Rightarrow> 'j DecisionJson \<Rightarrow> ReaderId \<Rightarrow> Sqlite
    \<Rightarrow> (ReaderQueueError + 'j QueuedOfflineTransaction list) \<times> Sqlite" where
  "load_offline_queue api json reader w =
    and_next (autocommit (ReaderQueueError_database ''load offline queue'') (sql_select (\<lambda>db.
      sort_key ot_sequence (filter (\<lambda>r. ot_reader_id r = identifier_to_string api reader) (rd_queue db)))) w)
      (\<lambda>records w'. (collect_results (decode_stored_transaction api json) records, w'))"

section \<open>The state of one transaction\<close>

datatype ReaderQueueStateError =
    QueueState_NegativeOperationTime UnixMs
  | QueueState_EmptyFailureCategory
  | QueueState_RetryBeforeUpdate UnixMs UnixMs
  | QueueState_ZeroReadLimit
  | QueueState_InvalidTransition FareTransactionId string
  | QueueState_Queue ReaderQueueError
  | QueueState_Database string

definition QueueState_database :: "string \<Rightarrow> SqliteError \<Rightarrow> ReaderQueueStateError" where
  "QueueState_database operation e = QueueState_Database operation"

definition RESTART_FAILURE_CATEGORY :: ustr where
  "RESTART_FAILURE_CATEGORY = ascii ''reader_restart''"

definition validate_operation_time :: "(UnixMs \<Rightarrow> 'e) \<Rightarrow> UnixMs \<Rightarrow> 'e + unit" where
  "validate_operation_time err t = ensure (0 \<le> t) (err t)"

definition validate_failure_category :: "'e \<Rightarrow> ustr \<Rightarrow> 'e + ustr" where
  "validate_failure_category err category =
    (let trimmed = trim category in if trimmed = [] then Err err else Ok trimmed)"

definition require_changed_row :: "nat \<Rightarrow> FareTransactionId \<Rightarrow> string \<Rightarrow> ReaderQueueStateError + unit" where
  "require_changed_row rows_affected tid transition =
    (if rows_affected = 1 then Ok () else Err (QueueState_InvalidTransition tid transition))"

text \<open>\<open>queue_state = 'pending'\<close>, or a retryable failure whose retry time has come.\<close>

definition row_eligible :: "UnixMs \<Rightarrow> OfflineTransactionRow \<Rightarrow> bool" where
  "row_eligible now r \<longleftrightarrow> ot_queue_state r = ''pending'' \<or>
    ot_queue_state r = ''retryable_failure'' \<and>
      (case ot_next_retry_at r of None \<Rightarrow> True | Some t \<Rightarrow> t \<le> now)"

definition mark_offline_transaction_in_flight ::
  "UuidApi \<Rightarrow> ReaderId \<Rightarrow> FareTransactionId \<Rightarrow> UnixMs \<Rightarrow> Sqlite \<Rightarrow> (ReaderQueueStateError + unit) \<times> Sqlite" where
  "mark_offline_transaction_in_flight api reader tid now w =
    and_next (validate_operation_time QueueState_NegativeOperationTime now, w) (\<lambda>_ w.
    and_next (autocommit (QueueState_database ''mark transaction in flight'') (update_queue
      (\<lambda>r. ot_transaction_id r = identifier_to_string api tid \<and>
        ot_reader_id r = identifier_to_string api reader \<and> ot_updated_at r \<le> now \<and> row_eligible now r)
      (\<lambda>r. r\<lparr> ot_queue_state := ''in_flight'', ot_attempt_count := ot_attempt_count r + 1,
        ot_next_retry_at := None, ot_failure_category := None, ot_updated_at := now \<rparr>)) w) (\<lambda>rows w.
    (require_changed_row rows tid ''mark_in_flight'', w)))"

text \<open>The row of a transaction in flight that was not touched after \<open>now\<close>.\<close>

definition in_flight_row :: "UuidApi \<Rightarrow> ReaderId \<Rightarrow> FareTransactionId \<Rightarrow> UnixMs \<Rightarrow> OfflineTransactionRow \<Rightarrow> bool" where
  "in_flight_row api reader tid now r \<longleftrightarrow> ot_transaction_id r = identifier_to_string api tid \<and>
    ot_reader_id r = identifier_to_string api reader \<and> ot_queue_state r = ''in_flight'' \<and>
    ot_updated_at r \<le> now"

definition record_retryable_queue_failure ::
  "UuidApi \<Rightarrow> ReaderId \<Rightarrow> FareTransactionId \<Rightarrow> ustr \<Rightarrow> UnixMs \<Rightarrow> UnixMs \<Rightarrow> Sqlite
    \<Rightarrow> (ReaderQueueStateError + unit) \<times> Sqlite" where
  "record_retryable_queue_failure api reader tid category now retry_at w =
    and_next (validate_operation_time QueueState_NegativeOperationTime now, w) (\<lambda>_ w.
    and_next (validate_operation_time QueueState_NegativeOperationTime retry_at, w) (\<lambda>_ w.
    and_next (ensure (now \<le> retry_at) (QueueState_RetryBeforeUpdate retry_at now), w) (\<lambda>_ w.
    and_next (validate_failure_category QueueState_EmptyFailureCategory category, w) (\<lambda>category w.
    and_next (autocommit (QueueState_database ''record retryable failure'') (update_queue
      (in_flight_row api reader tid now)
      (\<lambda>r. r\<lparr> ot_queue_state := ''retryable_failure'', ot_next_retry_at := Some retry_at,
        ot_failure_category := Some category, ot_updated_at := now \<rparr>)) w) (\<lambda>rows w.
    (require_changed_row rows tid ''record_retryable_failure'', w))))))"

definition record_final_failure ::
  "UuidApi \<Rightarrow> ReaderId \<Rightarrow> FareTransactionId \<Rightarrow> ustr \<Rightarrow> UnixMs \<Rightarrow> OfflineQueueState \<Rightarrow> Sqlite
    \<Rightarrow> (ReaderQueueStateError + unit) \<times> Sqlite" where
  "record_final_failure api reader tid category now target w =
    and_next (validate_operation_time QueueState_NegativeOperationTime now, w) (\<lambda>_ w.
    and_next (validate_failure_category QueueState_EmptyFailureCategory category, w) (\<lambda>category w.
    and_next (case target of
        Queue_PermanentFailure \<Rightarrow> Ok ''permanent_failure''
      | Queue_ManualReview \<Rightarrow> Ok ''manual_review''
      | _ \<Rightarrow> Err (QueueState_InvalidTransition tid ''unsupported_final_state''), w) (\<lambda>target_text w.
    and_next (autocommit (QueueState_database ''record final queue failure'') (update_queue
      (in_flight_row api reader tid now)
      (\<lambda>r. r\<lparr> ot_queue_state := target_text, ot_next_retry_at := None,
        ot_failure_category := Some category, ot_updated_at := now \<rparr>)) w) (\<lambda>rows w.
    (require_changed_row rows tid target_text, w)))))"

definition record_permanent_queue_failure ::
  "UuidApi \<Rightarrow> ReaderId \<Rightarrow> FareTransactionId \<Rightarrow> ustr \<Rightarrow> UnixMs \<Rightarrow> Sqlite \<Rightarrow> (ReaderQueueStateError + unit) \<times> Sqlite" where
  "record_permanent_queue_failure api reader tid category now =
    record_final_failure api reader tid category now Queue_PermanentFailure"

definition record_manual_review_required ::
  "UuidApi \<Rightarrow> ReaderId \<Rightarrow> FareTransactionId \<Rightarrow> ustr \<Rightarrow> UnixMs \<Rightarrow> Sqlite \<Rightarrow> (ReaderQueueStateError + unit) \<times> Sqlite" where
  "record_manual_review_required api reader tid category now =
    record_final_failure api reader tid category now Queue_ManualReview"

text \<open>
  The \<open>NOT EXISTS\<close> subquery of \<open>reader_queue_state.rs\<close> and \<open>reader_sync.rs\<close>: the transaction
  belongs to a batch that is still to be resolved.
\<close>

definition batch_active :: "BatchRow \<Rightarrow> bool" where
  "batch_active b \<longleftrightarrow> sb_state b \<in> {''prepared'', ''in_flight'', ''retryable_failure''}"

definition in_active_batch :: "ReaderDb \<Rightarrow> OfflineTransactionRow \<Rightarrow> bool" where
  "in_active_batch db r \<longleftrightarrow> list_ex (\<lambda>e. se_transaction_id e = ot_transaction_id r \<and>
    se_reader_id e = ot_reader_id r \<and>
    list_ex (\<lambda>b. sb_batch_id b = se_batch_id e \<and> sb_reader_id b = se_reader_id e \<and> batch_active b)
      (rd_batches db)) (rd_entries db)"

definition recover_interrupted_offline_queue ::
  "UuidApi \<Rightarrow> ReaderId \<Rightarrow> UnixMs \<Rightarrow> Sqlite \<Rightarrow> (ReaderQueueStateError + nat) \<times> Sqlite" where
  "recover_interrupted_offline_queue api reader now w =
    and_next (validate_operation_time QueueState_NegativeOperationTime now, w) (\<lambda>_ w.
    autocommit (QueueState_database ''recover interrupted queue'') (\<lambda>db. update_queue
      (\<lambda>r. ot_reader_id r = identifier_to_string api reader \<and> ot_queue_state r = ''in_flight'' \<and>
        ot_updated_at r \<le> now \<and> \<not> in_active_batch db r)
      (\<lambda>r. r\<lparr> ot_queue_state := ''retryable_failure'', ot_next_retry_at := Some now,
        ot_failure_category := Some RESTART_FAILURE_CATEGORY, ot_updated_at := now \<rparr>) db) w)"

definition is_ready :: "'j QueuedOfflineTransaction \<Rightarrow> UnixMs \<Rightarrow> bool" where
  "is_ready t now =
    (case queued_state t of
       Queue_Pending \<Rightarrow> True
     | Queue_RetryableFailure \<Rightarrow> (case queued_next_retry_at t of None \<Rightarrow> True | Some r \<Rightarrow> r \<le> now)
     | Queue_InFlight \<Rightarrow> False
     | Queue_Acknowledged \<Rightarrow> False
     | Queue_PermanentFailure \<Rightarrow> False
     | Queue_ManualReview \<Rightarrow> False)"

definition load_ready_offline_transactions ::
  "UuidApi \<Rightarrow> 'j DecisionJson \<Rightarrow> ReaderId \<Rightarrow> UnixMs \<Rightarrow> nat \<Rightarrow> Sqlite
    \<Rightarrow> (ReaderQueueStateError + 'j QueuedOfflineTransaction list) \<times> Sqlite" where
  "load_ready_offline_transactions api json reader now limit w =
    and_next (validate_operation_time QueueState_NegativeOperationTime now, w) (\<lambda>_ w.
    and_next (ensure (limit \<noteq> 0) QueueState_ZeroReadLimit, w) (\<lambda>_ w.
    and_next (map_failure QueueState_Queue (load_offline_queue api json reader w)) (\<lambda>queue w.
    (Ok (take limit (filter (\<lambda>t. is_ready t now) queue)), w))))"

end
