(* ===== verification/ReaderSync.thy ===== *)
theory ReaderSync
  imports ReaderQueue "HOL-Library.List_Lexorder"
begin

text \<open>
  Synchronization batches of the reader: \<open>crates/persistence/src/reader_sync.rs\<close> (creation and
  loading), \<open>reader_sync_state.rs\<close> (submission, retry and recovery) and
  \<open>reader_sync_failure.rs\<close> (final failures).  The identifier a new batch gets is an argument.
\<close>

datatype SynchronizationBatchState =
    Batch_Prepared | Batch_InFlight | Batch_RetryableFailure | Batch_Acknowledged
  | Batch_PermanentFailure | Batch_ManualReview

fun SynchronizationBatchState_as_str :: "SynchronizationBatchState \<Rightarrow> string" where
  "SynchronizationBatchState_as_str Batch_Prepared = ''prepared''"
| "SynchronizationBatchState_as_str Batch_InFlight = ''in_flight''"
| "SynchronizationBatchState_as_str Batch_RetryableFailure = ''retryable_failure''"
| "SynchronizationBatchState_as_str Batch_Acknowledged = ''acknowledged''"
| "SynchronizationBatchState_as_str Batch_PermanentFailure = ''permanent_failure''"
| "SynchronizationBatchState_as_str Batch_ManualReview = ''manual_review''"

record SynchronizationBatchEntry =
  batch_entry_transaction_id :: FareTransactionId
  batch_entry_sequence :: LocalSequenceNumber

record SynchronizationBatch =
  batch_id :: SynchronizationBatchId
  batch_reader_id :: ReaderId
  batch_protocol_version :: DeviceProtocolVersion
  batch_first_sequence :: LocalSequenceNumber
  batch_last_sequence :: LocalSequenceNumber
  batch_state :: SynchronizationBatchState
  batch_attempt_count :: u32
  batch_submitted_at :: "UnixMs option"
  batch_next_retry_at :: "UnixMs option"
  batch_failure_category :: "ustr option"
  batch_created_at :: UnixMs
  batch_updated_at :: UnixMs
  batch_entries :: "SynchronizationBatchEntry list"

datatype ReaderSynchronizationError =
    Sync_NegativeOperationTime UnixMs
  | ZeroBatchLimit
  | BatchLimitTooLarge nat
  | NoEligibleTransactions ReaderId
  | BatchNotFound SynchronizationBatchId ReaderId
  | QueueStateConflict FareTransactionId
  | Sync_InvalidStoredValue string
  | Sync_Database string

definition Sync_database :: "string \<Rightarrow> SqliteError \<Rightarrow> ReaderSynchronizationError" where
  "Sync_database operation e = Sync_Database operation"

definition SynchronizationBatchState_parse :: "string \<Rightarrow> ReaderSynchronizationError + SynchronizationBatchState" where
  "SynchronizationBatchState_parse v =
    (if v = ''prepared'' then Ok Batch_Prepared
     else if v = ''in_flight'' then Ok Batch_InFlight
     else if v = ''retryable_failure'' then Ok Batch_RetryableFailure
     else if v = ''acknowledged'' then Ok Batch_Acknowledged
     else if v = ''permanent_failure'' then Ok Batch_PermanentFailure
     else if v = ''manual_review'' then Ok Batch_ManualReview
     else Err (Sync_InvalidStoredValue ''batch_state''))"

definition decode_sequence :: "int \<Rightarrow> string \<Rightarrow> ReaderSynchronizationError + LocalSequenceNumber" where
  "decode_sequence v field =
    and_then (ok_or (u64_try_from v) (Sync_InvalidStoredValue field)) (\<lambda>value.
    map_err (\<lambda>_. Sync_InvalidStoredValue field) (LocalSequenceNumber_new value))"

definition sequence_to_i64 :: "LocalSequenceNumber \<Rightarrow> ReaderSynchronizationError + int" where
  "sequence_to_i64 s = ok_or (i64_column s) (Sync_InvalidStoredValue ''local_sequence_number'')"

definition decode_candidate :: "UuidApi \<Rightarrow> string \<times> int \<Rightarrow> ReaderSynchronizationError + SynchronizationBatchEntry" where
  "decode_candidate api stored =
    and_then (map_err (\<lambda>_. Sync_InvalidStoredValue ''fare_transaction_id'')
      (identifier_from_str api ''fare transaction identifier'' (fst stored))) (\<lambda>tid.
    and_then (decode_sequence (snd stored) ''local_sequence_number'') (\<lambda>sequence.
    Ok \<lparr> batch_entry_transaction_id = tid, batch_entry_sequence = sequence \<rparr>))"

section \<open>Creation\<close>

definition select_candidates :: "string \<Rightarrow> UnixMs \<Rightarrow> nat \<Rightarrow> ReaderDb \<Rightarrow> (string \<times> int) list" where
  "select_candidates reader now limit db =
    map (\<lambda>r. (ot_transaction_id r, ot_sequence r))
      (take limit (sort_key ot_sequence (filter (\<lambda>r. ot_reader_id r = reader \<and> row_eligible now r \<and>
        \<not> in_active_batch db r) (rd_queue db))))"

definition new_batch_row ::
  "UuidApi \<Rightarrow> ReaderId \<Rightarrow> SynchronizationBatchId \<Rightarrow> DeviceProtocolVersion \<Rightarrow> UnixMs \<Rightarrow> int \<Rightarrow> int \<Rightarrow> BatchRow" where
  "new_batch_row api reader new_id version now first_sequence last_sequence =
    \<lparr> sb_batch_id = identifier_to_string api new_id, sb_reader_id = identifier_to_string api reader,
      sb_protocol_version = uint version, sb_first_sequence = first_sequence,
      sb_last_sequence = last_sequence,
      sb_state = SynchronizationBatchState_as_str Batch_Prepared, sb_attempt_count = 0,
      sb_submitted_at = None, sb_next_retry_at = None, sb_failure_category = None,
      sb_created_at = now, sb_updated_at = now \<rparr>"

text \<open>One round of the loop over the entries: reserve the transaction and record the entry.\<close>

definition reserve_entry ::
  "UuidApi \<Rightarrow> ReaderId \<Rightarrow> SynchronizationBatchId \<Rightarrow> UnixMs \<Rightarrow> nat \<times> SynchronizationBatchEntry
    \<Rightarrow> (ReaderSynchronizationError, unit) tx" where
  "reserve_entry api reader new_id now positioned =
    (let entry = snd positioned; tid = batch_entry_transaction_id entry in
    tx_bind (tx_result (ensure (int (fst positioned) \<le> i64_max)
      (Sync_InvalidStoredValue ''entry_position''))) (\<lambda>_.
    tx_bind (tx_result (sequence_to_i64 (batch_entry_sequence entry))) (\<lambda>sequence.
    tx_bind (tx_call (Sync_database ''reserve batch transaction'') (update_queue
      (\<lambda>r. ot_transaction_id r = identifier_to_string api tid \<and>
        ot_reader_id r = identifier_to_string api reader \<and> ot_sequence r = sequence \<and>
        ot_updated_at r \<le> now \<and> row_eligible now r)
      (\<lambda>r. r\<lparr> ot_queue_state := ''in_flight'', ot_next_retry_at := None,
        ot_failure_category := None, ot_updated_at := now \<rparr>))) (\<lambda>updated.
    tx_bind (tx_result (ensure (updated = 1) (QueueStateConflict tid))) (\<lambda>_.
    tx_call (Sync_database ''insert synchronization entry'') (insert_batch_entry
      \<lparr> se_batch_id = identifier_to_string api new_id, se_reader_id = identifier_to_string api reader,
        se_transaction_id = identifier_to_string api tid, se_sequence = sequence,
        se_position = int (fst positioned) \<rparr>))))))"

definition create_batch_body ::
  "UuidApi \<Rightarrow> ReaderId \<Rightarrow> DeviceProtocolVersion \<Rightarrow> SynchronizationBatchId \<Rightarrow> UnixMs \<Rightarrow> nat
    \<Rightarrow> (ReaderSynchronizationError, SynchronizationBatch) tx" where
  "create_batch_body api reader version new_id now limit =
    tx_bind (tx_call (Sync_database ''select batch candidates'')
      (sql_select (select_candidates (identifier_to_string api reader) now limit))) (\<lambda>candidates.
    tx_bind (tx_result (ensure (candidates \<noteq> []) (NoEligibleTransactions reader))) (\<lambda>_.
    tx_bind (tx_result (collect_results (decode_candidate api) candidates)) (\<lambda>entries.
    let first_entry = batch_entry_sequence (hd entries); last_entry = batch_entry_sequence (last entries) in
    tx_bind (tx_result (sequence_to_i64 first_entry)) (\<lambda>first_sequence.
    tx_bind (tx_result (sequence_to_i64 last_entry)) (\<lambda>last_sequence.
    tx_bind (tx_call (Sync_database ''insert synchronization batch'')
      (insert_batch (new_batch_row api reader new_id version now first_sequence last_sequence))) (\<lambda>_.
    tx_bind (tx_each (reserve_entry api reader new_id now) (List.enumerate 0 entries)) (\<lambda>_.
    tx_result (Ok \<lparr> batch_id = new_id, batch_reader_id = reader, batch_protocol_version = version,
      batch_first_sequence = first_entry, batch_last_sequence = last_entry,
      batch_state = Batch_Prepared, batch_attempt_count = 0, batch_submitted_at = None,
      batch_next_retry_at = None, batch_failure_category = None, batch_created_at = now,
      batch_updated_at = now, batch_entries = entries \<rparr>))))))))"

definition create_synchronization_batch ::
  "UuidApi \<Rightarrow> ReaderId \<Rightarrow> DeviceProtocolVersion \<Rightarrow> SynchronizationBatchId \<Rightarrow> UnixMs \<Rightarrow> nat \<Rightarrow> Sqlite
    \<Rightarrow> (ReaderSynchronizationError + SynchronizationBatch) \<times> Sqlite" where
  "create_synchronization_batch api reader version new_id now limit w =
    and_next (validate_operation_time Sync_NegativeOperationTime now, w) (\<lambda>_ w.
    and_next (ensure (limit \<noteq> 0) ZeroBatchLimit, w) (\<lambda>_ w.
    and_next (ensure (int limit \<le> i64_max) (BatchLimitTooLarge limit), w) (\<lambda>_ w.
    transaction (Sync_database ''begin batch creation'') (\<lambda>_. Some (Sync_database ''commit batch creation''))
      (create_batch_body api reader version new_id now limit) w)))"

section \<open>Loading\<close>

text \<open>The loop over the stored entries, which stand at the positions they claim.\<close>

fun decode_entries_from ::
  "UuidApi \<Rightarrow> nat \<Rightarrow> BatchEntryRow list \<Rightarrow> ReaderSynchronizationError + SynchronizationBatchEntry list" where
  "decode_entries_from api expected [] = Ok []"
| "decode_entries_from api expected (row # rows) =
    and_then (ensure (0 \<le> se_position row \<and> se_position row < 18446744073709551616)
      (Sync_InvalidStoredValue ''entry_position'')) (\<lambda>_.
    and_then (ensure (se_position row = int expected) (Sync_InvalidStoredValue ''entry_position'')) (\<lambda>_.
    and_then (decode_candidate api (se_transaction_id row, se_sequence row)) (\<lambda>entry.
    and_then (decode_entries_from api (Suc expected) rows) (\<lambda>entries.
    Ok (entry # entries)))))"

definition decode_stored_batch ::
  "UuidApi \<Rightarrow> BatchRow \<Rightarrow> BatchEntryRow list \<Rightarrow> ReaderSynchronizationError + SynchronizationBatch" where
  "decode_stored_batch api stored stored_entries =
    and_then (map_err (\<lambda>_. Sync_InvalidStoredValue ''batch_id'')
      (identifier_from_str api ''synchronization batch identifier'' (sb_batch_id stored))) (\<lambda>bid.
    and_then (map_err (\<lambda>_. Sync_InvalidStoredValue ''reader_id'')
      (identifier_from_str api ''reader identifier'' (sb_reader_id stored))) (\<lambda>reader.
    and_then (ok_or (u16_try_from (sb_protocol_version stored))
      (Sync_InvalidStoredValue ''protocol_version'')) (\<lambda>protocol_value.
    and_then (map_err (\<lambda>_. Sync_InvalidStoredValue ''protocol_version'')
      (DeviceProtocolVersion_new protocol_value)) (\<lambda>version.
    and_then (decode_sequence (sb_first_sequence stored) ''first_local_sequence_number'') (\<lambda>first_sequence.
    and_then (decode_sequence (sb_last_sequence stored) ''last_local_sequence_number'') (\<lambda>last_sequence.
    and_then (ensure (first_sequence \<le> last_sequence)
      (Sync_InvalidStoredValue ''last_local_sequence_number'')) (\<lambda>_.
    and_then (SynchronizationBatchState_parse (sb_state stored)) (\<lambda>state.
    and_then (ok_or (u32_try_from (sb_attempt_count stored))
      (Sync_InvalidStoredValue ''attempt_count'')) (\<lambda>attempts.
    and_then (ensure (not_negative (sb_submitted_at stored))
      (Sync_InvalidStoredValue ''submitted_at_unix_milliseconds'')) (\<lambda>_.
    and_then (ensure (not_negative (sb_next_retry_at stored))
      (Sync_InvalidStoredValue ''next_retry_at_unix_milliseconds'')) (\<lambda>_.
    and_then (ensure (0 \<le> sb_created_at stored)
      (Sync_InvalidStoredValue ''created_at_unix_milliseconds'')) (\<lambda>_.
    and_then (ensure (sb_created_at stored \<le> sb_updated_at stored)
      (Sync_InvalidStoredValue ''updated_at_unix_milliseconds'')) (\<lambda>_.
    and_then (decode_entries_from api 0 stored_entries) (\<lambda>entries.
    and_then (ensure (entries \<noteq> []) (Sync_InvalidStoredValue ''batch_entries'')) (\<lambda>_.
    and_then (ensure (batch_entry_sequence (hd entries) = first_sequence \<and>
        batch_entry_sequence (last entries) = last_sequence)
      (Sync_InvalidStoredValue ''batch_sequence_range'')) (\<lambda>_.
    Ok \<lparr> batch_id = bid, batch_reader_id = reader, batch_protocol_version = version,
      batch_first_sequence = first_sequence, batch_last_sequence = last_sequence,
      batch_state = state, batch_attempt_count = attempts, batch_submitted_at = sb_submitted_at stored,
      batch_next_retry_at = sb_next_retry_at stored, batch_failure_category = sb_failure_category stored,
      batch_created_at = sb_created_at stored, batch_updated_at = sb_updated_at stored,
      batch_entries = entries \<rparr>))))))))))))))))"

text \<open>The rows of a batch, of its entries in order, and the test of a stored identity pair.\<close>

definition batch_row_of :: "string \<Rightarrow> string \<Rightarrow> ReaderDb \<Rightarrow> BatchRow option" where
  "batch_row_of reader bid db = find (\<lambda>b. sb_batch_id b = bid \<and> sb_reader_id b = reader) (rd_batches db)"

definition entry_rows_of :: "string \<Rightarrow> string \<Rightarrow> ReaderDb \<Rightarrow> BatchEntryRow list" where
  "entry_rows_of reader bid db = sort_key se_position
    (filter (\<lambda>e. se_batch_id e = bid \<and> se_reader_id e = reader) (rd_entries db))"

definition load_synchronization_batch ::
  "UuidApi \<Rightarrow> ReaderId \<Rightarrow> SynchronizationBatchId \<Rightarrow> Sqlite
    \<Rightarrow> (ReaderSynchronizationError + SynchronizationBatch) \<times> Sqlite" where
  "load_synchronization_batch api reader bid w =
    (let reader_text = identifier_to_string api reader; batch_text = identifier_to_string api bid in
    and_next (autocommit (Sync_database ''load synchronization batch'')
      (sql_select (batch_row_of reader_text batch_text)) w) (\<lambda>found w.
    and_next (ok_or found (BatchNotFound bid reader), w) (\<lambda>stored w.
    and_next (autocommit (Sync_database ''load synchronization entries'')
      (sql_select (entry_rows_of reader_text batch_text)) w) (\<lambda>stored_entries w.
    (decode_stored_batch api stored stored_entries, w)))))"

section \<open>Submission, retry and recovery\<close>

datatype ReaderSynchronizationStateError =
    SyncState_NegativeOperationTime UnixMs
  | SyncState_EmptyFailureCategory
  | SyncState_RetryBeforeUpdate UnixMs UnixMs
  | SyncState_ZeroReadLimit
  | SyncState_ReadLimitTooLarge nat
  | SyncState_InvalidTransition SynchronizationBatchId string
  | SyncState_BatchEntryConflict SynchronizationBatchId nat nat
  | SyncState_InvalidStoredValue string
  | SyncState_Synchronization ReaderSynchronizationError
  | SyncState_Database string

definition SyncState_database :: "string \<Rightarrow> SqliteError \<Rightarrow> ReaderSynchronizationStateError" where
  "SyncState_database operation e = SyncState_Database operation"

definition batch_eligible :: "UnixMs \<Rightarrow> BatchRow \<Rightarrow> bool" where
  "batch_eligible now b \<longleftrightarrow> sb_state b = ''prepared'' \<or>
    sb_state b = ''retryable_failure'' \<and>
      (case sb_next_retry_at b of None \<Rightarrow> True | Some t \<Rightarrow> t \<le> now)"

text \<open>\<open>fare_transaction_id IN (SELECT .. FROM synchronization_entries ..)\<close>.\<close>

definition in_batch :: "string \<Rightarrow> string \<Rightarrow> ReaderDb \<Rightarrow> OfflineTransactionRow \<Rightarrow> bool" where
  "in_batch reader bid db r \<longleftrightarrow> list_ex (\<lambda>e. se_transaction_id e = ot_transaction_id r \<and>
    se_batch_id e = bid \<and> se_reader_id e = reader) (rd_entries db)"

definition count_batch_entries :: "string \<Rightarrow> string \<Rightarrow> ReaderDb \<Rightarrow> nat" where
  "count_batch_entries reader bid db =
    length (filter (\<lambda>e. se_batch_id e = bid \<and> se_reader_id e = reader) (rd_entries db))"

definition mark_batch_body ::
  "UuidApi \<Rightarrow> ReaderId \<Rightarrow> SynchronizationBatchId \<Rightarrow> UnixMs \<Rightarrow> (ReaderSynchronizationStateError, unit) tx" where
  "mark_batch_body api reader bid now =
    (let reader_text = identifier_to_string api reader; batch_text = identifier_to_string api bid in
    tx_bind (tx_call (SyncState_database ''mark batch in flight'') (update_batches
      (\<lambda>b. sb_batch_id b = batch_text \<and> sb_reader_id b = reader_text \<and> sb_updated_at b \<le> now \<and>
        batch_eligible now b)
      (\<lambda>b. b\<lparr> sb_state := ''in_flight'', sb_attempt_count := sb_attempt_count b + 1,
        sb_submitted_at := Some (case sb_submitted_at b of Some t \<Rightarrow> t | None \<Rightarrow> now),
        sb_next_retry_at := None, sb_failure_category := None, sb_updated_at := now \<rparr>))) (\<lambda>updated.
    tx_bind (tx_result (ensure (updated = 1) (SyncState_InvalidTransition bid ''mark_in_flight''))) (\<lambda>_.
    tx_bind (tx_call (SyncState_database ''count batch entries'')
      (sql_select (count_batch_entries reader_text batch_text))) (\<lambda>expected.
    tx_bind (tx_result (ensure (expected \<noteq> 0) (SyncState_InvalidStoredValue ''batch_entry_count''))) (\<lambda>_.
    tx_bind (tx_call (SyncState_database ''increment batch entry attempts'') (\<lambda>db. update_queue
      (\<lambda>r. ot_reader_id r = reader_text \<and> ot_queue_state r = ''in_flight'' \<and> ot_updated_at r \<le> now \<and>
        in_batch reader_text batch_text db r)
      (\<lambda>r. r\<lparr> ot_attempt_count := ot_attempt_count r + 1, ot_updated_at := now \<rparr>) db)) (\<lambda>queue_updated.
    tx_result (ensure (queue_updated = expected)
      (SyncState_BatchEntryConflict bid expected queue_updated))))))))"

definition mark_synchronization_batch_in_flight ::
  "UuidApi \<Rightarrow> ReaderId \<Rightarrow> SynchronizationBatchId \<Rightarrow> UnixMs \<Rightarrow> Sqlite
    \<Rightarrow> (ReaderSynchronizationStateError + SynchronizationBatch) \<times> Sqlite" where
  "mark_synchronization_batch_in_flight api reader bid now w =
    and_next (validate_operation_time SyncState_NegativeOperationTime now, w) (\<lambda>_ w.
    and_next (transaction (SyncState_database ''begin batch submission'')
      (\<lambda>_. Some (SyncState_database ''commit batch submission'')) (mark_batch_body api reader bid now) w) (\<lambda>_ w.
    map_failure SyncState_Synchronization (load_synchronization_batch api reader bid w)))"

text \<open>The batch awaiting a result, untouched after \<open>now\<close>.\<close>

definition in_flight_batch :: "UuidApi \<Rightarrow> ReaderId \<Rightarrow> SynchronizationBatchId \<Rightarrow> UnixMs \<Rightarrow> BatchRow \<Rightarrow> bool" where
  "in_flight_batch api reader bid now b \<longleftrightarrow> sb_batch_id b = identifier_to_string api bid \<and>
    sb_reader_id b = identifier_to_string api reader \<and> sb_state b = ''in_flight'' \<and> sb_updated_at b \<le> now"

definition record_synchronization_retryable_failure ::
  "UuidApi \<Rightarrow> ReaderId \<Rightarrow> SynchronizationBatchId \<Rightarrow> ustr \<Rightarrow> UnixMs \<Rightarrow> UnixMs \<Rightarrow> Sqlite
    \<Rightarrow> (ReaderSynchronizationStateError + SynchronizationBatch) \<times> Sqlite" where
  "record_synchronization_retryable_failure api reader bid category now retry_at w =
    and_next (validate_operation_time SyncState_NegativeOperationTime now, w) (\<lambda>_ w.
    and_next (validate_operation_time SyncState_NegativeOperationTime retry_at, w) (\<lambda>_ w.
    and_next (ensure (now \<le> retry_at) (SyncState_RetryBeforeUpdate retry_at now), w) (\<lambda>_ w.
    and_next (validate_failure_category SyncState_EmptyFailureCategory category, w) (\<lambda>category w.
    and_next (autocommit (SyncState_database ''record retryable batch failure'') (update_batches
      (in_flight_batch api reader bid now)
      (\<lambda>b. b\<lparr> sb_state := ''retryable_failure'', sb_next_retry_at := Some retry_at,
        sb_failure_category := Some category, sb_updated_at := now \<rparr>)) w) (\<lambda>updated w.
    and_next (ensure (updated = 1) (SyncState_InvalidTransition bid ''record_retryable_failure''), w) (\<lambda>_ w.
    map_failure SyncState_Synchronization (load_synchronization_batch api reader bid w)))))))"

definition recover_interrupted_synchronization_batches ::
  "UuidApi \<Rightarrow> ReaderId \<Rightarrow> UnixMs \<Rightarrow> Sqlite \<Rightarrow> (ReaderSynchronizationStateError + nat) \<times> Sqlite" where
  "recover_interrupted_synchronization_batches api reader now w =
    and_next (validate_operation_time SyncState_NegativeOperationTime now, w) (\<lambda>_ w.
    autocommit (SyncState_database ''recover interrupted batches'') (update_batches
      (\<lambda>b. sb_reader_id b = identifier_to_string api reader \<and> sb_state b = ''in_flight'' \<and>
        sb_updated_at b \<le> now)
      (\<lambda>b. b\<lparr> sb_state := ''retryable_failure'', sb_next_retry_at := Some now,
        sb_failure_category := Some RESTART_FAILURE_CATEGORY, sb_updated_at := now \<rparr>)) w)"

text \<open>\<open>ORDER BY first_local_sequence_number, created_at_unix_milliseconds, batch_id\<close>.\<close>

definition ready_batch_ids :: "string \<Rightarrow> UnixMs \<Rightarrow> nat \<Rightarrow> ReaderDb \<Rightarrow> string list" where
  "ready_batch_ids reader now limit db = map sb_batch_id (take limit
    (sort_key sb_first_sequence (sort_key sb_created_at (sort_key (\<lambda>b. map of_char (sb_batch_id b) :: nat list)
      (filter (\<lambda>b. sb_reader_id b = reader \<and> batch_eligible now b) (rd_batches db))))))"

fun load_batches ::
  "UuidApi \<Rightarrow> ReaderId \<Rightarrow> string list \<Rightarrow> Sqlite
    \<Rightarrow> (ReaderSynchronizationStateError + SynchronizationBatch list) \<times> Sqlite" where
  "load_batches api reader [] w = (Ok [], w)"
| "load_batches api reader (stored_id # ids) w =
    and_next (map_err (\<lambda>_. SyncState_InvalidStoredValue ''batch_id'')
      (identifier_from_str api ''synchronization batch identifier'' stored_id), w) (\<lambda>bid w.
    and_next (map_failure SyncState_Synchronization (load_synchronization_batch api reader bid w)) (\<lambda>batch w.
    and_next (load_batches api reader ids w) (\<lambda>batches w. (Ok (batch # batches), w))))"

definition load_ready_synchronization_batches ::
  "UuidApi \<Rightarrow> ReaderId \<Rightarrow> UnixMs \<Rightarrow> nat \<Rightarrow> Sqlite
    \<Rightarrow> (ReaderSynchronizationStateError + SynchronizationBatch list) \<times> Sqlite" where
  "load_ready_synchronization_batches api reader now limit w =
    and_next (validate_operation_time SyncState_NegativeOperationTime now, w) (\<lambda>_ w.
    and_next (ensure (limit \<noteq> 0) SyncState_ZeroReadLimit, w) (\<lambda>_ w.
    and_next (ensure (int limit \<le> i64_max) (SyncState_ReadLimitTooLarge limit), w) (\<lambda>_ w.
    and_next (autocommit (SyncState_database ''load ready batch identities'')
      (sql_select (ready_batch_ids (identifier_to_string api reader) now limit)) w) (\<lambda>ids w.
    load_batches api reader ids w))))"

section \<open>Final failures\<close>

datatype ReaderSynchronizationFailureError =
    SyncFailure_NegativeOperationTime UnixMs
  | SyncFailure_EmptyFailureCategory
  | SyncFailure_InvalidTransition SynchronizationBatchId string
  | SyncFailure_BatchEntryConflict SynchronizationBatchId nat nat
  | SyncFailure_InvalidStoredValue string
  | SyncFailure_Synchronization ReaderSynchronizationError
  | SyncFailure_Database string

definition SyncFailure_database :: "string \<Rightarrow> SqliteError \<Rightarrow> ReaderSynchronizationFailureError" where
  "SyncFailure_database operation e = SyncFailure_Database operation"

definition final_failure_body ::
  "UuidApi \<Rightarrow> ReaderId \<Rightarrow> SynchronizationBatchId \<Rightarrow> ustr \<Rightarrow> UnixMs \<Rightarrow> string \<Rightarrow> string
    \<Rightarrow> (ReaderSynchronizationFailureError, unit) tx" where
  "final_failure_body api reader bid category now target transition =
    (let reader_text = identifier_to_string api reader; batch_text = identifier_to_string api bid in
    tx_bind (tx_call (SyncFailure_database ''record final batch failure'') (update_batches
      (in_flight_batch api reader bid now)
      (\<lambda>b. b\<lparr> sb_state := target, sb_next_retry_at := None, sb_failure_category := Some category,
        sb_updated_at := now \<rparr>))) (\<lambda>updated.
    tx_bind (tx_result (ensure (updated = 1) (SyncFailure_InvalidTransition bid transition))) (\<lambda>_.
    tx_bind (tx_call (SyncFailure_database ''count final batch entries'')
      (sql_select (count_batch_entries reader_text batch_text))) (\<lambda>expected.
    tx_bind (tx_result (ensure (expected \<noteq> 0) (SyncFailure_InvalidStoredValue ''batch_entry_count''))) (\<lambda>_.
    tx_bind (tx_call (SyncFailure_database ''record final queue failures'') (\<lambda>db. update_queue
      (\<lambda>r. ot_reader_id r = reader_text \<and> ot_queue_state r = ''in_flight'' \<and> ot_updated_at r \<le> now \<and>
        in_batch reader_text batch_text db r)
      (\<lambda>r. r\<lparr> ot_queue_state := target, ot_next_retry_at := None, ot_failure_category := Some category,
        ot_updated_at := now \<rparr>) db)) (\<lambda>queue_updated.
    tx_result (ensure (queue_updated = expected)
      (SyncFailure_BatchEntryConflict bid expected queue_updated))))))))"

definition record_final_synchronization_failure ::
  "UuidApi \<Rightarrow> ReaderId \<Rightarrow> SynchronizationBatchId \<Rightarrow> ustr \<Rightarrow> UnixMs \<Rightarrow> string \<Rightarrow> string \<Rightarrow> Sqlite
    \<Rightarrow> (ReaderSynchronizationFailureError + SynchronizationBatch) \<times> Sqlite" where
  "record_final_synchronization_failure api reader bid category now target transition w =
    and_next (validate_operation_time SyncFailure_NegativeOperationTime now, w) (\<lambda>_ w.
    and_next (validate_failure_category SyncFailure_EmptyFailureCategory category, w) (\<lambda>category w.
    and_next (transaction (SyncFailure_database ''begin final batch failure'')
      (\<lambda>_. Some (SyncFailure_database ''commit final batch failure''))
      (final_failure_body api reader bid category now target transition) w) (\<lambda>_ w.
    map_failure SyncFailure_Synchronization (load_synchronization_batch api reader bid w))))"

definition record_synchronization_permanent_failure ::
  "UuidApi \<Rightarrow> ReaderId \<Rightarrow> SynchronizationBatchId \<Rightarrow> ustr \<Rightarrow> UnixMs \<Rightarrow> Sqlite
    \<Rightarrow> (ReaderSynchronizationFailureError + SynchronizationBatch) \<times> Sqlite" where
  "record_synchronization_permanent_failure api reader bid category now =
    record_final_synchronization_failure api reader bid category now ''permanent_failure''
      ''record_permanent_failure''"

definition record_synchronization_manual_review ::
  "UuidApi \<Rightarrow> ReaderId \<Rightarrow> SynchronizationBatchId \<Rightarrow> ustr \<Rightarrow> UnixMs \<Rightarrow> Sqlite
    \<Rightarrow> (ReaderSynchronizationFailureError + SynchronizationBatch) \<times> Sqlite" where
  "record_synchronization_manual_review api reader bid category now =
    record_final_synchronization_failure api reader bid category now ''manual_review''
      ''record_manual_review''"

end
