(* ===== verification/ReaderRequest.thy ===== *)
theory ReaderRequest
  imports ReaderSync
begin

text \<open>
  The request a reader sends for a batch in flight: \<open>crates/persistence/src/reader_sync_request.rs\<close>.
\<close>

datatype ReaderSynchronizationRequestError =
    Request_BatchNotFound SynchronizationBatchId ReaderId
  | Request_BatchNotInFlight SynchronizationBatchId
  | Request_MissingSubmissionTime SynchronizationBatchId
  | Request_ReaderStateNotFound ReaderId
  | Request_ReaderIdentityMismatch ReaderId ReaderId
  | Request_ProtocolMismatch SynchronizationBatchId
  | Request_InvalidStoredValue string
  | Request_Protocol SynchronizationProtocolError
  | Request_Database string

definition Request_database :: "string \<Rightarrow> SqliteError \<Rightarrow> ReaderSynchronizationRequestError" where
  "Request_database operation e = Request_Database operation"

definition Request_decode_protocol_version ::
  "int \<Rightarrow> ReaderSynchronizationRequestError + DeviceProtocolVersion" where
  "Request_decode_protocol_version v =
    and_then (ok_or (u16_try_from v) (Request_InvalidStoredValue ''protocol_version'')) (\<lambda>value.
    map_err (\<lambda>_. Request_InvalidStoredValue ''protocol_version'') (DeviceProtocolVersion_new value))"

definition Request_decode_sequence ::
  "int \<Rightarrow> string \<Rightarrow> ReaderSynchronizationRequestError + LocalSequenceNumber" where
  "Request_decode_sequence v field =
    and_then (ok_or (u64_try_from v) (Request_InvalidStoredValue field)) (\<lambda>value.
    map_err (\<lambda>_. Request_InvalidStoredValue field) (LocalSequenceNumber_new value))"

text \<open>The join of the batch's entries with the queue, in the order of the entries.\<close>

definition request_rows :: "string \<Rightarrow> string \<Rightarrow> ReaderDb \<Rightarrow> (BatchEntryRow \<times> ustr) list" where
  "request_rows reader bid db = concat (map (\<lambda>e. map (\<lambda>q. (e, ot_envelope_json q))
    (filter (\<lambda>q. ot_transaction_id q = se_transaction_id e \<and> ot_reader_id q = se_reader_id e \<and>
      ot_sequence q = se_sequence e) (rd_queue db))) (entry_rows_of reader bid db))"

fun request_entries_from ::
  "UuidApi \<Rightarrow> 'j JsonApi \<Rightarrow> nat \<Rightarrow> (BatchEntryRow \<times> ustr) list
    \<Rightarrow> ReaderSynchronizationRequestError + SynchronizationRequestEntry list" where
  "request_entries_from api json expected [] = Ok []"
| "request_entries_from api json expected ((row, envelope) # rows) =
    and_then (ensure (0 \<le> se_position row \<and> se_position row < 18446744073709551616)
      (Request_InvalidStoredValue ''entry_position'')) (\<lambda>_.
    and_then (ensure (se_position row = int expected) (Request_InvalidStoredValue ''entry_position'')) (\<lambda>_.
    and_then (map_err (\<lambda>_. Request_InvalidStoredValue ''fare_transaction_id'')
      (identifier_from_str api ''fare transaction identifier'' (se_transaction_id row))) (\<lambda>tid.
    and_then (Request_decode_sequence (se_sequence row) ''local_sequence_number'') (\<lambda>sequence.
    and_then (map_err Request_Protocol (CanonicalTransactionEnvelope_from_json json envelope)) (\<lambda>canonical.
    and_then (request_entries_from api json (Suc expected) rows) (\<lambda>entries.
    Ok (\<lparr> re_transaction_id = tid, re_local_sequence_number = sequence,
      re_transaction_envelope = canonical \<rparr> # entries)))))))"

definition request_body ::
  "UuidApi \<Rightarrow> 'j JsonApi \<Rightarrow> ReaderId \<Rightarrow> SynchronizationBatchId
    \<Rightarrow> (ReaderSynchronizationRequestError, SynchronizationBatchRequest) tx" where
  "request_body api json reader bid =
    (let reader_text = identifier_to_string api reader; batch_text = identifier_to_string api bid in
    tx_bind (tx_call (Request_database ''load synchronization batch'')
      (sql_select (batch_row_of reader_text batch_text))) (\<lambda>found.
    tx_bind (tx_result (ok_or found (Request_BatchNotFound bid reader))) (\<lambda>batch.
    tx_bind (tx_result (ensure (sb_state batch = ''in_flight'') (Request_BatchNotInFlight bid))) (\<lambda>_.
    tx_bind (tx_result (ok_or (sb_submitted_at batch) (Request_MissingSubmissionTime bid))) (\<lambda>submitted_at.
    tx_bind (tx_result (ensure (0 \<le> submitted_at)
      (Request_InvalidStoredValue ''submitted_at_unix_milliseconds''))) (\<lambda>_.
    tx_bind (tx_call (Request_database ''load reader state'') (sql_select rd_state)) (\<lambda>found_state.
    tx_bind (tx_result (ok_or found_state (Request_ReaderStateNotFound reader))) (\<lambda>state.
    tx_bind (tx_result (map_err (\<lambda>_. Request_InvalidStoredValue ''reader_id'')
      (identifier_from_str api ''reader identifier'' (rs_reader_id state)))) (\<lambda>stored_reader.
    tx_bind (tx_result (ensure (stored_reader = reader)
      (Request_ReaderIdentityMismatch reader stored_reader))) (\<lambda>_.
    tx_bind (tx_result (Request_decode_protocol_version (rs_protocol_version state))) (\<lambda>reader_protocol.
    tx_bind (tx_result (Request_decode_protocol_version (sb_protocol_version batch))) (\<lambda>batch_protocol.
    tx_bind (tx_result (ensure (reader_protocol = batch_protocol) (Request_ProtocolMismatch bid))) (\<lambda>_.
    tx_bind (tx_result (Request_decode_sequence (sb_first_sequence batch)
      ''first_local_sequence_number'')) (\<lambda>first_sequence.
    tx_bind (tx_result (Request_decode_sequence (sb_last_sequence batch)
      ''last_local_sequence_number'')) (\<lambda>last_sequence.
    tx_bind (tx_call (Request_database ''load synchronization request entries'')
      (sql_select (request_rows reader_text batch_text))) (\<lambda>rows.
    tx_bind (tx_result (ensure (rows \<noteq> []) (Request_InvalidStoredValue ''synchronization_entries''))) (\<lambda>_.
    tx_bind (tx_result (request_entries_from api json 0 rows)) (\<lambda>entries.
    tx_bind (tx_result (map_err Request_Protocol (ProtocolEnvironmentId_new (rs_environment_id state)))) (\<lambda>environment.
    tx_bind (tx_result (map_err Request_Protocol (ReaderSoftwareVersion_new (rs_software_version state)))) (\<lambda>software.
    tx_result (map_err Request_Protocol (SynchronizationBatchRequest_new
      \<lparr> rq_protocol_version = batch_protocol, rq_environment_id = environment, rq_reader_id = reader,
        rq_reader_software_version = software, rq_batch_id = bid,
        rq_first_local_sequence_number = first_sequence, rq_last_local_sequence_number = last_sequence,
        rq_submitted_at_unix_milliseconds = i64_of_int submitted_at, rq_entries = entries \<rparr>))))))))))))))))))))))"

definition load_synchronization_batch_request ::
  "UuidApi \<Rightarrow> 'j JsonApi \<Rightarrow> ReaderId \<Rightarrow> SynchronizationBatchId \<Rightarrow> Sqlite
    \<Rightarrow> (ReaderSynchronizationRequestError + SynchronizationBatchRequest) \<times> Sqlite" where
  "load_synchronization_batch_request api json reader bid w =
    transaction (Request_database ''begin request assembly'')
      (\<lambda>_. Some (Request_database ''commit request assembly'')) (request_body api json reader bid) w"

end
