(* ===== verification/ReaderAcknowledgement.thy ===== *)
theory ReaderAcknowledgement
  imports ReaderSync
begin

text \<open>
  Backend acknowledgements on the reader: \<open>crates/persistence/src/reader_acknowledgement.rs\<close>
  (validation and storage), \<open>reader_protocol_acknowledgement.rs\<close> (translation of the protocol's
  message) and \<open>reader_acknowledgement_application.rs\<close> (application to the queue).  The canonical
  payload is the JSON value the code builds; rendering it (\<open>serde_json::to_string\<close>) is the
  argument \<open>render\<close>.
\<close>

datatype Json =
    JNull | JInt int | JText ustr | JArray "Json list" | JObject "(string \<times> Json) list"

datatype SynchronizationEntryResolution =
    Resolution_Acknowledged
  | Resolution_RetryableFailure ustr UnixMs
  | Resolution_PermanentFailure ustr
  | Resolution_ManualReview ustr

record ReaderAcknowledgementEntry =
  ra_transaction_id :: FareTransactionId
  ra_sequence :: LocalSequenceNumber
  ra_resolution :: SynchronizationEntryResolution

record SynchronizationAcknowledgement =
  ack_reader_id :: ReaderId
  ack_batch_id :: SynchronizationBatchId
  ack_protocol_version :: DeviceProtocolVersion
  ack_first_sequence :: LocalSequenceNumber
  ack_last_sequence :: LocalSequenceNumber
  ack_received_at :: UnixMs
  ack_entries :: "ReaderAcknowledgementEntry list"

record StoredSynchronizationAcknowledgement =
  stored_acknowledgement :: SynchronizationAcknowledgement
  stored_replayed :: bool

datatype ReaderAcknowledgementError =
    NegativeReceivedTime UnixMs
  | Ack_InvalidSequenceRange
  | Ack_EmptyEntries
  | Ack_DuplicateTransaction FareTransactionId
  | Ack_DuplicateSequence u64
  | Ack_EmptyFailureCategory FareTransactionId
  | RetryBeforeAcknowledgement FareTransactionId UnixMs UnixMs
  | Ack_ProtocolMismatch SynchronizationBatchId
  | Ack_SequenceRangeMismatch SynchronizationBatchId
  | Ack_EntryCountMismatch SynchronizationBatchId nat nat
  | Ack_EntryMismatch SynchronizationBatchId nat
  | Ack_BatchNotInFlight SynchronizationBatchId
  | Ack_ConflictingReplay SynchronizationBatchId
  | Ack_Serialization
  | Ack_Synchronization ReaderSynchronizationError
  | Ack_Database string

definition Ack_database :: "string \<Rightarrow> SqliteError \<Rightarrow> ReaderAcknowledgementError" where
  "Ack_database operation e = Ack_Database operation"

definition Ack_validate_failure_category :: "FareTransactionId \<Rightarrow> ustr \<Rightarrow> ReaderAcknowledgementError + unit" where
  "Ack_validate_failure_category tid category =
    (if trim category = [] then Err (Ack_EmptyFailureCategory tid) else Ok ())"

fun validate_resolution ::
  "FareTransactionId \<Rightarrow> SynchronizationEntryResolution \<Rightarrow> UnixMs \<Rightarrow> ReaderAcknowledgementError + unit" where
  "validate_resolution tid Resolution_Acknowledged received_at = Ok ()"
| "validate_resolution tid (Resolution_RetryableFailure category retry_at) received_at =
    and_then (Ack_validate_failure_category tid category) (\<lambda>_.
    if retry_at < received_at then Err (RetryBeforeAcknowledgement tid retry_at received_at) else Ok ())"
| "validate_resolution tid (Resolution_PermanentFailure category) received_at =
    Ack_validate_failure_category tid category"
| "validate_resolution tid (Resolution_ManualReview category) received_at =
    Ack_validate_failure_category tid category"

text \<open>The loop over the entries with the two sets of identities seen so far.\<close>

fun validate_ack_entries ::
  "UnixMs \<Rightarrow> FareTransactionId list \<Rightarrow> u64 list \<Rightarrow> ReaderAcknowledgementEntry list
    \<Rightarrow> ReaderAcknowledgementError + unit" where
  "validate_ack_entries received_at ids sequences [] = Ok ()"
| "validate_ack_entries received_at ids sequences (e # es) =
    (if ra_transaction_id e \<in> set ids then Err (Ack_DuplicateTransaction (ra_transaction_id e))
     else if ra_sequence e \<in> set sequences then Err (Ack_DuplicateSequence (ra_sequence e))
     else and_then (validate_resolution (ra_transaction_id e) (ra_resolution e) received_at) (\<lambda>_.
       validate_ack_entries received_at (ra_transaction_id e # ids) (ra_sequence e # sequences) es))"

definition SynchronizationAcknowledgement_new ::
  "SynchronizationAcknowledgement \<Rightarrow> ReaderAcknowledgementError + SynchronizationAcknowledgement" where
  "SynchronizationAcknowledgement_new a =
    (if ack_received_at a < 0 then Err (NegativeReceivedTime (ack_received_at a))
     else if ack_last_sequence a < ack_first_sequence a then Err Ack_InvalidSequenceRange
     else if ack_entries a = [] then Err Ack_EmptyEntries
     else and_then (validate_ack_entries (ack_received_at a) [] [] (ack_entries a)) (\<lambda>_. Ok a))"

section \<open>Translation of the protocol's message\<close>

datatype ReaderProtocolAcknowledgementError =
    MissingFailureCategory FareTransactionId
  | MissingRetryTime FareTransactionId
  | ProtocolAck_Acknowledgement ReaderAcknowledgementError

definition required_failure_category ::
  "SynchronizationAcknowledgementEntry \<Rightarrow> ReaderProtocolAcknowledgementError + ustr" where
  "required_failure_category e =
    ok_or (map_option (\<lambda>c. ascii (SynchronizationFailureCategory_as_str c)) (ae_failure_category e))
      (MissingFailureCategory (ae_transaction_id e))"

definition translate_entry ::
  "SynchronizationAcknowledgementEntry \<Rightarrow> ReaderProtocolAcknowledgementError + ReaderAcknowledgementEntry" where
  "translate_entry e =
    and_then (case ae_outcome e of
        Acknowledged \<Rightarrow> Ok Resolution_Acknowledged
      | RetryableFailure \<Rightarrow>
          and_then (required_failure_category e) (\<lambda>category.
          and_then (ok_or (ae_next_retry_at e) (MissingRetryTime (ae_transaction_id e))) (\<lambda>retry_at.
          Ok (Resolution_RetryableFailure category (sint retry_at))))
      | PermanentFailure \<Rightarrow>
          and_then (required_failure_category e) (\<lambda>category. Ok (Resolution_PermanentFailure category))
      | ManualReview \<Rightarrow>
          and_then (required_failure_category e) (\<lambda>category. Ok (Resolution_ManualReview category)))
    (\<lambda>resolution. Ok \<lparr> ra_transaction_id = ae_transaction_id e,
      ra_sequence = ae_local_sequence_number e, ra_resolution = resolution \<rparr>)"

definition translate_protocol_synchronization_acknowledgement ::
  "SynchronizationBatchAcknowledgement
    \<Rightarrow> ReaderProtocolAcknowledgementError + SynchronizationAcknowledgement" where
  "translate_protocol_synchronization_acknowledgement a =
    and_then (collect_results translate_entry (ak_entries a)) (\<lambda>entries.
    map_err ProtocolAck_Acknowledgement (SynchronizationAcknowledgement_new
      \<lparr> ack_reader_id = ak_reader_id a, ack_batch_id = ak_batch_id a,
        ack_protocol_version = ak_protocol_version a,
        ack_first_sequence = ak_first_local_sequence_number a,
        ack_last_sequence = ak_last_local_sequence_number a,
        ack_received_at = sint (ak_received_at_unix_milliseconds a), ack_entries = entries \<rparr>))"

section \<open>Storage\<close>

fun check_ack_entries ::
  "SynchronizationBatchId \<Rightarrow> nat \<Rightarrow> (SynchronizationBatchEntry \<times> ReaderAcknowledgementEntry) list
    \<Rightarrow> ReaderAcknowledgementError + unit" where
  "check_ack_entries bid position [] = Ok ()"
| "check_ack_entries bid position ((expected, received) # rest) =
    (if batch_entry_transaction_id expected \<noteq> ra_transaction_id received \<or>
        batch_entry_sequence expected \<noteq> ra_sequence received
     then Err (Ack_EntryMismatch bid position)
     else check_ack_entries bid (Suc position) rest)"

definition validate_against_batch ::
  "SynchronizationAcknowledgement \<Rightarrow> SynchronizationBatch \<Rightarrow> ReaderAcknowledgementError + unit" where
  "validate_against_batch a b =
    (if ack_protocol_version a \<noteq> batch_protocol_version b then Err (Ack_ProtocolMismatch (batch_id b))
     else if ack_first_sequence a \<noteq> batch_first_sequence b \<or> ack_last_sequence a \<noteq> batch_last_sequence b
     then Err (Ack_SequenceRangeMismatch (batch_id b))
     else if length (ack_entries a) \<noteq> length (batch_entries b)
     then Err (Ack_EntryCountMismatch (batch_id b) (length (batch_entries b)) (length (ack_entries a)))
     else check_ack_entries (batch_id b) 0 (zip (batch_entries b) (ack_entries a)))"

fun stored_resolution ::
  "SynchronizationEntryResolution \<Rightarrow> string \<times> ustr option \<times> UnixMs option" where
  "stored_resolution Resolution_Acknowledged = (''acknowledged'', None, None)"
| "stored_resolution (Resolution_RetryableFailure category retry_at) =
    (''retryable_failure'', Some category, Some retry_at)"
| "stored_resolution (Resolution_PermanentFailure category) = (''permanent_failure'', Some category, None)"
| "stored_resolution (Resolution_ManualReview category) = (''manual_review'', Some category, None)"

definition payload_entry :: "UuidApi \<Rightarrow> nat \<times> ReaderAcknowledgementEntry \<Rightarrow> Json" where
  "payload_entry api positioned =
    (case stored_resolution (ra_resolution (snd positioned)) of (outcome, category, retry_at) \<Rightarrow>
     JObject [(''entry_position'', JInt (int (fst positioned))),
       (''fare_transaction_id'',
         JText (ascii (identifier_to_string api (ra_transaction_id (snd positioned))))),
       (''local_sequence_number'', JInt (uint (ra_sequence (snd positioned)))),
       (''outcome'', JText (ascii outcome)),
       (''failure_category'', case category of None \<Rightarrow> JNull | Some c \<Rightarrow> JText c),
       (''retry_at_unix_milliseconds'', case retry_at of None \<Rightarrow> JNull | Some t \<Rightarrow> JInt t)])"

definition payload_value :: "UuidApi \<Rightarrow> SynchronizationAcknowledgement \<Rightarrow> Json" where
  "payload_value api a = JObject
    [(''schema_version'', JInt 1),
     (''reader_id'', JText (ascii (identifier_to_string api (ack_reader_id a)))),
     (''batch_id'', JText (ascii (identifier_to_string api (ack_batch_id a)))),
     (''protocol_version'', JInt (uint (ack_protocol_version a))),
     (''first_local_sequence_number'', JInt (uint (ack_first_sequence a))),
     (''last_local_sequence_number'', JInt (uint (ack_last_sequence a))),
     (''received_at_unix_milliseconds'', JInt (ack_received_at a)),
     (''entries'', JArray (map (payload_entry api) (List.enumerate 0 (ack_entries a))))]"

definition canonical_payload ::
  "UuidApi \<Rightarrow> (Json \<Rightarrow> ustr option) \<Rightarrow> SynchronizationAcknowledgement \<Rightarrow> ReaderAcknowledgementError + ustr" where
  "canonical_payload api render a = ok_or (render (payload_value api a)) Ack_Serialization"

definition Ack_sequence_to_i64 :: "LocalSequenceNumber \<Rightarrow> ReaderAcknowledgementError + int" where
  "Ack_sequence_to_i64 s = ok_or (i64_column s) Ack_InvalidSequenceRange"

definition insert_ack_entry ::
  "UuidApi \<Rightarrow> SynchronizationAcknowledgement \<Rightarrow> nat \<times> ReaderAcknowledgementEntry
    \<Rightarrow> (ReaderAcknowledgementError, unit) tx" where
  "insert_ack_entry api a positioned =
    (case stored_resolution (ra_resolution (snd positioned)) of (outcome, category, retry_at) \<Rightarrow>
    tx_bind (tx_result (ensure (int (fst positioned) \<le> i64_max)
      (Ack_EntryMismatch (ack_batch_id a) (fst positioned)))) (\<lambda>_.
    tx_bind (tx_result (Ack_sequence_to_i64 (ra_sequence (snd positioned)))) (\<lambda>sequence.
    tx_call (Ack_database ''insert acknowledgement entry'') (insert_acknowledgement_entry
      \<lparr> ar_batch_id = identifier_to_string api (ack_batch_id a),
        ar_reader_id = identifier_to_string api (ack_reader_id a),
        ar_transaction_id = identifier_to_string api (ra_transaction_id (snd positioned)),
        ar_sequence = sequence, ar_position = int (fst positioned), ar_outcome = outcome,
        ar_failure_category = category, ar_retry_at = retry_at \<rparr>))))"

definition existing_payload :: "string \<Rightarrow> string \<Rightarrow> ReaderDb \<Rightarrow> ustr option" where
  "existing_payload reader bid db = map_option sa_payload_json
    (find (\<lambda>a. sa_batch_id a = bid \<and> sa_reader_id a = reader) (rd_acks db))"

definition store_ack_body ::
  "UuidApi \<Rightarrow> SynchronizationAcknowledgement \<Rightarrow> ustr \<Rightarrow> (ReaderAcknowledgementError, bool) tx" where
  "store_ack_body api a payload =
    (let reader_text = identifier_to_string api (ack_reader_id a);
         batch_text = identifier_to_string api (ack_batch_id a) in
    tx_bind (tx_call (Ack_database ''load existing acknowledgement'')
      (sql_select (existing_payload reader_text batch_text))) (\<lambda>existing.
    case existing of
      Some old \<Rightarrow> tx_result (if old \<noteq> payload then Err (Ack_ConflictingReplay (ack_batch_id a)) else Ok True)
    | None \<Rightarrow>
    tx_bind (tx_call (Ack_database ''load acknowledgement batch state'')
      (sql_select (\<lambda>db. map_option sb_state (batch_row_of reader_text batch_text db)))) (\<lambda>state.
    tx_bind (tx_result (ensure (state = Some ''in_flight'') (Ack_BatchNotInFlight (ack_batch_id a)))) (\<lambda>_.
    tx_bind (tx_result (Ack_sequence_to_i64 (ack_first_sequence a))) (\<lambda>first_sequence.
    tx_bind (tx_result (Ack_sequence_to_i64 (ack_last_sequence a))) (\<lambda>last_sequence.
    tx_bind (tx_call (Ack_database ''insert acknowledgement'') (insert_acknowledgement
      \<lparr> sa_batch_id = batch_text, sa_reader_id = reader_text,
        sa_protocol_version = uint (ack_protocol_version a), sa_first_sequence = first_sequence,
        sa_last_sequence = last_sequence, sa_received_at = ack_received_at a,
        sa_payload_json = payload, sa_applied_at = None \<rparr>)) (\<lambda>_.
    tx_bind (tx_each (insert_ack_entry api a) (List.enumerate 0 (ack_entries a))) (\<lambda>_.
    tx_result (Ok False)))))))))"

definition store_synchronization_acknowledgement ::
  "UuidApi \<Rightarrow> (Json \<Rightarrow> ustr option) \<Rightarrow> SynchronizationAcknowledgement \<Rightarrow> Sqlite
    \<Rightarrow> (ReaderAcknowledgementError + StoredSynchronizationAcknowledgement) \<times> Sqlite" where
  "store_synchronization_acknowledgement api render a w =
    and_next (map_failure Ack_Synchronization
      (load_synchronization_batch api (ack_reader_id a) (ack_batch_id a) w)) (\<lambda>batch w.
    and_next (validate_against_batch a batch, w) (\<lambda>_ w.
    and_next (canonical_payload api render a, w) (\<lambda>payload w.
    and_next (transaction (Ack_database ''begin acknowledgement storage'')
      (\<lambda>replayed. if replayed then None else Some (Ack_database ''commit acknowledgement storage'')) (store_ack_body api a payload) w) (\<lambda>replayed w.
    (Ok \<lparr> stored_acknowledgement = a, stored_replayed = replayed \<rparr>, w)))))"

definition store_protocol_synchronization_acknowledgement ::
  "UuidApi \<Rightarrow> (Json \<Rightarrow> ustr option) \<Rightarrow> SynchronizationBatchAcknowledgement \<Rightarrow> Sqlite
    \<Rightarrow> (ReaderProtocolAcknowledgementError + StoredSynchronizationAcknowledgement) \<times> Sqlite" where
  "store_protocol_synchronization_acknowledgement api render a w =
    and_next (translate_protocol_synchronization_acknowledgement a, w) (\<lambda>translated w.
    map_failure ProtocolAck_Acknowledgement
      (store_synchronization_acknowledgement api render translated w))"

section \<open>Application\<close>

datatype AppliedResolution =
    Applied_Acknowledged
  | Applied_RetryableFailure ustr UnixMs
  | Applied_PermanentFailure ustr
  | Applied_ManualReview ustr

fun queue_values :: "AppliedResolution \<Rightarrow> string \<times> ustr option \<times> UnixMs option" where
  "queue_values Applied_Acknowledged = (''acknowledged'', None, None)"
| "queue_values (Applied_RetryableFailure category retry_at) =
    (''retryable_failure'', Some category, Some retry_at)"
| "queue_values (Applied_PermanentFailure category) = (''permanent_failure'', Some category, None)"
| "queue_values (Applied_ManualReview category) = (''manual_review'', Some category, None)"

record DecodedAcknowledgementEntry =
  da_transaction_id :: FareTransactionId
  da_sequence :: int
  da_resolution :: AppliedResolution

record ResolutionCounts =
  count_acknowledged :: nat
  count_retryable_failure :: nat
  count_permanent_failure :: nat
  count_manual_review :: nat

record SynchronizationAcknowledgementApplication =
  app_batch_id :: SynchronizationBatchId
  app_applied_now :: bool
  app_applied_at :: UnixMs
  app_counts :: ResolutionCounts
  app_last_acknowledged_sequence :: u64

datatype ReaderAcknowledgementApplicationError =
    NegativeApplicationTime UnixMs
  | AcknowledgementNotFound SynchronizationBatchId ReaderId
  | ApplicationBeforeReceipt SynchronizationBatchId UnixMs UnixMs
  | Apply_BatchNotInFlight SynchronizationBatchId
  | EntryStateConflict FareTransactionId
  | AcknowledgementUpdateConflict SynchronizationBatchId
  | Apply_ReaderStateNotFound ReaderId
  | Apply_InvalidStoredValue string
  | Apply_Database string

definition Apply_database :: "string \<Rightarrow> SqliteError \<Rightarrow> ReaderAcknowledgementApplicationError" where
  "Apply_database operation e = Apply_Database operation"

definition validated_failure_category :: "ustr option \<Rightarrow> ReaderAcknowledgementApplicationError + ustr" where
  "validated_failure_category category =
    and_then (ok_or category (Apply_InvalidStoredValue ''failure_category'')) (\<lambda>c.
    validate_failure_category (Apply_InvalidStoredValue ''failure_category'') c)"

definition decode_resolution ::
  "string \<Rightarrow> ustr option \<Rightarrow> UnixMs option \<Rightarrow> UnixMs
    \<Rightarrow> ReaderAcknowledgementApplicationError + AppliedResolution" where
  "decode_resolution outcome category retry_at received_at =
    (if outcome = ''acknowledged'' then
       (if category \<noteq> None \<or> retry_at \<noteq> None
        then Err (Apply_InvalidStoredValue ''acknowledgement_outcome'') else Ok Applied_Acknowledged)
     else if outcome = ''retryable_failure'' then
       and_then (validated_failure_category category) (\<lambda>c.
       and_then (ok_or retry_at (Apply_InvalidStoredValue ''retry_at_unix_milliseconds'')) (\<lambda>t.
       if t < received_at then Err (Apply_InvalidStoredValue ''retry_at_unix_milliseconds'')
       else Ok (Applied_RetryableFailure c t)))
     else if outcome = ''permanent_failure'' then
       (if retry_at \<noteq> None then Err (Apply_InvalidStoredValue ''retry_at_unix_milliseconds'')
        else and_then (validated_failure_category category) (\<lambda>c. Ok (Applied_PermanentFailure c)))
     else if outcome = ''manual_review'' then
       (if retry_at \<noteq> None then Err (Apply_InvalidStoredValue ''retry_at_unix_milliseconds'')
        else and_then (validated_failure_category category) (\<lambda>c. Ok (Applied_ManualReview c)))
     else Err (Apply_InvalidStoredValue ''outcome''))"

fun decode_ack_entries ::
  "UuidApi \<Rightarrow> UnixMs \<Rightarrow> nat \<Rightarrow> AcknowledgementEntryRow list
    \<Rightarrow> ReaderAcknowledgementApplicationError + DecodedAcknowledgementEntry list" where
  "decode_ack_entries api received_at expected [] = Ok []"
| "decode_ack_entries api received_at expected (row # rows) =
    and_then (ensure (0 \<le> ar_position row \<and> ar_position row < 18446744073709551616)
      (Apply_InvalidStoredValue ''entry_position'')) (\<lambda>_.
    and_then (ensure (ar_position row = int expected) (Apply_InvalidStoredValue ''entry_position'')) (\<lambda>_.
    and_then (map_err (\<lambda>_. Apply_InvalidStoredValue ''fare_transaction_id'')
      (identifier_from_str api ''fare transaction identifier'' (ar_transaction_id row))) (\<lambda>tid.
    and_then (ok_or (u64_try_from (ar_sequence row))
      (Apply_InvalidStoredValue ''local_sequence_number'')) (\<lambda>sequence.
    and_then (ensure (sequence \<noteq> 0) (Apply_InvalidStoredValue ''local_sequence_number'')) (\<lambda>_.
    and_then (decode_resolution (ar_outcome row) (ar_failure_category row) (ar_retry_at row) received_at) (\<lambda>res.
    and_then (decode_ack_entries api received_at (Suc expected) rows) (\<lambda>entries.
    Ok (\<lparr> da_transaction_id = tid, da_sequence = ar_sequence row, da_resolution = res \<rparr> # entries))))))))"

fun record_resolution :: "AppliedResolution \<Rightarrow> ResolutionCounts \<Rightarrow> ResolutionCounts" where
  "record_resolution Applied_Acknowledged c = c\<lparr> count_acknowledged := count_acknowledged c + 1 \<rparr>"
| "record_resolution (Applied_RetryableFailure _ _) c =
    c\<lparr> count_retryable_failure := count_retryable_failure c + 1 \<rparr>"
| "record_resolution (Applied_PermanentFailure _) c =
    c\<lparr> count_permanent_failure := count_permanent_failure c + 1 \<rparr>"
| "record_resolution (Applied_ManualReview _) c = c\<lparr> count_manual_review := count_manual_review c + 1 \<rparr>"

definition resolution_counts :: "DecodedAcknowledgementEntry list \<Rightarrow> ResolutionCounts" where
  "resolution_counts entries = fold (\<lambda>e. record_resolution (da_resolution e)) entries
    \<lparr> count_acknowledged = 0, count_retryable_failure = 0, count_permanent_failure = 0,
      count_manual_review = 0 \<rparr>"

definition is_resolved_queue_state :: "string \<Rightarrow> bool" where
  "is_resolved_queue_state state \<longleftrightarrow> state = ''acknowledged'' \<or> state = ''permanent_failure''"

text \<open>The loop of \<open>contiguous_resolved_sequence\<close>, with the last sequence found so far and the next expected.\<close>

fun contiguous_from ::
  "u64 \<Rightarrow> u64 \<Rightarrow> (int \<times> string) list \<Rightarrow> ReaderAcknowledgementApplicationError + u64" where
  "contiguous_from last_seq expected [] = Ok last_seq"
| "contiguous_from last_seq expected ((stored, state) # rest) =
    and_then (ok_or (u64_try_from stored) (Apply_InvalidStoredValue ''local_sequence_number'')) (\<lambda>sequence.
    and_then (ensure (sequence \<noteq> 0) (Apply_InvalidStoredValue ''local_sequence_number'')) (\<lambda>_.
    if sequence \<noteq> expected then Ok last_seq
    else if \<not> is_resolved_queue_state state then Ok last_seq
    else and_then (ok_or (checked_add_u64 sequence 1)
      (Apply_InvalidStoredValue ''last_acknowledged_sequence'')) (\<lambda>next_expected.
    contiguous_from sequence next_expected rest)))"

definition contiguous_resolved_sequence ::
  "u64 \<Rightarrow> (int \<times> string) list \<Rightarrow> ReaderAcknowledgementApplicationError + u64" where
  "contiguous_resolved_sequence current queue_states =
    and_then (ok_or (checked_add_u64 current 1)
      (Apply_InvalidStoredValue ''last_acknowledged_sequence'')) (\<lambda>expected.
    contiguous_from current expected queue_states)"

definition apply_entry ::
  "UuidApi \<Rightarrow> ReaderId \<Rightarrow> UnixMs \<Rightarrow> DecodedAcknowledgementEntry
    \<Rightarrow> (ReaderAcknowledgementApplicationError, unit) tx" where
  "apply_entry api reader now entry =
    (case queue_values (da_resolution entry) of (state, category, retry_at) \<Rightarrow>
    tx_bind (tx_call (Apply_database ''apply acknowledgement entry'') (update_queue
      (\<lambda>r. ot_transaction_id r = identifier_to_string api (da_transaction_id entry) \<and>
        ot_reader_id r = identifier_to_string api reader \<and> ot_sequence r = da_sequence entry \<and>
        ot_queue_state r = ''in_flight'' \<and> ot_updated_at r \<le> now)
      (\<lambda>r. r\<lparr> ot_queue_state := state, ot_next_retry_at := retry_at, ot_failure_category := category,
        ot_updated_at := now \<rparr>))) (\<lambda>updated.
    tx_result (ensure (updated = 1) (EntryStateConflict (da_transaction_id entry)))))"

definition advance_acknowledged_sequence ::
  "string \<Rightarrow> UnixMs \<Rightarrow> u64 \<Rightarrow> u64 \<Rightarrow> (ReaderAcknowledgementApplicationError, unit) tx" where
  "advance_acknowledged_sequence reader_text now current advanced =
    (if current < advanced then
       tx_bind (tx_result (ok_or (i64_column advanced)
         (Apply_InvalidStoredValue ''last_acknowledged_sequence''))) (\<lambda>stored_advanced.
       tx_bind (tx_call (Apply_database ''advance acknowledged sequence'') (update_reader_state
         (\<lambda>r. rs_reader_id r = reader_text \<and> rs_last_acknowledged_sequence r \<le> stored_advanced \<and>
           stored_advanced < rs_next_local_sequence r)
         (\<lambda>r. r\<lparr> rs_last_acknowledged_sequence := stored_advanced,
           rs_updated_at := max (rs_updated_at r) now \<rparr>))) (\<lambda>row.
       tx_result (ensure (row \<noteq> None) (Apply_InvalidStoredValue ''last_acknowledged_sequence''))))
     else tx_result (Ok ()))"

text \<open>The part of the transaction after the checks: queue, batch, reader sequence, marker.\<close>

definition apply_effects ::
  "UuidApi \<Rightarrow> ReaderId \<Rightarrow> SynchronizationBatchId \<Rightarrow> UnixMs \<Rightarrow> int \<Rightarrow> u64 \<Rightarrow> DecodedAcknowledgementEntry list
    \<Rightarrow> (ReaderAcknowledgementApplicationError, u64) tx" where
  "apply_effects api reader bid now stored_last current entries =
    (let reader_text = identifier_to_string api reader; batch_text = identifier_to_string api bid in
    tx_bind (tx_each (apply_entry api reader now) entries) (\<lambda>_.
    tx_bind (tx_call (Apply_database ''complete acknowledged batch'') (update_batches
      (in_flight_batch api reader bid now)
      (\<lambda>b. b\<lparr> sb_state := ''acknowledged'', sb_next_retry_at := None, sb_failure_category := None,
        sb_updated_at := now \<rparr>))) (\<lambda>updated.
    tx_bind (tx_result (ensure (updated = 1) (Apply_BatchNotInFlight bid))) (\<lambda>_.
    tx_bind (tx_call (Apply_database ''load contiguous queue state'') (sql_select (\<lambda>db.
      map (\<lambda>r. (ot_sequence r, ot_queue_state r)) (sort_key ot_sequence
        (filter (\<lambda>r. ot_reader_id r = reader_text \<and> stored_last < ot_sequence r) (rd_queue db)))))) (\<lambda>states.
    tx_bind (tx_result (contiguous_resolved_sequence current states)) (\<lambda>advanced.
    tx_bind (advance_acknowledged_sequence reader_text now current advanced) (\<lambda>_.
    tx_bind (tx_call (Apply_database ''mark acknowledgement applied'') (update_acknowledgements
      (\<lambda>a. sa_batch_id a = batch_text \<and> sa_reader_id a = reader_text \<and> sa_applied_at a = None)
      (\<lambda>a. a\<lparr> sa_applied_at := Some now \<rparr>))) (\<lambda>marked.
    tx_bind (tx_result (ensure (marked = 1) (AcknowledgementUpdateConflict bid))) (\<lambda>_.
    tx_result (Ok advanced))))))))))"

definition apply_body ::
  "UuidApi \<Rightarrow> ReaderId \<Rightarrow> SynchronizationBatchId \<Rightarrow> UnixMs
    \<Rightarrow> (ReaderAcknowledgementApplicationError, SynchronizationAcknowledgementApplication) tx" where
  "apply_body api reader bid now =
    (let reader_text = identifier_to_string api reader; batch_text = identifier_to_string api bid in
    tx_bind (tx_call (Apply_database ''load acknowledgement'') (sql_select (\<lambda>db.
      find (\<lambda>a. sa_batch_id a = batch_text \<and> sa_reader_id a = reader_text) (rd_acks db)))) (\<lambda>found.
    tx_bind (tx_result (ok_or found (AcknowledgementNotFound bid reader))) (\<lambda>ack.
    tx_bind (tx_result (ensure (0 \<le> sa_received_at ack)
      (Apply_InvalidStoredValue ''received_at_unix_milliseconds''))) (\<lambda>_.
    tx_bind (tx_call (Apply_database ''load acknowledgement entries'') (sql_select (\<lambda>db.
      sort_key ar_position (filter (\<lambda>e. ar_batch_id e = batch_text \<and> ar_reader_id e = reader_text)
        (rd_ack_entries db))))) (\<lambda>stored_entries.
    tx_bind (tx_result (decode_ack_entries api (sa_received_at ack) 0 stored_entries)) (\<lambda>entries.
    tx_bind (tx_result (ensure (entries \<noteq> []) (Apply_InvalidStoredValue ''acknowledgement_entries''))) (\<lambda>_.
    tx_bind (tx_call (Apply_database ''load reader sequence state'') (sql_select (\<lambda>db.
      case rd_state db of
        Some r \<Rightarrow> if rs_reader_id r = reader_text then Some (rs_last_acknowledged_sequence r) else None
      | None \<Rightarrow> None))) (\<lambda>found_last.
    tx_bind (tx_result (ok_or found_last (Apply_ReaderStateNotFound reader))) (\<lambda>stored_last.
    tx_bind (tx_result (ok_or (u64_try_from stored_last)
      (Apply_InvalidStoredValue ''last_acknowledged_sequence''))) (\<lambda>current.
    case sa_applied_at ack of
      Some applied_at \<Rightarrow>
        tx_bind (tx_result (ensure (0 \<le> applied_at)
          (Apply_InvalidStoredValue ''applied_at_unix_milliseconds''))) (\<lambda>_.
        tx_result (Ok \<lparr> app_batch_id = bid, app_applied_now = False, app_applied_at = applied_at,
          app_counts = resolution_counts entries, app_last_acknowledged_sequence = current \<rparr>))
    | None \<Rightarrow>
        tx_bind (tx_result (ensure (sa_received_at ack \<le> now)
          (ApplicationBeforeReceipt bid now (sa_received_at ack)))) (\<lambda>_.
        tx_bind (tx_call (Apply_database ''load batch application state'') (sql_select (\<lambda>db.
          map_option sb_state (batch_row_of reader_text batch_text db)))) (\<lambda>state.
        tx_bind (tx_result (ensure (state = Some ''in_flight'') (Apply_BatchNotInFlight bid))) (\<lambda>_.
        tx_bind (apply_effects api reader bid now stored_last current entries) (\<lambda>advanced.
        tx_result (Ok \<lparr> app_batch_id = bid, app_applied_now = True, app_applied_at = now,
          app_counts = resolution_counts entries,
          app_last_acknowledged_sequence = advanced \<rparr>)))))))))))))))"

definition apply_synchronization_acknowledgement ::
  "UuidApi \<Rightarrow> ReaderId \<Rightarrow> SynchronizationBatchId \<Rightarrow> UnixMs \<Rightarrow> Sqlite
    \<Rightarrow> (ReaderAcknowledgementApplicationError + SynchronizationAcknowledgementApplication) \<times> Sqlite" where
  "apply_synchronization_acknowledgement api reader bid now w =
    and_next (ensure (0 \<le> now) (NegativeApplicationTime now), w) (\<lambda>_ w.
    transaction (Apply_database ''begin acknowledgement application'')
      (\<lambda>res. Some (Apply_database (if app_applied_now res
        then ''commit acknowledgement application'' else ''finish acknowledgement replay''))) (apply_body api reader bid now) w)"

end
