(* ===== verification/ReaderHistory.thy ===== *)
theory ReaderHistory
  imports ReaderStorage ReaderRequest ReaderAcknowledgement
begin

text \<open>
  What no call of the reader modules ever changes.  \<open>db_moves\<close> relates a database to its possible
  futures; every statement is a move, so every call is, whatever fails.
\<close>

section \<open>The calls of the reader\<close>

datatype 'j ReaderCall =
    Bind ReaderDatabaseIdentity
  | Enqueue ReaderId "'j OfflineTransactionDraft"
  | MarkTransaction ReaderId FareTransactionId UnixMs
  | RetryTransaction ReaderId FareTransactionId ustr UnixMs UnixMs
  | FailTransaction ReaderId FareTransactionId ustr UnixMs
  | ReviewTransaction ReaderId FareTransactionId ustr UnixMs
  | RecoverQueue ReaderId UnixMs
  | CreateBatch ReaderId DeviceProtocolVersion SynchronizationBatchId UnixMs nat
  | MarkBatch ReaderId SynchronizationBatchId UnixMs
  | RetryBatch ReaderId SynchronizationBatchId ustr UnixMs UnixMs
  | RecoverBatches ReaderId UnixMs
  | FailBatch ReaderId SynchronizationBatchId ustr UnixMs
  | ReviewBatch ReaderId SynchronizationBatchId ustr UnixMs
  | StoreAcknowledgement SynchronizationAcknowledgement
  | ApplyAcknowledgement ReaderId SynchronizationBatchId UnixMs

fun reader_call ::
  "UuidApi \<Rightarrow> 'j DecisionJson \<Rightarrow> (Json \<Rightarrow> ustr option) \<Rightarrow> 'j ReaderCall \<Rightarrow> Sqlite \<Rightarrow> Sqlite" where
  "reader_call api json render (Bind identity) w = snd (bind_reader_database api identity w)"
| "reader_call api json render (Enqueue reader draft) w =
    snd (enqueue_offline_transaction api json reader draft w)"
| "reader_call api json render (MarkTransaction reader tid now) w =
    snd (mark_offline_transaction_in_flight api reader tid now w)"
| "reader_call api json render (RetryTransaction reader tid category now retry_at) w =
    snd (record_retryable_queue_failure api reader tid category now retry_at w)"
| "reader_call api json render (FailTransaction reader tid category now) w =
    snd (record_permanent_queue_failure api reader tid category now w)"
| "reader_call api json render (ReviewTransaction reader tid category now) w =
    snd (record_manual_review_required api reader tid category now w)"
| "reader_call api json render (RecoverQueue reader now) w =
    snd (recover_interrupted_offline_queue api reader now w)"
| "reader_call api json render (CreateBatch reader version new_id now limit) w =
    snd (create_synchronization_batch api reader version new_id now limit w)"
| "reader_call api json render (MarkBatch reader bid now) w =
    snd (mark_synchronization_batch_in_flight api reader bid now w)"
| "reader_call api json render (RetryBatch reader bid category now retry_at) w =
    snd (record_synchronization_retryable_failure api reader bid category now retry_at w)"
| "reader_call api json render (RecoverBatches reader now) w =
    snd (recover_interrupted_synchronization_batches api reader now w)"
| "reader_call api json render (FailBatch reader bid category now) w =
    snd (record_synchronization_permanent_failure api reader bid category now w)"
| "reader_call api json render (ReviewBatch reader bid category now) w =
    snd (record_synchronization_manual_review api reader bid category now w)"
| "reader_call api json render (StoreAcknowledgement a) w =
    snd (store_synchronization_acknowledgement api render a w)"
| "reader_call api json render (ApplyAcknowledgement reader bid now) w =
    snd (apply_synchronization_acknowledgement api reader bid now w)"

section \<open>Moves\<close>

definition row_final :: "OfflineTransactionRow \<Rightarrow> bool" where
  "row_final r \<longleftrightarrow> ot_queue_state r \<in> {''acknowledged'', ''permanent_failure'', ''manual_review''}"

text \<open>The columns a row is created with and keeps.\<close>

definition row_identity :: "OfflineTransactionRow \<Rightarrow> OfflineTransactionRow" where
  "row_identity r = r\<lparr> ot_queue_state := [], ot_attempt_count := 0, ot_next_retry_at := None,
    ot_failure_category := None, ot_updated_at := 0 \<rparr>"

definition row_moves :: "OfflineTransactionRow \<Rightarrow> OfflineTransactionRow \<Rightarrow> bool" where
  "row_moves r r' \<longleftrightarrow> row_identity r' = row_identity r \<and> (row_final r \<longrightarrow> r' = r) \<and>
    ot_attempt_count r \<le> ot_attempt_count r' \<and> ot_updated_at r \<le> ot_updated_at r'"

definition batch_identity :: "BatchRow \<Rightarrow> BatchRow" where
  "batch_identity b = b\<lparr> sb_state := [], sb_attempt_count := 0, sb_submitted_at := None,
    sb_next_retry_at := None, sb_failure_category := None, sb_updated_at := 0 \<rparr>"

definition batch_moves :: "BatchRow \<Rightarrow> BatchRow \<Rightarrow> bool" where
  "batch_moves b b' \<longleftrightarrow> batch_identity b' = batch_identity b \<and> (\<not> batch_active b \<longrightarrow> b' = b) \<and>
    (sb_submitted_at b \<noteq> None \<longrightarrow> sb_submitted_at b' = sb_submitted_at b) \<and>
    sb_attempt_count b \<le> sb_attempt_count b' \<and> sb_updated_at b \<le> sb_updated_at b'"

definition ack_moves :: "AcknowledgementRow \<Rightarrow> AcknowledgementRow \<Rightarrow> bool" where
  "ack_moves a a' \<longleftrightarrow> a' = a \<or> sa_applied_at a = None \<and> a' = a\<lparr> sa_applied_at := sa_applied_at a' \<rparr>"

definition state_identity :: "ReaderStateRow \<Rightarrow> ReaderStateRow" where
  "state_identity s = s\<lparr> rs_next_local_sequence := 0, rs_last_acknowledged_sequence := 0, rs_updated_at := 0 \<rparr>"

definition state_moves :: "ReaderStateRow \<Rightarrow> ReaderStateRow \<Rightarrow> bool" where
  "state_moves s s' \<longleftrightarrow> state_identity s' = state_identity s \<and>
    rs_next_local_sequence s \<le> rs_next_local_sequence s' \<and>
    rs_last_acknowledged_sequence s \<le> rs_last_acknowledged_sequence s'"

text \<open>A table whose rows move and which may have grown.\<close>

definition table_moves :: "('r \<Rightarrow> 'r \<Rightarrow> bool) \<Rightarrow> 'r list \<Rightarrow> 'r list \<Rightarrow> bool" where
  "table_moves R rows rows' \<longleftrightarrow> (\<exists>kept new. rows' = kept @ new \<and> list_all2 R rows kept)"

definition db_moves :: "ReaderDb \<Rightarrow> ReaderDb \<Rightarrow> bool" where
  "db_moves db db' \<longleftrightarrow>
    (\<forall>s. rd_state db = Some s \<longrightarrow> (\<exists>s'. rd_state db' = Some s' \<and> state_moves s s')) \<and>
    table_moves row_moves (rd_queue db) (rd_queue db') \<and>
    table_moves batch_moves (rd_batches db) (rd_batches db') \<and>
    table_moves (=) (rd_entries db) (rd_entries db') \<and>
    table_moves ack_moves (rd_acks db) (rd_acks db') \<and>
    table_moves (=) (rd_ack_entries db) (rd_ack_entries db')"

section \<open>Lemmas\<close>

lemma table_movesI: "list_all2 R rows kept \<Longrightarrow> rows' = kept @ new \<Longrightarrow> table_moves R rows rows'"
  by (auto simp: table_moves_def)

lemma table_moves_refl: "(\<And>r. R r r) \<Longrightarrow> table_moves R rows rows"
  by (rule table_movesI [where kept = rows and new = "[]"]) (auto intro: list.rel_refl)

lemma table_moves_trans:
  assumes "table_moves R xs ys" "table_moves R ys zs" and trans: "\<And>x y z. R x y \<Longrightarrow> R y z \<Longrightarrow> R x z"
  shows "table_moves R xs zs"
proof -
  obtain kept new kept' new' where ys: "ys = kept @ new" "list_all2 R xs kept"
    and zs: "zs = kept' @ new'" "list_all2 R ys kept'"
    using assms(1,2) by (auto simp: table_moves_def)
  obtain a b where kept': "kept' = a @ b" "list_all2 R kept a"
    using zs(2) ys(1) by (auto simp: list_all2_append1)
  have "list_all2 R xs a"
    using ys(2) kept'(2) by (rule list_all2_trans [rotated]) (rule trans)
  then show ?thesis
    using zs(1) kept'(1) by (intro table_movesI [where kept = a and new = "b @ new'"]) simp_all
qed

lemma table_moves_append: "(\<And>r. R r r) \<Longrightarrow> table_moves R rows (rows @ new)"
  by (rule table_movesI [where kept = rows]) (auto intro: list.rel_refl)

lemma table_moves_map:
  "(\<And>r. r \<in> set rows \<Longrightarrow> R r (f r)) \<Longrightarrow> table_moves R rows (map f rows)"
  by (rule table_movesI [where kept = "map f rows" and new = "[]"])
    (auto simp: list_all2_map2 intro: list.rel_refl_strong)

lemma table_moves_nth:
  "table_moves R rows rows' \<Longrightarrow> i < length rows \<Longrightarrow> i < length rows' \<and> R (rows ! i) (rows' ! i)"
  by (auto simp: table_moves_def nth_append list_all2_conv_all_nth)

lemma move_refls [simp]: "row_moves r r" "batch_moves b b" "ack_moves a a" "state_moves s s"
  by (simp_all add: row_moves_def batch_moves_def ack_moves_def state_moves_def)

lemma row_moves_trans: "row_moves x y \<Longrightarrow> row_moves y z \<Longrightarrow> row_moves x z"
  by (fastforce simp: row_moves_def)

lemma batch_moves_trans: "batch_moves x y \<Longrightarrow> batch_moves y z \<Longrightarrow> batch_moves x z"
  by (fastforce simp: batch_moves_def)

lemma ack_moves_trans: "ack_moves x y \<Longrightarrow> ack_moves y z \<Longrightarrow> ack_moves x z"
  by (cases x; cases y; cases z) (auto simp: ack_moves_def)

lemma state_moves_trans: "state_moves x y \<Longrightarrow> state_moves y z \<Longrightarrow> state_moves x z"
  by (auto simp: state_moves_def)

lemma db_moves_refl [simp]: "db_moves db db"
  by (simp add: db_moves_def table_moves_refl)

lemma db_moves_trans:
  assumes "db_moves a b" "db_moves b c"
  shows "db_moves a c"
proof -
  have "\<exists>s'. rd_state c = Some s' \<and> state_moves s s'" if "rd_state a = Some s" for s
    using assms that state_moves_trans by (fastforce simp: db_moves_def)
  moreover have "table_moves row_moves (rd_queue a) (rd_queue c)"
    using assms table_moves_trans row_moves_trans by (auto simp: db_moves_def)
  moreover have "table_moves batch_moves (rd_batches a) (rd_batches c)"
    using assms table_moves_trans batch_moves_trans by (auto simp: db_moves_def)
  moreover have "table_moves ack_moves (rd_acks a) (rd_acks c)"
    using assms table_moves_trans ack_moves_trans by (auto simp: db_moves_def)
  moreover have "table_moves (=) (rd_entries a) (rd_entries c)"
    using assms table_moves_trans [where R = "(=)"] by (auto simp: db_moves_def)
  moreover have "table_moves (=) (rd_ack_entries a) (rd_ack_entries c)"
    using assms table_moves_trans [where R = "(=)"] by (auto simp: db_moves_def)
  ultimately show ?thesis by (simp add: db_moves_def)
qed

text \<open>Statements that are moves, and code built from them.\<close>

interpretation moves: table_preorder db_moves
  by unfold_locales (auto intro: db_moves_trans)

named_theorems moves_intros \<open>code built from statements that are moves\<close>

declare moves.closed_intros [moves_intros]

lemma update_queue_moves [moves_intros]:
  assumes "\<And>r. hit r \<Longrightarrow> row_moves r (sv r)"
  shows "statement_in db_moves (update_queue hit sv)"
  using assms by (auto simp: statement_in_def update_eq_Ok db_moves_def table_moves_refl
      intro!: table_moves_map)

lemma update_batches_moves [moves_intros]:
  assumes "\<And>b. hit b \<Longrightarrow> batch_moves b (sv b)"
  shows "statement_in db_moves (update_batches hit sv)"
  using assms by (auto simp: statement_in_def update_eq_Ok db_moves_def table_moves_refl
      intro!: table_moves_map)

lemma update_acknowledgements_moves [moves_intros]:
  assumes "\<And>a. hit a \<Longrightarrow> ack_moves a (sv a)"
  shows "statement_in db_moves (update_acknowledgements hit sv)"
  using assms by (auto simp: statement_in_def update_eq_Ok db_moves_def table_moves_refl
      intro!: table_moves_map)

lemma update_reader_state_moves [moves_intros]:
  assumes "\<And>s. hit s \<Longrightarrow> state_moves s (sv s)"
  shows "statement_in db_moves (update_reader_state hit sv)"
  using assms by (auto simp: statement_in_def update_eq_Ok db_moves_def table_moves_refl
      split: option.splits if_splits)

lemma insert_moves [moves_intros]:
  "statement_in db_moves (insert_offline_transaction row)" "statement_in db_moves (insert_batch b)"
  "statement_in db_moves (insert_batch_entry e)" "statement_in db_moves (insert_acknowledgement a)"
  "statement_in db_moves (insert_acknowledgement_entry ae)" "statement_in db_moves (insert_reader_state s)"
  by (auto simp: statement_in_def insert_offline_transaction_def insert_batch_def insert_batch_entry_def
      insert_acknowledgement_def insert_acknowledgement_entry_def insert_reader_state_def db_moves_def
      table_moves_refl table_moves_append split: if_splits)

text \<open>Every call is a move.\<close>

lemmas in_flight_simps = in_flight_row_def in_flight_batch_def row_moves_def row_identity_def row_final_def
  row_eligible_def batch_moves_def batch_identity_def batch_active_def batch_eligible_def

lemma assign_local_sequence_moves [moves_intros]: "statement_in db_moves (assign_local_sequence reader now)"
proof -
  have "statement_in db_moves (update_reader_state
      (\<lambda>r. rs_reader_id r = reader \<and> rs_next_local_sequence r < i64_max)
      (\<lambda>r. r\<lparr> rs_next_local_sequence := rs_next_local_sequence r + 1, rs_updated_at := now \<rparr>))"
    by (intro moves_intros) (simp add: state_moves_def state_identity_def)
  then show ?thesis
    by (auto simp: statement_in_def assign_local_sequence_def result_simps split: prod.splits)
qed

lemma bind_reader_database_moves: "call_in db_moves (bind_reader_database api identity)"
proof -
  have "statement_in db_moves (\<lambda>db. case rd_state db of None \<Rightarrow> Err Sqlite_Other | Some r \<Rightarrow> Ok (r, db))"
    by (auto simp: statement_in_def split: option.splits)
  then show ?thesis
    unfolding bind_reader_database_def bind_body_def by (intro moves_intros)
qed

lemma enqueue_moves: "call_in db_moves (enqueue_offline_transaction api json reader draft)"
  unfolding enqueue_offline_transaction_def enqueue_body_def by (intro moves_intros)

lemma transaction_state_moves:
  "call_in db_moves (mark_offline_transaction_in_flight api reader tid now)"
  "call_in db_moves (record_retryable_queue_failure api reader tid category now retry_at)"
  "call_in db_moves (record_permanent_queue_failure api reader tid category now)"
  "call_in db_moves (record_manual_review_required api reader tid category now)"
  unfolding mark_offline_transaction_in_flight_def record_retryable_queue_failure_def
    record_permanent_queue_failure_def record_manual_review_required_def record_final_failure_def
  by (intro moves_intros; auto simp: in_flight_simps)+

lemma update_queue_where_moves [moves_intros]:
  assumes "\<And>db r. hit db r \<Longrightarrow> row_moves r (sv r)"
  shows "statement_in db_moves (\<lambda>db. update_queue (hit db) sv db)"
  using update_queue_moves [of "hit _" sv] assms unfolding statement_in_def by blast

lemma recover_moves:
  "call_in db_moves (recover_interrupted_offline_queue api reader now)"
  "call_in db_moves (recover_interrupted_synchronization_batches api reader now)"
  unfolding recover_interrupted_offline_queue_def recover_interrupted_synchronization_batches_def
  by (intro moves_intros; auto simp: in_flight_simps)+

lemma load_synchronization_batch_moves [moves_intros]: "call_in db_moves (load_synchronization_batch api reader bid)"
  unfolding load_synchronization_batch_def Let_def by (intro moves_intros)

lemma reserve_entry_moves [moves_intros]: "tx_in db_moves (reserve_entry api reader new_id now positioned)"
  unfolding reserve_entry_def Let_def by (intro moves_intros; auto simp: in_flight_simps)

lemma create_synchronization_batch_moves:
  "call_in db_moves (create_synchronization_batch api reader version new_id now limit)"
  unfolding create_synchronization_batch_def create_batch_body_def Let_def by (intro moves_intros)

lemma mark_synchronization_batch_in_flight_moves:
  "call_in db_moves (mark_synchronization_batch_in_flight api reader bid now)"
  unfolding mark_synchronization_batch_in_flight_def mark_batch_body_def Let_def
  by (intro moves_intros; auto simp: in_flight_simps)

lemma record_synchronization_retryable_failure_moves:
  "call_in db_moves (record_synchronization_retryable_failure api reader bid category now retry_at)"
  unfolding record_synchronization_retryable_failure_def
  by (intro moves_intros; auto simp: in_flight_simps)

lemma final_failure_moves:
  "call_in db_moves (record_synchronization_permanent_failure api reader bid category now)"
  "call_in db_moves (record_synchronization_manual_review api reader bid category now)"
  unfolding record_synchronization_permanent_failure_def record_synchronization_manual_review_def
    record_final_synchronization_failure_def final_failure_body_def Let_def
  by (intro moves_intros; auto simp: in_flight_simps)+

lemma insert_ack_entry_moves [moves_intros]: "tx_in db_moves (insert_ack_entry api a positioned)"
  unfolding insert_ack_entry_def by (intro moves_intros)

lemma store_acknowledgement_moves: "call_in db_moves (store_synchronization_acknowledgement api render a)"
  unfolding store_synchronization_acknowledgement_def store_ack_body_def Let_def
  by (intro moves_intros)

lemma apply_entry_moves [moves_intros]: "tx_in db_moves (apply_entry api reader now entry)"
  unfolding apply_entry_def by (intro moves_intros; auto simp: in_flight_simps)

lemma advance_moves [moves_intros]: "tx_in db_moves (advance_acknowledged_sequence reader now current advanced)"
  unfolding advance_acknowledged_sequence_def
  by (intro moves_intros; auto simp: state_moves_def state_identity_def)

lemma apply_acknowledgement_moves: "call_in db_moves (apply_synchronization_acknowledgement api reader bid now)"
  unfolding apply_synchronization_acknowledgement_def apply_body_def apply_effects_def Let_def
  by (intro moves_intros; auto simp: in_flight_simps ack_moves_def)

lemmas all_calls_move = bind_reader_database_moves enqueue_moves transaction_state_moves recover_moves
  create_synchronization_batch_moves mark_synchronization_batch_in_flight_moves
  record_synchronization_retryable_failure_moves final_failure_moves store_acknowledgement_moves
  apply_acknowledgement_moves

lemma reader_call_moves: "db_moves (sq_db w) (sq_db (reader_call api json render call w))"
  by (cases call) (simp_all add: all_calls_move [THEN call_inD])

lemma reader_calls_move: "db_moves (sq_db w) (sq_db (fold (reader_call api json render) calls w))"
  by (rule moves.calls_in) (rule reader_call_moves)

end
