(* ===== verification/ReaderInvariant.thy ===== *)
theory ReaderInvariant
  imports ReaderHistory
begin

text \<open>
  The consistency of a reader database and that every call keeps it.  The queue holds exactly the
  sequences assigned so far, every batch holds its entries in order, no
  transaction belongs to two batches that are still to be resolved, and everything up to the
  acknowledged sequence is resolved.
\<close>

definition entries_of :: "ReaderDb \<Rightarrow> string \<Rightarrow> BatchEntryRow list" where
  "entries_of db bid = filter (\<lambda>e. se_batch_id e = bid) (rd_entries db)"

definition batch_holds :: "BatchRow \<Rightarrow> BatchEntryRow list \<Rightarrow> bool" where
  "batch_holds b es \<longleftrightarrow> es \<noteq> [] \<and> map se_position es = map int [0..<length es] \<and>
    sorted_wrt (<) (map se_sequence es) \<and>
    se_sequence (hd es) = sb_first_sequence b \<and> se_sequence (last es) = sb_last_sequence b"

definition queue_ok :: "ReaderStateRow \<Rightarrow> OfflineTransactionRow list \<Rightarrow> bool" where
  "queue_ok s queue \<longleftrightarrow>
    map ot_sequence queue = [1..rs_next_local_sequence s - 1] \<and> rs_next_local_sequence s \<le> i64_max \<and>
    distinct (map ot_transaction_id queue) \<and>
    (\<forall>r \<in> set queue. ot_reader_id r = rs_reader_id s \<and> queue_checks r \<and>
      (ot_sequence r \<le> rs_last_acknowledged_sequence s \<longrightarrow> is_resolved_queue_state (ot_queue_state r)))"

definition batches_ok :: "ReaderStateRow \<Rightarrow> BatchRow list \<Rightarrow> bool" where
  "batches_ok s batches \<longleftrightarrow> distinct (map sb_batch_id batches) \<and>
    (\<forall>b \<in> set batches. sb_reader_id b = rs_reader_id s \<and> batch_checks b)"

definition entries_ok :: "ReaderStateRow \<Rightarrow> ReaderDb \<Rightarrow> bool" where
  "entries_ok s db \<longleftrightarrow>
    (\<forall>e \<in> set (rd_entries db). se_reader_id e = rs_reader_id s \<and>
      se_batch_id e \<in> sb_batch_id ` set (rd_batches db) \<and>
      (se_transaction_id e, se_sequence e) \<in> (\<lambda>r. (ot_transaction_id r, ot_sequence r)) ` set (rd_queue db)) \<and>
    (\<forall>b \<in> set (rd_batches db). batch_holds b (entries_of db (sb_batch_id b)))"

definition active_ids :: "ReaderDb \<Rightarrow> string set" where
  "active_ids db = sb_batch_id ` {b \<in> set (rd_batches db). batch_active b}"

definition exclusive :: "ReaderDb \<Rightarrow> bool" where
  "exclusive db \<longleftrightarrow> (\<forall>e \<in> set (rd_entries db). \<forall>e' \<in> set (rd_entries db).
    se_transaction_id e = se_transaction_id e' \<and> se_batch_id e \<in> active_ids db \<and>
    se_batch_id e' \<in> active_ids db \<longrightarrow> se_batch_id e = se_batch_id e')"

definition reader_db_inv :: "ReaderDb \<Rightarrow> bool" where
  "reader_db_inv db \<longleftrightarrow>
    (case rd_state db of
       None \<Rightarrow> rd_queue db = [] \<and> rd_batches db = [] \<and> rd_entries db = []
     | Some s \<Rightarrow> reader_state_checks s \<and> queue_ok s (rd_queue db) \<and> batches_ok s (rd_batches db) \<and>
         entries_ok s db \<and> exclusive db)"

section \<open>Updates that keep it\<close>

lemma reader_db_inv_Some:
  "rd_state db = Some s \<Longrightarrow> reader_db_inv db \<longleftrightarrow> reader_state_checks s \<and> queue_ok s (rd_queue db) \<and>
    batches_ok s (rd_batches db) \<and> entries_ok s db \<and> exclusive db"
  by (simp add: reader_db_inv_def)

lemma reader_db_inv_acks [simp]:
  "reader_db_inv (db\<lparr> rd_acks := x \<rparr>) = reader_db_inv db"
  "reader_db_inv (db\<lparr> rd_ack_entries := y \<rparr>) = reader_db_inv db"
  by (simp_all add: reader_db_inv_def entries_ok_def exclusive_def entries_of_def active_ids_def
      split: option.split)

lemma row_identity_fields:
  assumes "row_identity r' = row_identity r"
  shows "ot_transaction_id r' = ot_transaction_id r" "ot_reader_id r' = ot_reader_id r"
    "ot_sequence r' = ot_sequence r" "ot_envelope_json r' = ot_envelope_json r"
    "ot_created_at r' = ot_created_at r"
  using assms by (cases r; cases r'; simp add: row_identity_def)+

lemma batch_identity_fields:
  assumes "batch_identity b' = batch_identity b"
  shows "sb_batch_id b' = sb_batch_id b" "sb_reader_id b' = sb_reader_id b"
    "sb_first_sequence b' = sb_first_sequence b" "sb_last_sequence b' = sb_last_sequence b"
    "sb_protocol_version b' = sb_protocol_version b" "sb_created_at b' = sb_created_at b"
  using assms by (cases b; cases b'; simp add: batch_identity_def)+

lemma resolved_final: "is_resolved_queue_state (ot_queue_state r) \<Longrightarrow> row_final r"
  by (auto simp: is_resolved_queue_state_def row_final_def)

lemma queue_update_inv:
  assumes inv: "reader_db_inv db"
    and f: "\<And>r. r \<in> set (rd_queue db) \<Longrightarrow> row_moves r (f r)" "\<And>r. r \<in> set (rd_queue db) \<Longrightarrow> queue_checks (f r)"
  shows "reader_db_inv (db\<lparr> rd_queue := map f (rd_queue db) \<rparr>)"
proof (cases "rd_state db")
  case None
  then show ?thesis using inv by (simp add: reader_db_inv_def)
next
  case (Some s)
  have ids: "ot_transaction_id (f r) = ot_transaction_id r" "ot_reader_id (f r) = ot_reader_id r"
    "ot_sequence (f r) = ot_sequence r" if "r \<in> set (rd_queue db)" for r
    using f(1) [OF that] row_identity_fields [of "f r" r] by (simp_all add: row_moves_def)
  have maps: "map (\<lambda>r. ot_sequence (f r)) (rd_queue db) = map ot_sequence (rd_queue db)"
    "map (\<lambda>r. ot_transaction_id (f r)) (rd_queue db) = map ot_transaction_id (rd_queue db)"
    using ids by simp_all
  have keys: "(\<lambda>r. (ot_transaction_id r, ot_sequence r)) ` f ` set (rd_queue db) =
      (\<lambda>r. (ot_transaction_id r, ot_sequence r)) ` set (rd_queue db)"
    using ids by (force simp: image_image intro!: image_cong)
  have "f r = r" if "r \<in> set (rd_queue db)" "is_resolved_queue_state (ot_queue_state r)" for r
    using f(1) [OF that(1)] resolved_final [OF that(2)] by (simp add: row_moves_def)
  then have "queue_ok s (map f (rd_queue db))"
    using inv Some ids f(2) by (auto simp: reader_db_inv_Some queue_ok_def o_def maps)
  then show ?thesis
    using inv Some keys
    by (simp add: reader_db_inv_Some entries_ok_def exclusive_def entries_of_def active_ids_def)
qed

lemma batch_update_inv:
  assumes inv: "reader_db_inv db"
    and f: "\<And>b. b \<in> set (rd_batches db) \<Longrightarrow> batch_moves b (f b)"
      "\<And>b. b \<in> set (rd_batches db) \<Longrightarrow> batch_checks (f b)"
  shows "reader_db_inv (db\<lparr> rd_batches := map f (rd_batches db) \<rparr>)"
proof (cases "rd_state db")
  case None
  then show ?thesis using inv by (simp add: reader_db_inv_def)
next
  case (Some s)
  let ?db = "db\<lparr> rd_batches := map f (rd_batches db) \<rparr>"
  have ids: "sb_batch_id (f b) = sb_batch_id b" "sb_reader_id (f b) = sb_reader_id b"
    "sb_first_sequence (f b) = sb_first_sequence b" "sb_last_sequence (f b) = sb_last_sequence b"
    if "b \<in> set (rd_batches db)" for b
    using f(1) [OF that] batch_identity_fields [of "f b" b] by (simp_all add: batch_moves_def)
  have maps: "map (\<lambda>b. sb_batch_id (f b)) (rd_batches db) = map sb_batch_id (rd_batches db)"
    using ids by simp
  have "batch_active b" if "b \<in> set (rd_batches db)" "batch_active (f b)" for b
    using f(1) [OF that(1)] that(2) by (cases "batch_active b") (simp_all add: batch_moves_def)
  then have "active_ids ?db \<subseteq> active_ids db"
    using ids by (auto simp: active_ids_def)
  then have "exclusive ?db"
    using inv Some unfolding reader_db_inv_Some [OF Some] exclusive_def by fastforce
  moreover have "batches_ok s (map f (rd_batches db))"
    using inv Some ids f(2) by (auto simp: reader_db_inv_Some batches_ok_def o_def maps)
  moreover have "entries_ok s ?db"
  proof -
    have "sb_batch_id ` f ` set (rd_batches db) = sb_batch_id ` set (rd_batches db)"
      using ids by (force simp: image_image intro!: image_cong)
    then show ?thesis
      using inv Some ids by (auto simp: reader_db_inv_Some entries_ok_def entries_of_def batch_holds_def)
  qed
  ultimately show ?thesis
    using inv Some by (simp add: reader_db_inv_Some)
qed

definition keeps_inv :: "ReaderDb \<Rightarrow> ReaderDb \<Rightarrow> bool" where
  "keeps_inv db db' \<longleftrightarrow> (reader_db_inv db \<longrightarrow> reader_db_inv db')"

interpretation keeps: table_preorder keeps_inv
  by unfold_locales (auto simp: keeps_inv_def)

named_theorems keeps_intros \<open>code built from statements that keep the invariant\<close>

declare keeps.closed_intros [keeps_intros]

lemma inv_queue_checks: "reader_db_inv db \<Longrightarrow> r \<in> set (rd_queue db) \<Longrightarrow> queue_checks r"
  by (cases "rd_state db") (auto simp: reader_db_inv_def queue_ok_def)

lemma inv_batch_checks: "reader_db_inv db \<Longrightarrow> b \<in> set (rd_batches db) \<Longrightarrow> batch_checks b"
  by (cases "rd_state db") (auto simp: reader_db_inv_def batches_ok_def)

lemma update_queue_keeps [keeps_intros]:
  assumes "\<And>r. hit r \<Longrightarrow> row_moves r (sv r)"
  shows "statement_in keeps_inv (update_queue hit sv)"
  unfolding statement_in_def keeps_inv_def
proof (intro allI impI)
  fix db n db'
  assume "update_queue hit sv db = Ok (n, db')" "reader_db_inv db"
  then show "reader_db_inv db'"
    using assms inv_queue_checks
    by (auto simp: update_eq_Ok intro!: queue_update_inv)
qed

lemma update_queue_where_keeps [keeps_intros]:
  assumes "\<And>db r. hit db r \<Longrightarrow> row_moves r (sv r)"
  shows "statement_in keeps_inv (\<lambda>db. update_queue (hit db) sv db)"
  using update_queue_keeps [of "hit _" sv] assms unfolding statement_in_def by blast

lemma update_batches_keeps [keeps_intros]:
  assumes "\<And>b. hit b \<Longrightarrow> batch_moves b (sv b)"
  shows "statement_in keeps_inv (update_batches hit sv)"
  unfolding statement_in_def keeps_inv_def
proof (intro allI impI)
  fix db n db'
  assume "update_batches hit sv db = Ok (n, db')" "reader_db_inv db"
  then show "reader_db_inv db'"
    using assms inv_batch_checks
    by (auto simp: update_eq_Ok intro!: batch_update_inv)
qed

lemma acknowledgement_keeps [keeps_intros]:
  "statement_in keeps_inv (insert_acknowledgement a)"
  "statement_in keeps_inv (insert_acknowledgement_entry ae)"
  "statement_in keeps_inv (update_acknowledgements hit sv)"
  by (auto simp: statement_in_def keeps_inv_def insert_acknowledgement_def insert_acknowledgement_entry_def
      update_eq_Ok split: if_splits)

lemma transaction_state_keeps:
  "call_in keeps_inv (mark_offline_transaction_in_flight api reader tid now)"
  "call_in keeps_inv (record_retryable_queue_failure api reader tid category now retry_at)"
  "call_in keeps_inv (record_permanent_queue_failure api reader tid category now)"
  "call_in keeps_inv (record_manual_review_required api reader tid category now)"
  unfolding mark_offline_transaction_in_flight_def record_retryable_queue_failure_def
    record_permanent_queue_failure_def record_manual_review_required_def record_final_failure_def
  by (intro keeps_intros; auto simp: in_flight_simps)+

lemma recover_keeps:
  "call_in keeps_inv (recover_interrupted_offline_queue api reader now)"
  "call_in keeps_inv (recover_interrupted_synchronization_batches api reader now)"
  unfolding recover_interrupted_offline_queue_def recover_interrupted_synchronization_batches_def
  by (intro keeps_intros; auto simp: in_flight_simps)+

lemma load_synchronization_batch_keeps [keeps_intros]:
  "call_in keeps_inv (load_synchronization_batch api reader bid)"
  unfolding load_synchronization_batch_def Let_def by (intro keeps_intros)

lemma mark_synchronization_batch_in_flight_keeps:
  "call_in keeps_inv (mark_synchronization_batch_in_flight api reader bid now)"
  unfolding mark_synchronization_batch_in_flight_def mark_batch_body_def Let_def
  by (intro keeps_intros; auto simp: in_flight_simps)

lemma record_synchronization_retryable_failure_keeps:
  "call_in keeps_inv (record_synchronization_retryable_failure api reader bid category now retry_at)"
  unfolding record_synchronization_retryable_failure_def
  by (intro keeps_intros; auto simp: in_flight_simps)

lemma final_failure_keeps:
  "call_in keeps_inv (record_synchronization_permanent_failure api reader bid category now)"
  "call_in keeps_inv (record_synchronization_manual_review api reader bid category now)"
  unfolding record_synchronization_permanent_failure_def record_synchronization_manual_review_def
    record_final_synchronization_failure_def final_failure_body_def Let_def
  by (intro keeps_intros; auto simp: in_flight_simps)+

lemma store_acknowledgement_keeps: "call_in keeps_inv (store_synchronization_acknowledgement api render a)"
  unfolding store_synchronization_acknowledgement_def store_ack_body_def insert_ack_entry_def Let_def
  by (intro keeps_intros)

lemma insert_reader_state_keeps:
  assumes "rs_next_local_sequence row = 1"
  shows "statement_in keeps_inv (insert_reader_state row)"
  using assms by (auto simp: statement_in_def keeps_inv_def insert_reader_state_def reader_db_inv_def
      queue_ok_def batches_ok_def entries_ok_def exclusive_def i64_max_def)

lemma bind_reader_database_keeps: "call_in keeps_inv (bind_reader_database api identity)"
proof -
  have "statement_in keeps_inv (\<lambda>db. case rd_state db of None \<Rightarrow> Err Sqlite_Other | Some r \<Rightarrow> Ok (r, db))"
    by (auto simp: statement_in_def keeps_inv_def split: option.splits)
  moreover have "statement_in keeps_inv (insert_reader_state
      \<lparr> rs_reader_id = identifier_to_string api (identity_reader_id identity),
        rs_environment_id = identity_environment_id identity,
        rs_software_version = identity_software_version identity,
        rs_protocol_version = uint (identity_protocol_version identity),
        rs_next_local_sequence = 1, rs_last_acknowledged_sequence = 0,
        rs_created_at = identity_initialized_at identity,
        rs_updated_at = identity_initialized_at identity \<rparr>)"
    by (rule insert_reader_state_keeps) simp
  ultimately show ?thesis
    unfolding bind_reader_database_def bind_body_def by (intro keeps_intros)
qed

text \<open>What a successful insertion into the queue does.\<close>

definition assigned_state :: "UnixMs \<Rightarrow> ReaderStateRow \<Rightarrow> ReaderStateRow" where
  "assigned_state now s = s\<lparr> rs_next_local_sequence := rs_next_local_sequence s + 1, rs_updated_at := now \<rparr>"

lemma assign_local_sequence_eq_Ok:
  "assign_local_sequence reader now db = Ok (Some n, db') \<longleftrightarrow>
    (\<exists>s. rd_state db = Some s \<and> rs_reader_id s = reader \<and> rs_next_local_sequence s < i64_max \<and>
      n = rs_next_local_sequence s \<and> reader_state_checks (assigned_state now s) \<and>
      db' = db\<lparr> rd_state := Some (assigned_state now s) \<rparr>)"
  by (auto simp: assign_local_sequence_def result_simps update_eq_Ok assigned_state_def
      split: option.splits if_splits)

lemma enqueue_effect:
  assumes "tx_ran (enqueue_body api reader draft decision_json envelope_json) db = Ok (sequence, db')"
  obtains s policy where "rd_state db = Some s" "rs_reader_id s = identifier_to_string api reader"
    "rs_next_local_sequence s < i64_max" "rs_next_local_sequence s = uint sequence" "sequence \<noteq> 0"
    "i64_column (draft_policy_version draft) = Some policy"
    "reader_state_checks (assigned_state (draft_created_at draft) s)"
    "insert_offline_transaction (queued_row api reader draft (uint sequence) policy decision_json envelope_json)
      (db\<lparr> rd_state := Some (assigned_state (draft_created_at draft) s) \<rparr>) = Ok ((), db')"
proof -
  have "\<exists>n db1 policy. assign_local_sequence (identifier_to_string api reader) (draft_created_at draft) db =
        Ok (Some n, db1) \<and> n = uint sequence \<and> sequence \<noteq> 0 \<and>
      i64_column (draft_policy_version draft) = Some policy \<and>
      insert_offline_transaction (queued_row api reader draft n policy decision_json envelope_json) db1 =
        Ok ((), db')"
    using assms unfolding enqueue_body_def tx_simps
    by (clarsimp simp: result_simps tx_simps LocalSequenceNumber_new_def split: if_splits)
  then show thesis
    unfolding assign_local_sequence_eq_Ok by (auto intro: that)
qed

lemma enqueue_inv:
  assumes "tx_ran (enqueue_body api reader draft decision_json envelope_json) db = Ok (sequence, db')"
    and inv: "reader_db_inv db"
  shows "reader_db_inv db'"
  using assms(1)
proof (rule enqueue_effect)
  fix s policy
  let ?s = "assigned_state (draft_created_at draft) s"
  let ?row = "queued_row api reader draft (uint sequence) policy decision_json envelope_json"
  assume s: "rd_state db = Some s" "rs_reader_id s = identifier_to_string api reader"
    "rs_next_local_sequence s = uint sequence" "sequence \<noteq> 0" "reader_state_checks ?s"
    "rs_next_local_sequence s < i64_max"
    and ins: "insert_offline_transaction ?row (db\<lparr> rd_state := Some ?s \<rparr>) = Ok ((), db')"
  have ins': "queue_checks ?row" "ot_transaction_id ?row \<notin> set (map ot_transaction_id (rd_queue db))"
    "db' = db\<lparr> rd_state := Some ?s, rd_queue := rd_queue db @ [?row] \<rparr>"
    using ins by (auto simp: insert_offline_transaction_def split: if_splits)
  have row: "ot_sequence ?row = uint sequence" "ot_reader_id ?row = identifier_to_string api reader"
    by (simp_all add: queued_row_def)
  have inv': "reader_state_checks s" "queue_ok s (rd_queue db)" "batches_ok s (rd_batches db)"
    "entries_ok s db" "exclusive db"
    using inv s(1) by (simp_all add: reader_db_inv_Some)
  have pos: "1 \<le> uint sequence" "rs_last_acknowledged_sequence s < uint sequence"
    using inv'(1) s(3) by (simp_all add: reader_state_checks_def)
  have "queue_ok ?s (rd_queue db @ [?row])"
    using inv'(2) ins'(1,2) row pos s(2,3,6) upto_rec2 [of 1 "uint sequence"]
    by (auto simp: queue_ok_def assigned_state_def)
  moreover have "batches_ok ?s (rd_batches db)" "entries_ok ?s db'" "exclusive db'"
    using inv'(3-5) by (auto simp: batches_ok_def entries_ok_def exclusive_def entries_of_def active_ids_def
        assigned_state_def ins'(3))
  ultimately show ?thesis
    using s(5) by (simp add: reader_db_inv_def ins'(3))
qed

lemma enqueue_body_steady: "steady (enqueue_body api reader draft decision_json envelope_json)"
  unfolding enqueue_body_def by (intro steady_intros)

lemma enqueue_keeps: "call_in keeps_inv (enqueue_offline_transaction api json reader draft)"
proof -
  have "tx_in keeps_inv (enqueue_body api reader draft dj ej)" for dj ej
    using enqueue_inv enqueue_body_steady by (auto simp: tx_in_def keeps_inv_def)
  then show ?thesis
    unfolding enqueue_offline_transaction_def by (intro keeps_intros)
qed

text \<open>A new batch.\<close>

lemma add_batch_inv:
  assumes inv: "reader_db_inv db" and s: "rd_state db = Some s"
    and row: "batch_checks row" "sb_reader_id row = rs_reader_id s"
      "sb_batch_id row \<notin> sb_batch_id ` set (rd_batches db)" "batch_holds row es"
    and es: "\<And>e. e \<in> set es \<Longrightarrow> se_batch_id e = sb_batch_id row \<and> se_reader_id e = rs_reader_id s \<and>
        (se_transaction_id e, se_sequence e) \<in> (\<lambda>r. (ot_transaction_id r, ot_sequence r)) ` set (rd_queue db)"
    and free: "\<And>e e'. e \<in> set es \<Longrightarrow> e' \<in> set (rd_entries db) \<Longrightarrow>
        se_transaction_id e' = se_transaction_id e \<Longrightarrow> se_batch_id e' \<notin> active_ids db"
  shows "reader_db_inv (db\<lparr> rd_batches := rd_batches db @ [row], rd_entries := rd_entries db @ es \<rparr>)"
    (is "reader_db_inv ?db")
proof -
  have old: "batches_ok s (rd_batches db)" "entries_ok s db" "exclusive db"
    using inv s by (simp_all add: reader_db_inv_Some)
  have stored: "se_batch_id e \<in> sb_batch_id ` set (rd_batches db)" if "e \<in> set (rd_entries db)" for e
    using old(2) that by (auto simp: entries_ok_def)
  have "filter (\<lambda>e. se_batch_id e = sb_batch_id row) (rd_entries db) = []"
    using stored row(3) unfolding filter_empty_conv by metis
  then have new_es: "entries_of ?db (sb_batch_id row) = es"
    using es by (simp add: entries_of_def filter_True)
  have old_es: "entries_of ?db (sb_batch_id b) = entries_of db (sb_batch_id b)" if b: "b \<in> set (rd_batches db)" for b
  proof -
    have "sb_batch_id b \<noteq> sb_batch_id row" using b row(3) by (metis image_eqI)
    then have "filter (\<lambda>e. se_batch_id e = sb_batch_id b) es = []"
      using es by (auto simp: filter_empty_conv)
    then show ?thesis by (simp add: entries_of_def)
  qed
  have "batches_ok s (rd_batches ?db)"
    using old(1) row by (auto simp: batches_ok_def)
  moreover have "entries_ok s ?db"
    using old(2) row(4) es new_es old_es by (auto simp: entries_ok_def)
  moreover have "exclusive ?db"
  proof -
    have act: "x \<in> active_ids ?db \<Longrightarrow> x \<noteq> sb_batch_id row \<Longrightarrow> x \<in> active_ids db" for x
      by (auto simp: active_ids_def)
    have neq: "se_batch_id e \<noteq> sb_batch_id row" if "e \<in> set (rd_entries db)" for e
      using stored [OF that] row(3) by auto
    show ?thesis
      unfolding exclusive_def
    proof (intro ballI impI, elim conjE)
      fix e e'
      assume e: "e \<in> set (rd_entries ?db)" "e' \<in> set (rd_entries ?db)"
        "se_transaction_id e = se_transaction_id e'" "se_batch_id e \<in> active_ids ?db" "se_batch_id e' \<in> active_ids ?db"
      consider "e \<in> set (rd_entries db)" "e' \<in> set (rd_entries db)" | "e \<in> set (rd_entries db)" "e' \<in> set es"
        | "e \<in> set es" "e' \<in> set (rd_entries db)" | "e \<in> set es" "e' \<in> set es"
        using e(1,2) by auto
      then show "se_batch_id e = se_batch_id e'"
      proof cases
        case 1
        then show ?thesis
          using old(3) act [OF e(4)] act [OF e(5)] neq e(3) unfolding exclusive_def by blast
      next
        case 2
        then show ?thesis using free [OF 2(2,1) e(3)] act [OF e(4)] neq by blast
      next
        case 3
        then show ?thesis using free [OF 3] e(3) act [OF e(5)] neq by simp
      next
        case 4
        then show ?thesis using es by simp
      qed
    qed
  qed
  ultimately show ?thesis
    using inv s by (simp add: reader_db_inv_Some)
qed

text \<open>The loop over the entries of a new batch.\<close>

definition entry_row :: "UuidApi \<Rightarrow> ReaderId \<Rightarrow> SynchronizationBatchId \<Rightarrow> nat \<times> SynchronizationBatchEntry
    \<Rightarrow> BatchEntryRow" where
  "entry_row api reader new_id positioned =
    \<lparr> se_batch_id = identifier_to_string api new_id, se_reader_id = identifier_to_string api reader,
      se_transaction_id = identifier_to_string api (batch_entry_transaction_id (snd positioned)),
      se_sequence = uint (batch_entry_sequence (snd positioned)), se_position = int (fst positioned) \<rparr>"

definition has_key :: "ReaderDb \<Rightarrow> BatchEntryRow \<Rightarrow> bool" where
  "has_key db e \<longleftrightarrow>
    (se_transaction_id e, se_sequence e) \<in> (\<lambda>r. (ot_transaction_id r, ot_sequence r)) ` set (rd_queue db)"

lemma reserve_entry_steady [steady_intros]: "steady (reserve_entry api reader new_id now positioned)"
  unfolding reserve_entry_def Let_def by (intro steady_intros)

lemma reserve_entry_effect:
  assumes "tx_ran (reserve_entry api reader new_id now p) db = Ok ((), db')"
    and "\<And>r. r \<in> set (rd_queue db) \<Longrightarrow> queue_checks r"
  shows "\<exists>f. db' = db\<lparr> rd_queue := map f (rd_queue db), rd_entries := rd_entries db @ [entry_row api reader new_id p] \<rparr> \<and>
    has_key db (entry_row api reader new_id p) \<and> (\<forall>r. row_moves r (f r)) \<and>
    (\<forall>r \<in> set (rd_queue db). queue_checks (f r))"
proof -
  let ?hit = "\<lambda>r. ot_transaction_id r = identifier_to_string api (batch_entry_transaction_id (snd p)) \<and>
        ot_reader_id r = identifier_to_string api reader \<and> ot_sequence r = uint (batch_entry_sequence (snd p)) \<and>
        ot_updated_at r \<le> now \<and> row_eligible now r"
  let ?f = "\<lambda>r. if ?hit r then r\<lparr> ot_queue_state := ''in_flight'', ot_next_retry_at := None,
        ot_failure_category := None, ot_updated_at := now \<rparr> else r"
  have "\<forall>r. row_moves r (?f r)" by (auto simp: in_flight_simps)
  moreover have "1 = length (filter ?hit (rd_queue db)) \<and>
      (\<forall>r \<in> set (rd_queue db). ?hit r \<longrightarrow> queue_checks (?f r)) \<and>
      db' = db\<lparr> rd_queue := map ?f (rd_queue db), rd_entries := rd_entries db @ [entry_row api reader new_id p] \<rparr>"
    using assms(1) unfolding reserve_entry_def Let_def tx_simps
    by (auto simp: result_simps tx_simps update_eq_Ok sequence_to_i64_def insert_batch_entry_def entry_row_def
        split: if_splits)
  moreover from this have "filter ?hit (rd_queue db) \<noteq> []" by auto
  then have "has_key db (entry_row api reader new_id p)"
    by (force simp: has_key_def entry_row_def filter_empty_conv)
  ultimately show ?thesis
    using assms(2) by (intro exI [of _ ?f]) auto
qed

lemma has_key_moves:
  assumes "\<And>r. row_moves r (f r)"
  shows "has_key (db\<lparr> rd_queue := map f (rd_queue db), rd_entries := es \<rparr>) e = has_key db e"
proof -
  have "(\<lambda>r. (ot_transaction_id (f r), ot_sequence (f r))) = (\<lambda>r. (ot_transaction_id r, ot_sequence r))"
  proof
    fix r
    show "(ot_transaction_id (f r), ot_sequence (f r)) = (ot_transaction_id r, ot_sequence r)"
      using assms [of r] row_identity_fields [of "f r" r] by (simp add: row_moves_def)
  qed
  then have "(\<lambda>r. (ot_transaction_id (f r), ot_sequence (f r))) ` set (rd_queue db) =
      (\<lambda>r. (ot_transaction_id r, ot_sequence r)) ` set (rd_queue db)"
    by (rule arg_cong)
  then have "(\<lambda>r. (ot_transaction_id r, ot_sequence r)) ` set (rd_queue (db\<lparr> rd_queue := map f (rd_queue db), rd_entries := es \<rparr>)) =
      (\<lambda>r. (ot_transaction_id r, ot_sequence r)) ` set (rd_queue db)"
    by (simp add: image_image)
  then show ?thesis by (simp only: has_key_def)
qed

lemma reserve_entries_effect:
  assumes "tx_ran (tx_each (reserve_entry api reader new_id now) (List.enumerate n entries)) db = Ok ((), db')"
    and "\<And>r. r \<in> set (rd_queue db) \<Longrightarrow> queue_checks r"
  shows "\<exists>f. db' = db\<lparr> rd_queue := map f (rd_queue db),
      rd_entries := rd_entries db @ map (entry_row api reader new_id) (List.enumerate n entries) \<rparr> \<and>
    (\<forall>p \<in> set (List.enumerate n entries). has_key db (entry_row api reader new_id p)) \<and>
    (\<forall>r. row_moves r (f r)) \<and> (\<forall>r \<in> set (rd_queue db). queue_checks (f r))"
  using assms
proof (induction entries arbitrary: n db)
  case Nil
  then show ?case by (intro exI [of _ id]) (simp add: tx_simps steady_intros result_simps)
next
  case (Cons entry entries)
  let ?p = "(n, entry)"
  obtain db1 where first: "tx_ran (reserve_entry api reader new_id now ?p) db = Ok ((), db1)"
    and rest: "tx_ran (tx_each (reserve_entry api reader new_id now) (List.enumerate (Suc n) entries)) db1 = Ok ((), db')"
    using Cons.prems(1) by (auto simp: tx_simps steady_intros result_simps ran_bind)
  obtain f where f: "db1 = db\<lparr> rd_queue := map f (rd_queue db), rd_entries := rd_entries db @ [entry_row api reader new_id ?p] \<rparr>"
    "has_key db (entry_row api reader new_id ?p)" "\<forall>r. row_moves r (f r)" "\<forall>r \<in> set (rd_queue db). queue_checks (f r)"
    using reserve_entry_effect [OF first] Cons.prems(2) by auto
  obtain g where g: "db' = db1\<lparr> rd_queue := map g (rd_queue db1),
      rd_entries := rd_entries db1 @ map (entry_row api reader new_id) (List.enumerate (Suc n) entries) \<rparr>"
    "\<forall>p \<in> set (List.enumerate (Suc n) entries). has_key db1 (entry_row api reader new_id p)"
    "\<forall>r. row_moves r (g r)" "\<forall>r \<in> set (rd_queue db1). queue_checks (g r)"
    using Cons.IH [OF rest] f(1,4) by auto
  have keys: "has_key db1 e = has_key db e" for e
    using f(1,3) has_key_moves [of f] by simp
  show ?case
    using f g keys by (intro exI [of _ "g \<circ> f"]) (auto intro: row_moves_trans)
qed

lemma strictly_sorted_sequences:
  assumes "map ot_sequence queue = [1..n]"
  shows "sorted_wrt (<) (map ot_sequence (filter P queue))"
proof -
  have "sorted_wrt (<) (map ot_sequence queue)"
    unfolding assms by (rule sorted_wrt_upto)
  then show ?thesis by (simp add: sorted_wrt_map sorted_wrt_filter)
qed

lemma select_candidates_sorted:
  assumes "map ot_sequence (rd_queue db) = [1..n]"
  shows "sorted_wrt (<) (map snd (select_candidates reader now limit db))"
    "c \<in> set (select_candidates reader now limit db) \<Longrightarrow> \<exists>r \<in> set (rd_queue db).
      c = (ot_transaction_id r, ot_sequence r) \<and> \<not> in_active_batch db r"
proof -
  let ?P = "\<lambda>r. ot_reader_id r = reader \<and> row_eligible now r \<and> \<not> in_active_batch db r"
  have strict: "sorted_wrt (<) (map ot_sequence (filter ?P (rd_queue db)))"
    using assms by (rule strictly_sorted_sequences)
  then have "sorted (map ot_sequence (filter ?P (rd_queue db)))"
    by (simp add: strict_sorted_iff)
  then have select: "select_candidates reader now limit db =
      map (\<lambda>r. (ot_transaction_id r, ot_sequence r)) (take limit (filter ?P (rd_queue db)))"
    by (simp add: select_candidates_def sort_key_id_if_sorted)
  show "sorted_wrt (<) (map snd (select_candidates reader now limit db))"
    using sorted_wrt_take [OF strict, of limit] by (simp add: select o_def take_map)
  show "\<exists>r \<in> set (rd_queue db). c = (ot_transaction_id r, ot_sequence r) \<and> \<not> in_active_batch db r"
    if cand: "c \<in> set (select_candidates reader now limit db)"
  proof -
    obtain r where "r \<in> set (take limit (filter ?P (rd_queue db)))" "c = (ot_transaction_id r, ot_sequence r)"
      using cand by (auto simp: select)
    moreover from this have "r \<in> set (filter ?P (rd_queue db))" by (blast dest: in_set_takeD)
    ultimately show ?thesis by auto
  qed
qed

lemma decode_candidate_sequence:
  "decode_candidate api c = Ok entry \<Longrightarrow> uint (batch_entry_sequence entry) = snd c"
  by (auto simp: decode_candidate_def decode_sequence_def LocalSequenceNumber_new_def result_simps split: if_splits)

lemma decode_candidates_sequences:
  "collect_results (decode_candidate api) cs = Ok entries \<Longrightarrow>
    map (\<lambda>e. uint (batch_entry_sequence e)) entries = map snd cs"
  by (induction cs arbitrary: entries) (auto simp: result_simps decode_candidate_sequence)

lemma create_batch_body_steady: "steady (create_batch_body api reader version new_id now limit)"
  unfolding create_batch_body_def Let_def by (intro steady_intros)

lemma create_batch_effect:
  assumes "tx_ran (create_batch_body api reader version new_id now limit) db = Ok (b, db')"
  obtains cs row where "cs = select_candidates (identifier_to_string api reader) now limit db" "cs \<noteq> []"
    "collect_results (decode_candidate api) cs = Ok (batch_entries b)"
    "row = new_batch_row api reader new_id version now (uint (batch_entry_sequence (hd (batch_entries b))))
      (uint (batch_entry_sequence (last (batch_entries b))))"
    "insert_batch row db = Ok ((), db\<lparr> rd_batches := rd_batches db @ [row] \<rparr>)"
    "tx_ran (tx_each (reserve_entry api reader new_id now) (List.enumerate 0 (batch_entries b)))
      (db\<lparr> rd_batches := rd_batches db @ [row] \<rparr>) = Ok ((), db')"
proof -
  have "\<exists>db1. select_candidates (identifier_to_string api reader) now limit db \<noteq> [] \<and>
      collect_results (decode_candidate api) (select_candidates (identifier_to_string api reader) now limit db)
        = Ok (batch_entries b) \<and>
      insert_batch (new_batch_row api reader new_id version now (uint (batch_entry_sequence (hd (batch_entries b))))
        (uint (batch_entry_sequence (last (batch_entries b))))) db = Ok ((), db1) \<and>
      tx_ran (tx_each (reserve_entry api reader new_id now) (List.enumerate 0 (batch_entries b))) db1 = Ok ((), db')"
    using assms unfolding create_batch_body_def Let_def tx_simps
    by (clarsimp simp: result_simps tx_simps sequence_to_i64_def ran_bind [OF steady_each [OF reserve_entry_steady]])
  then show thesis
    using that [OF refl _ _ refl] by (auto simp: insert_batch_def split: if_splits)
qed

lemma batch_holds_entry_rows:
  assumes "entries \<noteq> []" "sorted_wrt (<) (map (\<lambda>e. uint (batch_entry_sequence e)) entries)"
    and "sb_first_sequence row = uint (batch_entry_sequence (hd entries))"
      "sb_last_sequence row = uint (batch_entry_sequence (last entries))"
  shows "batch_holds row (map (entry_row api reader new_id) (List.enumerate 0 entries))"
proof -
  have seqs: "map (se_sequence \<circ> entry_row api reader new_id) (List.enumerate 0 entries) =
      map (\<lambda>e. uint (batch_entry_sequence e)) entries"
    by (rule nth_equalityI) (simp_all add: entry_row_def nth_enumerate_eq)
  have pos: "map (se_position \<circ> entry_row api reader new_id) (List.enumerate 0 entries) =
      map int [0..<length entries]"
    by (rule nth_equalityI) (simp_all add: entry_row_def nth_enumerate_eq)
  have ne: "List.enumerate 0 entries \<noteq> []" using assms(1) by (cases entries) auto
  have "se_sequence (entry_row api reader new_id (hd (List.enumerate 0 entries))) =
      hd (map (se_sequence \<circ> entry_row api reader new_id) (List.enumerate 0 entries))"
    "se_sequence (entry_row api reader new_id (last (List.enumerate 0 entries))) =
      last (map (se_sequence \<circ> entry_row api reader new_id) (List.enumerate 0 entries))"
    using ne by (simp_all add: hd_map last_map)
  then show ?thesis
    using assms ne by (simp add: batch_holds_def seqs pos hd_map last_map)
qed


lemma active_in_active_batch:
  assumes inv: "reader_db_inv db" and s: "rd_state db = Some s"
    and r: "r \<in> set (rd_queue db)" and e: "e \<in> set (rd_entries db)" "se_transaction_id e = ot_transaction_id r"
      "se_batch_id e \<in> active_ids db"
  shows "in_active_batch db r"
proof -
  obtain b where b: "b \<in> set (rd_batches db)" "sb_batch_id b = se_batch_id e" "batch_active b"
    using e(3) by (auto simp: active_ids_def)
  have "se_reader_id e = rs_reader_id s" "sb_reader_id b = rs_reader_id s" "ot_reader_id r = rs_reader_id s"
    using inv s r e(1) b(1) by (auto simp: reader_db_inv_Some queue_ok_def batches_ok_def entries_ok_def)
  then show ?thesis
    using e b unfolding in_active_batch_def list_ex_iff by metis
qed

lemma create_batch_inv:
  assumes ran: "tx_ran (create_batch_body api reader version new_id now limit) db = Ok (b, db')"
    and inv: "reader_db_inv db"
  shows "reader_db_inv db'"
  using ran
proof (rule create_batch_effect)
  fix cs row
  let ?db1 = "db\<lparr> rd_batches := rd_batches db @ [row] \<rparr>"
  let ?es = "map (entry_row api reader new_id) (List.enumerate 0 (batch_entries b))"
  assume cs: "cs = select_candidates (identifier_to_string api reader) now limit db" "cs \<noteq> []"
    "collect_results (decode_candidate api) cs = Ok (batch_entries b)"
    and row: "row = new_batch_row api reader new_id version now (uint (batch_entry_sequence (hd (batch_entries b))))
      (uint (batch_entry_sequence (last (batch_entries b))))"
    and ins: "insert_batch row db = Ok ((), ?db1)"
    and loop: "tx_ran (tx_each (reserve_entry api reader new_id now) (List.enumerate 0 (batch_entries b))) ?db1 = Ok ((), db')"
  obtain s where s: "rd_state db = Some s" "rs_reader_id s = sb_reader_id row"
    and row': "batch_checks row" "sb_batch_id row \<notin> sb_batch_id ` set (rd_batches db)"
    using ins by (auto simp: insert_batch_def split: if_splits)
  have queue: "map ot_sequence (rd_queue db) = [1..rs_next_local_sequence s - 1]"
    using inv s(1) by (simp add: reader_db_inv_Some queue_ok_def)
  have seqs: "map (\<lambda>e. uint (batch_entry_sequence e)) (batch_entries b) = map snd cs"
    using cs(3) by (rule decode_candidates_sequences)
  obtain f where db': "db' = ?db1\<lparr> rd_queue := map f (rd_queue db), rd_entries := rd_entries db @ ?es \<rparr>"
    and keys: "\<forall>p \<in> set (List.enumerate 0 (batch_entries b)). has_key db (entry_row api reader new_id p)"
    and f: "\<forall>r. row_moves r (f r)" "\<forall>r \<in> set (rd_queue db). queue_checks (f r)"
    using reserve_entries_effect [OF loop] inv_queue_checks [OF inv] by (auto simp: has_key_def)
  let ?dbq = "db\<lparr> rd_queue := map f (rd_queue db) \<rparr>"
  have invq: "reader_db_inv ?dbq"
    using inv f by (intro queue_update_inv) auto
  have keyq: "has_key ?dbq e = has_key db e" for e
    using has_key_moves [where f = f and db = db and e = e] f(1) by (simp add: has_key_def)
  have "reader_db_inv (?dbq\<lparr> rd_batches := rd_batches ?dbq @ [row], rd_entries := rd_entries ?dbq @ ?es \<rparr>)"
  proof (rule add_batch_inv [OF invq])
    show "rd_state ?dbq = Some s" "batch_checks row" "sb_reader_id row = rs_reader_id s"
      "sb_batch_id row \<notin> sb_batch_id ` set (rd_batches ?dbq)"
      using s row' by simp_all
    have "batch_entries b \<noteq> []" using cs(2) seqs by auto
    then show "batch_holds row ?es"
      using seqs cs(1) select_candidates_sorted(1) [OF queue] row
      by (intro batch_holds_entry_rows) (simp_all add: new_batch_row_def)
  next
    fix e assume e: "e \<in> set ?es"
    then show "se_batch_id e = sb_batch_id row \<and> se_reader_id e = rs_reader_id s \<and>
      (se_transaction_id e, se_sequence e) \<in> (\<lambda>r. (ot_transaction_id r, ot_sequence r)) ` set (rd_queue ?dbq)"
      using keys keyq s(2) by (auto simp: has_key_def entry_row_def row new_batch_row_def)
  next
    fix e e'
    assume e: "e \<in> set ?es" "e' \<in> set (rd_entries ?dbq)" "se_transaction_id e' = se_transaction_id e"
    obtain entry where entry: "entry \<in> set (batch_entries b)" "se_sequence e = uint (batch_entry_sequence entry)"
      using e(1) by (force simp: entry_row_def in_set_enumerate_eq)
    then have "se_sequence e \<in> snd ` set cs"
      using seqs by (metis (no_types, lifting) image_eqI image_set)
    then obtain c where c: "c \<in> set cs" "snd c = se_sequence e" by auto
    obtain r where r: "r \<in> set (rd_queue db)" "c = (ot_transaction_id r, ot_sequence r)" "\<not> in_active_batch db r"
      using select_candidates_sorted(2) [OF queue] c(1) cs(1) by blast
    obtain r' where r': "r' \<in> set (rd_queue db)" "ot_transaction_id r' = se_transaction_id e"
      "ot_sequence r' = se_sequence e"
      using keys e(1) by (auto simp: has_key_def)
    have "r' = r"
      using queue r(1,2) r'(1,3) c(2) distinct_upto [of 1] by (metis distinct_map inj_onD snd_conv)
    then show "se_batch_id e' \<notin> active_ids ?dbq"
      using active_in_active_batch [OF inv s(1) r(1)] r r' e by (auto simp: active_ids_def)
  qed
  moreover have "db' = ?dbq\<lparr> rd_batches := rd_batches ?dbq @ [row], rd_entries := rd_entries ?dbq @ ?es \<rparr>"
    by (cases db) (simp add: db')
  ultimately show ?thesis by simp
qed

lemma create_keeps: "call_in keeps_inv (create_synchronization_batch api reader version new_id now limit)"
proof -
  have "tx_in keeps_inv (create_batch_body api reader version new_id now limit)"
    using create_batch_inv create_batch_body_steady by (auto simp: tx_in_def keeps_inv_def)
  then show ?thesis
    unfolding create_synchronization_batch_def by (intro keeps_intros)
qed

end
