(* ===== verification/ReaderApplication.thy ===== *)
theory ReaderApplication
  imports ReaderInvariant
begin

text \<open>
  What the application of an acknowledgement does, the sequence it advances to, and that every call
  of the reader keeps the invariant of its database.
\<close>

lemma uint_succ_bounded:
  assumes "uint (v :: u64) + 1 < 18446744073709551616"
  shows "checked_add_u64 v 1 = Some (v + 1) \<and> uint (v + 1) = uint v + 1"
  using assms uint_add_lem [of v 1] by (simp add: checked_add_u64_def)

lemma contiguous_from_eq:
  assumes "map fst states = [uint last_seq + 1..n]" "n \<le> i64_max" "uint expected = uint last_seq + 1"
  shows "\<exists>m. contiguous_from last_seq expected states = Ok m \<and>
    uint m = uint last_seq + int (length (takeWhile (is_resolved_queue_state \<circ> snd) states))"
  using assms
proof (induction states arbitrary: last_seq expected)
  case (Cons p states)
  obtain q st where p: "p = (q, st)" by (cases p)
  have nonempty: "uint last_seq + 1 \<le> n"
    using Cons.prems(1) by (cases "uint last_seq + 1 \<le> n") simp_all
  then have "[uint last_seq + 1..n] = uint expected # [uint expected + 1..n]"
    using Cons.prems(3) upto_rec1 [of "uint last_seq + 1" n] by simp
  then have q: "q = uint expected" and rest: "map fst states = [uint expected + 1..n]"
    using Cons.prems(1) by (simp_all add: p)
  have tried: "u64_try_from q = Some expected" using q by (simp add: result_simps)
  have "0 < uint expected" using Cons.prems(3) uint_ge_0 [of last_seq] by linarith
  then have tried_nonzero: "expected \<noteq> 0" by auto
  have less: "uint expected + 1 < 18446744073709551616"
    using Cons.prems(2,3) nonempty by (simp add: i64_max_def)
  then obtain nxt where nxt: "checked_add_u64 expected 1 = Some nxt" "uint nxt = uint expected + 1"
    using uint_succ_bounded [OF less] by blast
  have "\<exists>m. contiguous_from expected nxt states = Ok m \<and>
      uint m = uint expected + int (length (takeWhile (is_resolved_queue_state \<circ> snd) states))"
    using rest nxt(2) Cons.prems(2,3) by (intro Cons.IH) simp_all
  then show ?case
    using tried_nonzero nxt(1) Cons.prems(3) by (auto simp: p tried ensure_def o_def)
qed simp


lemma contiguous_resolved_sequence_eq:
  assumes "map fst states = [uint current + 1..n]" "n \<le> i64_max" "uint current \<le> i64_max"
  shows "\<exists>m. contiguous_resolved_sequence current states = Ok m \<and>
    uint m = uint current + int (length (takeWhile (is_resolved_queue_state \<circ> snd) states))"
proof -
  have "uint current + 1 < 18446744073709551616"
    using assms(3) by (simp add: i64_max_def)
  then show ?thesis
    using contiguous_from_eq [OF assms(1,2), of "current + 1"] uint_succ_bounded [of current]
    by (simp add: contiguous_resolved_sequence_def result_simps)
qed

text \<open>The states the advance looks at.\<close>

definition pending_states :: "string \<Rightarrow> int \<Rightarrow> OfflineTransactionRow list \<Rightarrow> (int \<times> string) list" where
  "pending_states reader stored_last queue = map (\<lambda>r. (ot_sequence r, ot_queue_state r)) (sort_key ot_sequence
    (filter (\<lambda>r. ot_reader_id r = reader \<and> stored_last < ot_sequence r) queue))"

lemma filter_upto: "0 \<le> k \<Longrightarrow> filter ((<) k) [1..n] = [k + 1..n]" for k n :: int
proof (rule sorted_distinct_set_unique)
qed (auto intro: sorted_filter [where f = id, simplified] distinct_filter)

lemma pending_states_eq:
  assumes "queue_ok s queue" "rs_reader_id s = reader" "0 \<le> stored_last"
  shows "pending_states reader stored_last queue =
    map (\<lambda>r. (ot_sequence r, ot_queue_state r)) (filter (\<lambda>r. stored_last < ot_sequence r) queue)" (is ?eq)
    and "map fst (pending_states reader stored_last queue) = [stored_last + 1..rs_next_local_sequence s - 1]"
proof -
  let ?rows = "filter (\<lambda>r. stored_last < ot_sequence r) queue"
  have rows: "filter (\<lambda>r. ot_reader_id r = reader \<and> stored_last < ot_sequence r) queue = ?rows"
    using assms(1,2) by (auto simp: queue_ok_def intro: filter_cong)
  have "sorted_wrt (<) (map ot_sequence ?rows)"
    using assms(1) by (intro strictly_sorted_sequences) (simp add: queue_ok_def)
  then have "sorted (map ot_sequence ?rows)" by (simp add: strict_sorted_iff)
  then show eq: ?eq
    by (simp add: pending_states_def rows sort_key_id_if_sorted)
  have "map ot_sequence ?rows = filter ((<) stored_last) (map ot_sequence queue)"
    by (simp add: filter_map o_def)
  then show "map fst (pending_states reader stored_last queue) = [stored_last + 1..rs_next_local_sequence s - 1]"
    using assms filter_upto by (simp add: eq queue_ok_def o_def)
qed

text \<open>Everything up to the advanced sequence is resolved.\<close>

lemma advanced_resolved:
  assumes queue: "queue_ok s queue" "rs_reader_id s = reader" and lst: "rs_last_acknowledged_sequence s = uint current"
    and nxt: "rs_next_local_sequence s \<le> i64_max" "uint current < rs_next_local_sequence s"
    and adv: "contiguous_resolved_sequence current (pending_states reader (uint current) queue) = Ok advanced"
    and r: "r \<in> set queue" "ot_sequence r \<le> uint advanced"
  shows "is_resolved_queue_state (ot_queue_state r)"
proof (cases "ot_sequence r \<le> uint current")
  case True
  then show ?thesis using queue(1) lst r(1) by (simp add: queue_ok_def)
next
  case False
  let ?states = "pending_states reader (uint current) queue"
  let ?k = "length (takeWhile (is_resolved_queue_state \<circ> snd) ?states)"
  have fsts: "map fst ?states = [uint current + 1..rs_next_local_sequence s - 1]"
    using pending_states_eq(2) [OF queue] by simp
  then have "uint advanced = uint current + int ?k"
    using contiguous_resolved_sequence_eq [OF fsts] nxt adv by auto
  moreover have "(ot_sequence r, ot_queue_state r) \<in> set ?states"
    using False r(1) by (simp add: pending_states_eq(1) [OF queue])
  then obtain i where i: "i < length ?states" "?states ! i = (ot_sequence r, ot_queue_state r)"
    by (auto simp: in_set_conv_nth)
  moreover have "fst (?states ! i) = uint current + 1 + int i"
  proof -
    have len: "length ?states = nat (rs_next_local_sequence s - 1 - uint current)"
      using arg_cong [OF fsts, of length] by simp
    have "fst (?states ! i) = map fst ?states ! i" using i(1) by simp
    also have "\<dots> = uint current + 1 + int i"
      unfolding fsts using i(1) len by (subst nth_upto) auto
    finally show ?thesis .
  qed
  ultimately have "i < ?k"
    using r(2) by simp
  then have "?states ! i \<in> set (takeWhile (is_resolved_queue_state \<circ> snd) ?states)"
    by (metis nth_mem takeWhile_nth)
  then show ?thesis
    using i(2) set_takeWhileD by fastforce
qed


lemma apply_entry_steady [steady_intros]: "steady (apply_entry api reader now entry)"
  unfolding apply_entry_def by (intro steady_intros)

lemma advance_steady [steady_intros]: "steady (advance_acknowledged_sequence reader now current advanced)"
  unfolding advance_acknowledged_sequence_def by (intro steady_intros)

lemma apply_effects_steady [steady_intros]: "steady (apply_effects api reader bid now stored_last current entries)"
  unfolding apply_effects_def Let_def by (intro steady_intros)

lemma apply_body_steady [steady_intros]: "steady (apply_body api reader bid now)"
  unfolding apply_body_def Let_def by (intro steady_intros)

text \<open>What a successful application does, step by step.\<close>

definition acknowledged_batch :: "UnixMs \<Rightarrow> BatchRow \<Rightarrow> BatchRow" where
  "acknowledged_batch now b = b\<lparr> sb_state := ''acknowledged'', sb_next_retry_at := None,
    sb_failure_category := None, sb_updated_at := now \<rparr>"

definition advanced_state :: "UnixMs \<Rightarrow> int \<Rightarrow> ReaderStateRow \<Rightarrow> ReaderStateRow" where
  "advanced_state now k s = s\<lparr> rs_last_acknowledged_sequence := k, rs_updated_at := max (rs_updated_at s) now \<rparr>"

definition advance_to :: "string \<Rightarrow> UnixMs \<Rightarrow> u64 \<Rightarrow> u64 \<Rightarrow> ReaderDb \<Rightarrow> ReaderDb \<Rightarrow> bool" where
  "advance_to reader now current advanced db db' \<longleftrightarrow>
    (if current < advanced
     then \<exists>s. rd_state db = Some s \<and> rs_reader_id s = reader \<and> uint advanced < rs_next_local_sequence s \<and>
       reader_state_checks (advanced_state now (uint advanced) s) \<and>
       db' = db\<lparr> rd_state := Some (advanced_state now (uint advanced) s) \<rparr>
     else db' = db)"

lemma advance_ran:
  "tx_ran (advance_acknowledged_sequence reader now current advanced) db = Ok ((), db') \<Longrightarrow>
    advance_to reader now current advanced db db'"
  by (auto simp: advance_acknowledged_sequence_def tx_simps result_simps update_eq_Ok advance_to_def
      advanced_state_def split: if_splits option.splits)

lemma apply_effects_effect:
  assumes "tx_ran (apply_effects api reader bid now stored_last current entries) db = Ok (advanced, db')"
  shows "\<exists>db1 db2 db3. tx_ran (tx_each (apply_entry api reader now) entries) db = Ok ((), db1) \<and>
    update_batches (in_flight_batch api reader bid now) (acknowledged_batch now) db1 = Ok (1, db2) \<and>
    contiguous_resolved_sequence current
      (pending_states (identifier_to_string api reader) stored_last (rd_queue db2)) = Ok advanced \<and>
    advance_to (identifier_to_string api reader) now current advanced db2 db3 \<and>
    update_acknowledgements (\<lambda>a. sa_batch_id a = identifier_to_string api bid \<and>
        sa_reader_id a = identifier_to_string api reader \<and> sa_applied_at a = None)
      (\<lambda>a. a\<lparr> sa_applied_at := Some now \<rparr>) db3 = Ok (1, db')"
proof -
  let ?reader = "identifier_to_string api reader"
  obtain db1 db2 db3 where "tx_ran (tx_each (apply_entry api reader now) entries) db = Ok ((), db1)"
    "update_batches (in_flight_batch api reader bid now) (acknowledged_batch now) db1 = Ok (1, db2)"
    "contiguous_resolved_sequence current (pending_states ?reader stored_last (rd_queue db2)) = Ok advanced"
    "tx_ran (advance_acknowledged_sequence ?reader now current advanced) db2 = Ok ((), db3)"
    "update_acknowledgements (\<lambda>a. sa_batch_id a = identifier_to_string api bid \<and> sa_reader_id a = ?reader \<and>
        sa_applied_at a = None) (\<lambda>a. a\<lparr> sa_applied_at := Some now \<rparr>) db3 = Ok (1, db')"
    using assms unfolding apply_effects_def Let_def acknowledged_batch_def [abs_def] pending_states_def
    by (clarsimp simp: ran_bind [OF steady_each [OF apply_entry_steady]] ran_bind [OF advance_steady]
        tx_simps result_simps)
  then show ?thesis using advance_ran by blast
qed


definition stored_ack :: "string \<Rightarrow> string \<Rightarrow> ReaderDb \<Rightarrow> AcknowledgementRow option" where
  "stored_ack reader bid db = find (\<lambda>a. sa_batch_id a = bid \<and> sa_reader_id a = reader) (rd_acks db)"

definition stored_ack_entries :: "string \<Rightarrow> string \<Rightarrow> ReaderDb \<Rightarrow> AcknowledgementEntryRow list" where
  "stored_ack_entries reader bid db =
    sort_key ar_position (filter (\<lambda>e. ar_batch_id e = bid \<and> ar_reader_id e = reader) (rd_ack_entries db))"

lemma apply_body_effect:
  assumes "tx_ran (apply_body api reader bid now) db = Ok (res, db')"
  shows "\<exists>ack entries s current.
    stored_ack (identifier_to_string api reader) (identifier_to_string api bid) db = Some ack \<and>
    decode_ack_entries api (sa_received_at ack) 0
      (stored_ack_entries (identifier_to_string api reader) (identifier_to_string api bid) db) = Ok entries \<and>
    rd_state db = Some s \<and> rs_reader_id s = identifier_to_string api reader \<and>
    rs_last_acknowledged_sequence s = uint current \<and>
    app_batch_id res = bid \<and> app_counts res = resolution_counts entries \<and>
    (case sa_applied_at ack of
       Some t \<Rightarrow> \<not> app_applied_now res \<and> app_applied_at res = t \<and>
         app_last_acknowledged_sequence res = current \<and> db' = db
     | None \<Rightarrow> app_applied_now res \<and> app_applied_at res = now \<and> sa_received_at ack \<le> now \<and>
         tx_ran (apply_effects api reader bid now (uint current) current entries) db =
           Ok (app_last_acknowledged_sequence res, db'))"
  using assms unfolding apply_body_def Let_def stored_ack_def stored_ack_entries_def
  by (auto simp: ran_bind [OF apply_effects_steady] tx_simps result_simps split: option.splits if_splits)

lemma apply_entry_keeps [keeps_intros]: "tx_in keeps_inv (apply_entry api reader now entry)"
  unfolding apply_entry_def by (intro keeps_intros; auto simp: in_flight_simps)

text \<open>The loop over the entries leaves the reader state and the acknowledgements alone.\<close>

definition same_state :: "ReaderDb \<Rightarrow> ReaderDb \<Rightarrow> bool" where
  "same_state db db' \<longleftrightarrow> rd_state db' = rd_state db \<and> rd_acks db' = rd_acks db"

interpretation same_state: table_preorder same_state
  by unfold_locales (simp_all add: same_state_def)

lemma apply_entries_same_state: "tx_in same_state (tx_each (apply_entry api reader now) entries)"
proof -
  have "statement_in same_state (update_queue hit sv)" for hit sv
    by (auto simp: statement_in_def same_state_def update_eq_Ok)
  then show ?thesis unfolding apply_entry_def by (intro same_state.closed_intros)
qed

lemma advance_inv:
  assumes inv: "reader_db_inv db" and s: "rd_state db = Some s" "rs_reader_id s = reader"
    "rs_last_acknowledged_sequence s = uint current"
    and adv: "contiguous_resolved_sequence current (pending_states reader (uint current) (rd_queue db)) = Ok advanced"
    and to: "advance_to reader now current advanced db db'"
  shows "reader_db_inv db'"
proof (cases "current < advanced")
  case True
  let ?s = "advanced_state now (uint advanced) s"
  have old: "reader_state_checks s" "queue_ok s (rd_queue db)" "batches_ok s (rd_batches db)" "entries_ok s db" "exclusive db"
    using inv s(1) by (simp_all add: reader_db_inv_Some)
  have new: "reader_state_checks ?s" "db' = db\<lparr> rd_state := Some ?s \<rparr>"
    using to True s(1) by (auto simp: advance_to_def)
  have "is_resolved_queue_state (ot_queue_state r)" if "r \<in> set (rd_queue db)" "ot_sequence r \<le> uint advanced" for r
    using old(1,2) s advanced_resolved [OF old(2) s(2,3) _ _ adv that]
    by (simp add: queue_ok_def reader_state_checks_def)
  then have "queue_ok ?s (rd_queue db)"
    using old(2) by (auto simp: queue_ok_def advanced_state_def)
  moreover have "batches_ok ?s (rd_batches db)" "entries_ok ?s db'" "exclusive db'"
    using old(3-5) by (auto simp: batches_ok_def entries_ok_def exclusive_def entries_of_def active_ids_def
        advanced_state_def new(2))
  ultimately show ?thesis
    using new by (simp add: reader_db_inv_def)
next
  case False
  then show ?thesis using to inv by (simp add: advance_to_def)
qed

lemma apply_body_inv:
  assumes ran: "tx_ran (apply_body api reader bid now) db = Ok (res, db')" and inv: "reader_db_inv db"
  shows "reader_db_inv db'"
proof -
  obtain ack entries s current where s: "rd_state db = Some s" "rs_reader_id s = identifier_to_string api reader"
      "rs_last_acknowledged_sequence s = uint current"
    and eff: "db' = db \<or> tx_ran (apply_effects api reader bid now (uint current) current entries) db =
      Ok (app_last_acknowledged_sequence res, db')"
    using apply_body_effect [OF ran] by (auto split: option.splits)
  show ?thesis
  proof (cases "db' = db")
    case True
    then show ?thesis using inv by simp
  next
    case False
    let ?reader = "identifier_to_string api reader" and ?adv = "app_last_acknowledged_sequence res"
    obtain db1 db2 db3 where steps: "tx_ran (tx_each (apply_entry api reader now) entries) db = Ok ((), db1)"
      "update_batches (in_flight_batch api reader bid now) (acknowledged_batch now) db1 = Ok (1, db2)"
      "contiguous_resolved_sequence current (pending_states ?reader (uint current) (rd_queue db2)) = Ok ?adv"
      "advance_to ?reader now current ?adv db2 db3"
      "update_acknowledgements (\<lambda>a. sa_batch_id a = identifier_to_string api bid \<and> sa_reader_id a = ?reader \<and>
        sa_applied_at a = None) (\<lambda>a. a\<lparr> sa_applied_at := Some now \<rparr>) db3 = Ok (1, db')"
      using eff False apply_effects_effect by blast
    have "tx_in keeps_inv (tx_each (apply_entry api reader now) entries)" by (intro keeps_intros)
    then have "reader_db_inv db1" using steps(1) inv by (auto simp: tx_in_def keeps_inv_def)
    moreover have "statement_in keeps_inv (update_batches (in_flight_batch api reader bid now) (acknowledged_batch now))"
      by (intro keeps_intros) (auto simp: in_flight_simps acknowledged_batch_def)
    ultimately have "reader_db_inv db2" using steps(2) by (auto simp: statement_in_def keeps_inv_def)
    moreover have "rd_state db1 = rd_state db"
      using apply_entries_same_state steps(1) by (auto simp: tx_in_def same_state_def)
    then have "rd_state db2 = Some s" using steps(2) s(1) by (simp add: update_eq_Ok)
    ultimately have "reader_db_inv db3"
      using advance_inv s(2,3) steps(3,4) by blast
    then show ?thesis using steps(5) by (auto simp: update_eq_Ok)
  qed
qed

lemma apply_acknowledgement_keeps: "call_in keeps_inv (apply_synchronization_acknowledgement api reader bid now)"
proof -
  have "tx_in keeps_inv (apply_body api reader bid now)"
    using apply_body_inv apply_body_steady by (auto simp: tx_in_def keeps_inv_def)
  then show ?thesis
    unfolding apply_synchronization_acknowledgement_def by (intro keeps_intros)
qed

lemmas all_calls_keep = bind_reader_database_keeps enqueue_keeps transaction_state_keeps recover_keeps
  create_keeps mark_synchronization_batch_in_flight_keeps record_synchronization_retryable_failure_keeps
  final_failure_keeps store_acknowledgement_keeps apply_acknowledgement_keeps

lemma reader_call_keeps: "keeps_inv (sq_db w) (sq_db (reader_call api json render call w))"
  by (cases call) (simp_all add: all_calls_keep [THEN call_inD])

lemma reader_calls_keep:
  "reader_db_inv (sq_db w) \<Longrightarrow> reader_db_inv (sq_db (fold (reader_call api json render) calls w))"
  using keeps.calls_in [of "reader_call api json render" w calls, OF reader_call_keeps] by (simp add: keeps_inv_def)

lemma reader_db_inv_empty [simp]: "reader_db_inv empty_reader_db"
  by (simp add: reader_db_inv_def empty_reader_db_def)

end
