(* ===== verification/ReaderProperties.thy ===== *)
theory ReaderProperties
  imports ReaderApplication
begin

text \<open>
  The properties of the reader's database as a whole: its consistency over any sequence of calls
  and driver failures, what is never changed, the stability of requests, the application of
  acknowledgements and the recovery after an interruption.
\<close>

section \<open>Rows found again\<close>

lemma find_moves:
  assumes "table_moves R rows rows'" "\<And>r r'. R r r' \<Longrightarrow> P r' = P r" "find P rows = Some r"
  shows "\<exists>r'. find P rows' = Some r' \<and> R r r'"
proof -
  obtain i where i: "i < length rows" "P (rows ! i)" "r = rows ! i" "\<And>j. j < i \<Longrightarrow> \<not> P (rows ! j)"
    using assms(3) by (auto simp: find_Some_iff)
  have nth: "j < length rows' \<and> R (rows ! j) (rows' ! j)" if "j < length rows" for j
    using table_moves_nth [OF assms(1) that] .
  have "P (rows' ! j) = P (rows ! j)" if "j < length rows" for j
    using nth [OF that] assms(2) by blast
  then have "find P rows' = Some (rows' ! i)"
    using i nth [OF i(1)] by (auto simp: find_Some_iff intro!: exI [of _ i])
  then show ?thesis using nth [OF i(1)] i(3) by blast
qed

lemma batch_row_moves:
  assumes "db_moves db db'" "batch_row_of reader bid db = Some b"
  shows "\<exists>b'. batch_row_of reader bid db' = Some b' \<and> batch_moves b b'"
  unfolding batch_row_of_def
proof (rule find_moves)
  show "table_moves batch_moves (rd_batches db) (rd_batches db')"
    using assms(1) by (simp add: db_moves_def)
  show "(sb_batch_id r' = bid \<and> sb_reader_id r' = reader) = (sb_batch_id r = bid \<and> sb_reader_id r = reader)"
    if "batch_moves r r'" for r r'
    using that batch_identity_fields [of r' r] by (simp add: batch_moves_def)
qed (use assms(2) in \<open>simp add: batch_row_of_def\<close>)

section \<open>Requests\<close>

lemma entry_rows_in_order:
  assumes inv: "reader_db_inv db" and b: "batch_row_of reader bid db = Some b"
  shows "entry_rows_of reader bid db = entries_of db bid" "batch_holds b (entries_of db bid)"
    "b \<in> set (rd_batches db)" "sb_batch_id b = bid"
proof -
  show mem: "b \<in> set (rd_batches db)" and id: "sb_batch_id b = bid"
    using b by (auto simp: batch_row_of_def find_Some_iff)
  obtain s where s: "rd_state db = Some s"
    using inv mem by (cases "rd_state db") (auto simp: reader_db_inv_def)
  show holds: "batch_holds b (entries_of db bid)"
    using inv s mem id by (auto simp: reader_db_inv_Some entries_ok_def)
  have "sb_reader_id b = reader" using b by (auto simp: batch_row_of_def find_Some_iff)
  then have "\<forall>e \<in> set (rd_entries db). se_reader_id e = reader"
    using inv s mem by (auto simp: reader_db_inv_Some entries_ok_def batches_ok_def)
  then have "filter (\<lambda>e. se_batch_id e = bid \<and> se_reader_id e = reader) (rd_entries db) = entries_of db bid"
    unfolding entries_of_def by (intro filter_cong) auto
  moreover have "sorted (map se_position (entries_of db bid))"
    using holds by (simp add: batch_holds_def sorted_wrt_map)
  ultimately show "entry_rows_of reader bid db = entries_of db bid"
    by (simp add: entry_rows_of_def sort_key_id_if_sorted)
qed

text \<open>The entries of a batch are fixed when it is created.\<close>

lemma strict_prefix_last:
  fixes xs ys :: "int list"
  assumes "sorted_wrt (<) (xs @ ys)" "xs \<noteq> []" "last (xs @ ys) = last xs"
  shows "ys = []"
  using assms by (cases ys rule: rev_cases) (auto simp: sorted_wrt_append)

lemma entries_fixed:
  assumes "db_moves db db'" "reader_db_inv db" "reader_db_inv db'"
    and b: "batch_row_of reader bid db = Some b"
  shows "entries_of db' bid = entries_of db bid"
proof -
  obtain b' where b': "batch_row_of reader bid db' = Some b'" "batch_moves b b'"
    using batch_row_moves [OF assms(1) b] by blast
  obtain new where "rd_entries db' = rd_entries db @ new"
    using assms(1) by (auto simp: db_moves_def table_moves_def list.rel_eq)
  then obtain more where more: "entries_of db' bid = entries_of db bid @ more"
    by (auto simp: entries_of_def)
  have holds: "batch_holds b (entries_of db bid)" "batch_holds b' (entries_of db' bid)"
    using entry_rows_in_order [OF assms(2) b] entry_rows_in_order [OF assms(3) b'(1)] by auto
  have "sb_last_sequence b' = sb_last_sequence b"
    using b'(2) batch_identity_fields [of b' b] by (simp add: batch_moves_def)
  then have "last (map se_sequence (entries_of db' bid)) = last (map se_sequence (entries_of db bid))"
    using holds by (simp add: batch_holds_def last_map)
  then have "map se_sequence more = []"
    using holds more by (intro strict_prefix_last [of "map se_sequence (entries_of db bid)"])
      (simp_all add: batch_holds_def)
  then show ?thesis using more by simp
qed


lemma list_all2_filter_key:
  assumes "list_all2 R xs ys" "\<And>x y. R x y \<Longrightarrow> P y = P x \<and> f y = f x"
  shows "map f (filter P ys) = map f (filter P xs)"
  using assms by (induction rule: list_all2_induct) auto

text \<open>The row an entry refers to is the only one with its identity.\<close>

lemma joined_rows_fixed:
  assumes "db_moves db db'" "reader_db_inv db" "reader_db_inv db'" and e: "e \<in> set (rd_entries db)"
  shows "map ot_envelope_json (filter (\<lambda>q. ot_transaction_id q = se_transaction_id e \<and>
      ot_reader_id q = se_reader_id e \<and> ot_sequence q = se_sequence e) (rd_queue db')) =
    map ot_envelope_json (filter (\<lambda>q. ot_transaction_id q = se_transaction_id e \<and>
      ot_reader_id q = se_reader_id e \<and> ot_sequence q = se_sequence e) (rd_queue db))"
    (is "map ?f (filter ?P _) = _")
proof -
  obtain kept new where q: "rd_queue db' = kept @ new" "list_all2 row_moves (rd_queue db) kept"
    using assms(1) by (auto simp: db_moves_def table_moves_def)
  have same: "?P y = ?P x \<and> ?f y = ?f x" if "row_moves x y" for x y
    using that row_identity_fields [of y x] by (auto simp: row_moves_def)
  have kept: "map ?f (filter ?P kept) = map ?f (filter ?P (rd_queue db))"
    using q(2) same by (rule list_all2_filter_key)
  obtain s where s: "rd_state db = Some s"
    using assms(2) e by (cases "rd_state db") (auto simp: reader_db_inv_def)
  then obtain s' where s': "rd_state db' = Some s'"
    using assms(1) by (auto simp: db_moves_def)
  obtain r where r: "r \<in> set (rd_queue db)" "ot_transaction_id r = se_transaction_id e"
    using assms(2) s e by (auto simp: reader_db_inv_Some entries_ok_def)
  have ids: "ot_transaction_id y = ot_transaction_id x" if "row_moves x y" for x y
    using that row_identity_fields [of y x] by (simp add: row_moves_def)
  have "map ot_transaction_id kept = map ot_transaction_id (rd_queue db)"
    using list_all2_filter_key [OF q(2), of "\<lambda>_. True" ot_transaction_id] ids by simp
  then have "se_transaction_id e \<in> ot_transaction_id ` set kept"
    using r by (metis image_eqI image_set)
  moreover have "distinct (map ot_transaction_id (kept @ new))"
    using assms(3) s' q(1) by (simp add: reader_db_inv_Some queue_ok_def)
  ultimately have "se_transaction_id e \<notin> ot_transaction_id ` set new" by auto
  then have "filter ?P new = []"
    unfolding filter_empty_conv by (metis image_eqI)
  then show ?thesis using kept q(1) by simp
qed

lemma request_rows_fixed:
  assumes "db_moves db db'" "reader_db_inv db" "reader_db_inv db'"
    and b: "batch_row_of reader bid db = Some b"
  shows "request_rows reader bid db' = request_rows reader bid db"
proof -
  obtain b' where b': "batch_row_of reader bid db' = Some b'"
    using batch_row_moves [OF assms(1) b] by blast
  have rows: "entry_rows_of reader bid db' = entry_rows_of reader bid db"
    using entries_fixed [OF assms] entry_rows_in_order(1) [OF assms(2) b]
      entry_rows_in_order(1) [OF assms(3) b'] by simp
  have "set (entry_rows_of reader bid db) \<subseteq> set (rd_entries db)"
    by (auto simp: entry_rows_of_def)
  moreover have pair: "map (\<lambda>q. (e, ot_envelope_json q)) qs = map (Pair e) (map ot_envelope_json qs)" for e qs
    by simp
  ultimately show ?thesis
    unfolding request_rows_def rows pair
    by (intro arg_cong [of _ _ concat] map_cong refl arg_cong [of _ _ "map (Pair _)"] joined_rows_fixed [OF assms(1-3)])
      blast
qed

text \<open>A request is made of what never changes.\<close>

lemma request_body_effect:
  assumes "tx_ran (request_body api json reader bid) db = Ok (rq, db')"
  shows "\<exists>b s. batch_row_of (identifier_to_string api reader) (identifier_to_string api bid) db = Some b \<and>
    rd_state db = Some s \<and> sb_submitted_at b \<noteq> None \<and> db' = db"
  using assms unfolding request_body_def Let_def
  by (clarsimp simp: tx_simps result_simps)

lemma request_body_fixed:
  assumes "db_moves db db'" "reader_db_inv db" "reader_db_inv db'"
    and ran: "tx_ran (request_body api json reader bid) db = Ok (rq, x)"
    and ran': "tx_ran (request_body api json reader bid) db' = Ok (rq', x')"
  shows "rq' = rq"
proof -
  let ?reader = "identifier_to_string api reader" and ?bid = "identifier_to_string api bid"
  obtain b s where b: "batch_row_of ?reader ?bid db = Some b" "sb_submitted_at b \<noteq> None" and s: "rd_state db = Some s"
    using request_body_effect [OF ran] by blast
  obtain b' where b': "batch_row_of ?reader ?bid db' = Some b'" "batch_moves b b'"
    using batch_row_moves [OF assms(1) b(1)] by blast
  obtain s' where s': "rd_state db' = Some s'" "state_moves s s'"
    using assms(1) s by (auto simp: db_moves_def)
  have sid: "rs_reader_id s' = rs_reader_id s" "rs_environment_id s' = rs_environment_id s"
    "rs_software_version s' = rs_software_version s" "rs_protocol_version s' = rs_protocol_version s"
    using s'(2) by (cases s; cases s'; simp add: state_moves_def state_identity_def)+
  have bid: "sb_protocol_version b' = sb_protocol_version b" "sb_first_sequence b' = sb_first_sequence b"
    "sb_last_sequence b' = sb_last_sequence b" "sb_submitted_at b' = sb_submitted_at b"
    using b'(2) b(2) batch_identity_fields [of b' b] by (simp_all add: batch_moves_def)
  show ?thesis
    using ran ran' unfolding request_body_def Let_def
    by (clarsimp simp: tx_simps result_simps b b' s s'(1) sid bid request_rows_fixed [OF assms(1-3) b(1)])
qed

lemma request_body_steady: "steady (request_body api json reader bid)"
  unfolding request_body_def Let_def by (intro steady_intros)

lemma request_loaded:
  assumes "load_synchronization_batch_request api json reader bid w = (Ok rq, w')"
  shows "\<exists>x. tx_ran (request_body api json reader bid) (sq_db w) = Ok (rq, x)" "sq_db w' = sq_db w"
proof -
  have *: "\<exists>x. tx_ran (request_body api json reader bid) (sq_db w) = Ok (rq, x) \<and> sq_db w' = sq_db w"
    using assms request_body_steady unfolding load_synchronization_batch_request_def
    by (rule transaction_cases) (auto dest: request_body_effect)
  then show "\<exists>x. tx_ran (request_body api json reader bid) (sq_db w) = Ok (rq, x)" "sq_db w' = sq_db w"
    by blast+
qed


section \<open>Application\<close>

text \<open>What the loop over the entries does to a row of the queue.\<close>

definition entry_hits :: "UuidApi \<Rightarrow> string \<Rightarrow> DecodedAcknowledgementEntry \<Rightarrow> OfflineTransactionRow \<Rightarrow> bool" where
  "entry_hits api reader entry r \<longleftrightarrow> ot_transaction_id r = identifier_to_string api (da_transaction_id entry) \<and>
    ot_reader_id r = reader \<and> ot_sequence r = da_sequence entry"

definition resolved_row :: "UnixMs \<Rightarrow> AppliedResolution \<Rightarrow> OfflineTransactionRow \<Rightarrow> OfflineTransactionRow" where
  "resolved_row now resolution r =
    (case queue_values resolution of (state, category, retry_at) \<Rightarrow>
     r\<lparr> ot_queue_state := state, ot_next_retry_at := retry_at, ot_failure_category := category,
       ot_updated_at := now \<rparr>)"

definition applied_row :: "UuidApi \<Rightarrow> string \<Rightarrow> UnixMs \<Rightarrow> DecodedAcknowledgementEntry list \<Rightarrow> OfflineTransactionRow
    \<Rightarrow> OfflineTransactionRow" where
  "applied_row api reader now entries r =
    (case find (\<lambda>e. entry_hits api reader e r) entries of
       None \<Rightarrow> r
     | Some e \<Rightarrow> resolved_row now (da_resolution e) r)"

lemma resolved_row_fields [simp]:
  "ot_transaction_id (resolved_row now res r) = ot_transaction_id r"
  "ot_reader_id (resolved_row now res r) = ot_reader_id r"
  "ot_sequence (resolved_row now res r) = ot_sequence r"
  "ot_queue_state (resolved_row now res r) \<noteq> ''in_flight''"
  "entry_hits api reader entry (resolved_row now res r) = entry_hits api reader entry r"
  by (cases res; simp add: resolved_row_def entry_hits_def)+

lemma apply_entry_ran:
  "tx_ran (apply_entry api reader now entry) db = Ok (u, db') \<longleftrightarrow>
    (\<forall>r \<in> set (rd_queue db). entry_hits api (identifier_to_string api reader) entry r \<and>
       ot_queue_state r = ''in_flight'' \<and> ot_updated_at r \<le> now \<longrightarrow>
       queue_checks (resolved_row now (da_resolution entry) r)) \<and>
    length (filter (\<lambda>r. entry_hits api (identifier_to_string api reader) entry r \<and>
       ot_queue_state r = ''in_flight'' \<and> ot_updated_at r \<le> now) (rd_queue db)) = 1 \<and>
    db' = db\<lparr> rd_queue := map (\<lambda>r. if entry_hits api (identifier_to_string api reader) entry r \<and>
       ot_queue_state r = ''in_flight'' \<and> ot_updated_at r \<le> now
       then resolved_row now (da_resolution entry) r else r) (rd_queue db) \<rparr>"
  unfolding apply_entry_def
  by (cases "queue_values (da_resolution entry)")
    (auto simp: tx_simps result_simps update_eq_Ok entry_hits_def resolved_row_def conj_assoc)

lemma apply_entries_effect:
  assumes "tx_ran (tx_each (apply_entry api reader now) entries) db = Ok ((), db')"
    and "distinct (map ot_transaction_id (rd_queue db))"
  shows "db' = db\<lparr> rd_queue := map (applied_row api (identifier_to_string api reader) now entries) (rd_queue db) \<rparr> \<and>
    (\<forall>entry \<in> set entries. \<exists>r \<in> set (rd_queue db). entry_hits api (identifier_to_string api reader) entry r \<and>
      ot_queue_state r = ''in_flight'')"
  using assms
proof (induction entries arbitrary: db)
  case Nil
  then show ?case by (simp add: tx_simps apply_entry_steady applied_row_def map_idI)
next
  case (Cons entry entries)
  let ?reader = "identifier_to_string api reader"
  let ?hit = "\<lambda>r. entry_hits api ?reader entry r \<and> ot_queue_state r = ''in_flight'' \<and> ot_updated_at r \<le> now"
  let ?f = "\<lambda>r. if ?hit r then resolved_row now (da_resolution entry) r else r"
  obtain db1 where first: "tx_ran (apply_entry api reader now entry) db = Ok ((), db1)"
    and rest: "tx_ran (tx_each (apply_entry api reader now) entries) db1 = Ok ((), db')"
    using Cons.prems(1) by (auto simp: tx_simps apply_entry_steady ran_bind result_simps)
  have db1: "db1 = db\<lparr> rd_queue := map ?f (rd_queue db) \<rparr>" and one: "length (filter ?hit (rd_queue db)) = 1"
    using first unfolding apply_entry_ran by blast+
  have "ot_transaction_id \<circ> ?f = ot_transaction_id" by (auto simp: fun_eq_iff)
  then have "distinct (map ot_transaction_id (rd_queue db1))"
    using Cons.prems(2) by (simp add: db1)
  from Cons.IH [OF rest this]
  have db': "db' = db\<lparr> rd_queue := map (applied_row api ?reader now entries \<circ> ?f) (rd_queue db) \<rparr>"
    and others: "\<forall>e \<in> set entries. \<exists>r \<in> set (rd_queue db). entry_hits api ?reader e (?f r) \<and>
      ot_queue_state (?f r) = ''in_flight''"
    by (auto simp: db1)
  have "filter ?hit (rd_queue db) \<noteq> []" using one by force
  then obtain r0 where r0: "r0 \<in> set (rd_queue db)" "?hit r0"
    unfolding filter_empty_conv by blast
  have only: "r = r0" if "r \<in> set (rd_queue db)" "entry_hits api ?reader entry r" for r
    using that r0 Cons.prems(2) inj_onD [of ot_transaction_id "set (rd_queue db)" r r0]
    by (simp add: entry_hits_def distinct_map)
  have none: "\<not> entry_hits api ?reader e r0" if "e \<in> set entries" for e
  proof
    assume hit: "entry_hits api ?reader e r0"
    obtain r where r: "r \<in> set (rd_queue db)" "entry_hits api ?reader e (?f r)" "ot_queue_state (?f r) = ''in_flight''"
      using others \<open>e \<in> set entries\<close> by blast
    then have "ot_transaction_id r = ot_transaction_id r0"
      using hit by (auto simp: entry_hits_def split: if_splits)
    then have "r = r0"
      using r(1) r0(1) Cons.prems(2) inj_onD [of ot_transaction_id "set (rd_queue db)" r r0]
      by (simp add: distinct_map)
    then show False using r(3) r0(2) by simp
  qed
  have "applied_row api ?reader now entries (?f r) = applied_row api ?reader now (entry # entries) r"
    if r: "r \<in> set (rd_queue db)" for r
  proof (cases "entry_hits api ?reader entry r")
    case True
    then have "r = r0" using only r by blast
    moreover have "find (\<lambda>e. entry_hits api ?reader e r0) entries = None"
      using none by (auto simp: find_None_iff)
    ultimately show ?thesis using r0(2) by (simp add: applied_row_def)
  next
    case False
    then show ?thesis by (simp add: applied_row_def)
  qed
  then have "db' = db\<lparr> rd_queue := map (applied_row api ?reader now (entry # entries)) (rd_queue db) \<rparr>"
    by (simp add: db' cong: map_cong)
  moreover have "\<exists>r \<in> set (rd_queue db). entry_hits api ?reader e r \<and> ot_queue_state r = ''in_flight''"
    if "e \<in> set (entry # entries)" for e
    using that r0 others by (auto split: if_splits)
  ultimately show ?case by blast
qed


lemma apply_ran:
  assumes "apply_synchronization_acknowledgement api reader bid now w = (Ok res, w')"
  shows "tx_ran (apply_body api reader bid now) (sq_db w) = Ok (res, sq_db w')"
proof -
  have "\<exists>b c. transaction b (\<lambda>res. Some (c res)) (apply_body api reader bid now) w = (Ok res, w')"
    using assms
    by (auto simp: apply_synchronization_acknowledgement_def and_next_def ensure_def split: if_splits)
  then obtain b c where "transaction b (\<lambda>res. Some (c res)) (apply_body api reader bid now) w = (Ok res, w')"
    by blast
  then show ?thesis
    using apply_body_steady by (rule transaction_cases) auto
qed

text \<open>What a first application does to the tables.\<close>

definition applied_effect :: "UuidApi \<Rightarrow> ReaderId \<Rightarrow> SynchronizationBatchId \<Rightarrow> UnixMs \<Rightarrow> u64
    \<Rightarrow> DecodedAcknowledgementEntry list \<Rightarrow> ReaderDb \<Rightarrow> ReaderDb \<Rightarrow> bool" where
  "applied_effect api reader bid now advanced entries db db' \<longleftrightarrow>
    rd_queue db' = map (applied_row api (identifier_to_string api reader) now entries) (rd_queue db) \<and>
    (\<forall>e \<in> set entries. \<exists>r \<in> set (rd_queue db). entry_hits api (identifier_to_string api reader) e r \<and>
      ot_queue_state r = ''in_flight'') \<and>
    rd_batches db' = map (\<lambda>b. if in_flight_batch api reader bid now b then acknowledged_batch now b else b)
      (rd_batches db) \<and>
    rd_entries db' = rd_entries db \<and> rd_ack_entries db' = rd_ack_entries db \<and>
    rd_acks db' = map (\<lambda>a. if sa_batch_id a = identifier_to_string api bid \<and>
        sa_reader_id a = identifier_to_string api reader \<and> sa_applied_at a = None
      then a\<lparr> sa_applied_at := Some now \<rparr> else a) (rd_acks db) \<and>
    (\<exists>s s'. rd_state db = Some s \<and> rd_state db' = Some s' \<and> rs_next_local_sequence s' = rs_next_local_sequence s \<and>
      rs_last_acknowledged_sequence s' = uint advanced \<and>
      uint advanced = rs_last_acknowledged_sequence s + int (length (takeWhile (is_resolved_queue_state \<circ> snd)
        (pending_states (identifier_to_string api reader) (rs_last_acknowledged_sequence s) (rd_queue db')))))"

lemma apply_effects_applied:
  assumes inv: "reader_db_inv db"
    and s: "rd_state db = Some s" "rs_reader_id s = identifier_to_string api reader"
      "rs_last_acknowledged_sequence s = uint current"
    and ran: "tx_ran (apply_effects api reader bid now (uint current) current entries) db = Ok (advanced, db')"
  shows "applied_effect api reader bid now advanced entries db db'"
proof -
  let ?reader = "identifier_to_string api reader"
  obtain db1 db2 db3 where steps: "tx_ran (tx_each (apply_entry api reader now) entries) db = Ok ((), db1)"
      "update_batches (in_flight_batch api reader bid now) (acknowledged_batch now) db1 = Ok (1, db2)"
      "contiguous_resolved_sequence current (pending_states ?reader (uint current) (rd_queue db2)) = Ok advanced"
      "advance_to ?reader now current advanced db2 db3"
      "update_acknowledgements (\<lambda>a. sa_batch_id a = identifier_to_string api bid \<and> sa_reader_id a = ?reader \<and>
        sa_applied_at a = None) (\<lambda>a. a\<lparr> sa_applied_at := Some now \<rparr>) db3 = Ok (1, db')"
    using apply_effects_effect [OF ran] by blast
  have queue: "queue_ok s (rd_queue db)" "reader_state_checks s"
    using inv s(1) by (simp_all add: reader_db_inv_Some)
  have db1: "db1 = db\<lparr> rd_queue := map (applied_row api ?reader now entries) (rd_queue db) \<rparr>"
    and hits: "\<forall>e \<in> set entries. \<exists>r \<in> set (rd_queue db). entry_hits api ?reader e r \<and> ot_queue_state r = ''in_flight''"
    using apply_entries_effect [OF steps(1)] queue(1) by (auto simp: queue_ok_def)
  have db2: "db2 = db1\<lparr> rd_batches := map (\<lambda>b. if in_flight_batch api reader bid now b then acknowledged_batch now b else b)
      (rd_batches db1) \<rparr>"
    using steps(2) by (simp add: update_eq_Ok)
  have "tx_in keeps_inv (tx_each (apply_entry api reader now) entries)" by (intro keeps_intros)
  then have "reader_db_inv db1" using steps(1) inv by (auto simp: tx_in_def keeps_inv_def)
  then have "queue_ok s (rd_queue db2)"
    using s(1) by (simp add: db1 db2 reader_db_inv_Some)
  then have fsts: "map fst (pending_states ?reader (uint current) (rd_queue db2)) = [uint current + 1..rs_next_local_sequence s - 1]"
    using pending_states_eq(2) s(2) by simp
  then have adv: "uint advanced = uint current + int (length (takeWhile (is_resolved_queue_state \<circ> snd)
      (pending_states ?reader (uint current) (rd_queue db2))))"
    using contiguous_resolved_sequence_eq [OF fsts] steps(3) queue s(3)
    by (auto simp: queue_ok_def reader_state_checks_def)
  have "\<exists>s'. rd_state db3 = Some s' \<and> rs_next_local_sequence s' = rs_next_local_sequence s \<and>
      rs_last_acknowledged_sequence s' = uint advanced \<and> db3 = db2\<lparr> rd_state := Some s' \<rparr>"
  proof (cases "current < advanced")
    case True
    then show ?thesis
      using steps(4) s(1) by (auto simp: advance_to_def advanced_state_def db2 db1)
  next
    case False
    then have "uint advanced = uint current" using adv by (simp add: word_less_def)
    then show ?thesis
      using False steps(4) s by (cases db) (simp add: advance_to_def db2 db1)
  qed
  then show ?thesis
    using steps(5) s hits adv by (auto simp: applied_effect_def update_eq_Ok db2 db1)
qed

text \<open>A marked acknowledgement is found again with its mark.\<close>

lemma stored_ack_moves:
  assumes "db_moves db db'" "stored_ack reader bid db = Some a" "sa_applied_at a = Some t"
  shows "stored_ack reader bid db' = Some a"
proof -
  have "\<exists>a'. stored_ack reader bid db' = Some a' \<and> ack_moves a a'"
    unfolding stored_ack_def
  proof (rule find_moves)
    show "table_moves ack_moves (rd_acks db) (rd_acks db')"
      using assms(1) by (simp add: db_moves_def)
    show "(sa_batch_id r' = bid \<and> sa_reader_id r' = reader) = (sa_batch_id r = bid \<and> sa_reader_id r = reader)"
      if "ack_moves r r'" for r r'
      using that by (cases r; cases r') (auto simp: ack_moves_def)
  qed (use assms(2) in \<open>simp add: stored_ack_def\<close>)
  then show ?thesis using assms(3) by (auto simp: ack_moves_def)
qed

lemma find_map_key: "(\<And>x. P (f x) = P x) \<Longrightarrow> find P (map f xs) = map_option f (find P xs)"
  by (induction xs) auto

lemma applied_mark:
  assumes "tx_ran (apply_body api reader bid now) db = Ok (res, db')"
  shows "\<exists>a. stored_ack (identifier_to_string api reader) (identifier_to_string api bid) db' = Some a \<and>
    sa_applied_at a = Some (app_applied_at res)"
proof -
  let ?reader = "identifier_to_string api reader" and ?bid = "identifier_to_string api bid"
  obtain ack entries current where ack: "stored_ack ?reader ?bid db = Some ack"
    and eff: "case sa_applied_at ack of Some t \<Rightarrow> app_applied_at res = t \<and> db' = db
      | None \<Rightarrow> app_applied_at res = now \<and>
         tx_ran (apply_effects api reader bid now (uint current) current entries) db =
           Ok (app_last_acknowledged_sequence res, db')"
    using apply_body_effect [OF assms] by (force split: option.splits)
  show ?thesis
  proof (cases "sa_applied_at ack")
    case None
    let ?hit = "\<lambda>a. sa_batch_id a = ?bid \<and> sa_reader_id a = ?reader \<and> sa_applied_at a = None"
    let ?f = "\<lambda>a. if ?hit a then a\<lparr> sa_applied_at := Some now \<rparr> else a"
    have "tx_ran (apply_effects api reader bid now (uint current) current entries) db =
        Ok (app_last_acknowledged_sequence res, db')"
      using eff None by simp
    from apply_effects_effect [OF this]
    obtain db1 db2 db3 where steps: "tx_ran (tx_each (apply_entry api reader now) entries) db = Ok ((), db1)"
      "update_batches (in_flight_batch api reader bid now) (acknowledged_batch now) db1 = Ok (1, db2)"
      "advance_to ?reader now current (app_last_acknowledged_sequence res) db2 db3"
      "update_acknowledgements ?hit (\<lambda>a. a\<lparr> sa_applied_at := Some now \<rparr>) db3 = Ok (1, db')"
      by blast
    have "rd_acks db1 = rd_acks db"
      using apply_entries_same_state steps(1) by (auto simp: tx_in_def same_state_def)
    moreover have "rd_acks db3 = rd_acks db1"
      using steps(2,3) by (auto simp: update_eq_Ok advance_to_def split: if_splits)
    ultimately have "rd_acks db' = map ?f (rd_acks db)"
      using steps(4) by (simp add: update_eq_Ok)
    then have "stored_ack ?reader ?bid db' = Some (?f ack)"
      using ack by (simp add: stored_ack_def find_map_key)
    moreover have "?hit ack" using ack None by (auto simp: stored_ack_def find_Some_iff)
    ultimately show ?thesis using eff None by simp
  next
    case (Some t)
    then show ?thesis using ack eff by simp
  qed
qed


section \<open>Recovery\<close>

lemma recover_batches_quiet:
  assumes inv: "reader_db_inv (sq_db w)" and quiet: "sq_faults w = []" and now: "0 \<le> now"
    and past: "\<forall>b \<in> set (rd_batches (sq_db w)). sb_updated_at b \<le> now"
    and w': "w' = snd (recover_interrupted_synchronization_batches api reader now w)"
  shows "sq_faults w' = []" "rd_queue (sq_db w') = rd_queue (sq_db w)" "rd_entries (sq_db w') = rd_entries (sq_db w)"
    "rd_state (sq_db w') = rd_state (sq_db w)"
    "b \<in> set (rd_batches (sq_db w')) \<Longrightarrow> sb_reader_id b = identifier_to_string api reader \<Longrightarrow> sb_state b \<noteq> ''in_flight''"
proof -
  let ?hit = "\<lambda>b. sb_reader_id b = identifier_to_string api reader \<and> sb_state b = ''in_flight'' \<and> sb_updated_at b \<le> now"
  let ?sv = "\<lambda>b. b\<lparr> sb_state := ''retryable_failure'', sb_next_retry_at := Some now,
        sb_failure_category := Some RESTART_FAILURE_CATEGORY, sb_updated_at := now \<rparr>"
  have "batch_checks (?sv b)" if "b \<in> set (rd_batches (sq_db w))" "?hit b" for b
    using inv_batch_checks [OF inv that(1)] that(2) now by (simp add: batch_checks_def not_negative_def)
  then have "update_batches ?hit ?sv (sq_db w) = Ok (length (filter ?hit (rd_batches (sq_db w))),
      (sq_db w)\<lparr> rd_batches := map (\<lambda>b. if ?hit b then ?sv b else b) (rd_batches (sq_db w)) \<rparr>)"
    unfolding update_batches_eq_Ok by simp
  then have w'_eq: "w' = w\<lparr> sq_db := (sq_db w)\<lparr> rd_batches := map (\<lambda>b. if ?hit b then ?sv b else b) (rd_batches (sq_db w)) \<rparr> \<rparr>"
    using quiet now w' by (simp add: recover_interrupted_synchronization_batches_def validate_operation_time_def
        ensure_def and_next_def autocommit_quiet)
  show "sq_faults w' = []" "rd_queue (sq_db w') = rd_queue (sq_db w)" "rd_entries (sq_db w') = rd_entries (sq_db w)"
    "rd_state (sq_db w') = rd_state (sq_db w)"
    using quiet by (simp_all add: w'_eq)
  show "sb_state b \<noteq> ''in_flight''"
    if "b \<in> set (rd_batches (sq_db w'))" "sb_reader_id b = identifier_to_string api reader"
    using that past by (auto simp: w'_eq)
qed

lemma recover_queue_quiet:
  assumes inv: "reader_db_inv (sq_db w)" and quiet: "sq_faults w = []" and now: "0 \<le> now"
    and past: "\<forall>r \<in> set (rd_queue (sq_db w)). ot_updated_at r \<le> now"
    and w': "w' = snd (recover_interrupted_offline_queue api reader now w)"
  shows "rd_batches (sq_db w') = rd_batches (sq_db w)" "rd_entries (sq_db w') = rd_entries (sq_db w)"
    "rd_state (sq_db w') = rd_state (sq_db w)"
    "r \<in> set (rd_queue (sq_db w')) \<Longrightarrow> ot_reader_id r = identifier_to_string api reader \<Longrightarrow>
      in_active_batch (sq_db w') r \<or> ot_queue_state r \<noteq> ''in_flight''"
proof -
  let ?db = "sq_db w"
  let ?hit = "\<lambda>r. ot_reader_id r = identifier_to_string api reader \<and> ot_queue_state r = ''in_flight'' \<and>
        ot_updated_at r \<le> now \<and> \<not> in_active_batch ?db r"
  let ?sv = "\<lambda>r. r\<lparr> ot_queue_state := ''retryable_failure'', ot_next_retry_at := Some now,
        ot_failure_category := Some RESTART_FAILURE_CATEGORY, ot_updated_at := now \<rparr>"
  have "queue_checks (?sv r)" if "r \<in> set (rd_queue ?db)" "?hit r" for r
    using inv_queue_checks [OF inv that(1)] that(2) now by (simp add: queue_checks_def not_negative_def)
  then have "update_queue ?hit ?sv ?db = Ok (length (filter ?hit (rd_queue ?db)),
      ?db\<lparr> rd_queue := map (\<lambda>r. if ?hit r then ?sv r else r) (rd_queue ?db) \<rparr>)"
    unfolding update_queue_eq_Ok by simp
  then have w'_eq: "w' = w\<lparr> sq_db := ?db\<lparr> rd_queue := map (\<lambda>r. if ?hit r then ?sv r else r) (rd_queue ?db) \<rparr> \<rparr>"
    using quiet now w' by (simp add: recover_interrupted_offline_queue_def validate_operation_time_def
        ensure_def and_next_def autocommit_quiet)
  show "rd_batches (sq_db w') = rd_batches ?db" "rd_entries (sq_db w') = rd_entries ?db"
    "rd_state (sq_db w') = rd_state ?db"
    by (simp_all add: w'_eq)
  have "in_active_batch (sq_db w') r = in_active_batch ?db r" for r
    by (simp add: w'_eq in_active_batch_def)
  then show "in_active_batch (sq_db w') r \<or> ot_queue_state r \<noteq> ''in_flight''"
    if "r \<in> set (rd_queue (sq_db w'))" "ot_reader_id r = identifier_to_string api reader"
    using that past by (auto simp: w'_eq split: if_splits)
qed


section \<open>Loading the queue\<close>

lemma load_queue_quiet:
  assumes "reader_db_inv (sq_db w)" "sq_faults w = []" "rd_state (sq_db w) = Some s"
    "rs_reader_id s = identifier_to_string api reader"
  shows "load_offline_queue api json reader w =
    (collect_results (decode_stored_transaction api json) (rd_queue (sq_db w)), w)"
proof -
  have ok: "queue_ok s (rd_queue (sq_db w))" using assms(1,3) by (simp add: reader_db_inv_Some)
  then have "filter (\<lambda>r. ot_reader_id r = identifier_to_string api reader) (rd_queue (sq_db w)) = rd_queue (sq_db w)"
    using assms(4) by (auto simp: queue_ok_def filter_id_conv)
  moreover have "sorted (map ot_sequence (rd_queue (sq_db w)))"
    using ok by (simp add: queue_ok_def)
  ultimately show ?thesis
    using assms(2) by (cases w)
      (simp add: load_offline_queue_def and_next_def autocommit_quiet sql_select_def sort_key_id_if_sorted)
qed

lemma collect_results_append:
  "collect_results f (xs @ ys) = and_then (collect_results f xs) (\<lambda>as. and_then (collect_results f ys) (\<lambda>bs. Ok (as @ bs)))"
  by (induction xs) (auto simp: and_then_def split: sum.splits)

lemma decode_queued_row:
  assumes ids: "\<And>u. u \<in> {reader, draft_transaction_id draft, draft_credential_id draft} \<Longrightarrow>
      uuid_parse api (uuid_to_string api u) = Some u \<and> valid_identifier api u"
    and dec: "decision_from_string json dj = Some (draft_decision draft)" "json_parse json ej = Some (draft_envelope draft)"
    and row: "queue_checks (queued_row api reader draft (uint sequence) policy dj ej)"
      "i64_column (draft_policy_version draft) = Some policy"
  shows "decode_stored_transaction api json (queued_row api reader draft (uint sequence) policy dj ej) =
    Ok (queued_of_draft reader draft sequence)"
proof -
  have str: "identifier_from_str api kind (identifier_to_string api u) = Ok u"
    if "u \<in> {reader, draft_transaction_id draft, draft_credential_id draft}" for kind u
    using ids [OF that] by (simp add: identifier_from_str_eq_Ok identifier_to_string_def)
  have "sequence \<noteq> 0" "0 \<le> sint (draft_event_time draft)" "draft_policy_version draft \<noteq> 0" "0 \<le> draft_created_at draft"
    using row by (auto simp: queue_checks_def queued_row_def result_simps)
  then show ?thesis
    using row(2) dec str
    by (simp add: decode_stored_transaction_def queued_row_def queued_of_draft_def result_simps
        LocalSequenceNumber_new_def EventTime_from_unix_milliseconds_def FarePolicyVersion_new_def
        OfflineQueueState_parse_def u32_try_from_def not_negative_def ensure_def i64_of_int_def)
qed


section \<open>A reader for evaluation\<close>

text \<open>A UUID rendering that tells small identifiers apart, and a JSON dialect with one value.\<close>

definition digit_text :: "char \<Rightarrow> string" where
  "digit_text d = replicate 35 (CHR ''0'') @ [d]"

definition digit_uuids :: "(Uuid \<times> string) list" where
  "digit_uuids = [(1, digit_text (CHR ''1'')), (2, digit_text (CHR ''2'')), (3, digit_text (CHR ''3'')),
    (4, digit_text (CHR ''4'')), (5, digit_text (CHR ''5''))]"

definition digit_uuid_api :: UuidApi where
  "digit_uuid_api = \<lparr> uuid_is_nil = (\<lambda>u. u = 0), uuid_is_rfc4122 = (\<lambda>_. True), uuid_is_sort_rand = (\<lambda>_. True),
    uuid_parse = map_of (map (\<lambda>(u, t). (t, u)) digit_uuids),
    uuid_to_string = (\<lambda>u. case map_of digit_uuids u of None \<Rightarrow> [] | Some t \<Rightarrow> t) \<rparr>"

definition unit_json :: "unit DecisionJson" where
  "unit_json = \<lparr> json_parse = (\<lambda>_. Some ()), json_is_object = (\<lambda>_. True), json_to_string = (\<lambda>_. Some (ascii ''{}'')),
    decision_to_string = (\<lambda>_. Some (ascii ''rejected'')), decision_from_string = (\<lambda>_. Some (Rejected Reject_CredentialRevoked)) \<rparr>"

definition unit_render :: "Json \<Rightarrow> ustr option" where
  "unit_render v = Some (ascii ''{}'')"

definition example_draft :: "Uuid \<Rightarrow> unit OfflineTransactionDraft" where
  "example_draft tid = \<lparr> draft_transaction_id = tid, draft_credential_id = 5, draft_event_time = 10,
    draft_policy_version = 1, draft_decision = Rejected Reject_CredentialRevoked, draft_envelope = (), draft_created_at = 10 \<rparr>"

definition example_identity :: ReaderDatabaseIdentity where
  "example_identity = \<lparr> identity_reader_id = 1, identity_environment_id = ascii ''test'',
    identity_software_version = ascii ''1.0'', identity_protocol_version = 1, identity_initialized_at = 5 \<rparr>"

definition example_run :: "unit ReaderCall list \<Rightarrow> Sqlite \<Rightarrow> Sqlite" where
  "example_run = fold (reader_call digit_uuid_api unit_json unit_render)"

definition bound_reader :: Sqlite where
  "bound_reader = example_run [Bind example_identity] \<lparr> sq_db = empty_reader_db, sq_faults = [] \<rparr>"

definition submitted_reader :: Sqlite where
  "submitted_reader = example_run [Enqueue 1 (example_draft 2), Enqueue 1 (example_draft 3),
    CreateBatch 1 1 4 20 10, MarkBatch 1 4 30] bound_reader"

definition example_acknowledgement_received :: SynchronizationAcknowledgement where
  "example_acknowledgement_received = \<lparr> ack_reader_id = 1, ack_batch_id = 4, ack_protocol_version = 1,
    ack_first_sequence = 1, ack_last_sequence = 2, ack_received_at = 40,
    ack_entries = [\<lparr> ra_transaction_id = 2, ra_sequence = 1, ra_resolution = Resolution_Acknowledged \<rparr>,
      \<lparr> ra_transaction_id = 3, ra_sequence = 2,
        ra_resolution = Resolution_RetryableFailure (ascii ''busy'') 60 \<rparr>] \<rparr>"

definition answered_reader :: Sqlite where
  "answered_reader = example_run [StoreAcknowledgement example_acknowledgement_received] submitted_reader"

lemma example_inv:
  "reader_db_inv (sq_db bound_reader)" "reader_db_inv (sq_db submitted_reader)" "reader_db_inv (sq_db answered_reader)"
  unfolding answered_reader_def submitted_reader_def bound_reader_def example_run_def
  by (intro reader_calls_keep; simp)+

text \<open>The tables after these runs.\<close>

definition example_row :: "char \<Rightarrow> int \<Rightarrow> OfflineTransactionRow" where
  "example_row d sequence = \<lparr> ot_transaction_id = digit_text d, ot_reader_id = digit_text (CHR ''1''),
    ot_sequence = sequence, ot_credential_id = digit_text (CHR ''5''), ot_event_time = 10, ot_policy_version = 1,
    ot_decision_json = ascii ''rejected'', ot_envelope_json = ascii ''{}'', ot_queue_state = ''in_flight'',
    ot_attempt_count = 1, ot_next_retry_at = None, ot_failure_category = None, ot_created_at = 10,
    ot_updated_at = 30 \<rparr>"

definition example_entry :: "char \<Rightarrow> int \<Rightarrow> BatchEntryRow" where
  "example_entry d sequence = \<lparr> se_batch_id = digit_text (CHR ''4''), se_reader_id = digit_text (CHR ''1''),
    se_transaction_id = digit_text d, se_sequence = sequence, se_position = sequence - 1 \<rparr>"

lemma submitted_reader_code [code]:
  "submitted_reader = \<lparr> sq_db = \<lparr>
      rd_state = Some \<lparr> rs_reader_id = digit_text (CHR ''1''), rs_environment_id = ascii ''test'',
        rs_software_version = ascii ''1.0'', rs_protocol_version = 1, rs_next_local_sequence = 3,
        rs_last_acknowledged_sequence = 0, rs_created_at = 5, rs_updated_at = 10 \<rparr>,
      rd_queue = [example_row (CHR ''2'') 1, example_row (CHR ''3'') 2],
      rd_batches = [\<lparr> sb_batch_id = digit_text (CHR ''4''), sb_reader_id = digit_text (CHR ''1''),
        sb_protocol_version = 1, sb_first_sequence = 1, sb_last_sequence = 2, sb_state = ''in_flight'',
        sb_attempt_count = 1, sb_submitted_at = Some 30, sb_next_retry_at = None, sb_failure_category = None,
        sb_created_at = 20, sb_updated_at = 30 \<rparr>],
      rd_entries = [example_entry (CHR ''2'') 1, example_entry (CHR ''3'') 2],
      rd_acks = [], rd_ack_entries = [] \<rparr>, sq_faults = [] \<rparr>"
  by code_simp

lemma CanonicalTransactionEnvelope_from_json_code [code]:
  "CanonicalTransactionEnvelope_from_json api v =
    (if 65536 < int (text_len v)
     then Err (TransactionEnvelopeTooLarge MAX_TRANSACTION_ENVELOPE_BYTES (text_len v))
     else and_then (ok_or (json_parse api v) InvalidTransactionEnvelopeJson) (\<lambda>parsed.
       if \<not> json_is_object api parsed then Err TransactionEnvelopeNotObject
       else and_then (ok_or (json_to_string api parsed) InvalidTransactionEnvelopeJson) (\<lambda>canonical.
         if 65536 < int (text_len canonical)
         then Err (TransactionEnvelopeTooLarge MAX_TRANSACTION_ENVELOPE_BYTES (text_len canonical))
         else Ok canonical)))"
proof -
  have "65536 < int n \<longleftrightarrow> MAX_TRANSACTION_ENVELOPE_BYTES < n" for n
    by (auto simp: MAX_TRANSACTION_ENVELOPE_BYTES_def)
  then show ?thesis by (simp only: CanonicalTransactionEnvelope_from_json_def)
qed

lemma Ok_result: "\<not> isl (fst p) \<Longrightarrow> p = (Ok (projr (fst p)), snd p)"
  by (cases p) (auto simp: isl_def split: sum.splits)

section \<open>Properties\<close>

text \<open>
  C5. The reader database stays consistent: whatever calls are made on a new database, in
  whatever order and with whatever driver failures, the queue holds exactly the sequence numbers
  assigned so far and each transaction once, every batch holds its entries in order between its
  first and last sequence, no transaction is in two unresolved batches, and everything up to the
  acknowledged sequence is resolved.
\<close>

theorem reader_database_consistent:
  "reader_db_inv (sq_db (fold (reader_call api json render) calls \<lparr> sq_db = empty_reader_db, sq_faults = faults \<rparr>))"
  by (rule reader_calls_keep) simp

text \<open>
  C19. The reader never loses or rewrites history: across any calls and driver failures every row
  stays in its table with its identity, payload and creation time, a transaction in a final state and a
  resolved batch never change again, attempt counters, update times and the two sequence counters
  never decrease, the first submission time of a batch is kept, and an acknowledgement changes only by
  being marked as applied, once.
\<close>

theorem reader_history_kept:
  "db_moves (sq_db w) (sq_db (fold (reader_call api json render) calls w))"
  by (rule reader_calls_move)

text \<open>
  C7. A batch is always submitted with the same request: two requests assembled for a batch, with any
  calls and driver failures between them, are equal in every field, so the backend sees a
  retry as a replay.
\<close>

theorem batch_request_stable:
  assumes "reader_db_inv (sq_db w)"
    and "load_synchronization_batch_request api json reader bid w = (Ok rq, w1)"
    and "load_synchronization_batch_request api json reader bid
      (fold (reader_call api djson render) calls w1) = (Ok rq', w2)"
  shows "rq' = rq"
proof -
  let ?w = "fold (reader_call api djson render) calls w1"
  have w1: "sq_db w1 = sq_db w" using request_loaded(2) [OF assms(2)] .
  have "db_moves (sq_db w) (sq_db ?w)" "reader_db_inv (sq_db ?w)"
    using reader_calls_move [of w1] reader_calls_keep [of w1] assms(1) by (simp_all add: w1)
  then show ?thesis
    using request_body_fixed assms(1) request_loaded(1) [OF assms(2)] request_loaded(1) [OF assms(3)] by blast
qed

theorem batch_request_stable_witness:
  "let first = load_synchronization_batch_request digit_uuid_api blank_json 1 4 submitted_reader;
       retried = example_run [RetryBatch 1 4 (ascii ''timeout'') 40 50, Enqueue 1 (example_draft 5), MarkBatch 1 4 60]
         (snd first)
   in fst (load_synchronization_batch_request digit_uuid_api blank_json 1 4 retried) = fst first"
proof -
  let ?load = "load_synchronization_batch_request digit_uuid_api blank_json 1 4"
  let ?calls = "[RetryBatch 1 4 (ascii ''timeout'') 40 50, Enqueue 1 (example_draft 5), MarkBatch 1 4 60]"
  have one: "\<not> isl (fst (?load submitted_reader))" by code_simp
  have two: "\<not> isl (fst (?load (example_run ?calls (snd (?load submitted_reader)))))" by code_simp
  have "projr (fst (?load (example_run ?calls (snd (?load submitted_reader))))) = projr (fst (?load submitted_reader))"
    using batch_request_stable [OF example_inv(2) Ok_result [OF one] Ok_result [OF two, unfolded example_run_def]]
    by (simp add: example_run_def)
  then show ?thesis
    using Ok_result [OF one] Ok_result [OF two] unfolding Let_def by (metis fst_conv)
qed

text \<open>
  C6. Applying an acknowledgement for the first time does exactly what it says: every
  acknowledged entry's transaction was in flight and takes the entry's outcome, every other
  transaction is untouched, the batch becomes acknowledged, the acknowledgement is marked, and the
  acknowledged sequence advances over the longest resolved run of sequences and no further.
\<close>

theorem acknowledgement_applied_exactly:
  assumes "reader_db_inv (sq_db w)"
    and "apply_synchronization_acknowledgement api reader bid now w = (Ok res, w')" "app_applied_now res"
  shows "\<exists>ack entries. stored_ack (identifier_to_string api reader) (identifier_to_string api bid) (sq_db w) = Some ack \<and>
    decode_ack_entries api (sa_received_at ack) 0
      (stored_ack_entries (identifier_to_string api reader) (identifier_to_string api bid) (sq_db w)) = Ok entries \<and>
    app_counts res = resolution_counts entries \<and>
    applied_effect api reader bid now (app_last_acknowledged_sequence res) entries (sq_db w) (sq_db w')"
  using apply_body_effect [OF apply_ran [OF assms(2)]] apply_effects_applied [OF assms(1)] assms(3)
  by (fastforce split: option.splits)

theorem acknowledgement_applied_exactly_witness:
  "case apply_synchronization_acknowledgement digit_uuid_api 1 4 50 answered_reader of (r, w') \<Rightarrow>
    \<not> isl r \<and> (\<exists>entries. applied_effect digit_uuid_api 1 4 50 1 entries (sq_db answered_reader) (sq_db w'))"
proof -
  let ?run = "apply_synchronization_acknowledgement digit_uuid_api 1 4 50 answered_reader"
  have run: "\<not> isl (fst ?run)" and res: "app_applied_now (projr (fst ?run))"
      "app_last_acknowledged_sequence (projr (fst ?run)) = 1"
    by code_simp+
  show ?thesis
    using acknowledgement_applied_exactly [OF example_inv(3) Ok_result [OF run] res(1)] run res(2)
    by (cases ?run) auto
qed

text \<open>
  C17. An acknowledgement takes effect once: after a successful application, applying it again (with
  any calls and failures in between) reports the first application's time, says that nothing was
  applied and leaves the database alone.
\<close>

theorem acknowledgement_applied_once:
  assumes "apply_synchronization_acknowledgement api reader bid now w = (Ok res, w1)"
    and "apply_synchronization_acknowledgement api reader bid later
      (fold (reader_call api json render) calls w1) = (Ok res', w2)"
  shows "\<not> app_applied_now res' \<and> app_applied_at res' = app_applied_at res \<and>
    sq_db w2 = sq_db (fold (reader_call api json render) calls w1)"
proof -
  obtain a where a: "stored_ack (identifier_to_string api reader) (identifier_to_string api bid) (sq_db w1) = Some a"
      "sa_applied_at a = Some (app_applied_at res)"
    using applied_mark [OF apply_ran [OF assms(1)]] by blast
  show ?thesis
    using apply_body_effect [OF apply_ran [OF assms(2)]] a
      stored_ack_moves [OF reader_calls_move a, of api json render calls]
    by auto
qed

theorem acknowledgement_applied_once_witness:
  "let first = apply_synchronization_acknowledgement digit_uuid_api 1 4 50 answered_reader;
       later = example_run [RecoverBatches 1 70, RecoverQueue 1 70] (snd first)
   in sq_db (snd (apply_synchronization_acknowledgement digit_uuid_api 1 4 80 later)) = sq_db later"
proof -
  let ?first = "apply_synchronization_acknowledgement digit_uuid_api 1 4 50 answered_reader"
  let ?later = "example_run [RecoverBatches 1 70, RecoverQueue 1 70] (snd ?first)"
  have one: "\<not> isl (fst ?first)" by code_simp
  have two: "\<not> isl (fst (apply_synchronization_acknowledgement digit_uuid_api 1 4 80 ?later))" by code_simp
  show ?thesis
    using acknowledgement_applied_once [OF Ok_result [OF one] Ok_result [OF two, unfolded example_run_def]]
    by (simp add: Let_def example_run_def)
qed




text \<open>
  C34. What is queued is read back: a draft that is enqueued gets the next sequence number, and loading
  the queue afterwards gives what it gave before followed by exactly the queued transaction.
\<close>

theorem enqueue_load_roundtrip:
  assumes inv: "reader_db_inv (sq_db w)" and quiet: "sq_faults w = []"
    and ids: "\<And>u. u \<in> {reader, draft_transaction_id draft, draft_credential_id draft} \<Longrightarrow>
      uuid_parse api (uuid_to_string api u) = Some u \<and> valid_identifier api u"
    and json: "\<And>t. decision_to_string json (draft_decision draft) = Some t \<Longrightarrow>
        decision_from_string json t = Some (draft_decision draft)"
      "\<And>t. json_to_string json (draft_envelope draft) = Some t \<Longrightarrow> json_parse json t = Some (draft_envelope draft)"
    and enq: "enqueue_offline_transaction api json reader draft w = (Ok q, w')"
    and load: "load_offline_queue api json reader w = (Ok qs, w)"
  shows "load_offline_queue api json reader w' = (Ok (qs @ [q]), w') \<and>
    uint (queued_sequence q) = int (length qs) + 1"
proof -
  obtain dj ej where texts: "decision_to_string json (draft_decision draft) = Some dj"
      "json_to_string json (draft_envelope draft) = Some ej"
    using enq by (auto simp: enqueue_offline_transaction_def split: option.splits)
  obtain sequence db' where ran: "tx_ran (enqueue_body api reader draft dj ej) (sq_db w) = Ok (sequence, db')"
    and q: "q = queued_of_draft reader draft sequence" and w': "w' = w\<lparr> sq_db := db' \<rparr>"
    using enq quiet texts by (auto simp: enqueue_offline_transaction_def transaction_quiet [OF quiet enqueue_body_steady]
        and_next_def split: sum.splits)
  obtain s policy where s: "rd_state (sq_db w) = Some s" "rs_reader_id s = identifier_to_string api reader"
      "rs_next_local_sequence s = uint sequence" and policy: "i64_column (draft_policy_version draft) = Some policy"
    and ins: "insert_offline_transaction (queued_row api reader draft (uint sequence) policy dj ej)
      ((sq_db w)\<lparr> rd_state := Some (assigned_state (draft_created_at draft) s) \<rparr>) = Ok ((), db')"
    using ran by (rule enqueue_effect) blast
  let ?row = "queued_row api reader draft (uint sequence) policy dj ej"
  have row: "queue_checks ?row" "rd_queue db' = rd_queue (sq_db w) @ [?row]"
    "rd_state db' = Some (assigned_state (draft_created_at draft) s)"
    using ins by (auto simp: insert_offline_transaction_def split: if_splits)
  have "reader_db_inv db'" using ran inv by (rule enqueue_inv)
  then have loaded: "load_offline_queue api json reader w' =
      (collect_results (decode_stored_transaction api json) (rd_queue (sq_db w) @ [?row]), w')"
    using load_queue_quiet [of w' "assigned_state (draft_created_at draft) s" api reader json] quiet s(2) row
    by (simp add: w' assigned_state_def)
  have old: "collect_results (decode_stored_transaction api json) (rd_queue (sq_db w)) = Ok qs"
    using load load_queue_quiet [OF inv quiet s(1,2), of json] by simp
  have "decode_stored_transaction api json ?row = Ok q"
    unfolding q using decode_queued_row ids json(1) [OF texts(1)] json(2) [OF texts(2)] row(1) policy by blast
  then have "load_offline_queue api json reader w' = (Ok (qs @ [q]), w')"
    using old by (simp add: loaded collect_results_append)
  moreover have "length qs = length (rd_queue (sq_db w))"
    using collect_results_length [OF old] .
  moreover have "map ot_sequence (rd_queue (sq_db w)) = [1..uint sequence - 1]" "1 \<le> uint sequence"
    using inv s by (auto simp: reader_db_inv_Some queue_ok_def reader_state_checks_def)
  then have "int (length (rd_queue (sq_db w))) = uint sequence - 1"
    by (metis length_map length_upto diff_add_cancel int_nat_eq diff_ge_0_iff_ge)
  ultimately show ?thesis by (simp add: q queued_of_draft_def)
qed

theorem enqueue_load_roundtrip_witness:
  "let (r, w') = enqueue_offline_transaction digit_uuid_api unit_json 1 (example_draft 2) bound_reader
   in fst (load_offline_queue digit_uuid_api unit_json 1 w') = Ok [projr r]"
proof -
  let ?enq = "enqueue_offline_transaction digit_uuid_api unit_json 1 (example_draft 2) bound_reader"
  have ok: "\<not> isl (fst ?enq)" and load: "load_offline_queue digit_uuid_api unit_json 1 bound_reader = (Ok [], bound_reader)"
    and quiet: "sq_faults bound_reader = []"
    by code_simp+
  have ids: "uuid_parse digit_uuid_api (uuid_to_string digit_uuid_api u) = Some u \<and> valid_identifier digit_uuid_api u"
    if "u \<in> {1, draft_transaction_id (example_draft 2), draft_credential_id (example_draft 2)}" for u
    using that by (auto simp: example_draft_def digit_uuid_api_def digit_uuids_def digit_text_def valid_identifier_def)
  show ?thesis
    using enqueue_load_roundtrip [OF example_inv(1) quiet ids _ _ Ok_result [OF ok] load]
    by (cases ?enq) (auto simp: unit_json_def example_draft_def)
qed




end
