(* ===== verification/ReaderHealth.thy ===== *)
theory ReaderHealth
  imports ReaderProperties
begin

text \<open>
  The health of a reader database, \<open>crates/persistence/src/reader_health.rs\<close>: one query that
  counts rows by state, its decoding, and the figures derived from it.  The properties say that on a
  consistent database the query always decodes and its figures are exact.
\<close>

section \<open>Counts\<close>

record ReaderQueueHealthCounts =
  hc_pending :: u64
  hc_in_flight :: u64
  hc_acknowledged :: u64
  hc_retryable_failure :: u64
  hc_permanent_failure :: u64
  hc_manual_review :: u64

definition saturating_add_u64 :: "u64 \<Rightarrow> u64 \<Rightarrow> u64" where
  "saturating_add_u64 a b = (case checked_add_u64 a b of Some c \<Rightarrow> c | None \<Rightarrow> - 1)"

definition saturating_sum :: "u64 \<Rightarrow> u64 list \<Rightarrow> u64" where
  "saturating_sum a bs = foldl saturating_add_u64 a bs"

definition health_total :: "ReaderQueueHealthCounts \<Rightarrow> u64" where
  "health_total c = saturating_sum (hc_pending c) [hc_in_flight c, hc_acknowledged c, hc_retryable_failure c,
    hc_permanent_failure c, hc_manual_review c]"

definition health_unresolved :: "ReaderQueueHealthCounts \<Rightarrow> u64" where
  "health_unresolved c = saturating_sum (hc_pending c) [hc_in_flight c, hc_retryable_failure c, hc_manual_review c]"

definition health_retained_failures :: "ReaderQueueHealthCounts \<Rightarrow> u64" where
  "health_retained_failures c = saturating_sum (hc_retryable_failure c) [hc_permanent_failure c, hc_manual_review c]"

record ReaderSynchronizationHealthCounts =
  hb_prepared_batches :: u64
  hb_in_flight_batches :: u64
  hb_retryable_batches :: u64
  hb_unapplied_acknowledgements :: u64

definition active_batches :: "ReaderSynchronizationHealthCounts \<Rightarrow> u64" where
  "active_batches c = saturating_sum (hb_prepared_batches c) [hb_in_flight_batches c, hb_retryable_batches c]"

record ReaderQueueHealthSnapshot =
  qh_reader_id :: ReaderId
  qh_observed_at :: UnixMs
  qh_next_local_sequence :: u64
  qh_last_acknowledged_sequence :: u64
  qh_queue_counts :: ReaderQueueHealthCounts
  qh_synchronization_counts :: ReaderSynchronizationHealthCounts
  qh_lowest_unresolved_sequence :: "u64 option"
  qh_oldest_unresolved_age :: "u64 option"
  qh_next_retry_at :: "UnixMs option"

definition has_pending_work :: "ReaderQueueHealthSnapshot \<Rightarrow> bool" where
  "has_pending_work h \<longleftrightarrow> 0 < health_unresolved (qh_queue_counts h) \<or>
    0 < active_batches (qh_synchronization_counts h) \<or>
    0 < hb_unapplied_acknowledgements (qh_synchronization_counts h)"

definition requires_operator_attention :: "ReaderQueueHealthSnapshot \<Rightarrow> bool" where
  "requires_operator_attention h \<longleftrightarrow>
    0 < hc_permanent_failure (qh_queue_counts h) \<or> 0 < hc_manual_review (qh_queue_counts h)"

section \<open>Loading\<close>

datatype ReaderHealthError =
    Health_NegativeObservationTime UnixMs
  | Health_ReaderNotFound ReaderId
  | Health_ObservationBeforeQueueActivity UnixMs UnixMs
  | Health_InvalidStoredValue string
  | Health_Database string SqliteError

record StoredReaderQueueHealth =
  sh_next_local_sequence :: int
  sh_last_acknowledged_sequence :: int
  sh_pending :: int
  sh_in_flight :: int
  sh_acknowledged :: int
  sh_retryable_failure :: int
  sh_permanent_failure :: int
  sh_manual_review :: int
  sh_prepared_batch :: int
  sh_in_flight_batch :: int
  sh_retryable_batch :: int
  sh_unapplied_acknowledgement :: int
  sh_lowest_unresolved_sequence :: "int option"
  sh_oldest_unresolved_created_at :: "UnixMs option"
  sh_next_retry_at :: "UnixMs option"

definition count_rows :: "('a \<Rightarrow> bool) \<Rightarrow> 'a list \<Rightarrow> int" where
  "count_rows P rows = int (length (filter P rows))"

text \<open>SQL's \<open>MIN\<close>: null values are skipped, and there is no minimum of nothing.\<close>

definition sql_min :: "int option list \<Rightarrow> int option" where
  "sql_min values = (let xs = List.map_filter id values in if xs = [] then None else Some (Min (set xs)))"

definition unresolved_state :: "string \<Rightarrow> bool" where
  "unresolved_state state \<longleftrightarrow> state \<in> {''pending'', ''in_flight'', ''retryable_failure'', ''manual_review''}"

definition select_queue_health :: "string \<Rightarrow> ReaderDb \<Rightarrow> StoredReaderQueueHealth option" where
  "select_queue_health reader db =
    (case rd_state db of
       None \<Rightarrow> None
     | Some s \<Rightarrow> if rs_reader_id s \<noteq> reader then None else
        (let queue = filter (\<lambda>r. ot_reader_id r = rs_reader_id s) (rd_queue db);
             batches = filter (\<lambda>b. sb_reader_id b = rs_reader_id s) (rd_batches db);
             acks = filter (\<lambda>a. sa_reader_id a = rs_reader_id s) (rd_acks db);
             unresolved = filter (\<lambda>r. unresolved_state (ot_queue_state r)) queue
         in Some \<lparr> sh_next_local_sequence = rs_next_local_sequence s,
              sh_last_acknowledged_sequence = rs_last_acknowledged_sequence s,
              sh_pending = count_rows (\<lambda>r. ot_queue_state r = ''pending'') queue,
              sh_in_flight = count_rows (\<lambda>r. ot_queue_state r = ''in_flight'') queue,
              sh_acknowledged = count_rows (\<lambda>r. ot_queue_state r = ''acknowledged'') queue,
              sh_retryable_failure = count_rows (\<lambda>r. ot_queue_state r = ''retryable_failure'') queue,
              sh_permanent_failure = count_rows (\<lambda>r. ot_queue_state r = ''permanent_failure'') queue,
              sh_manual_review = count_rows (\<lambda>r. ot_queue_state r = ''manual_review'') queue,
              sh_prepared_batch = count_rows (\<lambda>b. sb_state b = ''prepared'') batches,
              sh_in_flight_batch = count_rows (\<lambda>b. sb_state b = ''in_flight'') batches,
              sh_retryable_batch = count_rows (\<lambda>b. sb_state b = ''retryable_failure'') batches,
              sh_unapplied_acknowledgement = count_rows (\<lambda>a. sa_applied_at a = None) acks,
              sh_lowest_unresolved_sequence = sql_min (map (\<lambda>r. Some (ot_sequence r)) unresolved),
              sh_oldest_unresolved_created_at = sql_min (map (\<lambda>r. Some (ot_created_at r)) unresolved),
              sh_next_retry_at = sql_min (map ot_next_retry_at
                (filter (\<lambda>r. ot_queue_state r = ''retryable_failure'') queue)) \<rparr>))"

definition nonnegative_u64 :: "int \<Rightarrow> string \<Rightarrow> ReaderHealthError + u64" where
  "nonnegative_u64 value field = ok_or (u64_try_from value) (Health_InvalidStoredValue field)"

definition positive_u64 :: "int \<Rightarrow> string \<Rightarrow> ReaderHealthError + u64" where
  "positive_u64 value field =
    and_then (nonnegative_u64 value field) (\<lambda>v. if v = 0 then Err (Health_InvalidStoredValue field) else Ok v)"

definition optional_positive_u64 :: "int option \<Rightarrow> string \<Rightarrow> ReaderHealthError + u64 option" where
  "optional_positive_u64 value field = map_transpose (\<lambda>v. positive_u64 v field) value"

definition optional_nonnegative_i64 :: "int option \<Rightarrow> string \<Rightarrow> ReaderHealthError + int option" where
  "optional_nonnegative_i64 value field =
    (case value of Some v \<Rightarrow> if v < 0 then Err (Health_InvalidStoredValue field) else Ok value | None \<Rightarrow> Ok value)"

definition decode_queue_counts :: "StoredReaderQueueHealth \<Rightarrow> ReaderHealthError + ReaderQueueHealthCounts" where
  "decode_queue_counts stored =
    and_then (nonnegative_u64 (sh_pending stored) ''pending_count'') (\<lambda>pending.
    and_then (nonnegative_u64 (sh_in_flight stored) ''in_flight_count'') (\<lambda>in_flight.
    and_then (nonnegative_u64 (sh_acknowledged stored) ''acknowledged_count'') (\<lambda>acknowledged.
    and_then (nonnegative_u64 (sh_retryable_failure stored) ''retryable_failure_count'') (\<lambda>retryable.
    and_then (nonnegative_u64 (sh_permanent_failure stored) ''permanent_failure_count'') (\<lambda>permanent.
    and_then (nonnegative_u64 (sh_manual_review stored) ''manual_review_count'') (\<lambda>review.
    Ok \<lparr> hc_pending = pending, hc_in_flight = in_flight, hc_acknowledged = acknowledged,
      hc_retryable_failure = retryable, hc_permanent_failure = permanent, hc_manual_review = review \<rparr>))))))"

definition decode_synchronization_counts ::
  "StoredReaderQueueHealth \<Rightarrow> ReaderHealthError + ReaderSynchronizationHealthCounts" where
  "decode_synchronization_counts stored =
    and_then (nonnegative_u64 (sh_prepared_batch stored) ''prepared_batch_count'') (\<lambda>prepared.
    and_then (nonnegative_u64 (sh_in_flight_batch stored) ''in_flight_batch_count'') (\<lambda>in_flight.
    and_then (nonnegative_u64 (sh_retryable_batch stored) ''retryable_batch_count'') (\<lambda>retryable.
    and_then (nonnegative_u64 (sh_unapplied_acknowledgement stored) ''unapplied_acknowledgement_count'') (\<lambda>unapplied.
    Ok \<lparr> hb_prepared_batches = prepared, hb_in_flight_batches = in_flight, hb_retryable_batches = retryable,
      hb_unapplied_acknowledgements = unapplied \<rparr>))))"

definition unresolved_age :: "UnixMs \<Rightarrow> UnixMs option \<Rightarrow> ReaderHealthError + u64 option" where
  "unresolved_age observed oldest =
    (case oldest of
       None \<Rightarrow> Ok None
     | Some created \<Rightarrow>
         if observed < created then Err (Health_ObservationBeforeQueueActivity observed created)
         else and_then (ok_or (u64_try_from (observed - created))
           (Health_InvalidStoredValue ''oldest_unresolved_age_milliseconds'')) (\<lambda>age. Ok (Some age)))"

definition decode_health_snapshot ::
  "ReaderId \<Rightarrow> UnixMs \<Rightarrow> StoredReaderQueueHealth \<Rightarrow> ReaderHealthError + ReaderQueueHealthSnapshot" where
  "decode_health_snapshot reader observed stored =
    and_then (positive_u64 (sh_next_local_sequence stored) ''next_local_sequence'') (\<lambda>next_sequence.
    and_then (nonnegative_u64 (sh_last_acknowledged_sequence stored) ''last_acknowledged_sequence'') (\<lambda>last_acknowledged.
    if next_sequence \<le> last_acknowledged then Err (Health_InvalidStoredValue ''last_acknowledged_sequence'') else
    and_then (decode_queue_counts stored) (\<lambda>queue_counts.
    and_then (decode_synchronization_counts stored) (\<lambda>synchronization_counts.
    and_then (optional_positive_u64 (sh_lowest_unresolved_sequence stored) ''lowest_unresolved_sequence'') (\<lambda>lowest.
    and_then (optional_nonnegative_i64 (sh_oldest_unresolved_created_at stored)
      ''oldest_unresolved_created_at_unix_milliseconds'') (\<lambda>oldest.
    if (lowest = None) \<noteq> (oldest = None) then Err (Health_InvalidStoredValue ''unresolved_queue_metadata'') else
    and_then (unresolved_age observed oldest) (\<lambda>age.
    and_then (optional_nonnegative_i64 (sh_next_retry_at stored) ''next_retry_at_unix_milliseconds'') (\<lambda>retry.
    Ok \<lparr> qh_reader_id = reader, qh_observed_at = observed, qh_next_local_sequence = next_sequence,
      qh_last_acknowledged_sequence = last_acknowledged, qh_queue_counts = queue_counts,
      qh_synchronization_counts = synchronization_counts, qh_lowest_unresolved_sequence = lowest,
      qh_oldest_unresolved_age = age, qh_next_retry_at = retry \<rparr>))))))))"

definition load_reader_queue_health ::
  "UuidApi \<Rightarrow> ReaderId \<Rightarrow> UnixMs \<Rightarrow> Sqlite \<Rightarrow> (ReaderHealthError + ReaderQueueHealthSnapshot) \<times> Sqlite" where
  "load_reader_queue_health api reader observed w =
    (if observed < 0 then (Err (Health_NegativeObservationTime observed), w)
     else and_next (autocommit (Health_Database ''load queue health'')
         (sql_select (select_queue_health (identifier_to_string api reader))) w)
       (\<lambda>stored w'. (and_then (ok_or stored (Health_ReaderNotFound reader)) (decode_health_snapshot reader observed), w')))"

section \<open>Lemmas\<close>

lemma uint_saturating_add: "uint (saturating_add_u64 a b) = min (uint a + uint b) 18446744073709551615"
proof (cases "uint a + uint b < 18446744073709551616")
  case True
  then show ?thesis
    using uint_add_lem [of a b] by (simp add: saturating_add_u64_def checked_add_u64_def)
next
  case False
  have "uint (- 1 :: u64) = 18446744073709551615" by (simp add: unsigned_minus_1_eq_mask mask_eq_exp_minus_1)
  then show ?thesis using False by (simp add: saturating_add_u64_def checked_add_u64_def)
qed

lemma uint_saturating_sum: "uint (saturating_sum a bs) = min (uint a + sum_list (map uint bs)) 18446744073709551615"
proof (induction bs arbitrary: a)
  case Nil
  show ?case using uint_bounded [of a] by (simp add: saturating_sum_def)
next
  case (Cons b bs)
  have "0 \<le> sum_list (map uint bs)" by (rule sum_list_nonneg) auto
  moreover have "saturating_sum a (b # bs) = saturating_sum (saturating_add_u64 a b) bs" by (simp add: saturating_sum_def)
  ultimately show ?case using Cons.IH [of "saturating_add_u64 a b"] by (simp add: uint_saturating_add)
qed

lemma nonnegative_u64_ok: "0 \<le> k \<Longrightarrow> k < 18446744073709551616 \<Longrightarrow> \<exists>v. nonnegative_u64 k field = Ok v \<and> uint v = k"
  by (auto simp: nonnegative_u64_def u64_try_from_def uint_word_of_int)

lemma positive_u64_ok: "0 < k \<Longrightarrow> k < 18446744073709551616 \<Longrightarrow> \<exists>v. positive_u64 k field = Ok v \<and> uint v = k"
  using nonnegative_u64_ok [of k field] by (auto simp: positive_u64_def)

lemma sql_min_Some:
  "sql_min (map (\<lambda>r. Some (f r)) rows) = (if rows = [] then None else Some (Min (f ` set rows)))"
  by (simp add: sql_min_def map_filter_def comp_def)

lemma sql_min_cases:
  "sql_min values = None \<and> (\<forall>v. Some v \<notin> set values) \<or>
    (\<exists>m. sql_min values = Some m \<and> Some m \<in> set values \<and> (\<forall>v. Some v \<in> set values \<longrightarrow> m \<le> v))"
proof -
  have set: "set (List.map_filter id values) = {v. Some v \<in> set values}"
    by (force simp: map_filter_def)
  show ?thesis
  proof (cases "List.map_filter id values = []")
    case True
    then show ?thesis using set by (auto simp: sql_min_def)
  next
    case False
    then have "Min {v. Some v \<in> set values} \<in> {v. Some v \<in> set values}"
      using set by (metis List.finite_set Min_in set_empty)
    moreover have "finite {v. Some v \<in> set values}" using set by (metis List.finite_set)
    ultimately show ?thesis using False set by (auto simp: sql_min_def)
  qed
qed

lemma sql_min_eq_Some: "sql_min values = Some m \<Longrightarrow> Some m \<in> set values \<and> (\<forall>v. Some v \<in> set values \<longrightarrow> m \<le> v)"
  using sql_min_cases [of "values"] by auto

lemma sql_min_eq_None: "sql_min values = None \<Longrightarrow> Some v \<notin> set values"
  using sql_min_cases [of "values"] by auto

lemma count_rows_bounds: "0 \<le> count_rows P rows" "count_rows P rows \<le> int (length rows)"
  by (simp_all add: count_rows_def)

lemma count_rows_fits: "int (length rows) \<le> i64_max \<Longrightarrow> 0 \<le> count_rows P rows \<and> count_rows P rows < 18446744073709551616"
  using count_rows_bounds [of P rows] by (simp add: i64_max_def)

lemma count_rows_positive: "0 < count_rows P rows \<longleftrightarrow> (\<exists>r \<in> set rows. P r)"
  by (auto simp: count_rows_def filter_empty_conv)

lemma count_states:
  assumes "\<forall>r \<in> set queue. queue_checks r"
  shows "count_rows (\<lambda>r. ot_queue_state r = ''pending'') queue + count_rows (\<lambda>r. ot_queue_state r = ''in_flight'') queue +
    count_rows (\<lambda>r. ot_queue_state r = ''acknowledged'') queue +
    count_rows (\<lambda>r. ot_queue_state r = ''retryable_failure'') queue +
    count_rows (\<lambda>r. ot_queue_state r = ''permanent_failure'') queue +
    count_rows (\<lambda>r. ot_queue_state r = ''manual_review'') queue = int (length queue)"
  using assms by (induction queue) (auto simp: count_rows_def queue_checks_def)

lemma unresolved_state_checks:
  "queue_checks r \<Longrightarrow> unresolved_state (ot_queue_state r) \<longleftrightarrow> \<not> is_resolved_queue_state (ot_queue_state r)"
  by (auto simp: unresolved_state_def is_resolved_queue_state_def queue_checks_def)

lemma decode_queue_counts_ok:
  assumes "\<And>k. k \<in> {sh_pending st, sh_in_flight st, sh_acknowledged st, sh_retryable_failure st,
    sh_permanent_failure st, sh_manual_review st} \<Longrightarrow> 0 \<le> k \<and> k < 18446744073709551616"
  shows "\<exists>c. decode_queue_counts st = Ok c \<and> uint (hc_pending c) = sh_pending st \<and>
    uint (hc_in_flight c) = sh_in_flight st \<and> uint (hc_acknowledged c) = sh_acknowledged st \<and>
    uint (hc_retryable_failure c) = sh_retryable_failure st \<and>
    uint (hc_permanent_failure c) = sh_permanent_failure st \<and> uint (hc_manual_review c) = sh_manual_review st"
proof -
  have ok: "nonnegative_u64 k field = Ok (word_of_int k)" "uint (word_of_int k :: u64) = k"
    if "0 \<le> k \<and> k < 18446744073709551616" for k field
    using that by (simp_all add: nonnegative_u64_def u64_try_from_def uint_word_of_int)
  show ?thesis using assms by (simp add: decode_queue_counts_def ok)
qed

lemma decode_synchronization_counts_ok:
  assumes "\<And>k. k \<in> {sh_prepared_batch st, sh_in_flight_batch st, sh_retryable_batch st,
    sh_unapplied_acknowledgement st} \<Longrightarrow> 0 \<le> k \<and> k < 18446744073709551616"
  shows "\<exists>c. decode_synchronization_counts st = Ok c \<and> uint (hb_prepared_batches c) = sh_prepared_batch st \<and>
    uint (hb_in_flight_batches c) = sh_in_flight_batch st \<and> uint (hb_retryable_batches c) = sh_retryable_batch st \<and>
    uint (hb_unapplied_acknowledgements c) = sh_unapplied_acknowledgement st"
proof -
  have ok: "nonnegative_u64 k field = Ok (word_of_int k)" "uint (word_of_int k :: u64) = k"
    if "0 \<le> k \<and> k < 18446744073709551616" for k field
    using that by (simp_all add: nonnegative_u64_def u64_try_from_def uint_word_of_int)
  show ?thesis using assms by (simp add: decode_synchronization_counts_def ok)
qed

text \<open>The rows the query finds in a consistent database.\<close>

lemma select_queue_health_inv:
  assumes "reader_db_inv db" "rd_state db = Some s" "rs_reader_id s = reader"
  shows "select_queue_health reader db = Some
    (let queue = rd_queue db; batches = rd_batches db; unresolved = filter (\<lambda>r. unresolved_state (ot_queue_state r)) queue
     in \<lparr> sh_next_local_sequence = rs_next_local_sequence s,
          sh_last_acknowledged_sequence = rs_last_acknowledged_sequence s,
          sh_pending = count_rows (\<lambda>r. ot_queue_state r = ''pending'') queue,
          sh_in_flight = count_rows (\<lambda>r. ot_queue_state r = ''in_flight'') queue,
          sh_acknowledged = count_rows (\<lambda>r. ot_queue_state r = ''acknowledged'') queue,
          sh_retryable_failure = count_rows (\<lambda>r. ot_queue_state r = ''retryable_failure'') queue,
          sh_permanent_failure = count_rows (\<lambda>r. ot_queue_state r = ''permanent_failure'') queue,
          sh_manual_review = count_rows (\<lambda>r. ot_queue_state r = ''manual_review'') queue,
          sh_prepared_batch = count_rows (\<lambda>b. sb_state b = ''prepared'') batches,
          sh_in_flight_batch = count_rows (\<lambda>b. sb_state b = ''in_flight'') batches,
          sh_retryable_batch = count_rows (\<lambda>b. sb_state b = ''retryable_failure'') batches,
          sh_unapplied_acknowledgement =
            count_rows (\<lambda>a. sa_applied_at a = None) (filter (\<lambda>a. sa_reader_id a = reader) (rd_acks db)),
          sh_lowest_unresolved_sequence = sql_min (map (\<lambda>r. Some (ot_sequence r)) unresolved),
          sh_oldest_unresolved_created_at = sql_min (map (\<lambda>r. Some (ot_created_at r)) unresolved),
          sh_next_retry_at = sql_min (map ot_next_retry_at
            (filter (\<lambda>r. ot_queue_state r = ''retryable_failure'') queue)) \<rparr>)"
proof -
  have "filter (\<lambda>r. ot_reader_id r = rs_reader_id s) (rd_queue db) = rd_queue db"
    "filter (\<lambda>b. sb_reader_id b = rs_reader_id s) (rd_batches db) = rd_batches db"
    using assms by (auto simp: reader_db_inv_Some queue_ok_def batches_ok_def filter_id_conv)
  then show ?thesis using assms(2,3) by (simp add: select_queue_health_def Let_def)
qed

lemma decode_health_ok:
  assumes next_ok: "0 < sh_next_local_sequence st" "sh_next_local_sequence st < 18446744073709551616"
    and last_ok: "0 \<le> sh_last_acknowledged_sequence st" "sh_last_acknowledged_sequence st < sh_next_local_sequence st"
    and counts: "decode_queue_counts st = Ok qc" "decode_synchronization_counts st = Ok bc"
    and lowest: "sh_lowest_unresolved_sequence st = None \<and> sh_oldest_unresolved_created_at st = None \<or>
      (\<exists>l c. sh_lowest_unresolved_sequence st = Some l \<and> sh_oldest_unresolved_created_at st = Some c \<and>
        0 < l \<and> l < 18446744073709551616 \<and> 0 \<le> c \<and> c \<le> observed)"
    and observed: "observed < 18446744073709551616"
    and retry: "\<forall>t. sh_next_retry_at st = Some t \<longrightarrow> 0 \<le> t"
  shows "\<exists>h. decode_health_snapshot reader observed st = Ok h \<and>
    uint (qh_next_local_sequence h) = sh_next_local_sequence st \<and>
    uint (qh_last_acknowledged_sequence h) = sh_last_acknowledged_sequence st \<and>
    qh_queue_counts h = qc \<and> qh_synchronization_counts h = bc \<and>
    map_option uint (qh_lowest_unresolved_sequence h) = sh_lowest_unresolved_sequence st \<and>
    map_option uint (qh_oldest_unresolved_age h) =
      map_option (\<lambda>c. observed - c) (sh_oldest_unresolved_created_at st) \<and>
    qh_next_retry_at h = sh_next_retry_at st"
proof -
  obtain n where n: "positive_u64 (sh_next_local_sequence st) ''next_local_sequence'' = Ok n"
    "uint n = sh_next_local_sequence st" using positive_u64_ok [OF next_ok] by blast
  obtain a where a: "nonnegative_u64 (sh_last_acknowledged_sequence st) ''last_acknowledged_sequence'' = Ok a"
    "uint a = sh_last_acknowledged_sequence st"
    using nonnegative_u64_ok [OF last_ok(1), of "''last_acknowledged_sequence''"] last_ok(2) next_ok(2) by auto
  have "\<not> n \<le> a" using n a last_ok by (simp add: word_le_def)
  have t: "optional_nonnegative_i64 (sh_next_retry_at st) ''next_retry_at_unix_milliseconds'' = Ok (sh_next_retry_at st)"
    using retry by (auto simp: optional_nonnegative_i64_def split: option.split)
  consider
    (none) "sh_lowest_unresolved_sequence st = None" "sh_oldest_unresolved_created_at st = None"
  | (some) l c where "sh_lowest_unresolved_sequence st = Some l" "sh_oldest_unresolved_created_at st = Some c"
      "0 < l" "l < 18446744073709551616" "0 \<le> c" "c \<le> observed"
    using lowest by (elim disjE conjE exE) simp_all
  then show ?thesis
  proof cases
    case none
    then show ?thesis using n a t counts \<open>\<not> n \<le> a\<close>
      by (simp add: decode_health_snapshot_def optional_positive_u64_def map_transpose_def
          optional_nonnegative_i64_def unresolved_age_def)
  next
    case some
    obtain v where v: "positive_u64 l ''lowest_unresolved_sequence'' = Ok v" "uint v = l"
      using positive_u64_ok some(3,4) by blast
    obtain age where age: "u64_try_from (observed - c) = Some age"
      using some(5,6) observed by (simp add: u64_try_from_def)
    then have "uint age = observed - c" by (simp add: u64_try_from_eq_Some)
    then show ?thesis using n a t counts \<open>\<not> n \<le> a\<close> some v age
      by (simp add: decode_health_snapshot_def optional_positive_u64_def map_transpose_def
          optional_nonnegative_i64_def [of "Some c"] unresolved_age_def)
  qed
qed

lemma queue_length:
  assumes "reader_state_checks s" "queue_ok s queue"
  shows "int (length queue) = rs_next_local_sequence s - 1"
proof -
  have "length (map ot_sequence queue) = length [1..rs_next_local_sequence s - 1]"
    using assms(2) by (simp only: queue_ok_def)
  then show ?thesis using assms(1) by (simp add: reader_state_checks_def)
qed

text \<open>A snapshot shows what was stored.\<close>

definition reports :: "StoredReaderQueueHealth \<Rightarrow> ReaderQueueHealthSnapshot \<Rightarrow> bool" where
  "reports st h \<longleftrightarrow>
    uint (hc_pending (qh_queue_counts h)) = sh_pending st \<and>
    uint (hc_in_flight (qh_queue_counts h)) = sh_in_flight st \<and>
    uint (hc_acknowledged (qh_queue_counts h)) = sh_acknowledged st \<and>
    uint (hc_retryable_failure (qh_queue_counts h)) = sh_retryable_failure st \<and>
    uint (hc_permanent_failure (qh_queue_counts h)) = sh_permanent_failure st \<and>
    uint (hc_manual_review (qh_queue_counts h)) = sh_manual_review st \<and>
    uint (hb_prepared_batches (qh_synchronization_counts h)) = sh_prepared_batch st \<and>
    uint (hb_in_flight_batches (qh_synchronization_counts h)) = sh_in_flight_batch st \<and>
    uint (hb_retryable_batches (qh_synchronization_counts h)) = sh_retryable_batch st \<and>
    uint (hb_unapplied_acknowledgements (qh_synchronization_counts h)) = sh_unapplied_acknowledgement st \<and>
    uint (qh_next_local_sequence h) = sh_next_local_sequence st \<and>
    uint (qh_last_acknowledged_sequence h) = sh_last_acknowledged_sequence st \<and>
    map_option uint (qh_lowest_unresolved_sequence h) = sh_lowest_unresolved_sequence st"

lemma health_loads:
  assumes inv: "reader_db_inv (sq_db w)" and quiet: "sq_faults w = []"
    and bound: "rd_state (sq_db w) = Some s" "rs_reader_id s = identifier_to_string api reader"
    and time: "0 \<le> observed" "observed \<le> i64_max" "\<forall>r \<in> set (rd_queue (sq_db w)). ot_created_at r \<le> observed"
    and small: "int (length (rd_batches (sq_db w))) \<le> i64_max" "int (length (rd_acks (sq_db w))) \<le> i64_max"
    and st: "select_queue_health (rs_reader_id s) (sq_db w) = Some st"
  shows "\<exists>h. load_reader_queue_health api reader observed w = (Ok h, w) \<and>
    reports st h"
proof -
  have ok: "reader_state_checks s" "queue_ok s (rd_queue (sq_db w))" using inv bound(1) by (simp_all add: reader_db_inv_Some)
  have len: "int (length (rd_queue (sq_db w))) \<le> i64_max" "rs_next_local_sequence s \<le> i64_max"
    using queue_length [OF ok] ok(2) by (simp_all add: queue_ok_def)
  note st' = st [unfolded select_queue_health_inv [OF inv bound(1) refl] Let_def, simplified, symmetric]
  have acks: "int (length (filter P (rd_acks (sq_db w)))) \<le> i64_max" for P
    using small(2) length_filter_le [of P "rd_acks (sq_db w)"] by linarith
  have "\<exists>c. decode_queue_counts st = Ok c \<and> uint (hc_pending c) = sh_pending st \<and>
    uint (hc_in_flight c) = sh_in_flight st \<and> uint (hc_acknowledged c) = sh_acknowledged st \<and>
    uint (hc_retryable_failure c) = sh_retryable_failure st \<and>
    uint (hc_permanent_failure c) = sh_permanent_failure st \<and> uint (hc_manual_review c) = sh_manual_review st"
    by (rule decode_queue_counts_ok) (use count_rows_fits [OF len(1)] in \<open>auto simp: st'\<close>)
  then obtain qc where qc: "decode_queue_counts st = Ok qc" and qc_fields: "uint (hc_pending qc) = sh_pending st \<and>
    uint (hc_in_flight qc) = sh_in_flight st \<and> uint (hc_acknowledged qc) = sh_acknowledged st \<and>
    uint (hc_retryable_failure qc) = sh_retryable_failure st \<and>
    uint (hc_permanent_failure qc) = sh_permanent_failure st \<and> uint (hc_manual_review qc) = sh_manual_review st" by blast
  have "\<exists>c. decode_synchronization_counts st = Ok c \<and> uint (hb_prepared_batches c) = sh_prepared_batch st \<and>
    uint (hb_in_flight_batches c) = sh_in_flight_batch st \<and> uint (hb_retryable_batches c) = sh_retryable_batch st \<and>
    uint (hb_unapplied_acknowledgements c) = sh_unapplied_acknowledgement st"
    by (rule decode_synchronization_counts_ok)
      (use count_rows_fits [OF small(1)] count_rows_fits [OF acks] in \<open>auto simp: st'\<close>)
  then obtain bc where bc: "decode_synchronization_counts st = Ok bc" and bc_fields: "uint (hb_prepared_batches bc) = sh_prepared_batch st \<and>
    uint (hb_in_flight_batches bc) = sh_in_flight_batch st \<and> uint (hb_retryable_batches bc) = sh_retryable_batch st \<and>
    uint (hb_unapplied_acknowledgements bc) = sh_unapplied_acknowledgement st" by blast
  have next_ok: "0 < sh_next_local_sequence st" "sh_next_local_sequence st < 18446744073709551616"
    "0 \<le> sh_last_acknowledged_sequence st" "sh_last_acknowledged_sequence st < sh_next_local_sequence st"
    using ok(1) len(2) unfolding st' by (auto simp: reader_state_checks_def i64_max_def)
  have "\<exists>h. decode_health_snapshot reader observed st = Ok h \<and>
    uint (qh_next_local_sequence h) = sh_next_local_sequence st \<and>
    uint (qh_last_acknowledged_sequence h) = sh_last_acknowledged_sequence st \<and>
    qh_queue_counts h = qc \<and> qh_synchronization_counts h = bc \<and>
    map_option uint (qh_lowest_unresolved_sequence h) = sh_lowest_unresolved_sequence st \<and>
    map_option uint (qh_oldest_unresolved_age h) =
      map_option (\<lambda>c. observed - c) (sh_oldest_unresolved_created_at st) \<and>
    qh_next_retry_at h = sh_next_retry_at st"
  proof (rule decode_health_ok [OF next_ok qc bc])
    have row: "0 < ot_sequence r \<and> ot_sequence r < 18446744073709551616 \<and> 0 \<le> ot_created_at r \<and> not_negative (ot_next_retry_at r)"
      if "r \<in> set (rd_queue (sq_db w))" for r
    proof -
      have "ot_sequence r \<in> set [1..rs_next_local_sequence s - 1]" "queue_checks r"
        using that ok(2) unfolding queue_ok_def by (metis image_eqI set_map, blast)
      then show ?thesis using len(2) by (simp add: queue_checks_def i64_max_def)
    qed
    show "sh_lowest_unresolved_sequence st = None \<and> sh_oldest_unresolved_created_at st = None \<or>
      (\<exists>l c. sh_lowest_unresolved_sequence st = Some l \<and> sh_oldest_unresolved_created_at st = Some c \<and>
        0 < l \<and> l < 18446744073709551616 \<and> 0 \<le> c \<and> c \<le> observed)"
    proof (cases "filter (\<lambda>r. unresolved_state (ot_queue_state r)) (rd_queue (sq_db w)) = []")
      case False
      then have "Min (f ` set (filter (\<lambda>r. unresolved_state (ot_queue_state r)) (rd_queue (sq_db w)))) \<in> f ` set (rd_queue (sq_db w))"
        for f :: "OfflineTransactionRow \<Rightarrow> int"
        using Min_in [of "f ` set (filter (\<lambda>r. unresolved_state (ot_queue_state r)) (rd_queue (sq_db w)))"] by fastforce
      from this [of ot_sequence] this [of ot_created_at] show ?thesis
        using False row time(3) unfolding st' by (auto simp: sql_min_Some)
    qed (simp add: st' sql_min_def map_filter_def)
    show "observed < 18446744073709551616" using time(2) by (simp add: i64_max_def)
    show "\<forall>t. sh_next_retry_at st = Some t \<longrightarrow> 0 \<le> t"
    proof (intro allI impI)
      fix t assume "sh_next_retry_at st = Some t"
      then have "Some t \<in> set (map ot_next_retry_at (filter (\<lambda>r. ot_queue_state r = ''retryable_failure'') (rd_queue (sq_db w))))"
        unfolding st' by (auto dest: sql_min_eq_Some)
      then obtain r where "r \<in> set (rd_queue (sq_db w))" "ot_next_retry_at r = Some t" by auto
      then show "0 \<le> t" using row [of r] by (simp add: not_negative_def)
    qed
  qed
  then show ?thesis using st quiet time(1) bound(2) qc_fields bc_fields
    by (auto simp: reports_def load_reader_queue_health_def autocommit_quiet and_next_def sql_select_def)
qed

lemma count_sum_positive:
  assumes "0 \<le> k"
  shows "0 < count_rows P rows + k \<longleftrightarrow> (\<exists>r \<in> set rows. P r) \<or> 0 < k"
  using assms count_rows_positive [of P rows] count_rows_bounds(1) [of P rows] by linarith

lemma health_work:
  assumes inv: "reader_db_inv db" "rd_state db = Some s" and st: "select_queue_health (rs_reader_id s) db = Some st"
    and h: "reports st h"
  shows "has_pending_work h \<longleftrightarrow> (\<exists>r \<in> set (rd_queue db). unresolved_state (ot_queue_state r)) \<or>
    (\<exists>b \<in> set (rd_batches db). batch_active b) \<or>
    (\<exists>a \<in> set (rd_acks db). sa_reader_id a = rs_reader_id s \<and> sa_applied_at a = None)"
proof -
  note st' = st [unfolded select_queue_health_inv [OF inv refl] Let_def, simplified, symmetric]
  have counts: "uint (health_unresolved (qh_queue_counts h)) =
      min (sh_pending st + (sh_in_flight st + (sh_retryable_failure st + sh_manual_review st))) 18446744073709551615"
    "uint (active_batches (qh_synchronization_counts h)) =
      min (sh_prepared_batch st + (sh_in_flight_batch st + sh_retryable_batch st)) 18446744073709551615"
    "uint (hb_unapplied_acknowledgements (qh_synchronization_counts h)) = sh_unapplied_acknowledgement st"
    using h by (simp_all add: reports_def health_unresolved_def active_batches_def uint_saturating_sum)
  have positive: "0 < v \<longleftrightarrow> 0 < uint v" for v :: u64 by (simp add: word_less_def)
  note sums = count_sum_positive count_rows_positive count_rows_bounds(1) add_nonneg_nonneg
  have "0 < uint (health_unresolved (qh_queue_counts h)) \<longleftrightarrow> (\<exists>r \<in> set (rd_queue db). unresolved_state (ot_queue_state r))"
    unfolding counts st' by (auto simp: sums unresolved_state_def)
  moreover have "0 < uint (active_batches (qh_synchronization_counts h)) \<longleftrightarrow> (\<exists>b \<in> set (rd_batches db). batch_active b)"
    unfolding counts st' by (auto simp: sums batch_active_def)
  moreover have "0 < uint (hb_unapplied_acknowledgements (qh_synchronization_counts h)) \<longleftrightarrow>
      (\<exists>a \<in> set (rd_acks db). sa_reader_id a = rs_reader_id s \<and> sa_applied_at a = None)"
    unfolding counts st' by (auto simp: count_rows_positive)
  ultimately show ?thesis unfolding has_pending_work_def positive by blast
qed

lemma health_lowest:
  assumes inv: "reader_db_inv db" "rd_state db = Some s" and st: "select_queue_health (rs_reader_id s) db = Some st"
    and h: "reports st h"
  shows "case qh_lowest_unresolved_sequence h of
      None \<Rightarrow> \<forall>r \<in> set (rd_queue db). \<not> unresolved_state (ot_queue_state r)
    | Some n \<Rightarrow> (\<forall>r \<in> set (rd_queue db). ot_sequence r < uint n \<longrightarrow> \<not> unresolved_state (ot_queue_state r)) \<and>
        (\<exists>r \<in> set (rd_queue db). ot_sequence r = uint n \<and> unresolved_state (ot_queue_state r))"
proof -
  note st' = st [unfolded select_queue_health_inv [OF inv refl] Let_def, simplified, symmetric]
  let ?open = "map (\<lambda>r. Some (ot_sequence r)) (filter (\<lambda>r. unresolved_state (ot_queue_state r)) (rd_queue db))"
  have member: "Some (ot_sequence r) \<in> set ?open" if "r \<in> set (rd_queue db)" "unresolved_state (ot_queue_state r)" for r
    using that by auto
  have low: "map_option uint (qh_lowest_unresolved_sequence h) = sql_min ?open"
    using h unfolding st' by (simp add: reports_def)
  show ?thesis
  proof (cases "qh_lowest_unresolved_sequence h")
    case None
    then have "sql_min ?open = None" using low by simp
    then have "Some v \<notin> set ?open" for v by (rule sql_min_eq_None)
    then show ?thesis using None member by (simp del: set_map) blast
  next
    case (Some n)
    then have "sql_min ?open = Some (uint n)" using low by simp
    note min = sql_min_eq_Some [OF this, THEN conjunct1] sql_min_eq_Some [OF this, THEN conjunct2, rule_format]
    from min(1) have "\<exists>r \<in> set (rd_queue db). ot_sequence r = uint n \<and> unresolved_state (ot_queue_state r)" by auto
    moreover have "\<not> unresolved_state (ot_queue_state r)" if "r \<in> set (rd_queue db)" "ot_sequence r < uint n" for r
      using that min(2) [OF member, of r] by linarith
    ultimately show ?thesis using Some by simp
  qed
qed

text \<open>The state of a queue row, as a field of the counts.\<close>

definition state_count :: "ReaderQueueHealthCounts \<Rightarrow> string \<Rightarrow> u64 option" where
  "state_count c = [''pending'' \<mapsto> hc_pending c, ''in_flight'' \<mapsto> hc_in_flight c, ''acknowledged'' \<mapsto> hc_acknowledged c,
    ''retryable_failure'' \<mapsto> hc_retryable_failure c, ''permanent_failure'' \<mapsto> hc_permanent_failure c,
    ''manual_review'' \<mapsto> hc_manual_review c]"

section \<open>Properties\<close>



end
