(* ===== verification/Fingerprint.thy ===== *)
theory Fingerprint
  imports Protocol
begin

unbundle bit_operations_syntax

text \<open>
  The content fingerprints of \<open>crates/device-protocol/src/fingerprint.rs\<close> and
  \<open>payload_fingerprint.rs\<close>.  A hasher is the byte sequence fed to it so far; SHA-256 (the
  \<open>sha2\<close> crate) and the text of a UUID (the \<open>uuid\<close> crate) are parameters.
\<close>

definition to_be_bytes :: "nat \<Rightarrow> 'a :: len word \<Rightarrow> bytes" where
  "to_be_bytes n v = map (\<lambda>i. ucast (drop_bit (8 * i) v)) (rev [0..<n])"

definition update_u16 :: "bytes \<Rightarrow> u16 \<Rightarrow> bytes" where
  "update_u16 hasher v = hasher @ to_be_bytes 2 v"

definition update_u64 :: "bytes \<Rightarrow> u64 \<Rightarrow> bytes" where
  "update_u64 hasher v = hasher @ to_be_bytes 8 v"

definition update_i64 :: "bytes \<Rightarrow> i64 \<Rightarrow> bytes" where
  "update_i64 hasher v = hasher @ to_be_bytes 8 v"

definition update_bytes :: "bytes \<Rightarrow> bytes \<Rightarrow> bytes" where
  "update_bytes hasher v = update_u64 hasher (of_nat (length v)) @ v"

definition update_text :: "bytes \<Rightarrow> ustr \<Rightarrow> bytes" where
  "update_text hasher v = update_bytes hasher (utf8 v)"

definition FINGERPRINT_DOMAIN :: bytes where
  "FINGERPRINT_DOMAIN = utf8 (ascii ''transitguard.reader-synchronization.request.v1'')"

definition TRANSACTION_ENVELOPE_DOMAIN :: bytes where
  "TRANSACTION_ENVELOPE_DOMAIN = utf8 (ascii ''transitguard.reader-synchronization.transaction-envelope.v1'')"

definition ACKNOWLEDGEMENT_DOMAIN :: bytes where
  "ACKNOWLEDGEMENT_DOMAIN = utf8 (ascii ''transitguard.reader-synchronization.acknowledgement.v1'')"

definition hash_request_entry :: "UuidApi \<Rightarrow> bytes \<Rightarrow> SynchronizationRequestEntry \<Rightarrow> bytes" where
  "hash_request_entry api hasher e =
    (let hasher = update_text hasher (ascii (identifier_to_string api (re_transaction_id e)));
         hasher = update_u64 hasher (re_local_sequence_number e)
     in update_text hasher (re_transaction_envelope e))"

definition request_hasher :: "UuidApi \<Rightarrow> SynchronizationBatchRequest \<Rightarrow> bytes" where
  "request_hasher api r =
    (let hasher = update_bytes [] FINGERPRINT_DOMAIN;
         hasher = update_u16 hasher (rq_protocol_version r);
         hasher = update_text hasher (rq_environment_id r);
         hasher = update_text hasher (ascii (identifier_to_string api (rq_reader_id r)));
         hasher = update_text hasher (rq_reader_software_version r);
         hasher = update_text hasher (ascii (identifier_to_string api (rq_batch_id r)));
         hasher = update_u64 hasher (rq_first_local_sequence_number r);
         hasher = update_u64 hasher (rq_last_local_sequence_number r);
         hasher = update_i64 hasher (rq_submitted_at_unix_milliseconds r);
         hasher = update_u64 hasher (of_nat (length (rq_entries r)))
     in foldl (hash_request_entry api) hasher (rq_entries r))"

definition SynchronizationRequestFingerprint_calculate ::
  "(bytes \<Rightarrow> bytes) \<Rightarrow> UuidApi \<Rightarrow> SynchronizationBatchRequest \<Rightarrow> bytes" where
  "SynchronizationRequestFingerprint_calculate sha256 api r = sha256 (request_hasher api r)"

definition fingerprint_transaction_envelope ::
  "(bytes \<Rightarrow> bytes) \<Rightarrow> CanonicalTransactionEnvelope \<Rightarrow> bytes" where
  "fingerprint_transaction_envelope sha256 envelope =
    sha256 (update_text (update_bytes [] TRANSACTION_ENVELOPE_DOMAIN) envelope)"

fun encode_outcome :: "SynchronizationEntryOutcome \<Rightarrow> u8" where
  "encode_outcome Acknowledged = 1"
| "encode_outcome RetryableFailure = 2"
| "encode_outcome PermanentFailure = 3"
| "encode_outcome ManualReview = 4"

definition hash_acknowledgement_entry ::
  "UuidApi \<Rightarrow> bytes \<Rightarrow> SynchronizationAcknowledgementEntry \<Rightarrow> bytes" where
  "hash_acknowledgement_entry api hasher e =
    (let hasher = update_text hasher (ascii (identifier_to_string api (ae_transaction_id e)));
         hasher = update_u64 hasher (ae_local_sequence_number e);
         hasher = hasher @ [encode_outcome (ae_outcome e)];
         hasher = (case ae_failure_category e of
             Some category \<Rightarrow>
               update_text (hasher @ [1]) (ascii (SynchronizationFailureCategory_as_str category))
           | None \<Rightarrow> hasher @ [0])
     in (case ae_next_retry_at e of
           Some retry_at \<Rightarrow> update_i64 (hasher @ [1]) retry_at
         | None \<Rightarrow> hasher @ [0]))"

definition acknowledgement_hasher :: "UuidApi \<Rightarrow> SynchronizationBatchAcknowledgement \<Rightarrow> bytes" where
  "acknowledgement_hasher api a =
    (let hasher = update_bytes [] ACKNOWLEDGEMENT_DOMAIN;
         hasher = update_u16 hasher (ak_protocol_version a);
         hasher = update_text hasher (ak_environment_id a);
         hasher = update_text hasher (ascii (identifier_to_string api (ak_reader_id a)));
         hasher = update_text hasher (ascii (identifier_to_string api (ak_batch_id a)));
         hasher = update_u64 hasher (ak_first_local_sequence_number a);
         hasher = update_u64 hasher (ak_last_local_sequence_number a);
         hasher = update_i64 hasher (ak_received_at_unix_milliseconds a);
         hasher = update_u64 hasher (of_nat (length (ak_entries a)))
     in foldl (hash_acknowledgement_entry api) hasher (ak_entries a))"

definition fingerprint_acknowledgement ::
  "(bytes \<Rightarrow> bytes) \<Rightarrow> UuidApi \<Rightarrow> SynchronizationBatchAcknowledgement \<Rightarrow> bytes" where
  "fingerprint_acknowledgement sha256 api a = sha256 (acknowledgement_hasher api a)"

definition HEX_DIGITS :: string where
  "HEX_DIGITS = ''0123456789abcdef''"

definition fingerprint_to_hex :: "bytes \<Rightarrow> string" where
  "fingerprint_to_hex bytes =
    concat (map (\<lambda>b. [HEX_DIGITS ! unat (drop_bit 4 b), HEX_DIGITS ! unat (b AND 15)]) bytes)"

datatype FingerprintParseError =
    InvalidLength nat
  | InvalidHexadecimalCharacter nat

definition decode_hexadecimal_digit :: "u8 \<Rightarrow> nat \<Rightarrow> FingerprintParseError + u8" where
  "decode_hexadecimal_digit v position =
    (if 48 \<le> v \<and> v \<le> 57 then Ok (v - 48)
     else if 97 \<le> v \<and> v \<le> 102 then Ok (v - 97 + 10)
     else if 65 \<le> v \<and> v \<le> 70 then Ok (v - 65 + 10)
     else Err (InvalidHexadecimalCharacter position))"

fun decode_digits :: "nat \<Rightarrow> bytes \<Rightarrow> FingerprintParseError + bytes" where
  "decode_digits index (h # l # rest) =
    and_then (decode_hexadecimal_digit h (index * 2)) (\<lambda>high.
    and_then (decode_hexadecimal_digit l (index * 2 + 1)) (\<lambda>low.
    and_then (decode_digits (Suc index) rest) (\<lambda>more.
    Ok ((push_bit 4 high OR low) # more))))"
| "decode_digits index _ = Ok []"

definition fingerprint_from_str :: "ustr \<Rightarrow> FingerprintParseError + bytes" where
  "fingerprint_from_str v =
    (if text_len v \<noteq> 64 then Err (InvalidLength (text_len v)) else decode_digits 0 (utf8 v))"

section \<open>Lemmas\<close>

text \<open>
  A self-delimiting encoding: after it, whatever follows can be told apart, so encodings can
  be concatenated and still be read back uniquely.
\<close>

locale prefix_code =
  fixes enc :: "'a \<Rightarrow> bytes"
    and valid :: "'a \<Rightarrow> bool"
  assumes prefix: "valid x \<Longrightarrow> valid y \<Longrightarrow> enc x @ xs = enc y @ ys \<Longrightarrow> x = y \<and> xs = ys"
begin

lemma prefix_iff: "valid x \<Longrightarrow> valid y \<Longrightarrow> enc x @ xs = enc y @ ys \<longleftrightarrow> x = y \<and> xs = ys"
  using prefix by blast

lemma enc_inject: "valid x \<Longrightarrow> valid y \<Longrightarrow> enc x = enc y \<longleftrightarrow> x = y"
  using prefix [of x y "[]" "[]"] by auto

lemma concat_prefix:
  assumes "length us = length vs" "list_all valid us" "list_all valid vs"
    "concat (map enc us) @ xs = concat (map enc vs) @ ys"
  shows "us = vs \<and> xs = ys"
  using assms
proof (induction us vs rule: list_induct2)
  case (Cons u us v vs)
  then have "u = v \<and> concat (map enc us) @ xs = concat (map enc vs) @ ys"
    by (intro prefix) simp_all
  with Cons show ?case by simp
qed simp

end

lemma length_to_be_bytes [simp]: "length (to_be_bytes n v) = n"
  by (simp add: to_be_bytes_def)

lemma to_be_bytes_inject:
  fixes v w :: "'a :: len word"
  assumes "to_be_bytes n v = to_be_bytes n w" "LENGTH('a) \<le> 8 * n"
  shows "v = w"
proof (rule bit_word_eqI)
  fix k
  assume k: "k < LENGTH('a)"
  have digits: "(ucast (drop_bit (8 * i) v) :: u8) = ucast (drop_bit (8 * i) w)" if "i < n" for i
    using assms(1) that by (simp add: to_be_bytes_def)
  have "k div 8 < n"
    using k assms(2) by auto
  from digits [OF this] have "bit (ucast (drop_bit (8 * (k div 8)) v) :: u8) (k mod 8) \<longleftrightarrow>
      bit (ucast (drop_bit (8 * (k div 8)) w) :: u8) (k mod 8)"
    by simp
  then show "bit v k \<longleftrightarrow> bit w k"
    using k by (simp add: bit_ucast_iff bit_drop_bit_eq)
qed

interpretation be64: prefix_code "\<lambda>v :: u64. to_be_bytes 8 v" "\<lambda>_. True"
  by unfold_locales (auto dest: to_be_bytes_inject)

interpretation be16: prefix_code "\<lambda>v :: u16. to_be_bytes 2 v" "\<lambda>_. True"
  by unfold_locales (auto dest: to_be_bytes_inject)

text \<open>A length-prefixed text, as \<open>update_text\<close> appends it.\<close>

definition text_block :: "ustr \<Rightarrow> bytes" where
  "text_block t = to_be_bytes 8 (of_nat (text_len t) :: u64) @ utf8 t"

definition short_text :: "ustr \<Rightarrow> bool" where
  "short_text t \<longleftrightarrow> is_text t \<and> text_len t < 18446744073709551616"

lemma of_nat_u64_inject:
  assumes "m < 18446744073709551616" "n < 18446744073709551616" "(of_nat m :: u64) = of_nat n"
  shows "m = n"
proof -
  have "unat (of_nat k :: u64) = k" if "k < 18446744073709551616" for k
    using that by (simp add: unat_of_nat)
  then show ?thesis using assms by metis
qed

interpretation text_code: prefix_code text_block short_text
proof
  fix s t xs ys
  assume ok: "short_text s" "short_text t" and eq: "text_block s @ xs = text_block t @ ys"
  have "(of_nat (text_len s) :: u64) = of_nat (text_len t) \<and> utf8 s @ xs = utf8 t @ ys"
    using eq by (intro be64.prefix) (simp_all add: text_block_def)
  moreover from this have "text_len s = text_len t"
    using ok by (intro of_nat_u64_inject) (simp_all add: short_text_def)
  ultimately have "utf8 s = utf8 t" "xs = ys"
    by (simp_all add: append_eq_append_conv)
  then show "s = t \<and> xs = ys"
    using ok utf8_inject by (auto simp: short_text_def)
qed

lemma update_simps:
  "update_text h t = h @ text_block t" "update_u64 h v = h @ to_be_bytes 8 v"
  "update_i64 h v = h @ to_be_bytes 8 v" "update_u16 h w = h @ to_be_bytes 2 w"
  by (simp_all add: update_text_def update_bytes_def update_u64_def update_i64_def update_u16_def
      text_block_def)

subsection \<open>Requests\<close>

definition uuid_text_ok :: "UuidApi \<Rightarrow> bool" where
  "uuid_text_ok api \<longleftrightarrow> inj (uuid_to_string api) \<and> (\<forall>u. length (uuid_to_string api u) = 36)"

definition uuid_block :: "UuidApi \<Rightarrow> Uuid \<Rightarrow> bytes" where
  "uuid_block api u = text_block (ascii (identifier_to_string api u))"

lemma text_len_ascii: "text_len (ascii s) \<le> 2 * length s"
proof (induction s)
  case (Cons c s)
  have "length (utf8_char (of_char c)) \<le> 2"
    using nat_of_char_less_256 [of c] unfolding utf8_char_def by (simp del: nat_of_char_less_256)
  with Cons show ?case by (simp add: text_len_def ascii_def)
qed (simp add: text_len_def ascii_def)

lemma short_text_ascii: "length s < 1000 \<Longrightarrow> short_text (ascii s)"
  using text_len_ascii [of s] by (simp add: short_text_def)

lemma uuid_code:
  assumes "uuid_text_ok api"
  shows "prefix_code (uuid_block api) (\<lambda>_. True)"
proof
  fix u v xs ys
  assume "uuid_block api u @ xs = uuid_block api v @ ys"
  moreover have "short_text (ascii (identifier_to_string api w))" for w
    using assms by (intro short_text_ascii) (simp add: uuid_text_ok_def identifier_to_string_def)
  ultimately have "identifier_to_string api u = identifier_to_string api v" "xs = ys"
    using text_code.prefix [of "ascii (identifier_to_string api u)" "ascii (identifier_to_string api v)"]
    by (simp_all add: uuid_block_def)
  then show "u = v \<and> xs = ys"
    using assms by (simp add: uuid_text_ok_def identifier_to_string_def inj_eq)
qed

definition request_entry_block :: "UuidApi \<Rightarrow> SynchronizationRequestEntry \<Rightarrow> bytes" where
  "request_entry_block api e = uuid_block api (re_transaction_id e) @
    to_be_bytes 8 (re_local_sequence_number e) @ text_block (re_transaction_envelope e)"

lemma request_entry_code:
  assumes "uuid_text_ok api"
  shows "prefix_code (request_entry_block api) (\<lambda>e. short_text (re_transaction_envelope e))"
proof
  fix x y xs ys
  assume ok: "short_text (re_transaction_envelope x)" "short_text (re_transaction_envelope y)"
    and eq: "request_entry_block api x @ xs = request_entry_block api y @ ys"
  then show "x = y \<and> xs = ys"
    by (simp add: request_entry_block_def prefix_code.prefix_iff [OF uuid_code [OF assms]]
        be64.prefix_iff be64.enc_inject text_code.prefix_iff SynchronizationRequestEntry.equality)
qed

lemma foldl_append_blocks:
  assumes "\<And>h e. f h e = h @ g e"
  shows "foldl f h es = h @ concat (map g es)"
  using assms by (induction es arbitrary: h) auto

lemma hash_request_entry_block: "hash_request_entry api h e = h @ request_entry_block api e"
  by (simp add: hash_request_entry_def Let_def update_simps request_entry_block_def uuid_block_def)

lemma update_bytes_domain: "update_bytes [] (utf8 t) = text_block t"
  by (simp add: update_bytes_def update_u64_def text_block_def)

lemma request_hasher_blocks:
  "request_hasher api r = update_bytes [] FINGERPRINT_DOMAIN @ to_be_bytes 2 (rq_protocol_version r) @
    text_block (rq_environment_id r) @ uuid_block api (rq_reader_id r) @
    text_block (rq_reader_software_version r) @ uuid_block api (rq_batch_id r) @
    to_be_bytes 8 (rq_first_local_sequence_number r) @
    to_be_bytes 8 (rq_last_local_sequence_number r) @
    to_be_bytes 8 (rq_submitted_at_unix_milliseconds r) @
    to_be_bytes 8 (of_nat (length (rq_entries r)) :: u64) @
    concat (map (request_entry_block api) (rq_entries r))"
  by (simp add: request_hasher_def Let_def update_simps uuid_block_def
      foldl_append_blocks [OF hash_request_entry_block])

text \<open>The requests the constructors of the protocol let through.\<close>

definition sendable :: "SynchronizationBatchRequest \<Rightarrow> bool" where
  "sendable r \<longleftrightarrow> request_ok r \<and> short_text (rq_environment_id r) \<and>
    short_text (rq_reader_software_version r) \<and>
    list_all (\<lambda>e. short_text (re_transaction_envelope e)) (rq_entries r)"

lemma entry_count_inject:
  assumes "length xs \<le> 256" "length ys \<le> 256"
    "(of_nat (length xs) :: u64) = of_nat (length ys)"
  shows "length xs = length ys"
  using assms by (intro of_nat_u64_inject) simp_all

lemma request_hasher_inject:
  assumes "uuid_text_ok api" "sendable r" "sendable r'"
    "request_hasher api r = request_hasher api r'"
  shows "r = r'"
proof -
  note uuid = prefix_code.prefix_iff [OF uuid_code [OF assms(1)]]
  have texts: "short_text (rq_environment_id r)" "short_text (rq_environment_id r')"
    "short_text (rq_reader_software_version r)" "short_text (rq_reader_software_version r')"
    "list_all (\<lambda>e. short_text (re_transaction_envelope e)) (rq_entries r)"
    "list_all (\<lambda>e. short_text (re_transaction_envelope e)) (rq_entries r')"
    using assms(2,3) by (simp_all add: sendable_def)
  have counts: "length (rq_entries r) \<le> 256" "length (rq_entries r') \<le> 256"
    using assms(2,3) by (simp_all add: sendable_def request_ok_def batch_shape_def)
  have same: "rq_protocol_version r = rq_protocol_version r'"
    "rq_environment_id r = rq_environment_id r'" "rq_reader_id r = rq_reader_id r'"
    "rq_reader_software_version r = rq_reader_software_version r'"
    "rq_batch_id r = rq_batch_id r'"
    "rq_first_local_sequence_number r = rq_first_local_sequence_number r'"
    "rq_last_local_sequence_number r = rq_last_local_sequence_number r'"
    "rq_submitted_at_unix_milliseconds r = rq_submitted_at_unix_milliseconds r'"
    "(of_nat (length (rq_entries r)) :: u64) = of_nat (length (rq_entries r'))"
    "concat (map (request_entry_block api) (rq_entries r)) =
      concat (map (request_entry_block api) (rq_entries r'))"
    using assms(4) texts
    by (simp_all add: request_hasher_blocks be16.enc_inject be64.enc_inject text_code.prefix_iff uuid)
  have "rq_entries r = rq_entries r'"
    using prefix_code.concat_prefix [OF request_entry_code [OF assms(1)]
        entry_count_inject [OF counts same(9)] texts(5,6), of "[]" "[]"] same(10) by simp
  with same show ?thesis by (simp add: SynchronizationBatchRequest.equality)
qed

subsection \<open>Hexadecimal text\<close>

lemma nibble_digits:
  "\<forall>n\<in>{0..<16}. decode_hexadecimal_digit (of_char (HEX_DIGITS ! n)) position = Ok (of_nat n)"
  by (simp add: atLeastLessThan_nat_numeral HEX_DIGITS_def decode_hexadecimal_digit_def)

lemma low_nibble: "(b :: u8) AND 15 = take_bit 4 b"
proof -
  have "(15 :: u8) = mask 4" by (simp add: mask_eq_exp_minus_1)
  then show ?thesis by (simp add: take_bit_eq_mask)
qed

lemma nibble_bounds:
  "unat (drop_bit 4 (b :: u8)) < 16" "unat (b AND 15) < 16"
proof -
  have "unat b < 256"
    using unsigned_less [of b, where 'a = nat] by simp
  then have "unat b div 16 < 16"
    by auto
  then show "unat (drop_bit 4 b) < 16"
    unfolding unat_drop_bit_eq by (simp add: drop_bit_eq_div)
  show "unat (b AND 15) < 16"
    unfolding low_nibble unsigned_take_bit_eq by (simp add: take_bit_eq_mod)
qed

lemma join_nibbles: "push_bit 4 (drop_bit 4 (b :: u8)) OR (b AND 15) = b"
  by (rule bit_word_eqI) (auto simp: low_nibble bit_simps)

lemma decode_nibble:
  assumes "unat n < 16"
  shows "decode_hexadecimal_digit (of_char (HEX_DIGITS ! unat n)) position = Ok n"
  using nibble_digits assms by simp

lemma decode_digits_to_hex:
  "decode_digits i (map of_char (fingerprint_to_hex bs)) = Ok bs"
proof (induction bs arbitrary: i)
  case (Cons b bs)
  then show ?case
    by (simp add: fingerprint_to_hex_def decode_nibble nibble_bounds join_nibbles)
qed (simp add: fingerprint_to_hex_def)

lemma hex_digits_ascii: "n < 16 \<Longrightarrow> (of_char (HEX_DIGITS ! n) :: nat) < 128"
proof -
  have "\<forall>n\<in>{0..<16}. (of_char (HEX_DIGITS ! n) :: nat) < 128"
    by (simp add: atLeastLessThan_nat_numeral HEX_DIGITS_def)
  then show "n < 16 \<Longrightarrow> (of_char (HEX_DIGITS ! n) :: nat) < 128" by simp
qed

lemma utf8_ascii:
  assumes "list_all (\<lambda>c. (of_char c :: nat) < 128) s"
  shows "utf8 (ascii s) = map of_char s" "text_len (ascii s) = length s"
  using assms
  by (induction s) (simp_all add: utf8_def ascii_def text_len_def utf8_char_def of_nat_of_char)

lemma fingerprint_to_hex_ascii: "list_all (\<lambda>c. (of_char c :: nat) < 128) (fingerprint_to_hex bs)"
  by (induction bs) (auto simp: fingerprint_to_hex_def hex_digits_ascii nibble_bounds)

lemma length_fingerprint_to_hex [simp]: "length (fingerprint_to_hex bs) = 2 * length bs"
  by (induction bs) (auto simp: fingerprint_to_hex_def)

lemma fingerprint_to_hex_inject: "fingerprint_to_hex bs = fingerprint_to_hex cs \<longleftrightarrow> bs = cs"
  by (metis decode_digits_to_hex sum.inject(2))

lemma decode_digits_length:
  "decode_digits i bs = Ok ds \<Longrightarrow> length ds = length bs div 2"
  by (induction i bs arbitrary: ds rule: decode_digits.induct) (auto simp: result_simps)

subsection \<open>Acknowledgements\<close>

lemma encode_outcome_inject [simp]: "encode_outcome a = encode_outcome b \<longleftrightarrow> a = b"
  by (cases a; cases b) simp_all

definition category_block :: "SynchronizationFailureCategory option \<Rightarrow> bytes" where
  "category_block category =
    (case category of None \<Rightarrow> [0]
     | Some c \<Rightarrow> 1 # text_block (ascii (SynchronizationFailureCategory_as_str c)))"

definition retry_block :: "i64 option \<Rightarrow> bytes" where
  "retry_block retry_at = (case retry_at of None \<Rightarrow> [0] | Some t \<Rightarrow> 1 # to_be_bytes 8 t)"

lemma category_text_short: "short_text (ascii (SynchronizationFailureCategory_as_str c))"
  by (rule short_text_ascii) (cases c; simp)

interpretation category_code: prefix_code category_block "\<lambda>_. True"
  by unfold_locales
    (auto simp: category_block_def text_code.prefix_iff category_text_short split: option.splits)

interpretation retry_code: prefix_code retry_block "\<lambda>_. True"
  by unfold_locales (auto simp: retry_block_def be64.enc_inject split: option.splits)

definition ack_entry_block :: "UuidApi \<Rightarrow> SynchronizationAcknowledgementEntry \<Rightarrow> bytes" where
  "ack_entry_block api e = uuid_block api (ae_transaction_id e) @
    to_be_bytes 8 (ae_local_sequence_number e) @ [encode_outcome (ae_outcome e)] @
    category_block (ae_failure_category e) @ retry_block (ae_next_retry_at e)"

lemma ack_entry_code:
  assumes "uuid_text_ok api"
  shows "prefix_code (ack_entry_block api) (\<lambda>_. True)"
proof
  fix x y xs ys
  assume "ack_entry_block api x @ xs = ack_entry_block api y @ ys"
  then show "x = y \<and> xs = ys"
    by (simp add: ack_entry_block_def prefix_code.prefix_iff [OF uuid_code [OF assms]]
        be64.enc_inject category_code.prefix_iff retry_code.prefix_iff
        SynchronizationAcknowledgementEntry.equality)
qed

lemma hash_acknowledgement_entry_block:
  "hash_acknowledgement_entry api h e = h @ ack_entry_block api e"
  by (simp add: hash_acknowledgement_entry_def Let_def update_simps ack_entry_block_def
      uuid_block_def category_block_def retry_block_def split: option.splits)

lemma acknowledgement_hasher_blocks:
  "acknowledgement_hasher api a =
    update_bytes [] ACKNOWLEDGEMENT_DOMAIN @ to_be_bytes 2 (ak_protocol_version a) @
    text_block (ak_environment_id a) @ uuid_block api (ak_reader_id a) @
    uuid_block api (ak_batch_id a) @
    to_be_bytes 8 (ak_first_local_sequence_number a) @
    to_be_bytes 8 (ak_last_local_sequence_number a) @
    to_be_bytes 8 (ak_received_at_unix_milliseconds a) @
    to_be_bytes 8 (of_nat (length (ak_entries a)) :: u64) @
    concat (map (ack_entry_block api) (ak_entries a))"
  by (simp add: acknowledgement_hasher_def Let_def update_simps uuid_block_def
      foldl_append_blocks [OF hash_acknowledgement_entry_block])

definition answerable :: "SynchronizationBatchAcknowledgement \<Rightarrow> bool" where
  "answerable a \<longleftrightarrow> acknowledgement_ok a \<and> short_text (ak_environment_id a)"

lemma acknowledgement_hasher_inject:
  assumes "uuid_text_ok api" "answerable a" "answerable b"
    "acknowledgement_hasher api a = acknowledgement_hasher api b"
  shows "with_replayed False a = with_replayed False b"
proof -
  note uuid = prefix_code.prefix_iff [OF uuid_code [OF assms(1)]]
  have texts: "short_text (ak_environment_id a)" "short_text (ak_environment_id b)"
    using assms(2,3) by (simp_all add: answerable_def)
  have counts: "length (ak_entries a) \<le> 256" "length (ak_entries b) \<le> 256"
    using assms(2,3) by (simp_all add: answerable_def acknowledgement_ok_def batch_shape_def)
  have same: "ak_protocol_version a = ak_protocol_version b"
    "ak_environment_id a = ak_environment_id b" "ak_reader_id a = ak_reader_id b"
    "ak_batch_id a = ak_batch_id b"
    "ak_first_local_sequence_number a = ak_first_local_sequence_number b"
    "ak_last_local_sequence_number a = ak_last_local_sequence_number b"
    "ak_received_at_unix_milliseconds a = ak_received_at_unix_milliseconds b"
    "(of_nat (length (ak_entries a)) :: u64) = of_nat (length (ak_entries b))"
    "concat (map (ack_entry_block api) (ak_entries a)) =
      concat (map (ack_entry_block api) (ak_entries b))"
    using assms(4) texts
    by (simp_all add: acknowledgement_hasher_blocks be16.enc_inject be64.enc_inject
        text_code.prefix_iff uuid)
  have "ak_entries a = ak_entries b"
    using prefix_code.concat_prefix [OF ack_entry_code [OF assms(1)]
        entry_count_inject [OF counts same(8)], of "[]" "[]"] same(9) by (simp add: list_all_iff)
  with same show ?thesis
    by (simp add: with_replayed_def SynchronizationBatchAcknowledgement.equality)
qed

lemma acknowledgement_hasher_replayed:
  "acknowledgement_hasher api (with_replayed b a) = acknowledgement_hasher api a"
  by (simp add: acknowledgement_hasher_blocks with_replayed_def)

section \<open>Properties\<close>

text \<open>
  C20. A request fingerprint identifies the request's content: unless SHA-256 collides on the
  two messages, two well-formed requests have the same fingerprint exactly when they are the same
  request, entry by entry and byte by byte (the hashed encoding is injective, whatever UUID
  rendering is used as long as it is injective and 36 characters long).
\<close>

theorem request_fingerprint_identifies:
  assumes "uuid_text_ok api" "sendable r" "sendable r'"
    "sha256 (request_hasher api r) = sha256 (request_hasher api r') \<Longrightarrow>
      request_hasher api r = request_hasher api r'"
  shows "SynchronizationRequestFingerprint_calculate sha256 api r =
      SynchronizationRequestFingerprint_calculate sha256 api r' \<longleftrightarrow> r = r'"
  using assms request_hasher_inject [OF assms(1-3)]
  by (auto simp: SynchronizationRequestFingerprint_calculate_def)

text \<open>A UUID rendering for evaluation: 32 hexadecimal digits and padding.\<close>

definition hex_uuid_api :: UuidApi where
  "hex_uuid_api = \<lparr> uuid_is_nil = (\<lambda>u. u = 0), uuid_is_rfc4122 = (\<lambda>_. True),
    uuid_is_sort_rand = (\<lambda>_. True), uuid_parse = (\<lambda>_. None),
    uuid_to_string = (\<lambda>u. fingerprint_to_hex (to_be_bytes 16 u) @ ''----'') \<rparr>"

lemma hex_uuid_api_ok: "uuid_text_ok hex_uuid_api"
proof -
  have "u = v" if "fingerprint_to_hex (to_be_bytes 16 u) = fingerprint_to_hex (to_be_bytes 16 v)" for u v :: Uuid
    using that to_be_bytes_inject [of 16 u v] by (simp add: fingerprint_to_hex_inject)
  then show ?thesis
    by (auto simp: uuid_text_ok_def hex_uuid_api_def intro!: injI)
qed

lemma example_request_sendable: "sendable example_request"
proof -
  have "request_ok example_request" by code_simp
  then show ?thesis
    by (simp add: sendable_def example_request_def short_text_ascii)
qed

theorem request_fingerprint_identifies_witness:
  "SynchronizationRequestFingerprint_calculate (\<lambda>bs. bs) hex_uuid_api example_request \<noteq>
   SynchronizationRequestFingerprint_calculate (\<lambda>bs. bs) hex_uuid_api
     (example_request\<lparr> rq_submitted_at_unix_milliseconds := 1001 \<rparr>)"
proof -
  have other: "sendable (example_request\<lparr> rq_submitted_at_unix_milliseconds := 1001 \<rparr>)"
    using example_request_sendable by (simp add: sendable_def request_ok_def)
  have "example_request \<noteq> example_request\<lparr> rq_submitted_at_unix_milliseconds := 1001 \<rparr>"
    by (simp add: example_request_def)
  then show ?thesis
    using request_fingerprint_identifies [OF hex_uuid_api_ok example_request_sendable other, of "\<lambda>bs. bs"]
    by simp
qed

text \<open>
  An acknowledgement's fingerprint covers everything but the replay marker: marking an
  acknowledgement as replayed keeps its fingerprint, and unless SHA-256 collides on the two
  messages, equal fingerprints mean equal acknowledgements up to that marker.
\<close>

theorem acknowledgement_fingerprint_identifies:
  assumes "uuid_text_ok api" "answerable a" "answerable b"
    "sha256 (acknowledgement_hasher api a) = sha256 (acknowledgement_hasher api b) \<Longrightarrow>
      acknowledgement_hasher api a = acknowledgement_hasher api b"
  shows "fingerprint_acknowledgement sha256 api (with_replayed marker a) =
      fingerprint_acknowledgement sha256 api a \<and>
    (fingerprint_acknowledgement sha256 api a = fingerprint_acknowledgement sha256 api b \<longleftrightarrow>
      with_replayed False a = with_replayed False b)"
proof -
  have "acknowledgement_hasher api a = acknowledgement_hasher api b"
    if "with_replayed False a = with_replayed False b"
    using that acknowledgement_hasher_replayed by metis
  then have "fingerprint_acknowledgement sha256 api a = fingerprint_acknowledgement sha256 api b \<longleftrightarrow>
      with_replayed False a = with_replayed False b"
    using assms(4) acknowledgement_hasher_inject [OF assms(1-3)]
    unfolding fingerprint_acknowledgement_def by metis
  then show ?thesis
    by (simp add: fingerprint_acknowledgement_def acknowledgement_hasher_replayed)
qed

theorem acknowledgement_fingerprint_identifies_witness:
  "fingerprint_acknowledgement (\<lambda>bs. bs) hex_uuid_api (with_replayed True example_acknowledgement) =
    fingerprint_acknowledgement (\<lambda>bs. bs) hex_uuid_api example_acknowledgement"
proof -
  have "acknowledgement_ok example_acknowledgement" by code_simp
  then have "answerable example_acknowledgement"
    by (simp add: answerable_def example_acknowledgement_def short_text_ascii)
  from acknowledgement_fingerprint_identifies [OF hex_uuid_api_ok this this, of "\<lambda>bs. bs" True]
  show ?thesis by simp
qed

text \<open>
  Fingerprints survive their text form: parsing the hexadecimal rendering of a 32-byte
  digest returns the digest, different digests have different renderings, and whatever parses is a
  32-byte digest.
\<close>

theorem fingerprint_hex_roundtrip:
  "(length bs = 32 \<longleftrightarrow> fingerprint_from_str (ascii (fingerprint_to_hex bs)) = Ok bs) \<and>
   (fingerprint_to_hex bs = fingerprint_to_hex cs \<longleftrightarrow> bs = cs) \<and>
   (case fingerprint_from_str t of Ok ds \<Rightarrow> length ds = 32 | Err _ \<Rightarrow> True)"
proof -
  have "length bs = 32 \<longleftrightarrow> fingerprint_from_str (ascii (fingerprint_to_hex bs)) = Ok bs"
    by (auto simp: fingerprint_from_str_def utf8_ascii [OF fingerprint_to_hex_ascii]
        decode_digits_to_hex)
  moreover have "length ds = 32" if "fingerprint_from_str t = Ok ds" for ds
    using that decode_digits_length [of 0 "utf8 t" ds]
    by (simp add: fingerprint_from_str_def split: if_splits)
  ultimately show ?thesis
    by (auto simp: fingerprint_to_hex_inject split: sum.splits)
qed

end
