(* ===== verification/IngestTables.thy ===== *)
theory IngestTables
  imports Fingerprint Tables ReaderTables
begin

text \<open>
  What the backend stores of a synchronization batch.  The first part is
  \<open>crates/persistence/src/synchronization_ingest_record.rs\<close>: a request and its acknowledgement as
  one record ready for storage.  The second part is the tables and constraints of
  \<open>crates/persistence/migrations/0004_create_synchronization_ingest_schema.sql\<close> with the statements
  of \<open>crates/persistence/src/repositories/synchronization_ingest.rs\<close>.

  JSON values, and how requests and acknowledgements become JSON, are a parameter (\<open>WireJson\<close>): the
  source derives them with \<open>serde\<close>.  \<open>jsonb_accepts\<close> says which values a \<open>JSONB\<close> column takes.
  Identifier columns are UUIDs, integer columns are \<open>int\<close>, and the two bookkeeping
  timestamps the database fills in by itself are left out.
\<close>

section \<open>Prepared batches\<close>

record 'j WireJson = "'j JsonApi" +
  request_to_value :: "SynchronizationBatchRequest \<Rightarrow> 'j option"
  acknowledgement_to_value :: "SynchronizationBatchAcknowledgement \<Rightarrow> 'j option"
  acknowledgement_from_value :: "'j \<Rightarrow> SynchronizationBatchAcknowledgement option"
  jsonb_accepts :: "'j \<Rightarrow> bool"

datatype SynchronizationIngestRecordError =
    AcknowledgementMismatch SynchronizationProtocolError
  | Record_Serialization string

record 'j PreparedSynchronizationIngestEntry =
  pe_entry_position :: nat
  pe_transaction_id :: FareTransactionId
  pe_local_sequence_number :: LocalSequence
  pe_transaction_fingerprint :: bytes
  pe_envelope_json :: 'j
  pe_outcome :: SynchronizationEntryOutcome
  pe_failure_category :: "SynchronizationFailureCategory option"
  pe_next_retry_at :: "i64 option"
  pe_resolved_at :: i64

record 'j PreparedSynchronizationIngest =
  pi_protocol_version :: DeviceProtocolVersion
  pi_environment_id :: ProtocolEnvironmentId
  pi_reader_id :: ReaderId
  pi_reader_software_version :: ReaderSoftwareVersion
  pi_batch_id :: SynchronizationBatchId
  pi_first_local_sequence_number :: LocalSequence
  pi_last_local_sequence_number :: LocalSequence
  pi_submitted_at :: i64
  pi_received_at :: i64
  pi_request_fingerprint :: bytes
  pi_request_json :: 'j
  pi_acknowledgement_fingerprint :: bytes
  pi_acknowledgement_json :: 'j
  pi_entries :: "'j PreparedSynchronizationIngestEntry list"

text \<open>The body of the loop over the zipped and enumerated entries.\<close>

definition prepare_entry ::
  "(bytes \<Rightarrow> bytes) \<Rightarrow> 'j WireJson \<Rightarrow> SynchronizationBatchAcknowledgement
    \<Rightarrow> nat \<times> SynchronizationRequestEntry \<times> SynchronizationAcknowledgementEntry
    \<Rightarrow> SynchronizationIngestRecordError + 'j PreparedSynchronizationIngestEntry" where
  "prepare_entry sha256 wire acknowledgement positioned =
    (case positioned of (position, request_entry, acknowledgement_entry) \<Rightarrow>
     and_then (ok_or (json_parse wire (re_transaction_envelope request_entry))
       (Record_Serialization ''transaction envelope'')) (\<lambda>envelope.
     Ok \<lparr> pe_entry_position = position,
       pe_transaction_id = re_transaction_id request_entry,
       pe_local_sequence_number = re_local_sequence_number request_entry,
       pe_transaction_fingerprint =
         fingerprint_transaction_envelope sha256 (re_transaction_envelope request_entry),
       pe_envelope_json = envelope,
       pe_outcome = ae_outcome acknowledgement_entry,
       pe_failure_category = ae_failure_category acknowledgement_entry,
       pe_next_retry_at = ae_next_retry_at acknowledgement_entry,
       pe_resolved_at = ak_received_at_unix_milliseconds acknowledgement \<rparr>))"

definition prepare ::
  "(bytes \<Rightarrow> bytes) \<Rightarrow> UuidApi \<Rightarrow> 'j WireJson \<Rightarrow> SynchronizationBatchRequest
    \<Rightarrow> SynchronizationBatchAcknowledgement
    \<Rightarrow> SynchronizationIngestRecordError + 'j PreparedSynchronizationIngest" where
  "prepare sha256 api wire request acknowledgement =
    and_then (map_err AcknowledgementMismatch (validate_against_request acknowledgement request)) (\<lambda>_.
    and_then (ok_or (request_to_value wire request) (Record_Serialization ''request'')) (\<lambda>request_json.
    and_then (ok_or (acknowledgement_to_value wire acknowledgement)
      (Record_Serialization ''acknowledgement'')) (\<lambda>acknowledgement_json.
    and_then (collect_results (prepare_entry sha256 wire acknowledgement)
      (enumerate 0 (zip (rq_entries request) (ak_entries acknowledgement)))) (\<lambda>entries.
    Ok \<lparr> pi_protocol_version = rq_protocol_version request,
      pi_environment_id = rq_environment_id request,
      pi_reader_id = rq_reader_id request,
      pi_reader_software_version = rq_reader_software_version request,
      pi_batch_id = rq_batch_id request,
      pi_first_local_sequence_number = rq_first_local_sequence_number request,
      pi_last_local_sequence_number = rq_last_local_sequence_number request,
      pi_submitted_at = rq_submitted_at_unix_milliseconds request,
      pi_received_at = ak_received_at_unix_milliseconds acknowledgement,
      pi_request_fingerprint = SynchronizationRequestFingerprint_calculate sha256 api request,
      pi_request_json = request_json,
      pi_acknowledgement_fingerprint = fingerprint_acknowledgement sha256 api acknowledgement,
      pi_acknowledgement_json = acknowledgement_json,
      pi_entries = entries \<rparr>))))"

section \<open>Tables\<close>

record 'j IngestBatchRow =
  ib_batch_id :: Uuid
  ib_reader_id :: Uuid
  ib_protocol_version :: int
  ib_environment_id :: ustr
  ib_software_version :: ustr
  ib_first_sequence :: int
  ib_last_sequence :: int
  ib_submitted_at :: int
  ib_received_at :: int
  ib_entry_count :: int
  ib_request_fingerprint :: string
  ib_request_json :: 'j
  ib_acknowledgement_fingerprint :: string
  ib_acknowledgement_json :: 'j

record 'j IngestTransactionRow =
  it_transaction_id :: Uuid
  it_reader_id :: Uuid
  it_sequence :: int
  it_fingerprint :: string
  it_envelope_json :: 'j
  it_first_seen_batch_id :: Uuid
  it_resolution :: string
  it_first_received_at :: int
  it_last_resolved_at :: int

record IngestEntryRow =
  ie_batch_id :: Uuid
  ie_reader_id :: Uuid
  ie_position :: int
  ie_transaction_id :: Uuid
  ie_sequence :: int
  ie_outcome :: string
  ie_failure_category :: "string option"
  ie_next_retry_at :: "int option"
  ie_resolved_at :: int

record 'j IngestDb =
  in_readers :: "ReaderEquipmentRow list"
  in_batches :: "'j IngestBatchRow list"
  in_transactions :: "'j IngestTransactionRow list"
  in_entries :: "IngestEntryRow list"

text \<open>The check constraints.\<close>

definition fingerprint_column_ok :: "string \<Rightarrow> bool" where
  "fingerprint_column_ok t \<longleftrightarrow> length t = 64 \<and> list_all (\<lambda>c. c \<in> set HEX_DIGITS) t"

definition label_column_ok :: "ustr \<Rightarrow> bool" where
  "label_column_ok t \<longleftrightarrow> sqlite_trim t \<noteq> [] \<and> text_len t \<le> 128"

definition resolution_names :: "string list" where
  "resolution_names = [''acknowledged'', ''retryable_failure'', ''permanent_failure'', ''manual_review'']"

definition ingest_batch_checks :: "'j WireJson \<Rightarrow> 'j IngestBatchRow \<Rightarrow> bool" where
  "ingest_batch_checks wire r \<longleftrightarrow>
    uuid_column_ok (ib_batch_id r) \<and> uuid_column_ok (ib_reader_id r) \<and>
    protocol_column_ok (ib_protocol_version r) \<and>
    label_column_ok (ib_environment_id r) \<and> label_column_ok (ib_software_version r) \<and>
    0 < ib_first_sequence r \<and> ib_first_sequence r \<le> ib_last_sequence r \<and>
    0 \<le> ib_submitted_at r \<and> 0 \<le> ib_received_at r \<and>
    0 < ib_entry_count r \<and> ib_entry_count r \<le> 256 \<and>
    fingerprint_column_ok (ib_request_fingerprint r) \<and> json_is_object wire (ib_request_json r) \<and>
    fingerprint_column_ok (ib_acknowledgement_fingerprint r) \<and>
    json_is_object wire (ib_acknowledgement_json r)"

definition ingest_transaction_checks :: "'j WireJson \<Rightarrow> 'j IngestTransactionRow \<Rightarrow> bool" where
  "ingest_transaction_checks wire r \<longleftrightarrow>
    uuid_column_ok (it_transaction_id r) \<and> it_reader_id r \<noteq> 0 \<and> 0 < it_sequence r \<and>
    fingerprint_column_ok (it_fingerprint r) \<and> json_is_object wire (it_envelope_json r) \<and>
    it_resolution r \<in> set resolution_names \<and>
    0 \<le> it_first_received_at r \<and> it_first_received_at r \<le> it_last_resolved_at r"

definition lower_letters :: string where
  "lower_letters = ''abcdefghijklmnopqrstuvwxyz''"

definition category_column_ok :: "string \<Rightarrow> bool" where
  "category_column_ok t \<longleftrightarrow> t \<noteq> [] \<and> length t \<le> 128 \<and> hd t \<in> set lower_letters \<and>
    list_all (\<lambda>c. c \<in> set (lower_letters @ ''0123456789_'')) t"

definition ingest_entry_checks :: "IngestEntryRow \<Rightarrow> bool" where
  "ingest_entry_checks r \<longleftrightarrow>
    0 \<le> ie_position r \<and> ie_position r < 256 \<and> 0 < ie_sequence r \<and>
    ie_outcome r \<in> set resolution_names \<and>
    (case ie_failure_category r of None \<Rightarrow> True | Some t \<Rightarrow> category_column_ok t) \<and>
    not_negative (ie_next_retry_at r) \<and>
    (ie_outcome r = ''acknowledged'' \<and> ie_failure_category r = None \<and> ie_next_retry_at r = None \<or>
     ie_outcome r = ''retryable_failure'' \<and> ie_failure_category r \<noteq> None \<and> ie_next_retry_at r \<noteq> None \<or>
     ie_outcome r \<in> {''permanent_failure'', ''manual_review''} \<and> ie_failure_category r \<noteq> None \<and>
       ie_next_retry_at r = None) \<and>
    0 \<le> ie_resolved_at r"

text \<open>The statements, with checks, unique keys and foreign keys in the order PostgreSQL tests them.\<close>

datatype 'j IngestStatement =
    InsertBatch "'j IngestBatchRow"
  | InsertTransaction "'j IngestTransactionRow"
  | UpdateTransaction Uuid string int
  | InsertEntry IngestEntryRow

definition resolved_again :: "string \<Rightarrow> int \<Rightarrow> 'j IngestTransactionRow \<Rightarrow> 'j IngestTransactionRow" where
  "resolved_again resolution resolved_at r =
    r\<lparr> it_resolution := (if it_last_resolved_at r \<le> resolved_at then resolution else it_resolution r),
       it_last_resolved_at := max (it_last_resolved_at r) resolved_at \<rparr>"

fun ingest_execute :: "'j WireJson \<Rightarrow> 'j IngestStatement \<Rightarrow> 'j IngestDb \<Rightarrow> DriverError + nat \<times> 'j IngestDb" where
  "ingest_execute wire (InsertBatch row) db =
    (if \<not> jsonb_accepts wire (ib_request_json row) \<or> \<not> jsonb_accepts wire (ib_acknowledgement_json row)
     then Err OtherDatabaseError
     else if \<not> ingest_batch_checks wire row then Err CheckViolation
     else if ib_batch_id row \<in> set (map ib_batch_id (in_batches db)) then Err UniqueViolation
     else if ib_reader_id row \<notin> set (map reader_row_id (in_readers db)) then Err ForeignKeyViolation
     else Ok (1, db\<lparr> in_batches := in_batches db @ [row] \<rparr>))"
| "ingest_execute wire (InsertTransaction row) db =
    (if \<not> jsonb_accepts wire (it_envelope_json row) then Err OtherDatabaseError
     else if \<not> ingest_transaction_checks wire row then Err CheckViolation
     else if it_transaction_id row \<in> set (map it_transaction_id (in_transactions db)) \<or>
       (it_reader_id row, it_sequence row) \<in> set (map (\<lambda>r. (it_reader_id r, it_sequence r)) (in_transactions db))
     then Err UniqueViolation
     else if (it_first_seen_batch_id row, it_reader_id row)
         \<notin> set (map (\<lambda>b. (ib_batch_id b, ib_reader_id b)) (in_batches db)) \<or>
       it_reader_id row \<notin> set (map reader_row_id (in_readers db))
     then Err ForeignKeyViolation
     else Ok (1, db\<lparr> in_transactions := in_transactions db @ [row] \<rparr>))"
| "ingest_execute wire (UpdateTransaction tid resolution resolved_at) db =
    (let hit = (\<lambda>r. it_transaction_id r = tid);
         updated = map (\<lambda>r. if hit r then resolved_again resolution resolved_at r else r) (in_transactions db)
     in if list_all (\<lambda>r. hit r \<longrightarrow> ingest_transaction_checks wire r) updated
        then Ok (length (filter hit (in_transactions db)), db\<lparr> in_transactions := updated \<rparr>)
        else Err CheckViolation)"
| "ingest_execute wire (InsertEntry row) db =
    (if \<not> ingest_entry_checks row then Err CheckViolation
     else if list_ex (\<lambda>r. ie_batch_id r = ie_batch_id row \<and>
         (ie_position r = ie_position row \<or> ie_transaction_id r = ie_transaction_id row \<or>
          ie_sequence r = ie_sequence row)) (in_entries db)
     then Err UniqueViolation
     else if (ie_batch_id row, ie_reader_id row)
         \<notin> set (map (\<lambda>b. (ib_batch_id b, ib_reader_id b)) (in_batches db)) \<or>
       (ie_transaction_id row, ie_reader_id row, ie_sequence row)
         \<notin> set (map (\<lambda>r. (it_transaction_id r, it_reader_id r, it_sequence r)) (in_transactions db))
     then Err ForeignKeyViolation
     else Ok (1, db\<lparr> in_entries := in_entries db @ [row] \<rparr>))"

text \<open>The statements of a transaction one after the other.\<close>

fun ingest_execute_all :: "'j WireJson \<Rightarrow> 'j IngestStatement list \<Rightarrow> 'j IngestDb \<Rightarrow> 'j IngestDb option" where
  "ingest_execute_all wire [] db = Some db"
| "ingest_execute_all wire (st # sts) db =
    (case ingest_execute wire st db of
       Err _ \<Rightarrow> None
     | Ok (_, db') \<Rightarrow> ingest_execute_all wire sts db')"

end
