(* ===== verification/Ingest.thy ===== *)
theory Ingest
  imports IngestTables PostgresTransaction
begin

text \<open>
  The backend repository of synchronization batches,
  \<open>crates/persistence/src/repositories/synchronization_ingest.rs\<close>.  The code is written once over
  the driver calls it makes (\<open>IngestDriver\<close>) and runs on two drivers.  \<open>alone_driver\<close> is a database
  nobody else uses.  \<open>session_driver\<close> is a PostgreSQL session among others at read committed
  isolation: before each call other sessions may commit whole batches and change reader equipment, and
  the call may fail; a statement reads what is committed together with the session's own
  statements; a session that would write a key this session has written, or change the reader row
  this session holds \<open>FOR SHARE\<close>, waits until this session is done.
\<close>

section \<open>Sequences of fallible calls\<close>

definition run_next :: "('w, 'e, 'a) fallible \<Rightarrow> ('a \<Rightarrow> ('w, 'e, 'b) fallible) \<Rightarrow> ('w, 'e, 'b) fallible" where
  "run_next m k w = (case m w of (Err e, w') \<Rightarrow> (Err e, w') | (Ok x, w') \<Rightarrow> k x w')"

definition run_value :: "'e + 'a \<Rightarrow> ('w, 'e, 'a) fallible" where
  "run_value r w = (r, w)"

definition run_mapped :: "('e \<Rightarrow> 'f) \<Rightarrow> ('w, 'e, 'a) fallible \<Rightarrow> ('w, 'f, 'a) fallible" where
  "run_mapped g m w = (case m w of (r, w') \<Rightarrow> (map_err g r, w'))"

section \<open>The repository\<close>

datatype SynchronizationIngestDisposition = Stored | Replayed

datatype SynchronizationIngestPersistenceError =
    Ingest_ReaderNotRegistered ReaderId
  | Ingest_ReaderNotOperational ReaderId
  | Ingest_BatchIdentityConflict SynchronizationBatchId
  | Ingest_TransactionIdentityConflict FareTransactionId
  | Ingest_Persistence PersistenceError

definition Ingest_database :: "string \<Rightarrow> DriverError \<Rightarrow> SynchronizationIngestPersistenceError" where
  "Ingest_database operation e = Ingest_Persistence (Database operation)"

definition Ingest_write :: "string \<Rightarrow> string \<Rightarrow> DriverError \<Rightarrow> SynchronizationIngestPersistenceError" where
  "Ingest_write operation entity e = Ingest_Persistence (PersistenceError_write operation entity e)"

definition Ingest_numeric :: "string \<Rightarrow> SynchronizationIngestPersistenceError" where
  "Ingest_numeric field = Ingest_Persistence (NumericValueOutOfRange field)"

record ('j, 'w) IngestDriver =
  dr_begin :: "('w, DriverError, unit) fallible"
  dr_lock_reader :: "ReaderId \<Rightarrow> ('w, DriverError, 'j IngestDb) fallible"
  dr_select :: "('w, DriverError, 'j IngestDb) fallible"
  dr_execute :: "'j IngestStatement \<Rightarrow> ('w, DriverError, nat) fallible"
  dr_commit :: "('w, DriverError, unit) fallible"

fun outcome_name :: "SynchronizationEntryOutcome \<Rightarrow> string" where
  "outcome_name Acknowledged = ''acknowledged''"
| "outcome_name RetryableFailure = ''retryable_failure''"
| "outcome_name PermanentFailure = ''permanent_failure''"
| "outcome_name ManualReview = ''manual_review''"

definition Ingest_sequence_to_i64 :: "u64 \<Rightarrow> string \<Rightarrow> SynchronizationIngestPersistenceError + int" where
  "Ingest_sequence_to_i64 v field = ok_or (i64_column v) (Ingest_numeric field)"

definition count_to_i32 :: "nat \<Rightarrow> string \<Rightarrow> SynchronizationIngestPersistenceError + int" where
  "count_to_i32 n field = (if int n \<le> 2147483647 then Ok (int n) else Err (Ingest_numeric field))"

definition reader_operational :: "ReaderId \<Rightarrow> 'j IngestDb \<Rightarrow> bool option" where
  "reader_operational reader db =
    map_option (\<lambda>r. reader_row_status r = ''active'' \<or> reader_row_status r = ''offline'')
      (find (\<lambda>r. reader_row_id r = reader) (in_readers db))"

definition validate_reader ::
  "('j, 'w) IngestDriver \<Rightarrow> 'j PreparedSynchronizationIngest
    \<Rightarrow> ('w, SynchronizationIngestPersistenceError, unit) fallible" where
  "validate_reader D p =
    run_next (run_mapped (Ingest_database ''validate synchronization reader'')
      (dr_lock_reader D (pi_reader_id p))) (\<lambda>db.
    run_value (case reader_operational (pi_reader_id p) db of
        Some True \<Rightarrow> Ok ()
      | Some False \<Rightarrow> Err (Ingest_ReaderNotOperational (pi_reader_id p))
      | None \<Rightarrow> Err (Ingest_ReaderNotRegistered (pi_reader_id p))))"

definition find_existing_batch ::
  "('j, 'w) IngestDriver \<Rightarrow> 'j PreparedSynchronizationIngest
    \<Rightarrow> ('w, SynchronizationIngestPersistenceError, 'j IngestBatchRow option) fallible" where
  "find_existing_batch D p =
    run_next (run_mapped (Ingest_database ''find synchronization ingest batch'') (dr_select D)) (\<lambda>db.
    run_value (Ok (find (\<lambda>b. ib_batch_id b = pi_batch_id p) (in_batches db))))"

definition validate_existing_batch ::
  "'j IngestBatchRow \<Rightarrow> 'j PreparedSynchronizationIngest
    \<Rightarrow> SynchronizationIngestPersistenceError + SynchronizationIngestDisposition" where
  "validate_existing_batch existing p =
    (if ib_reader_id existing = pi_reader_id p \<and>
       ib_request_fingerprint existing = fingerprint_to_hex (pi_request_fingerprint p)
     then Ok Replayed
     else Err (Ingest_BatchIdentityConflict (pi_batch_id p)))"

definition ingest_batch_row :: "'j PreparedSynchronizationIngest \<Rightarrow> int \<Rightarrow> int \<Rightarrow> int \<Rightarrow> 'j IngestBatchRow" where
  "ingest_batch_row p first_sequence last_sequence entry_count =
    \<lparr> ib_batch_id = pi_batch_id p, ib_reader_id = pi_reader_id p,
      ib_protocol_version = uint (pi_protocol_version p),
      ib_environment_id = pi_environment_id p,
      ib_software_version = pi_reader_software_version p,
      ib_first_sequence = first_sequence, ib_last_sequence = last_sequence,
      ib_submitted_at = sint (pi_submitted_at p), ib_received_at = sint (pi_received_at p),
      ib_entry_count = entry_count,
      ib_request_fingerprint = fingerprint_to_hex (pi_request_fingerprint p),
      ib_request_json = pi_request_json p,
      ib_acknowledgement_fingerprint = fingerprint_to_hex (pi_acknowledgement_fingerprint p),
      ib_acknowledgement_json = pi_acknowledgement_json p \<rparr>"

definition insert_ingest_batch ::
  "('j, 'w) IngestDriver \<Rightarrow> 'j PreparedSynchronizationIngest
    \<Rightarrow> ('w, SynchronizationIngestPersistenceError, unit) fallible" where
  "insert_ingest_batch D p =
    run_next (run_value (Ingest_sequence_to_i64 (pi_first_local_sequence_number p)
      ''synchronization_ingest_batches.first_local_sequence_number'')) (\<lambda>first_sequence.
    run_next (run_value (Ingest_sequence_to_i64 (pi_last_local_sequence_number p)
      ''synchronization_ingest_batches.last_local_sequence_number'')) (\<lambda>last_sequence.
    run_next (run_value (count_to_i32 (length (pi_entries p))
      ''synchronization_ingest_batches.entry_count'')) (\<lambda>entry_count.
    run_next (run_mapped (Ingest_write ''insert synchronization ingest batch'' ''synchronization ingest batch'')
      (dr_execute D (InsertBatch (ingest_batch_row p first_sequence last_sequence entry_count)))) (\<lambda>_.
    run_value (Ok ())))))"

definition transaction_identity_matches ::
  "'j IngestTransactionRow \<Rightarrow> 'j PreparedSynchronizationIngest \<Rightarrow> 'j PreparedSynchronizationIngestEntry
    \<Rightarrow> int \<Rightarrow> bool" where
  "transaction_identity_matches stored p e local_sequence \<longleftrightarrow>
    it_transaction_id stored = pe_transaction_id e \<and> it_reader_id stored = pi_reader_id p \<and>
    it_sequence stored = local_sequence \<and>
    it_fingerprint stored = fingerprint_to_hex (pe_transaction_fingerprint e)"

definition ingest_transaction_row ::
  "'j PreparedSynchronizationIngest \<Rightarrow> 'j PreparedSynchronizationIngestEntry \<Rightarrow> int
    \<Rightarrow> 'j IngestTransactionRow" where
  "ingest_transaction_row p e local_sequence =
    \<lparr> it_transaction_id = pe_transaction_id e, it_reader_id = pi_reader_id p,
      it_sequence = local_sequence,
      it_fingerprint = fingerprint_to_hex (pe_transaction_fingerprint e),
      it_envelope_json = pe_envelope_json e, it_first_seen_batch_id = pi_batch_id p,
      it_resolution = outcome_name (pe_outcome e),
      it_first_received_at = sint (pi_received_at p),
      it_last_resolved_at = sint (pe_resolved_at e) \<rparr>"

definition insert_transaction ::
  "('j, 'w) IngestDriver \<Rightarrow> 'j PreparedSynchronizationIngest \<Rightarrow> 'j PreparedSynchronizationIngestEntry
    \<Rightarrow> int \<Rightarrow> ('w, SynchronizationIngestPersistenceError, unit) fallible" where
  "insert_transaction D p e local_sequence =
    run_next (run_mapped (Ingest_write ''insert synchronization ingest transaction''
        ''synchronization ingest transaction'')
      (dr_execute D (InsertTransaction (ingest_transaction_row p e local_sequence)))) (\<lambda>_.
    run_value (Ok ()))"

definition update_transaction ::
  "('j, 'w) IngestDriver \<Rightarrow> 'j PreparedSynchronizationIngestEntry
    \<Rightarrow> ('w, SynchronizationIngestPersistenceError, unit) fallible" where
  "update_transaction D e =
    run_next (run_mapped (Ingest_write ''update synchronization ingest transaction''
        ''synchronization ingest transaction'')
      (dr_execute D (UpdateTransaction (pe_transaction_id e) (outcome_name (pe_outcome e))
        (sint (pe_resolved_at e))))) (\<lambda>rows_affected.
    run_value (ensure (rows_affected = 1) (Ingest_TransactionIdentityConflict (pe_transaction_id e))))"

definition conflicting_rows ::
  "FareTransactionId \<Rightarrow> ReaderId \<Rightarrow> int \<Rightarrow> 'j IngestDb \<Rightarrow> 'j IngestTransactionRow list" where
  "conflicting_rows tid reader local_sequence db =
    filter (\<lambda>r. it_transaction_id r = tid \<or> it_reader_id r = reader \<and> it_sequence r = local_sequence)
      (in_transactions db)"

definition store_transaction ::
  "('j, 'w) IngestDriver \<Rightarrow> 'j PreparedSynchronizationIngest \<Rightarrow> 'j PreparedSynchronizationIngestEntry
    \<Rightarrow> ('w, SynchronizationIngestPersistenceError, unit) fallible" where
  "store_transaction D p e =
    run_next (run_value (Ingest_sequence_to_i64 (pe_local_sequence_number e)
      ''synchronization_ingest_transactions.local_sequence_number'')) (\<lambda>local_sequence.
    run_next (run_mapped (Ingest_database ''find synchronization ingest transaction'') (dr_select D)) (\<lambda>db.
    case conflicting_rows (pe_transaction_id e) (pi_reader_id p) local_sequence db of
      [] \<Rightarrow> insert_transaction D p e local_sequence
    | [stored] \<Rightarrow>
        if transaction_identity_matches stored p e local_sequence then update_transaction D e
        else run_value (Err (Ingest_TransactionIdentityConflict (pe_transaction_id e)))
    | _ \<Rightarrow> run_value (Err (Ingest_TransactionIdentityConflict (pe_transaction_id e)))))"

definition ingest_entry_row ::
  "'j PreparedSynchronizationIngest \<Rightarrow> 'j PreparedSynchronizationIngestEntry \<Rightarrow> int \<Rightarrow> int \<Rightarrow> IngestEntryRow" where
  "ingest_entry_row p e entry_position local_sequence =
    \<lparr> ie_batch_id = pi_batch_id p, ie_reader_id = pi_reader_id p, ie_position = entry_position,
      ie_transaction_id = pe_transaction_id e, ie_sequence = local_sequence,
      ie_outcome = outcome_name (pe_outcome e),
      ie_failure_category = map_option SynchronizationFailureCategory_as_str (pe_failure_category e),
      ie_next_retry_at = map_option sint (pe_next_retry_at e),
      ie_resolved_at = sint (pe_resolved_at e) \<rparr>"

definition insert_entry ::
  "('j, 'w) IngestDriver \<Rightarrow> 'j PreparedSynchronizationIngest \<Rightarrow> 'j PreparedSynchronizationIngestEntry
    \<Rightarrow> ('w, SynchronizationIngestPersistenceError, unit) fallible" where
  "insert_entry D p e =
    run_next (run_value (count_to_i32 (pe_entry_position e)
      ''synchronization_ingest_entries.entry_position'')) (\<lambda>entry_position.
    run_next (run_value (Ingest_sequence_to_i64 (pe_local_sequence_number e)
      ''synchronization_ingest_entries.local_sequence_number'')) (\<lambda>local_sequence.
    run_next (run_mapped (Ingest_write ''insert synchronization ingest entry'' ''synchronization ingest entry'')
      (dr_execute D (InsertEntry (ingest_entry_row p e entry_position local_sequence)))) (\<lambda>_.
    run_value (Ok ()))))"

text \<open>The loop of \<open>store\<close> over the entries.\<close>

fun store_entries ::
  "('j, 'w) IngestDriver \<Rightarrow> 'j PreparedSynchronizationIngest \<Rightarrow> 'j PreparedSynchronizationIngestEntry list
    \<Rightarrow> ('w, SynchronizationIngestPersistenceError, unit) fallible" where
  "store_entries D p [] = run_value (Ok ())"
| "store_entries D p (e # es) =
    run_next (store_transaction D p e) (\<lambda>_.
    run_next (insert_entry D p e) (\<lambda>_.
    store_entries D p es))"

definition store ::
  "('j, 'w) IngestDriver \<Rightarrow> 'j PreparedSynchronizationIngest
    \<Rightarrow> ('w, SynchronizationIngestPersistenceError, SynchronizationIngestDisposition) fallible" where
  "store D p =
    run_next (run_mapped (Ingest_database ''begin synchronization ingest'') (dr_begin D)) (\<lambda>_.
    run_next (validate_reader D p) (\<lambda>_.
    run_next (find_existing_batch D p) (\<lambda>existing_batch.
    case existing_batch of
      Some existing \<Rightarrow>
        run_next (run_value (validate_existing_batch existing p)) (\<lambda>disposition.
        run_next (run_mapped (Ingest_database ''finish synchronization replay'') (dr_commit D)) (\<lambda>_.
        run_value (Ok disposition)))
    | None \<Rightarrow>
        run_next (insert_ingest_batch D p) (\<lambda>_.
        run_next (store_entries D p (pi_entries p)) (\<lambda>_.
        run_next (run_mapped (Ingest_database ''commit synchronization ingest'') (dr_commit D)) (\<lambda>_.
        run_value (Ok Stored)))))))"

definition load_acknowledgement ::
  "'j WireJson \<Rightarrow> ('w, DriverError, 'j IngestDb) fallible \<Rightarrow> SynchronizationBatchId
    \<Rightarrow> ('w, SynchronizationIngestPersistenceError, SynchronizationBatchAcknowledgement option) fallible" where
  "load_acknowledgement wire select bid =
    run_next (run_mapped (Ingest_database ''load synchronization acknowledgement'') select) (\<lambda>db.
    run_value (case find (\<lambda>b. ib_batch_id b = bid) (in_batches db) of
        Some b \<Rightarrow>
          and_then (ok_or (acknowledgement_from_value wire (ib_acknowledgement_json b))
            (Ingest_Persistence (Serialization ''decode synchronization acknowledgement''))) (\<lambda>acknowledgement.
          Ok (Some acknowledgement))
      | None \<Rightarrow> Ok None))"

section \<open>Drivers\<close>

definition alone_driver :: "'j WireJson \<Rightarrow> ('j, 'j IngestDb) IngestDriver" where
  "alone_driver wire =
    \<lparr> dr_begin = (\<lambda>db. (Ok (), db)),
      dr_lock_reader = (\<lambda>_ db. (Ok db, db)),
      dr_select = (\<lambda>db. (Ok db, db)),
      dr_execute = (\<lambda>st db. case ingest_execute wire st db of
          Err e \<Rightarrow> (Err e, db)
        | Ok (n, db') \<Rightarrow> (Ok n, db')),
      dr_commit = (\<lambda>db. (Ok (), db)) \<rparr>"

text \<open>A whole call on a database nobody else uses; a call that fails is rolled back.\<close>

definition store_alone ::
  "'j WireJson \<Rightarrow> 'j PreparedSynchronizationIngest \<Rightarrow> 'j IngestDb
    \<Rightarrow> SynchronizationIngestPersistenceError + SynchronizationIngestDisposition \<times> 'j IngestDb" where
  "store_alone wire p db =
    (case store (alone_driver wire) p db of (r, db') \<Rightarrow> and_then r (\<lambda>d. Ok (d, db')))"

datatype OtherCommit =
    OtherBatch SynchronizationBatchRequest SynchronizationBatchAcknowledgement
  | OtherReader ReaderEquipmentRow

record IngestTick =
  it_commits :: "OtherCommit list"
  it_fault :: Fault

record 'j IngestSession =
  is_db :: "'j IngestDb"
  is_pending :: "'j IngestStatement list"
  is_locked :: "ReaderId option"
  is_script :: "IngestTick list"

definition put_reader :: "ReaderEquipmentRow \<Rightarrow> 'j IngestDb \<Rightarrow> 'j IngestDb" where
  "put_reader row db =
    db\<lparr> in_readers := (if list_ex (\<lambda>r. reader_row_id r = reader_row_id row) (in_readers db)
      then map (\<lambda>r. if reader_row_id r = reader_row_id row then row else r) (in_readers db)
      else in_readers db @ [row]) \<rparr>"

fun other_commit_result ::
  "(bytes \<Rightarrow> bytes) \<Rightarrow> UuidApi \<Rightarrow> 'j WireJson \<Rightarrow> OtherCommit \<Rightarrow> 'j IngestDb \<Rightarrow> 'j IngestDb" where
  "other_commit_result sha256 api wire (OtherBatch request acknowledgement) db =
    (case prepare sha256 api wire request acknowledgement of
       Err _ \<Rightarrow> db
     | Ok p \<Rightarrow> (case store_alone wire p db of Err _ \<Rightarrow> db | Ok (_, db') \<Rightarrow> db'))"
| "other_commit_result sha256 api wire (OtherReader row) db = put_reader row db"

fun waits_for_lock :: "ReaderId option \<Rightarrow> OtherCommit \<Rightarrow> bool" where
  "waits_for_lock locked (OtherBatch _ _) \<longleftrightarrow> False"
| "waits_for_lock locked (OtherReader row) \<longleftrightarrow> locked = Some (reader_row_id row)"

definition interleave ::
  "(bytes \<Rightarrow> bytes) \<Rightarrow> UuidApi \<Rightarrow> 'j WireJson \<Rightarrow> 'j IngestSession \<Rightarrow> OtherCommit \<Rightarrow> 'j IngestDb \<Rightarrow> 'j IngestDb" where
  "interleave sha256 api wire w c db =
    (let db' = other_commit_result sha256 api wire c db
     in if waits_for_lock (is_locked w) c \<or> ingest_execute_all wire (is_pending w) db' = None then db else db')"

definition session_advance ::
  "(bytes \<Rightarrow> bytes) \<Rightarrow> UuidApi \<Rightarrow> 'j WireJson \<Rightarrow> 'j IngestSession \<Rightarrow> Fault \<times> 'j IngestSession" where
  "session_advance sha256 api wire w =
    (case is_script w of
       [] \<Rightarrow> (NoFault, w)
     | t # ts \<Rightarrow> (it_fault t, w\<lparr> is_script := ts,
         is_db := fold (interleave sha256 api wire w) (it_commits t) (is_db w) \<rparr>))"

definition session_closed :: "'j IngestSession \<Rightarrow> 'j IngestSession" where
  "session_closed w = w\<lparr> is_pending := [], is_locked := None \<rparr>"

definition session_view :: "'j WireJson \<Rightarrow> 'j IngestSession \<Rightarrow> DriverError + 'j IngestDb" where
  "session_view wire w = ok_or (ingest_execute_all wire (is_pending w) (is_db w)) OtherDatabaseError"

definition session_select ::
  "(bytes \<Rightarrow> bytes) \<Rightarrow> UuidApi \<Rightarrow> 'j WireJson \<Rightarrow> ('j IngestSession, DriverError, 'j IngestDb) fallible" where
  "session_select sha256 api wire w =
    (case session_advance sha256 api wire w of (fault, w') \<Rightarrow>
       (if fault = NoFault then session_view wire w' else Err NotADatabaseError, w'))"

definition session_driver ::
  "(bytes \<Rightarrow> bytes) \<Rightarrow> UuidApi \<Rightarrow> 'j WireJson \<Rightarrow> ('j, 'j IngestSession) IngestDriver" where
  "session_driver sha256 api wire =
    \<lparr> dr_begin = (\<lambda>w. case session_advance sha256 api wire (session_closed w) of (fault, w') \<Rightarrow>
        (if fault = NoFault then Ok () else Err NotADatabaseError, w')),
      dr_lock_reader = (\<lambda>reader w. case session_select sha256 api wire w of (r, w') \<Rightarrow>
        (r, case r of
           Err _ \<Rightarrow> w'
         | Ok db \<Rightarrow> if reader_operational reader db = None then w' else w'\<lparr> is_locked := Some reader \<rparr>)),
      dr_select = session_select sha256 api wire,
      dr_execute = (\<lambda>st w. case session_select sha256 api wire w of (r, w') \<Rightarrow>
        (case and_then r (ingest_execute wire st) of
           Err e \<Rightarrow> (Err e, w')
         | Ok (n, _) \<Rightarrow> (Ok n, w'\<lparr> is_pending := is_pending w' @ [st] \<rparr>))),
      dr_commit = (\<lambda>w. case session_advance sha256 api wire w of (fault, w') \<Rightarrow>
        (case session_view wire w' of
           Err e \<Rightarrow> (Err e, session_closed w')
         | Ok db \<Rightarrow> (if fault = NoFault then Ok () else Err NotADatabaseError,
             session_closed (if fault = Refused then w' else w'\<lparr> is_db := db \<rparr>)))) \<rparr>"

definition session_load ::
  "(bytes \<Rightarrow> bytes) \<Rightarrow> UuidApi \<Rightarrow> 'j WireJson \<Rightarrow> ('j IngestSession, DriverError, 'j IngestDb) fallible" where
  "session_load sha256 api wire w = session_select sha256 api wire (session_closed w)"

end
