(* ===== verification/IngestSerial.thy ===== *)
theory IngestSerial
  imports Ingest "HOL-Library.Sublist"
begin

text \<open>
  Storing a batch among other sessions is the same as storing it alone at the moment of the
  commit.  \<open>session_reach\<close> says that a session has changed nothing so far, \<open>ingest_grows\<close> that
  batches and transaction identities are only added, and \<open>mirrors\<close> that code run in the session
  would have given the same result on every later committed state on which its statements still
  execute.
\<close>

section \<open>Code over a driver\<close>

definition run_within :: "('w \<Rightarrow> 'w \<Rightarrow> bool) \<Rightarrow> ('w, 'e, 'a) fallible \<Rightarrow> bool" where
  "run_within R m \<longleftrightarrow> (\<forall>w. R w (snd (m w)))"

named_theorems within_intros \<open>code built from driver calls that respect a relation\<close>

lemma run_next_eq_Ok [result_simps]:
  "run_next m k w = (Ok y, w') \<longleftrightarrow> (\<exists>x w1. m w = (Ok x, w1) \<and> k x w1 = (Ok y, w'))"
  by (auto simp: run_next_def split: prod.splits sum.splits)

lemma run_next_Err:
  "run_next m k w = (Err e, w') \<longleftrightarrow> m w = (Err e, w') \<or> (\<exists>x w1. m w = (Ok x, w1) \<and> k x w1 = (Err e, w'))"
  by (auto simp: run_next_def split: prod.splits sum.splits)

lemma run_mapped_eq_Ok [result_simps]: "run_mapped g m w = (Ok y, w') \<longleftrightarrow> m w = (Ok y, w')"
  by (auto simp: run_mapped_def result_simps split: prod.splits)

lemma run_value_eq [result_simps]: "run_value r w = (r', w') \<longleftrightarrow> r = r' \<and> w' = w"
  by (auto simp: run_value_def)

locale world_preorder =
  fixes R :: "'w \<Rightarrow> 'w \<Rightarrow> bool"
  assumes refl: "R w w"
    and trans: "R w w1 \<Longrightarrow> R w1 w2 \<Longrightarrow> R w w2"
begin

lemma within_value: "run_within R (run_value r)"
  by (simp add: run_within_def run_value_def refl)

lemma within_mapped: "run_within R m \<Longrightarrow> run_within R (run_mapped g m)"
  by (auto simp: run_within_def run_mapped_def split: prod.splits) (metis snd_conv)

lemma within_next:
  assumes "run_within R m" "\<And>x. run_within R (k x)"
  shows "run_within R (run_next m k)"
  unfolding run_within_def
proof
  fix w
  obtain r w1 where m: "m w = (r, w1)" by fastforce
  then have "R w w1" using assms(1) by (metis run_within_def snd_conv)
  moreover have "R w1 (snd (k x w1))" for x using assms(2) by (simp add: run_within_def)
  ultimately show "R w (snd (run_next m k w))"
    using m trans by (cases r) (auto simp: run_next_def)
qed

lemmas within_rules = within_value within_mapped within_next

end

locale driver_within = world_preorder R for R :: "'w \<Rightarrow> 'w \<Rightarrow> bool" +
  fixes D :: "('j, 'w) IngestDriver"
  assumes lock: "run_within R (dr_lock_reader D reader)"
    and select: "run_within R (dr_select D)"
    and execute: "run_within R (dr_execute D st)"
begin

lemma validate_reader_within: "run_within R (validate_reader D p)"
  unfolding validate_reader_def by (intro within_rules lock)

lemma find_existing_batch_within: "run_within R (find_existing_batch D p)"
  unfolding find_existing_batch_def by (intro within_rules select)

lemma insert_ingest_batch_within: "run_within R (insert_ingest_batch D p)"
  unfolding insert_ingest_batch_def by (intro within_rules execute)

lemma store_transaction_within: "run_within R (store_transaction D p e)"
  unfolding store_transaction_def insert_transaction_def update_transaction_def
  by (intro within_rules select) (auto split: list.split intro!: within_rules execute)

lemma store_entries_within: "run_within R (store_entries D p es)"
proof (induction es)
  case (Cons e es)
  have "run_within R (insert_entry D p e)"
    unfolding insert_entry_def by (intro within_rules execute)
  then show ?case
    using Cons.IH by (auto intro: within_rules store_transaction_within)
qed (simp add: within_value)

end

locale whole_driver_within = driver_within R D for R :: "'w \<Rightarrow> 'w \<Rightarrow> bool" and D :: "('j, 'w) IngestDriver" +
  assumes begins: "run_within R (dr_begin D)"
    and commits: "run_within R (dr_commit D)"
begin

lemma store_within: "run_within R (store D p)"
  unfolding store_def
  by (intro within_rules begins validate_reader_within find_existing_batch_within)
    (auto split: option.split intro!: within_rules commits insert_ingest_batch_within store_entries_within)

end

section \<open>Statements\<close>

definition transaction_identity :: "'j IngestTransactionRow \<Rightarrow> Uuid \<times> Uuid \<times> int \<times> string" where
  "transaction_identity r = (it_transaction_id r, it_reader_id r, it_sequence r, it_fingerprint r)"

definition identities :: "'j IngestDb \<Rightarrow> (Uuid \<times> Uuid \<times> int \<times> string) set" where
  "identities db = set (map transaction_identity (in_transactions db))"

definition keys_ok :: "'j IngestDb \<Rightarrow> bool" where
  "keys_ok db \<longleftrightarrow> distinct (map ib_batch_id (in_batches db)) \<and>
    distinct (map it_transaction_id (in_transactions db)) \<and>
    distinct (map (\<lambda>r. (it_reader_id r, it_sequence r)) (in_transactions db))"

definition ingest_grows :: "'j IngestDb \<Rightarrow> 'j IngestDb \<Rightarrow> bool" where
  "ingest_grows db db' \<longleftrightarrow> set (in_batches db) \<subseteq> set (in_batches db') \<and> identities db \<subseteq> identities db' \<and>
    set (in_entries db) \<subseteq> set (in_entries db') \<and> (keys_ok db \<longrightarrow> keys_ok db')"

fun batches_added :: "'j IngestStatement \<Rightarrow> 'j IngestBatchRow set" where
  "batches_added (InsertBatch row) = {row}"
| "batches_added _ = {}"

fun identities_added :: "'j IngestStatement \<Rightarrow> (Uuid \<times> Uuid \<times> int \<times> string) set" where
  "identities_added (InsertTransaction row) = {transaction_identity row}"
| "identities_added _ = {}"

lemma resolved_again_same [simp]:
  "it_transaction_id (resolved_again s t r) = it_transaction_id r"
  "it_reader_id (resolved_again s t r) = it_reader_id r"
  "it_sequence (resolved_again s t r) = it_sequence r"
  "it_fingerprint (resolved_again s t r) = it_fingerprint r"
  "it_envelope_json (resolved_again s t r) = it_envelope_json r"
  "it_first_seen_batch_id (resolved_again s t r) = it_first_seen_batch_id r"
  "it_first_received_at (resolved_again s t r) = it_first_received_at r"
  "transaction_identity (resolved_again s t r) = transaction_identity r"
  by (simp_all add: resolved_again_def transaction_identity_def)

lemma map_update_same:
  assumes "\<And>r. f (g r) = f r"
  shows "map f (map (\<lambda>r. if P r then g r else r) rows) = map f rows"
  using assms by simp

lemma execute_effect:
  assumes "ingest_execute wire st db = Ok (n, db')"
  shows "in_readers db' = in_readers db" "set (in_batches db') = set (in_batches db) \<union> batches_added st"
    "identities db' = identities db \<union> identities_added st" "set (in_entries db) \<subseteq> set (in_entries db')"
    "keys_ok db \<Longrightarrow> keys_ok db'"
proof -
  show "in_readers db' = in_readers db" "set (in_batches db') = set (in_batches db) \<union> batches_added st"
    "set (in_entries db) \<subseteq> set (in_entries db')"
    using assms by (cases st; auto simp: Let_def split: if_splits)+
  show "identities db' = identities db \<union> identities_added st"
  proof (cases st)
    case (UpdateTransaction tid s t)
    then have "map transaction_identity (in_transactions db') = map transaction_identity (in_transactions db)"
      using assms by (auto simp: Let_def split: if_splits)
    then show ?thesis using UpdateTransaction by (simp only: identities_def) simp
  qed (use assms in \<open>auto simp: identities_def split: if_splits\<close>)
  show "keys_ok db'" if "keys_ok db"
  proof (cases st)
    case (UpdateTransaction tid s t)
    then have "db' = db\<lparr> in_transactions := map (\<lambda>r. if it_transaction_id r = tid then resolved_again s t r else r)
        (in_transactions db) \<rparr>"
      using assms by (auto simp: Let_def split: if_splits)
    then have "map it_transaction_id (in_transactions db') = map it_transaction_id (in_transactions db)"
      "map (\<lambda>r. (it_reader_id r, it_sequence r)) (in_transactions db') =
        map (\<lambda>r. (it_reader_id r, it_sequence r)) (in_transactions db)" "in_batches db' = in_batches db"
      by simp_all
    then show ?thesis using that by (simp only: keys_ok_def)
  qed (use assms that in \<open>auto simp: keys_ok_def split: if_splits\<close>)
qed

lemma execute_grows: "ingest_execute wire st db = Ok (n, db') \<Longrightarrow> ingest_grows db db'"
  using execute_effect [of wire st db n db'] by (auto simp: ingest_grows_def)

lemma grows_refl [simp]: "ingest_grows db db"
  by (simp add: ingest_grows_def)

lemma grows_trans: "ingest_grows a b \<Longrightarrow> ingest_grows b c \<Longrightarrow> ingest_grows a c"
  by (auto simp: ingest_grows_def)

lemma execute_all_append:
  "ingest_execute_all wire (xs @ ys) db = Option.bind (ingest_execute_all wire xs db) (ingest_execute_all wire ys)"
  by (induction xs arbitrary: db) (auto split: sum.split)

lemma execute_all_single:
  "ingest_execute_all wire [st] db = Some db' \<longleftrightarrow> (\<exists>n. ingest_execute wire st db = Ok (n, db'))"
  by (auto split: sum.splits)

lemma execute_all_effect:
  assumes "ingest_execute_all wire sts db = Some db'"
  shows "in_readers db' = in_readers db \<and> ingest_grows db db' \<and>
    set (in_batches db') = set (in_batches db) \<union> \<Union> (batches_added ` set sts) \<and>
    identities db' = identities db \<union> \<Union> (identities_added ` set sts)"
  using assms
proof (induction sts arbitrary: db)
  case (Cons st sts)
  then obtain n db1 where step: "ingest_execute wire st db = Ok (n, db1)"
    and rest: "ingest_execute_all wire sts db1 = Some db'"
    by (auto split: sum.splits)
  note IH = Cons.IH [OF rest]
  show ?case
    using execute_effect [OF step] IH grows_trans [OF execute_grows [OF step]] by auto
qed simp

lemma view_grows:
  assumes "ingest_execute_all wire sts db = Some v" "ingest_execute_all wire sts db0 = Some v0"
    and "set (in_batches db) \<subseteq> set (in_batches db0)" "identities db \<subseteq> identities db0"
  shows "set (in_batches v) \<subseteq> set (in_batches v0)" "identities v \<subseteq> identities v0"
  using execute_all_effect [OF assms(1)] execute_all_effect [OF assms(2)] assms(3,4) by auto

lemma filter_only: "distinct xs \<Longrightarrow> x \<in> set xs \<Longrightarrow> filter (\<lambda>y. y = x) xs = [x]"
  by (induction xs) (auto simp: filter_empty_conv)

text \<open>With unique keys the row of a transaction is the only one that can conflict with it.\<close>

lemma conflicting_rows_unique:
  assumes "keys_ok db" "r \<in> set (in_transactions db)" "it_transaction_id r = tid" "it_reader_id r = reader"
    "it_sequence r = s"
  shows "conflicting_rows tid reader s db = [r]"
proof -
  have "x = r" if "x \<in> set (in_transactions db)"
    "it_transaction_id x = tid \<or> it_reader_id x = reader \<and> it_sequence x = s" for x
  proof -
    have "inj_on it_transaction_id (set (in_transactions db))"
      "inj_on (\<lambda>r. (it_reader_id r, it_sequence r)) (set (in_transactions db))"
      using assms(1) by (simp_all add: keys_ok_def distinct_map)
    then show ?thesis using that assms(2-5) by (blast dest: inj_onD)
  qed
  then have "conflicting_rows tid reader s db = filter (\<lambda>x. x = r) (in_transactions db)"
    unfolding conflicting_rows_def using assms(3-5) by (intro filter_cong refl) blast
  moreover have "distinct (in_transactions db)"
    using assms(1) by (simp add: keys_ok_def distinct_map)
  then have "filter (\<lambda>x. x = r) (in_transactions db) = [r]"
    using assms(2) by (rule filter_only)
  ultimately show ?thesis by (rule trans)
qed

section \<open>Other sessions\<close>

definition keeps_readers :: "'j IngestDb \<Rightarrow> 'j IngestDb \<Rightarrow> bool" where
  "keeps_readers db db' \<longleftrightarrow> in_readers db' = in_readers db \<and> ingest_grows db db'"

interpretation alone: whole_driver_within keeps_readers "alone_driver wire" for wire :: "'j WireJson"
proof
  show "run_within keeps_readers (dr_execute (alone_driver wire) st)" for st
    by (auto simp: run_within_def alone_driver_def keeps_readers_def split: sum.split
        dest: execute_effect(1) execute_grows)
qed (auto simp: run_within_def alone_driver_def keeps_readers_def intro: grows_trans)

lemma store_alone_keeps: "store_alone wire p db = Ok (d, db') \<Longrightarrow> keeps_readers db db'"
  using alone.store_within [of wire p] by (auto simp: store_alone_def run_within_def result_simps split: prod.splits)
    (metis snd_conv)

lemma other_commit_grows: "ingest_grows db (other_commit_result sha256 api wire c db)"
proof (cases c)
  case (OtherBatch request acknowledgement)
  then show ?thesis
    by (auto split: sum.split dest!: store_alone_keeps simp: keeps_readers_def)
next
  case (OtherReader row)
  then show ?thesis
    by (simp add: put_reader_def ingest_grows_def identities_def keys_ok_def)
qed

lemma other_commit_readers:
  assumes "\<not> waits_for_lock (Some r) c"
  shows "reader_operational r (other_commit_result sha256 api wire c db) = reader_operational r db"
proof (cases c)
  case (OtherBatch request acknowledgement)
  then show ?thesis
    by (auto split: sum.split dest!: store_alone_keeps simp: keeps_readers_def reader_operational_def)
next
  case (OtherReader row)
  then have "reader_row_id row \<noteq> r" using assms by auto
  moreover have "find (\<lambda>r'. reader_row_id r' = r) (map (\<lambda>r'. if reader_row_id r' = reader_row_id row then row else r') rows) =
      find (\<lambda>r'. reader_row_id r' = r) rows"
    if "reader_row_id row \<noteq> r" for rows
    using that by (induction rows) auto
  moreover have "find (\<lambda>r'. reader_row_id r' = r) (rows @ [row]) = find (\<lambda>r'. reader_row_id r' = r) rows"
    if "reader_row_id row \<noteq> r" for rows
    using that by (induction rows) auto
  ultimately show ?thesis
    using OtherReader by (simp add: put_reader_def reader_operational_def)
qed

text \<open>What a session that has not committed can have seen happen.\<close>

definition session_reach ::
  "(bytes \<Rightarrow> bytes) \<Rightarrow> UuidApi \<Rightarrow> 'j WireJson \<Rightarrow> 'j IngestSession \<Rightarrow> 'j IngestSession \<Rightarrow> bool" where
  "session_reach sha256 api wire w w' \<longleftrightarrow>
    (\<exists>ts cs. is_script w = ts @ is_script w' \<and> subseq cs (concat (map it_commits ts)) \<and>
      is_db w' = fold (other_commit_result sha256 api wire) cs (is_db w))"

definition session_ok :: "'j WireJson \<Rightarrow> 'j IngestSession \<Rightarrow> bool" where
  "session_ok wire w \<longleftrightarrow> keys_ok (is_db w) \<and> ingest_execute_all wire (is_pending w) (is_db w) \<noteq> None"

definition stands :: "'j IngestSession \<Rightarrow> 'j IngestDb \<Rightarrow> bool" where
  "stands w db0 \<longleftrightarrow> ingest_grows (is_db w) db0 \<and> keys_ok db0 \<and>
    (\<forall>r. is_locked w = Some r \<longrightarrow> reader_operational r db0 = reader_operational r (is_db w))"

lemma interleave_subseq:
  "\<exists>cs'. subseq cs' cs \<and> fold (interleave sha256 api wire w) cs db = fold (other_commit_result sha256 api wire) cs' db"
proof (induction cs arbitrary: db)
  case (Cons c cs)
  obtain cs' where cs': "subseq cs' cs"
    "fold (interleave sha256 api wire w) cs (interleave sha256 api wire w c db) =
      fold (other_commit_result sha256 api wire) cs' (interleave sha256 api wire w c db)"
    using Cons.IH by blast
  show ?case
  proof (cases "interleave sha256 api wire w c db = db")
    case True
    with cs' show ?thesis by (intro exI [of _ cs']) auto
  next
    case False
    then have "interleave sha256 api wire w c db = other_commit_result sha256 api wire c db"
      by (auto simp: interleave_def Let_def split: if_splits)
    with cs' show ?thesis by (intro exI [of _ "c # cs'"]) auto
  qed
qed auto

lemma session_reach_refl [simp]: "session_reach sha256 api wire w w"
  unfolding session_reach_def by (intro exI [of _ "[]"]) simp

lemma session_reach_trans:
  assumes "session_reach sha256 api wire w w1" "session_reach sha256 api wire w1 w2"
  shows "session_reach sha256 api wire w w2"
proof -
  obtain ts cs ts' cs' where "is_script w = ts @ is_script w1" "subseq cs (concat (map it_commits ts))"
    "is_db w1 = fold (other_commit_result sha256 api wire) cs (is_db w)"
    "is_script w1 = ts' @ is_script w2" "subseq cs' (concat (map it_commits ts'))"
    "is_db w2 = fold (other_commit_result sha256 api wire) cs' (is_db w1)"
    using assms by (auto simp: session_reach_def)
  then show ?thesis
    unfolding session_reach_def
    by (intro exI [of _ "ts @ ts'"] exI [of _ "cs @ cs'"]) (simp add: list_emb_append_mono)
qed

lemma advance_reach:
  assumes "session_advance sha256 api wire w = (fault, w')"
  shows "session_reach sha256 api wire w w'" "is_pending w' = is_pending w" "is_locked w' = is_locked w"
proof -
  show "is_pending w' = is_pending w" "is_locked w' = is_locked w"
    using assms by (auto simp: session_advance_def split: list.splits)
  show "session_reach sha256 api wire w w'"
  proof (cases "is_script w")
    case Nil
    then show ?thesis using assms by (simp add: session_advance_def)
  next
    case (Cons t ts)
    obtain cs where "subseq cs (it_commits t)" "fold (interleave sha256 api wire w) (it_commits t) (is_db w) =
        fold (other_commit_result sha256 api wire) cs (is_db w)"
      using interleave_subseq by blast
    then show ?thesis
      using Cons assms unfolding session_reach_def
      by (intro exI [of _ "[t]"] exI [of _ cs]) (auto simp: session_advance_def)
  qed
qed

lemma interleave_keeps:
  assumes "session_ok wire w"
  defines "P \<equiv> \<lambda>db. stands w db \<and> ingest_execute_all wire (is_pending w) db \<noteq> None"
  shows "P (fold (interleave sha256 api wire w) cs (is_db w))"
proof -
  have "P (interleave sha256 api wire w c db)" if "P db" for c db
  proof (cases "waits_for_lock (is_locked w) c \<or>
      ingest_execute_all wire (is_pending w) (other_commit_result sha256 api wire c db) = None")
    case True
    then have "interleave sha256 api wire w c db = db" by (simp add: interleave_def)
    with that show ?thesis by simp
  next
    case False
    let ?db = "other_commit_result sha256 api wire c db"
    have inter: "interleave sha256 api wire w c db = ?db" using False by (auto simp: interleave_def Let_def)
    have "reader_operational r ?db = reader_operational r db" if "is_locked w = Some r" for r
      using False that by (intro other_commit_readers) simp
    then have "stands w ?db"
      using \<open>P db\<close> grows_trans [OF _ other_commit_grows] other_commit_grows [of db sha256 api wire c]
      by (auto simp: P_def stands_def) (auto simp: ingest_grows_def)
    with False inter show ?thesis by (simp add: P_def)
  qed
  then have "P (fold (interleave sha256 api wire w) cs db)" if "P db" for db
    using that by (induction cs arbitrary: db) auto
  moreover have "P (is_db w)"
    using assms by (simp add: session_ok_def stands_def P_def)
  ultimately show ?thesis by blast
qed

lemma advance_ok:
  assumes "session_advance sha256 api wire w = (fault, w')" "session_ok wire w"
  shows "session_ok wire w'" "stands w' db0 \<Longrightarrow> stands w db0"
proof -
  note same = advance_reach(2,3) [OF assms(1)]
  have keeps: "stands w (is_db w') \<and> ingest_execute_all wire (is_pending w) (is_db w') \<noteq> None"
  proof (cases "is_script w")
    case Nil
    then have "w' = w" using assms(1) by (simp add: session_advance_def)
    then show ?thesis using interleave_keeps [OF assms(2), where cs = "[]"] by simp
  next
    case (Cons t ts)
    then have "is_db w' = fold (interleave sha256 api wire w) (it_commits t) (is_db w)"
      using assms(1) by (auto simp: session_advance_def)
    then show ?thesis using interleave_keeps [OF assms(2), of sha256 api "it_commits t"] by simp
  qed
  show "session_ok wire w'" using keeps same by (simp add: session_ok_def stands_def)
  show "stands w db0" if "stands w' db0"
    using that keeps same grows_trans [of "is_db w" "is_db w'" db0] by (simp add: stands_def)
qed

section \<open>Mirroring\<close>

interpretation session: driver_within "session_reach sha256 api wire" "session_driver sha256 api wire"
  for sha256 api wire
proof
  have select: "session_reach sha256 api wire w (snd (session_select sha256 api wire w))" for w
    by (auto simp: session_select_def split: prod.split dest: advance_reach)
  have untouched: "session_reach sha256 api wire w (w'\<lparr> is_locked := l \<rparr>) = session_reach sha256 api wire w w'"
    "session_reach sha256 api wire w (w'\<lparr> is_pending := sts \<rparr>) = session_reach sha256 api wire w w'" for w w' l sts
    by (simp_all add: session_reach_def)
  show "run_within (session_reach sha256 api wire) (dr_select (session_driver sha256 api wire))"
    using select by (simp add: run_within_def session_driver_def)
  show "run_within (session_reach sha256 api wire) (dr_lock_reader (session_driver sha256 api wire) reader)" for reader
    using select by (auto simp: run_within_def session_driver_def untouched split: prod.split sum.split) (metis snd_conv)+
  show "run_within (session_reach sha256 api wire) (dr_execute (session_driver sha256 api wire) st)" for st
    using select by (auto simp: run_within_def session_driver_def untouched split: prod.split sum.split) (metis snd_conv)+
qed (auto intro: session_reach_trans)

definition mirrors ::
  "'j WireJson \<Rightarrow> ('j IngestSession, 'e, 'a) fallible \<Rightarrow> ('j IngestDb, 'e, 'a) fallible \<Rightarrow> bool" where
  "mirrors wire m alone \<longleftrightarrow> (\<forall>w x w'. m w = (Ok x, w') \<longrightarrow> session_ok wire w \<longrightarrow>
    session_ok wire w' \<and> (\<forall>db0. stands w' db0 \<longrightarrow> stands w db0) \<and>
    (\<exists>sts. is_pending w' = is_pending w @ sts \<and>
      (\<forall>db0 v v'. stands w' db0 \<longrightarrow> ingest_execute_all wire (is_pending w) db0 = Some v \<longrightarrow>
        ingest_execute_all wire sts v = Some v' \<longrightarrow> alone v = (Ok x, v'))))"

lemma mirrorsI:
  assumes "\<And>w x w'. m w = (Ok x, w') \<Longrightarrow> session_ok wire w \<Longrightarrow> session_ok wire w' \<and>
      (\<forall>db0. stands w' db0 \<longrightarrow> stands w db0) \<and>
      (\<exists>sts. is_pending w' = is_pending w @ sts \<and>
        (\<forall>db0 v v'. stands w' db0 \<longrightarrow> ingest_execute_all wire (is_pending w) db0 = Some v \<longrightarrow>
          ingest_execute_all wire sts v = Some v' \<longrightarrow> alone v = (Ok x, v')))"
  shows "mirrors wire m alone"
  using assms unfolding mirrors_def by blast

lemma mirrorsE:
  assumes "mirrors wire m alone" "m w = (Ok x, w')" "session_ok wire w"
  obtains sts where "session_ok wire w'" "\<And>db0. stands w' db0 \<Longrightarrow> stands w db0"
    "is_pending w' = is_pending w @ sts"
    "\<And>db0 v v'. stands w' db0 \<Longrightarrow> ingest_execute_all wire (is_pending w) db0 = Some v \<Longrightarrow>
      ingest_execute_all wire sts v = Some v' \<Longrightarrow> alone v = (Ok x, v')"
  using assms unfolding mirrors_def by blast

named_theorems mirrors_intros \<open>code that gives alone what it gives in a session\<close>

lemma mirrors_value [mirrors_intros]: "mirrors wire (run_value r) (run_value r)"
  by (rule mirrorsI) (auto simp: result_simps)

lemma mirrors_next [mirrors_intros]:
  assumes m: "mirrors wire m m'" and k: "\<And>x. mirrors wire (k x) (k' x)"
  shows "mirrors wire (run_next m k) (run_next m' k')"
proof (rule mirrorsI)
  fix w y w2
  assume "run_next m k w = (Ok y, w2)" and ok: "session_ok wire w"
  then obtain x w1 where ran: "m w = (Ok x, w1)" "k x w1 = (Ok y, w2)" by (auto simp: result_simps)
  obtain sts where m1: "session_ok wire w1" "\<And>db0. stands w1 db0 \<Longrightarrow> stands w db0"
      "is_pending w1 = is_pending w @ sts"
      "\<And>db0 v v'. stands w1 db0 \<Longrightarrow> ingest_execute_all wire (is_pending w) db0 = Some v \<Longrightarrow>
        ingest_execute_all wire sts v = Some v' \<Longrightarrow> m' v = (Ok x, v')"
    by (rule mirrorsE [OF m ran(1) ok]) blast
  obtain sts' where k1: "session_ok wire w2" "\<And>db0. stands w2 db0 \<Longrightarrow> stands w1 db0"
      "is_pending w2 = is_pending w1 @ sts'"
      "\<And>db0 v v'. stands w2 db0 \<Longrightarrow> ingest_execute_all wire (is_pending w1) db0 = Some v \<Longrightarrow>
        ingest_execute_all wire sts' v = Some v' \<Longrightarrow> k' x v = (Ok y, v')"
    by (rule mirrorsE [OF k ran(2) m1(1)]) blast
  have "run_next m' k' v = (Ok y, v')" if fin: "stands w2 db0" "ingest_execute_all wire (is_pending w) db0 = Some v"
    "ingest_execute_all wire (sts @ sts') v = Some v'" for db0 v v'
  proof -
    obtain v1 where v1: "ingest_execute_all wire sts v = Some v1" "ingest_execute_all wire sts' v1 = Some v'"
      using fin(3) by (auto simp: execute_all_append bind_eq_Some_conv)
    then have "m' v = (Ok x, v1)" using m1(4) k1(2) fin(1,2) by blast
    moreover have "k' x v1 = (Ok y, v')"
      using k1(4) fin(1,2) v1 m1(3) by (auto simp: execute_all_append)
    ultimately show ?thesis by (simp add: run_next_def)
  qed
  then show "session_ok wire w2 \<and> (\<forall>db0. stands w2 db0 \<longrightarrow> stands w db0) \<and>
      (\<exists>sts. is_pending w2 = is_pending w @ sts \<and>
        (\<forall>db0 v v'. stands w2 db0 \<longrightarrow> ingest_execute_all wire (is_pending w) db0 = Some v \<longrightarrow>
          ingest_execute_all wire sts v = Some v' \<longrightarrow> run_next m' k' v = (Ok y, v')))"
    using m1 k1 by (auto intro!: exI [of _ "sts @ sts'"])
qed

text \<open>A read gives a view whose content every later state still has; a statement runs again.\<close>

lemma session_select_Ok:
  assumes "session_select sha256 api wire w = (Ok v, w')" "session_ok wire w"
  shows "session_ok wire w'" "is_pending w' = is_pending w" "is_locked w' = is_locked w"
    "stands w' db0 \<Longrightarrow> stands w db0" "ingest_execute_all wire (is_pending w) (is_db w') = Some v"
proof -
  obtain fault where adv: "session_advance sha256 api wire w = (fault, w')" and v: "session_view wire w' = Ok v"
    using assms(1) by (auto simp: session_select_def split: prod.splits if_splits)
  note reach = advance_reach [OF adv] and kept = advance_ok [OF adv assms(2)]
  show "session_ok wire w'" "is_pending w' = is_pending w" "is_locked w' = is_locked w"
    "stands w' db0 \<Longrightarrow> stands w db0"
    using reach kept by auto
  show "ingest_execute_all wire (is_pending w) (is_db w') = Some v"
    using v reach(2) by (simp add: session_view_def result_simps)
qed

lemma session_execute_Ok:
  assumes "dr_execute (session_driver sha256 api wire) st w = (Ok n, w')" "session_ok wire w"
  obtains w1 v v' where "session_select sha256 api wire w = (Ok v, w1)" "ingest_execute wire st v = Ok (n, v')"
    "w' = w1\<lparr> is_pending := is_pending w @ [st] \<rparr>" "session_ok wire w'" "\<And>db0. stands w' db0 = stands w1 db0"
proof -
  obtain w1 v v' where sel: "session_select sha256 api wire w = (Ok v, w1)" "ingest_execute wire st v = Ok (n, v')"
    and w': "w' = w1\<lparr> is_pending := is_pending w1 @ [st] \<rparr>"
    using assms(1) by (auto simp: session_driver_def result_simps split: prod.splits sum.splits)
  note read = session_select_Ok [OF sel(1) assms(2)]
  have "ingest_execute_all wire (is_pending w @ [st]) (is_db w1) = Some v'"
    using read(5) sel(2) by (simp add: execute_all_append)
  then have "session_ok wire w'"
    using read(1,2) w' by (simp add: session_ok_def)
  then show ?thesis
    using that sel w' read(2) by (simp add: stands_def)
qed

lemma updated_count:
  assumes "keys_ok db" "r \<in> set (in_transactions db)" "it_transaction_id r = tid"
    and "ingest_execute wire (UpdateTransaction tid s t) db = Ok (n, db')"
  shows "n = 1"
proof -
  have "filter (\<lambda>x. it_transaction_id x = tid) (in_transactions db) = filter (\<lambda>x. x = r) (in_transactions db)"
    using assms(1-3) by (intro filter_cong refl) (auto simp: keys_ok_def distinct_map dest: inj_onD)
  moreover have "distinct (in_transactions db)"
    using assms(1) by (simp add: keys_ok_def distinct_map)
  ultimately have "filter (\<lambda>x. it_transaction_id x = tid) (in_transactions db) = [r]"
    using filter_only [OF _ assms(2)] by simp
  then show ?thesis using assms(4) by (auto simp: Let_def split: if_splits)
qed

lemma insert_count:
  "(\<And>tid s t. st \<noteq> UpdateTransaction tid s t) \<Longrightarrow> ingest_execute wire st db = Ok (n, db') \<Longrightarrow> n = 1"
  by (cases st) (auto split: if_splits)

text \<open>An insert gives the same result wherever it executes.\<close>

lemma mirrors_insert [mirrors_intros]:
  assumes "\<And>tid s t. st \<noteq> UpdateTransaction tid s t"
  shows "mirrors wire (run_mapped g (dr_execute (session_driver sha256 api wire) st))
    (run_mapped g (dr_execute (alone_driver wire) st))"
proof (rule mirrorsI)
  fix w n w'
  assume "run_mapped g (dr_execute (session_driver sha256 api wire) st) w = (Ok n, w')" and ok: "session_ok wire w"
  then have "dr_execute (session_driver sha256 api wire) st w = (Ok n, w')" by (simp add: result_simps)
  then obtain w1 v v' where sel: "session_select sha256 api wire w = (Ok v, w1)" "ingest_execute wire st v = Ok (n, v')"
    and w': "w' = w1\<lparr> is_pending := is_pending w @ [st] \<rparr>" "session_ok wire w'" "\<And>db0. stands w' db0 = stands w1 db0"
    using ok by (rule session_execute_Ok) blast
  note one = insert_count [OF assms]
  have "run_mapped g (dr_execute (alone_driver wire) st) u = (Ok n, u')"
    if again: "ingest_execute_all wire [st] u = Some u'" for u u'
  proof -
    obtain m where "ingest_execute wire st u = Ok (m, u')" using again unfolding execute_all_single by blast
    moreover from this have "m = n" using one sel(2) by metis
    ultimately show ?thesis by (simp add: run_mapped_def alone_driver_def)
  qed
  then show "session_ok wire w' \<and> (\<forall>db0. stands w' db0 \<longrightarrow> stands w db0) \<and>
      (\<exists>sts. is_pending w' = is_pending w @ sts \<and>
        (\<forall>db0 v v'. stands w' db0 \<longrightarrow> ingest_execute_all wire (is_pending w) db0 = Some v \<longrightarrow>
          ingest_execute_all wire sts v = Some v' \<longrightarrow>
          run_mapped g (dr_execute (alone_driver wire) st) v = (Ok n, v')))"
    using w' session_select_Ok(4) [OF sel(1) ok] by (auto intro!: exI [of _ "[st]"])
qed

lemma mirrors_insert_ingest_batch:
  "mirrors wire (insert_ingest_batch (session_driver sha256 api wire) p) (insert_ingest_batch (alone_driver wire) p)"
  unfolding insert_ingest_batch_def by (intro mirrors_intros) simp

lemma mirrors_insert_entry [mirrors_intros]:
  "mirrors wire (insert_entry (session_driver sha256 api wire) p e) (insert_entry (alone_driver wire) p e)"
  unfolding insert_entry_def by (intro mirrors_intros) simp

lemma inserted_no_conflict:
  assumes "ingest_execute wire (InsertTransaction row) db = Ok (n, db')"
  shows "conflicting_rows (it_transaction_id row) (it_reader_id row) (it_sequence row) db = []"
proof -
  have fresh: "it_transaction_id row \<notin> it_transaction_id ` set (in_transactions db)"
    "(it_reader_id row, it_sequence row) \<notin> (\<lambda>r. (it_reader_id r, it_sequence r)) ` set (in_transactions db)"
    using assms by (simp_all split: if_splits)
  have "\<not> (it_transaction_id r = it_transaction_id row \<or>
      it_reader_id r = it_reader_id row \<and> it_sequence r = it_sequence row)" if "r \<in> set (in_transactions db)" for r
    using fresh that by (auto simp: image_iff)
  then show ?thesis by (simp add: conflicting_rows_def filter_empty_conv)
qed

text \<open>Looking for the rows of a transaction and then inserting or updating it.\<close>

definition resolve_transaction ::
  "('j, 'w) IngestDriver \<Rightarrow> 'j PreparedSynchronizationIngest \<Rightarrow> 'j PreparedSynchronizationIngestEntry \<Rightarrow> int
    \<Rightarrow> 'j IngestTransactionRow list \<Rightarrow> ('w, SynchronizationIngestPersistenceError, unit) fallible" where
  "resolve_transaction D p e local_sequence rows =
    (case rows of
      [] \<Rightarrow> insert_transaction D p e local_sequence
    | [stored] \<Rightarrow>
        if transaction_identity_matches stored p e local_sequence then update_transaction D e
        else run_value (Err (Ingest_TransactionIdentityConflict (pe_transaction_id e)))
    | _ \<Rightarrow> run_value (Err (Ingest_TransactionIdentityConflict (pe_transaction_id e))))"

lemma resolve_transaction_Ok:
  assumes "resolve_transaction (session_driver sha256 api wire) p e s rows w = (Ok (), w')" "session_ok wire w"
  obtains w1 v v' st where "session_select sha256 api wire w = (Ok v, w1)" "ingest_execute wire st v = Ok (1, v')"
    "w' = w1\<lparr> is_pending := is_pending w @ [st] \<rparr>" "session_ok wire w'" "\<And>db0. stands w' db0 = stands w1 db0"
    "rows = [] \<and> st = InsertTransaction (ingest_transaction_row p e s) \<or>
      (\<exists>r. rows = [r] \<and> transaction_identity_matches r p e s \<and>
        st = UpdateTransaction (pe_transaction_id e) (outcome_name (pe_outcome e)) (sint (pe_resolved_at e)))"
proof -
  consider (fresh) "rows = []" "insert_transaction (session_driver sha256 api wire) p e s w = (Ok (), w')"
    | (known) r where "rows = [r]" "transaction_identity_matches r p e s"
      "update_transaction (session_driver sha256 api wire) e w = (Ok (), w')"
    using assms(1) by (auto simp: resolve_transaction_def run_value_def split: list.splits if_splits)
  then show ?thesis
  proof cases
    case fresh
    then obtain n where ex: "dr_execute (session_driver sha256 api wire)
        (InsertTransaction (ingest_transaction_row p e s)) w = (Ok n, w')"
      by (auto simp: insert_transaction_def result_simps)
    obtain w1 v v' where sel: "session_select sha256 api wire w = (Ok v, w1)"
      and ran: "ingest_execute wire (InsertTransaction (ingest_transaction_row p e s)) v = Ok (n, v')"
      and w': "w' = w1\<lparr> is_pending := is_pending w @ [InsertTransaction (ingest_transaction_row p e s)] \<rparr>"
        "session_ok wire w'" "\<And>db0. stands w' db0 = stands w1 db0"
      by (rule session_execute_Ok [OF ex assms(2)]) iprover
    have "n = 1" by (rule insert_count [OF _ ran]) simp
    then show ?thesis
      by (intro that [OF sel _ w']) (use ran fresh in simp_all)
  next
    case known
    then have ex: "dr_execute (session_driver sha256 api wire) (UpdateTransaction (pe_transaction_id e)
        (outcome_name (pe_outcome e)) (sint (pe_resolved_at e))) w = (Ok 1, w')"
      by (auto simp: update_transaction_def result_simps ensure_def split: if_splits)
    obtain w1 v v' where sel: "session_select sha256 api wire w = (Ok v, w1)"
      and ran: "ingest_execute wire (UpdateTransaction (pe_transaction_id e)
        (outcome_name (pe_outcome e)) (sint (pe_resolved_at e))) v = Ok (1, v')"
      and w': "w' = w1\<lparr> is_pending := is_pending w @ [UpdateTransaction (pe_transaction_id e)
        (outcome_name (pe_outcome e)) (sint (pe_resolved_at e))] \<rparr>"
        "session_ok wire w'" "\<And>db0. stands w' db0 = stands w1 db0"
      by (rule session_execute_Ok [OF ex assms(2)]) iprover
    show ?thesis
      by (rule that [OF sel ran w']) (use known in simp)
  qed
qed

lemma resolve_transaction_alone:
  assumes "keys_ok v0" "identities v \<subseteq> identities v0" "ingest_execute wire st v0 = Ok (m, v0')"
    and "rows = conflicting_rows (pe_transaction_id e) (pi_reader_id p) s v"
    and "rows = [] \<and> st = InsertTransaction (ingest_transaction_row p e s) \<or>
      (\<exists>r. rows = [r] \<and> transaction_identity_matches r p e s \<and>
        st = UpdateTransaction (pe_transaction_id e) (outcome_name (pe_outcome e)) (sint (pe_resolved_at e)))"
  shows "resolve_transaction (alone_driver wire) p e s
    (conflicting_rows (pe_transaction_id e) (pi_reader_id p) s v0) v0 = (Ok (), v0')"
  using assms(5)
proof (elim disjE conjE exE)
  assume st: "st = InsertTransaction (ingest_transaction_row p e s)"
  then have "conflicting_rows (pe_transaction_id e) (pi_reader_id p) s v0 = []"
    using inserted_no_conflict [of wire "ingest_transaction_row p e s" v0] assms(3)
    by (simp add: ingest_transaction_row_def)
  then show ?thesis
    using assms(3) st by (simp add: resolve_transaction_def insert_transaction_def run_next_def run_mapped_def
        run_value_def alone_driver_def del: ingest_execute.simps)
next
  fix r
  assume r: "rows = [r]" "transaction_identity_matches r p e s"
    and st: "st = UpdateTransaction (pe_transaction_id e) (outcome_name (pe_outcome e)) (sint (pe_resolved_at e))"
  have "set (conflicting_rows (pe_transaction_id e) (pi_reader_id p) s v) = {r}"
    using r(1) assms(4) by simp
  then have "r \<in> set (in_transactions v)"
    by (auto simp: conflicting_rows_def)
  then have "transaction_identity r \<in> identities v0"
    using assms(2) by (auto simp: identities_def)
  then obtain r0 where "r0 \<in> set (in_transactions v0)" "transaction_identity r0 = transaction_identity r"
    by (auto simp: identities_def)
  then have r0: "r0 \<in> set (in_transactions v0)" "transaction_identity_matches r0 p e s"
    using r(2) by (auto simp: transaction_identity_def transaction_identity_matches_def)
  then have "conflicting_rows (pe_transaction_id e) (pi_reader_id p) s v0 = [r0]"
    using assms(1) by (intro conflicting_rows_unique) (auto simp: transaction_identity_matches_def)
  moreover have "m = 1"
    by (rule updated_count [OF assms(1) r0(1) _ assms(3) [unfolded st]])
      (use r0(2) in \<open>simp add: transaction_identity_matches_def\<close>)
  ultimately show ?thesis
    using assms(3) st r0(2) by (simp add: resolve_transaction_def update_transaction_def run_next_def run_mapped_def
        run_value_def alone_driver_def del: ingest_execute.simps)
qed

lemma mirrors_resolve [mirrors_intros]:
  fixes wire :: "'j WireJson"
  shows "mirrors wire
    (run_next (run_mapped g (dr_select (session_driver sha256 api wire))) (\<lambda>db.
      resolve_transaction (session_driver sha256 api wire) p e s
        (conflicting_rows (pe_transaction_id e) (pi_reader_id p) s db)))
    (run_next (run_mapped g (dr_select (alone_driver wire))) (\<lambda>db.
      resolve_transaction (alone_driver wire) p e s
        (conflicting_rows (pe_transaction_id e) (pi_reader_id p) s db)))"
    (is "mirrors wire ?session ?alone")
proof (rule mirrorsI)
  fix w x w'
  assume "?session w = (Ok x, w')" and ok: "session_ok wire w"
  then obtain v w0 where sel0: "session_select sha256 api wire w = (Ok v, w0)"
    and res: "resolve_transaction (session_driver sha256 api wire) p e s
        (conflicting_rows (pe_transaction_id e) (pi_reader_id p) s v) w0 = (Ok (), w')"
    by (auto simp: result_simps session_driver_def)
  note read0 = session_select_Ok [OF sel0 ok]
  obtain w1 u u' st where sel: "session_select sha256 api wire w0 = (Ok u, w1)"
    and w': "w' = w1\<lparr> is_pending := is_pending w0 @ [st] \<rparr>" "session_ok wire w'" "\<And>db0. stands w' db0 = stands w1 db0"
    and kind: "conflicting_rows (pe_transaction_id e) (pi_reader_id p) s v = [] \<and>
        st = InsertTransaction (ingest_transaction_row p e s) \<or>
      (\<exists>r. conflicting_rows (pe_transaction_id e) (pi_reader_id p) s v = [r] \<and> transaction_identity_matches r p e s \<and>
        st = UpdateTransaction (pe_transaction_id e) (outcome_name (pe_outcome e)) (sint (pe_resolved_at e)))"
    by (rule resolve_transaction_Ok [OF res read0(1)]) blast
  note read = session_select_Ok [OF sel read0(1)]
  have "?alone v0 = (Ok x, v0')" if fin: "stands w' db0" "ingest_execute_all wire (is_pending w) db0 = Some v0"
    "ingest_execute_all wire [st] v0 = Some v0'" for db0 v0 v0'
  proof -
    obtain m where m: "ingest_execute wire st v0 = Ok (m, v0')" using fin(3) unfolding execute_all_single by blast
    have "stands w0 db0" using fin(1) w'(3) read(4) by blast
    then have grows: "ingest_grows (is_db w0) db0" "keys_ok db0" by (auto simp: stands_def)
    then have "keys_ok v0" using execute_all_effect [OF fin(2)] by (simp add: ingest_grows_def)
    moreover have "identities v \<subseteq> identities v0"
      using grows view_grows(2) [OF read0(5) fin(2)] by (simp add: ingest_grows_def)
    ultimately have "resolve_transaction (alone_driver wire) p e s
        (conflicting_rows (pe_transaction_id e) (pi_reader_id p) s v0) v0 = (Ok (), v0')"
      using m kind by (rule resolve_transaction_alone [OF _ _ _ refl])
    then show ?thesis by (simp add: run_next_def run_mapped_def alone_driver_def)
  qed
  then show "session_ok wire w' \<and> (\<forall>db0. stands w' db0 \<longrightarrow> stands w db0) \<and>
      (\<exists>sts. is_pending w' = is_pending w @ sts \<and>
        (\<forall>db0 v v'. stands w' db0 \<longrightarrow> ingest_execute_all wire (is_pending w) db0 = Some v \<longrightarrow>
          ingest_execute_all wire sts v = Some v' \<longrightarrow> ?alone v = (Ok x, v')))"
    using w' read(4) read0(2,4) by (auto intro!: exI [of _ "[st]"])
qed

lemma mirrors_store_transaction [mirrors_intros]:
  "mirrors wire (store_transaction (session_driver sha256 api wire) p e) (store_transaction (alone_driver wire) p e)"
  unfolding store_transaction_def resolve_transaction_def [symmetric] by (intro mirrors_intros)

lemma mirrors_store_entries:
  "mirrors wire (store_entries (session_driver sha256 api wire) p es) (store_entries (alone_driver wire) p es)"
  by (induction es) (auto intro: mirrors_intros)

section \<open>A whole call\<close>

lemma stands_self: "keys_ok (is_db w) \<Longrightarrow> stands w (is_db w)"
  by (simp add: stands_def)

lemma session_begin:
  assumes "dr_begin (session_driver sha256 api wire) w = (r, w0)"
  shows "session_reach sha256 api wire (session_closed w) w0"
    "r = Ok () \<Longrightarrow> keys_ok (is_db w) \<Longrightarrow> session_ok wire w0 \<and> is_pending w0 = [] \<and> is_locked w0 = None"
proof -
  obtain fault where adv: "session_advance sha256 api wire (session_closed w) = (fault, w0)"
    using assms by (auto simp: session_driver_def split: prod.splits)
  show "session_reach sha256 api wire (session_closed w) w0"
    by (rule advance_reach(1) [OF adv])
  show "session_ok wire w0 \<and> is_pending w0 = [] \<and> is_locked w0 = None" if "r = Ok ()" "keys_ok (is_db w)"
    using advance_reach(2,3) [OF adv] advance_ok(1) [OF adv] that(2) by (simp add: session_ok_def session_closed_def)
qed

text \<open>A validated reader stays operational for as long as the session holds its row.\<close>

lemma validate_reader_Ok:
  assumes "validate_reader (session_driver sha256 api wire) p w = (Ok (), w')"
    and ok: "session_ok wire w" "is_pending w = []"
  shows "session_ok wire w'" "is_pending w' = []"
    "stands w' db0 \<Longrightarrow> validate_reader (alone_driver wire) p db0 = (Ok (), db0)"
proof -
  obtain v w1 where sel: "session_select sha256 api wire w = (Ok v, w1)"
    and op: "reader_operational (pi_reader_id p) v = Some True"
    and w': "w' = w1\<lparr> is_locked := Some (pi_reader_id p) \<rparr>"
    using assms(1) by (auto simp: validate_reader_def session_driver_def result_simps
        split: prod.splits sum.splits option.splits bool.splits if_splits)
  note read = session_select_Ok [OF sel ok(1)]
  show "session_ok wire w'" "is_pending w' = []"
    using read(1,2) ok(2) w' by (simp_all add: session_ok_def)
  show "validate_reader (alone_driver wire) p db0 = (Ok (), db0)" if "stands w' db0"
  proof -
    have "v = is_db w1" using read(5) ok(2) by simp
    then have "reader_operational (pi_reader_id p) db0 = Some True"
      using that op w' by (simp add: stands_def)
    then show ?thesis
      by (simp add: validate_reader_def alone_driver_def run_next_def run_mapped_def run_value_def)
  qed
qed

lemma find_existing_batch_Ok:
  assumes "find_existing_batch (session_driver sha256 api wire) p w = (Ok existing, w')" "session_ok wire w"
    "is_pending w = []"
  shows "session_ok wire w'" "is_pending w' = []" "stands w' db0 \<Longrightarrow> stands w db0"
    "existing = Some b \<Longrightarrow> stands w' db0 \<Longrightarrow> find_existing_batch (alone_driver wire) p db0 = (Ok (Some b), db0)"
proof -
  obtain v where sel: "session_select sha256 api wire w = (Ok v, w')"
    and ex: "existing = find (\<lambda>b. ib_batch_id b = pi_batch_id p) (in_batches v)"
    using assms(1) by (auto simp: find_existing_batch_def session_driver_def result_simps)
  note read = session_select_Ok [OF sel assms(2)]
  show "session_ok wire w'" "is_pending w' = []" "stands w' db0 \<Longrightarrow> stands w db0"
    using read assms(3) by auto
  show "find_existing_batch (alone_driver wire) p db0 = (Ok (Some b), db0)" if "existing = Some b" "stands w' db0"
  proof -
    have b: "b \<in> set (in_batches v)" "ib_batch_id b = pi_batch_id p"
      using that(1) ex by (auto simp: find_Some_iff)
    moreover have "v = is_db w'" using read(5) assms(3) by simp
    ultimately have "b \<in> set (in_batches db0)" "distinct (map ib_batch_id (in_batches db0))"
      using that(2) by (auto simp: stands_def ingest_grows_def keys_ok_def)
    then have "find (\<lambda>b'. ib_batch_id b' = pi_batch_id p) (in_batches db0) = Some b"
      using find_unique_key b(2) by metis
    then show ?thesis
      by (simp add: find_existing_batch_def alone_driver_def run_next_def run_mapped_def run_value_def)
  qed
qed

lemma alone_execute_eq_Ok [result_simps]:
  "dr_execute (alone_driver wire) st db = (Ok n, db') \<longleftrightarrow> ingest_execute wire st db = Ok (n, db')"
  by (auto simp: alone_driver_def simp del: ingest_execute.simps split: sum.splits)

lemma alone_calls [simp]:
  "dr_begin (alone_driver wire) db = (Ok (), db)" "dr_commit (alone_driver wire) db = (Ok (), db)"
  "dr_select (alone_driver wire) db = (Ok db, db)" "dr_lock_reader (alone_driver wire) reader db = (Ok db, db)"
  by (simp_all add: alone_driver_def)

lemma ingest_batch_row_keys [simp]:
  "ib_batch_id (ingest_batch_row p f l n) = pi_batch_id p" "ib_reader_id (ingest_batch_row p f l n) = pi_reader_id p"
  by (simp_all add: ingest_batch_row_def)

lemma inserted_batch_fresh:
  assumes "insert_ingest_batch (alone_driver wire) p db = (Ok (), db')"
  shows "find_existing_batch (alone_driver wire) p db = (Ok None, db)"
proof -
  obtain f l c n where "ingest_execute wire (InsertBatch (ingest_batch_row p f l c)) db = Ok (n, db')"
    using assms by (auto simp: insert_ingest_batch_def result_simps simp del: ingest_execute.simps)
  then have "pi_batch_id p \<notin> set (map ib_batch_id (in_batches db))"
    by (auto split: if_splits)
  then have "find (\<lambda>b. ib_batch_id b = pi_batch_id p) (in_batches db) = None"
    by (simp add: find_key_None)
  then show ?thesis
    by (simp add: find_existing_batch_def alone_driver_def run_next_def run_mapped_def run_value_def)
qed

text \<open>The two ways a call gets as far as its commit, and what the commit then does.\<close>

lemma session_commit:
  assumes "dr_commit (session_driver sha256 api wire) w = (r, w')" "session_ok wire w"
  obtains w1 db where "session_reach sha256 api wire w w1" "stands w (is_db w1)"
    "ingest_execute_all wire (is_pending w) (is_db w1) = Some db" "is_script w' = is_script w1"
    "is_db w' = db \<or> r \<noteq> Ok () \<and> is_db w' = is_db w1"
proof -
  obtain fault w1 where adv: "session_advance sha256 api wire w = (fault, w1)" by fastforce
  note ok1 = advance_ok [OF adv assms(2)]
  obtain db where "session_view wire w1 = Ok db" "ingest_execute_all wire (is_pending w) (is_db w1) = Some db"
    using ok1(1) advance_reach(2) [OF adv] by (auto simp: session_ok_def session_view_def)
  moreover have "stands w (is_db w1)"
    using ok1(1) by (intro ok1(2) stands_self) (simp add: session_ok_def)
  ultimately show ?thesis
    using assms(1) adv advance_reach(1) [OF adv]
    by (intro that [of w1 db]) (auto simp: session_driver_def session_closed_def split: if_splits)
qed

text \<open>Every call that reaches its commit would do the same alone in the state it commits in.\<close>

definition commits_as :: "'j WireJson \<Rightarrow> 'j PreparedSynchronizationIngest \<Rightarrow> SynchronizationIngestDisposition
    \<Rightarrow> 'j IngestSession \<Rightarrow> bool" where
  "commits_as wire p d w \<longleftrightarrow> session_ok wire w \<and> (\<forall>db0 db. stands w db0 \<longrightarrow>
    ingest_execute_all wire (is_pending w) db0 = Some db \<longrightarrow> store_alone wire p db0 = Ok (d, db))"

lemma replay_commits_as:
  assumes "validate_reader (session_driver sha256 api wire) p w0 = (Ok (), w1)" "session_ok wire w0" "is_pending w0 = []"
    and "find_existing_batch (session_driver sha256 api wire) p w1 = (Ok (Some b), w2)"
    and "validate_existing_batch b p = Ok d"
  shows "commits_as wire p d w2"
proof -
  note reader = validate_reader_Ok [OF assms(1-3)]
  note found = find_existing_batch_Ok [OF assms(4) reader(1,2)]
  have "store_alone wire p db0 = Ok (d, db0)" if "stands w2 db0" for db0
    using reader(3) [OF found(3) [OF that]] found(4) [OF refl that] assms(5)
    by (simp add: store_alone_def store_def run_next_def run_mapped_def run_value_def)
  then show ?thesis using found(1,2) by (simp add: commits_as_def)
qed

lemma stored_commits_as:
  assumes "validate_reader (session_driver sha256 api wire) p w0 = (Ok (), w1)" "session_ok wire w0" "is_pending w0 = []"
    and "find_existing_batch (session_driver sha256 api wire) p w1 = (Ok None, w2)"
    and "insert_ingest_batch (session_driver sha256 api wire) p w2 = (Ok (), w3)"
    and "store_entries (session_driver sha256 api wire) p (pi_entries p) w3 = (Ok (), w4)"
  shows "commits_as wire p Stored w4"
proof -
  note reader = validate_reader_Ok [OF assms(1-3)]
  note found = find_existing_batch_Ok [OF assms(4) reader(1,2)]
  obtain sts where b: "session_ok wire w3" "\<And>db0. stands w3 db0 \<Longrightarrow> stands w2 db0" "is_pending w3 = is_pending w2 @ sts"
    "\<And>db0 v v'. stands w3 db0 \<Longrightarrow> ingest_execute_all wire (is_pending w2) db0 = Some v \<Longrightarrow>
      ingest_execute_all wire sts v = Some v' \<Longrightarrow> insert_ingest_batch (alone_driver wire) p v = (Ok (), v')"
    by (rule mirrorsE [OF mirrors_insert_ingest_batch assms(5) found(1)]) blast
  obtain sts' where e: "session_ok wire w4" "\<And>db0. stands w4 db0 \<Longrightarrow> stands w3 db0" "is_pending w4 = is_pending w3 @ sts'"
    "\<And>db0 v v'. stands w4 db0 \<Longrightarrow> ingest_execute_all wire (is_pending w3) db0 = Some v \<Longrightarrow>
      ingest_execute_all wire sts' v = Some v' \<Longrightarrow>
      store_entries (alone_driver wire) p (pi_entries p) v = (Ok (), v')"
    by (rule mirrorsE [OF mirrors_store_entries assms(6) b(1)]) blast
  have "store_alone wire p db0 = Ok (Stored, db)"
    if fin: "stands w4 db0" "ingest_execute_all wire (is_pending w4) db0 = Some db" for db0 db
  proof -
    have pending: "is_pending w3 = sts" using b(3) found(2) by simp
    then obtain v where v: "ingest_execute_all wire sts db0 = Some v" "ingest_execute_all wire sts' v = Some db"
      using fin(2) e(3) by (auto simp: execute_all_append bind_eq_Some_conv)
    note steps = e(2) [OF fin(1)] b(2) [OF e(2) [OF fin(1)]]
    have ins: "insert_ingest_batch (alone_driver wire) p db0 = (Ok (), v)"
      using b(4) [OF steps(1) _ v(1)] found(2) by simp
    have ents: "store_entries (alone_driver wire) p (pi_entries p) v = (Ok (), db)"
      using e(4) [OF fin(1) _ v(2)] v(1) pending by simp
    show ?thesis
      using reader(3) [OF found(3) [OF steps(2)]] inserted_batch_fresh [OF ins] ins ents
      by (simp add: store_alone_def store_def run_next_def run_mapped_def run_value_def)
  qed
  then show ?thesis using e(1) by (simp add: commits_as_def)
qed

lemma session_within:
  assumes "m w = (r, w')" "run_within (session_reach sha256 api wire) m"
  shows "session_reach sha256 api wire w w'"
  using assms by (metis run_within_def snd_conv)

lemmas session_parts =
  session_within [OF _ session.validate_reader_within]
  session_within [OF _ session.find_existing_batch_within]
  session_within [OF _ session.insert_ingest_batch_within]
  session_within [OF _ session.store_entries_within]

definition commit_operations :: "string set" where
  "commit_operations = {''finish synchronization replay'', ''commit synchronization ingest''}"

lemma reach_closed: "session_reach sha256 api wire (session_closed w) w' = session_reach sha256 api wire w w'"
  by (simp add: session_reach_def session_closed_def)

lemma session_step:
  assumes "run_next m k w1 = (r, w')" "run_within (session_reach sha256 api wire) m" "session_reach sha256 api wire w w1"
  shows "(\<exists>e. r = Err e \<and> session_reach sha256 api wire w w') \<or>
    (\<exists>x w2. m w1 = (Ok x, w2) \<and> session_reach sha256 api wire w w2 \<and> k x w2 = (r, w'))"
proof -
  obtain r1 w2 where m: "m w1 = (r1, w2)" by fastforce
  have "session_reach sha256 api wire w w2"
    using assms(3) session_within [OF m assms(2)] by (rule session_reach_trans)
  then show ?thesis using assms(1) m by (cases r1) (auto simp: run_next_def)
qed

definition ends_with :: "(bytes \<Rightarrow> bytes) \<Rightarrow> UuidApi \<Rightarrow> 'j WireJson \<Rightarrow> 'j PreparedSynchronizationIngest \<Rightarrow> 'j IngestSession
    \<Rightarrow> SynchronizationIngestPersistenceError + SynchronizationIngestDisposition \<Rightarrow> 'j IngestSession \<Rightarrow> bool" where
  "ends_with sha256 api wire p w r w' \<longleftrightarrow> (\<exists>e. r = Err e \<and> session_reach sha256 api wire w w') \<or>
    (\<exists>d wc rc operation. session_reach sha256 api wire w wc \<and> commits_as wire p d wc \<and>
      operation \<in> commit_operations \<and> dr_commit (session_driver sha256 api wire) wc = (rc, w') \<and>
      r = and_then (map_err (Ingest_database operation) rc) (\<lambda>_. Ok d))"

lemma commit_ends:
  assumes "run_next (run_mapped (Ingest_database operation) (dr_commit (session_driver sha256 api wire)))
      (\<lambda>_. run_value (Ok d)) wc = (r, w')"
    and "session_reach sha256 api wire w wc" "commits_as wire p d wc" "operation \<in> commit_operations"
  shows "ends_with sha256 api wire p w r w'"
proof -
  obtain rc w1 where "dr_commit (session_driver sha256 api wire) wc = (rc, w1)" by fastforce
  then have "w1 = w'" "r = and_then (map_err (Ingest_database operation) rc) (\<lambda>_. Ok d)"
    using assms(1) by (cases rc; auto simp: run_next_def run_mapped_def run_value_def)+
  with \<open>dr_commit _ wc = (rc, w1)\<close> show ?thesis
    using assms(2-4) unfolding ends_with_def by blast
qed

text \<open>What \<open>store\<close> does once it knows whether the batch is stored already.\<close>

definition finish_store ::
  "('j, 'w) IngestDriver \<Rightarrow> 'j PreparedSynchronizationIngest \<Rightarrow> 'j IngestBatchRow option
    \<Rightarrow> ('w, SynchronizationIngestPersistenceError, SynchronizationIngestDisposition) fallible" where
  "finish_store D p existing_batch =
    (case existing_batch of
      Some existing \<Rightarrow>
        run_next (run_value (validate_existing_batch existing p)) (\<lambda>disposition.
        run_next (run_mapped (Ingest_database ''finish synchronization replay'') (dr_commit D)) (\<lambda>_.
        run_value (Ok disposition)))
    | None \<Rightarrow>
        run_next (insert_ingest_batch D p) (\<lambda>_.
        run_next (store_entries D p (pi_entries p)) (\<lambda>_.
        run_next (run_mapped (Ingest_database ''commit synchronization ingest'') (dr_commit D)) (\<lambda>_.
        run_value (Ok Stored)))))"

lemma store_eq:
  "store D p = run_next (run_mapped (Ingest_database ''begin synchronization ingest'') (dr_begin D)) (\<lambda>_.
    run_next (validate_reader D p) (\<lambda>_. run_next (find_existing_batch D p) (finish_store D p)))"
  unfolding store_def finish_store_def by (rule refl)

lemma found_ends:
  assumes found: "find_existing_batch (session_driver sha256 api wire) p w1 = (Ok existing, w2)"
    and reach: "session_reach sha256 api wire w w2"
    and v1: "validate_reader (session_driver sha256 api wire) p w0 = (Ok (), w1)" "session_ok wire w0" "is_pending w0 = []"
    and run: "finish_store (session_driver sha256 api wire) p existing w2 = (r, w')"
  shows "ends_with sha256 api wire p w r w'"
proof (cases existing)
  case (Some b)
  show ?thesis
  proof (cases "validate_existing_batch b p")
    case (Inl e)
    then have "r = Err e" "w' = w2"
      using run by (simp_all add: Some run_next_def run_value_def finish_store_def)
    then show ?thesis using reach by (simp add: ends_with_def)
  next
    case (Inr d)
    have "commits_as wire p d w2"
      using replay_commits_as [OF v1 found [unfolded Some] Inr] .
    then show ?thesis
      using run Some Inr by (intro commit_ends [OF _ reach]) (auto simp: finish_store_def run_next_def run_value_def commit_operations_def)
  qed
next
  case None
  note run = run [unfolded None finish_store_def option.case]
  consider (failed) e where "r = Err e" "session_reach sha256 api wire w w'"
    | (inserted) w3 where "insert_ingest_batch (session_driver sha256 api wire) p w2 = (Ok (), w3)"
      "session_reach sha256 api wire w w3"
      "run_next (store_entries (session_driver sha256 api wire) p (pi_entries p)) (\<lambda>_.
        run_next (run_mapped (Ingest_database ''commit synchronization ingest'')
          (dr_commit (session_driver sha256 api wire))) (\<lambda>_. run_value (Ok Stored))) w3 = (r, w')"
    using session_step [OF run session.insert_ingest_batch_within reach] by auto
  then show ?thesis
  proof cases
    case inserted
    consider (failed) e where "r = Err e" "session_reach sha256 api wire w w'"
      | (entered) w4 where "store_entries (session_driver sha256 api wire) p (pi_entries p) w3 = (Ok (), w4)"
        "session_reach sha256 api wire w w4"
        "run_next (run_mapped (Ingest_database ''commit synchronization ingest'')
          (dr_commit (session_driver sha256 api wire))) (\<lambda>_. run_value (Ok Stored)) w4 = (r, w')"
      using session_step [OF inserted(3) session.store_entries_within inserted(2)] by auto
    then show ?thesis
    proof cases
      case entered
      then show ?thesis
        using stored_commits_as [OF v1 found [unfolded None] inserted(1) entered(1)]
        by (intro commit_ends [OF entered(3,2)]) (auto simp: commit_operations_def)
    qed (auto simp: ends_with_def)
  qed (auto simp: ends_with_def)
qed

lemma store_ends:
  assumes "store (session_driver sha256 api wire) p w = (r, w')" "keys_ok (is_db w)"
  shows "ends_with sha256 api wire p w r w'"
proof -
  obtain r0 w0 where begun: "dr_begin (session_driver sha256 api wire) w = (r0, w0)" by fastforce
  note start = session_begin [OF begun]
  have R0: "session_reach sha256 api wire w w0" using start(1) by (simp add: reach_closed)
  show ?thesis
  proof (cases r0)
    case (Inl e)
    then show ?thesis using assms(1) begun R0 by (auto simp: store_def run_next_def run_mapped_def ends_with_def)
  next
    case (Inr u)
    then have ok0: "session_ok wire w0" "is_pending w0 = []" using start(2) assms(2) by auto
    then have run: "run_next (validate_reader (session_driver sha256 api wire) p) (\<lambda>_.
        run_next (find_existing_batch (session_driver sha256 api wire) p)
          (finish_store (session_driver sha256 api wire) p)) w0 = (r, w')"
      using assms(1) begun Inr unfolding store_eq run_next_def [of _ _ w] by (simp add: run_mapped_def)
    consider (failed) e where "r = Err e" "session_reach sha256 api wire w w'"
      | (valid) w1 where "validate_reader (session_driver sha256 api wire) p w0 = (Ok (), w1)"
        "session_reach sha256 api wire w w1"
        "run_next (find_existing_batch (session_driver sha256 api wire) p)
          (finish_store (session_driver sha256 api wire) p) w1 = (r, w')"
      using session_step [OF run session.validate_reader_within R0] by auto
    then show ?thesis
    proof cases
      case valid
      consider (failed) e where "r = Err e" "session_reach sha256 api wire w w'"
        | (found) existing w2 where "find_existing_batch (session_driver sha256 api wire) p w1 = (Ok existing, w2)"
          "session_reach sha256 api wire w w2" "finish_store (session_driver sha256 api wire) p existing w2 = (r, w')"
        using session_step [OF valid(3) session.find_existing_batch_within valid(2)] by auto
      then show ?thesis
      proof cases
        case failed
        then show ?thesis by (simp add: ends_with_def)
      next
        case found
        then show ?thesis using found_ends valid(1) ok0 by blast
      qed
    qed (auto simp: ends_with_def)
  qed
qed

text \<open>The commit decides: the state it commits in is the state the call is equivalent in.\<close>

lemma store_serializes:
  assumes "store (session_driver sha256 api wire) p w = (r, w')" "keys_ok (is_db w)"
  shows "\<exists>ts cs db0. is_script w = ts @ is_script w' \<and> subseq cs (concat (map it_commits ts)) \<and>
    db0 = fold (other_commit_result sha256 api wire) cs (is_db w) \<and>
    (case r of
       Ok d \<Rightarrow> store_alone wire p db0 = Ok (d, is_db w')
     | Err e \<Rightarrow> is_db w' = db0 \<or>
         (\<exists>d operation. operation \<in> {''finish synchronization replay'', ''commit synchronization ingest''} \<and>
           e = Ingest_Persistence (Database operation) \<and> store_alone wire p db0 = Ok (d, is_db w')))"
proof -
  consider (failed) e where "r = Err e" "session_reach sha256 api wire w w'"
    | (committed) d wc rc operation where "session_reach sha256 api wire w wc" "commits_as wire p d wc"
      "operation \<in> commit_operations" "dr_commit (session_driver sha256 api wire) wc = (rc, w')"
      "r = and_then (map_err (Ingest_database operation) rc) (\<lambda>_. Ok d)"
    using store_ends [OF assms] unfolding ends_with_def by blast
  then show ?thesis
  proof cases
    case failed
    then show ?thesis unfolding session_reach_def by auto
  next
    case committed
    then have ok: "session_ok wire wc" by (simp add: commits_as_def)
    obtain w1 db where c: "session_reach sha256 api wire wc w1" "stands wc (is_db w1)"
      "ingest_execute_all wire (is_pending wc) (is_db w1) = Some db" "is_script w' = is_script w1"
      "is_db w' = db \<or> rc \<noteq> Ok () \<and> is_db w' = is_db w1"
      by (rule session_commit [OF committed(4) ok]) blast
    have "store_alone wire p (is_db w1) = Ok (d, db)"
      using committed(2) c(2,3) by (simp add: commits_as_def)
    moreover have "session_reach sha256 api wire w w1"
      using committed(1) c(1) by (rule session_reach_trans)
    then obtain ts cs where "is_script w = ts @ is_script w1" "subseq cs (concat (map it_commits ts))"
      "is_db w1 = fold (other_commit_result sha256 api wire) cs (is_db w)"
      unfolding session_reach_def by blast
    ultimately show ?thesis
      using c(4,5) committed(3,5) unfolding commit_operations_def
      by (intro exI [of _ ts] exI [of _ cs] exI [of _ "is_db w1"], cases rc) (auto simp: Ingest_database_def)
  qed
qed

end
