(* ===== verification/IngestInvariant.thy ===== *)
theory IngestInvariant
  imports IngestSerial
begin

text \<open>
  What the backend tables hold.  \<open>ingest_inv\<close> says that every stored batch comes from a request and an
  acknowledgement that were prepared together, that the batch has exactly their entries, in order, and that
  every entry has its transaction with the identity and the fingerprint the request gave it.
\<close>

section \<open>The rows of a prepared batch\<close>

definition prepared_batch_row :: "'j PreparedSynchronizationIngest \<Rightarrow> 'j IngestBatchRow" where
  "prepared_batch_row p = ingest_batch_row p (uint (pi_first_local_sequence_number p))
    (uint (pi_last_local_sequence_number p)) (int (length (pi_entries p)))"

definition prepared_entry_row ::
  "'j PreparedSynchronizationIngest \<Rightarrow> 'j PreparedSynchronizationIngestEntry \<Rightarrow> IngestEntryRow" where
  "prepared_entry_row p e = ingest_entry_row p e (int (pe_entry_position e)) (uint (pe_local_sequence_number e))"

definition identity_of ::
  "'j PreparedSynchronizationIngest \<Rightarrow> 'j PreparedSynchronizationIngestEntry \<Rightarrow> Uuid \<times> Uuid \<times> int \<times> string" where
  "identity_of p e = (pe_transaction_id e, pi_reader_id p, uint (pe_local_sequence_number e),
    fingerprint_to_hex (pe_transaction_fingerprint e))"

lemma Ingest_sequence_to_i64_eq_Ok [result_simps]:
  "Ingest_sequence_to_i64 v field = Ok k \<longleftrightarrow> k = uint v \<and> uint v \<le> i64_max"
  by (auto simp: Ingest_sequence_to_i64_def result_simps)

lemma count_to_i32_eq_Ok [result_simps]: "count_to_i32 n field = Ok k \<longleftrightarrow> k = int n \<and> int n \<le> 2147483647"
  by (auto simp: count_to_i32_def)

lemma identity_of_row: "transaction_identity (ingest_transaction_row p e (uint (pe_local_sequence_number e))) = identity_of p e"
  by (simp add: transaction_identity_def ingest_transaction_row_def identity_of_def)

lemma matching_identity:
  "transaction_identity_matches r p e (uint (pe_local_sequence_number e)) \<longleftrightarrow> transaction_identity r = identity_of p e"
  by (auto simp: transaction_identity_matches_def transaction_identity_def identity_of_def)

section \<open>Effects of a call alone\<close>

fun kept_entries :: "'j IngestStatement \<Rightarrow> IngestEntryRow list" where
  "kept_entries (InsertEntry row) = [row]"
| "kept_entries _ = []"

fun kept_batches :: "'j IngestStatement \<Rightarrow> 'j IngestBatchRow list" where
  "kept_batches (InsertBatch row) = [row]"
| "kept_batches _ = []"

lemma execute_appends:
  assumes "ingest_execute wire st db = Ok (n, db')"
  shows "in_batches db' = in_batches db @ kept_batches st" "in_entries db' = in_entries db @ kept_entries st"
  using assms by (cases st; auto simp: Let_def split: if_splits)+

lemma store_transaction_effect:
  assumes "store_transaction (alone_driver wire) p e db = (Ok (), db')"
  shows "in_readers db' = in_readers db" "in_batches db' = in_batches db" "in_entries db' = in_entries db"
    "identities db' = identities db \<union> {identity_of p e}" "keys_ok db \<Longrightarrow> keys_ok db'"
proof -
  let ?s = "uint (pe_local_sequence_number e)"
  obtain st n where ex: "ingest_execute wire st db = Ok (n, db')"
    and st: "st = InsertTransaction (ingest_transaction_row p e ?s) \<or>
      identity_of p e \<in> identities db \<and> (\<exists>tid s t. st = UpdateTransaction tid s t)"
  proof -
    have res: "resolve_transaction (alone_driver wire) p e ?s
        (conflicting_rows (pe_transaction_id e) (pi_reader_id p) ?s db) db = (Ok (), db')"
      using assms unfolding store_transaction_def resolve_transaction_def [symmetric]
      by (auto simp: result_simps)
    consider (fresh) "insert_transaction (alone_driver wire) p e ?s db = (Ok (), db')"
      | (known) r where "conflicting_rows (pe_transaction_id e) (pi_reader_id p) ?s db = [r]"
        "transaction_identity_matches r p e ?s" "update_transaction (alone_driver wire) e db = (Ok (), db')"
      using res by (auto simp: resolve_transaction_def run_value_def split: list.splits if_splits)
    then show thesis
    proof cases
      case fresh
      then obtain n where "ingest_execute wire (InsertTransaction (ingest_transaction_row p e ?s)) db = Ok (n, db')"
        by (auto simp: insert_transaction_def result_simps simp del: ingest_execute.simps)
      then show thesis by (rule that) simp
    next
      case known
      have "set (conflicting_rows (pe_transaction_id e) (pi_reader_id p) ?s db) = {r}" using known(1) by simp
      then have "r \<in> set (in_transactions db)" by (auto simp: conflicting_rows_def)
      then have "identity_of p e \<in> identities db"
        using known(2) imageI [of r "set (in_transactions db)" transaction_identity]
        unfolding matching_identity identities_def by simp
      moreover obtain n where "ingest_execute wire (UpdateTransaction (pe_transaction_id e)
          (outcome_name (pe_outcome e)) (sint (pe_resolved_at e))) db = Ok (n, db')"
        using known(3) by (auto simp: update_transaction_def result_simps simp del: ingest_execute.simps)
      ultimately show thesis using that by blast
    qed
  qed
  note effect = execute_effect [OF ex] execute_appends [OF ex]
  show "in_readers db' = in_readers db" by (rule effect(1))
  show "in_batches db' = in_batches db" "in_entries db' = in_entries db"
    using effect(6,7) st by auto
  show "identities db' = identities db \<union> {identity_of p e}"
    using st
  proof (elim disjE conjE exE)
    assume "st = InsertTransaction (ingest_transaction_row p e ?s)"
    then show ?thesis using effect(3) by (simp add: identity_of_row)
  next
    fix tid s t
    assume "identity_of p e \<in> identities db" "st = UpdateTransaction tid s t"
    then show ?thesis using effect(3) by (simp add: insert_absorb)
  qed
  show "keys_ok db'" if "keys_ok db" using effect(5) [OF that] .
qed

lemma insert_entry_effect:
  assumes "insert_entry (alone_driver wire) p e db = (Ok (), db')"
  shows "in_readers db' = in_readers db" "in_batches db' = in_batches db"
    "in_entries db' = in_entries db @ [prepared_entry_row p e]" "identities db' = identities db" "keys_ok db \<Longrightarrow> keys_ok db'"
proof -
  obtain n where ex: "ingest_execute wire (InsertEntry (prepared_entry_row p e)) db = Ok (n, db')"
    using assms by (auto simp: insert_entry_def result_simps prepared_entry_row_def simp del: ingest_execute.simps)
  note effect = execute_effect [OF ex] execute_appends [OF ex]
  show "in_readers db' = in_readers db" "in_batches db' = in_batches db"
    "in_entries db' = in_entries db @ [prepared_entry_row p e]" "identities db' = identities db" "keys_ok db \<Longrightarrow> keys_ok db'"
    using effect by simp_all
qed

lemma store_entries_effect:
  assumes "store_entries (alone_driver wire) p es db = (Ok (), db')"
  shows "in_readers db' = in_readers db \<and> in_batches db' = in_batches db \<and>
    in_entries db' = in_entries db @ map (prepared_entry_row p) es \<and>
    identities db' = identities db \<union> identity_of p ` set es \<and> (keys_ok db \<longrightarrow> keys_ok db')"
  using assms
proof (induction es arbitrary: db)
  case Nil
  then show ?case by (simp add: run_value_def)
next
  case (Cons e es)
  then obtain db1 db2 where "store_transaction (alone_driver wire) p e db = (Ok (), db1)"
    "insert_entry (alone_driver wire) p e db1 = (Ok (), db2)" "store_entries (alone_driver wire) p es db2 = (Ok (), db')"
    by (auto simp: result_simps)
  then show ?case
    using store_transaction_effect [of wire p e db db1] insert_entry_effect [of wire p e db1 db2] Cons.IH [of db2]
    by auto
qed

lemma store_alone_Stored:
  assumes "store_alone wire p db = Ok (Stored, db')"
  shows "in_readers db' = in_readers db" "in_batches db' = in_batches db @ [prepared_batch_row p]"
    "in_entries db' = in_entries db @ map (prepared_entry_row p) (pi_entries p)"
    "identities db' = identities db \<union> identity_of p ` set (pi_entries p)" "keys_ok db \<Longrightarrow> keys_ok db'"
    "pi_batch_id p \<notin> ib_batch_id ` set (in_batches db)"
    "reader_operational (pi_reader_id p) db = Some True"
proof -
  have run: "store (alone_driver wire) p db = (Ok Stored, db')"
    using assms by (auto simp: store_alone_def result_simps split: prod.splits)
  obtain db1 where valid: "reader_operational (pi_reader_id p) db = Some True"
    and ins: "insert_ingest_batch (alone_driver wire) p db = (Ok (), db1)"
    and ents: "store_entries (alone_driver wire) p (pi_entries p) db1 = (Ok (), db')"
    using run unfolding store_def
    by (auto simp: result_simps validate_reader_def find_existing_batch_def validate_existing_batch_def
        split: option.splits bool.splits if_splits)
  obtain n where ex: "ingest_execute wire (InsertBatch (prepared_batch_row p)) db = Ok (n, db1)"
    using ins by (auto simp: insert_ingest_batch_def result_simps prepared_batch_row_def simp del: ingest_execute.simps)
  note effect = execute_effect [OF ex] execute_appends [OF ex] store_entries_effect [OF ents]
  show "in_readers db' = in_readers db" "in_batches db' = in_batches db @ [prepared_batch_row p]"
    "in_entries db' = in_entries db @ map (prepared_entry_row p) (pi_entries p)"
    "identities db' = identities db \<union> identity_of p ` set (pi_entries p)" "keys_ok db \<Longrightarrow> keys_ok db'"
    using effect by simp_all
  show "pi_batch_id p \<notin> ib_batch_id ` set (in_batches db)"
    using ex by (auto simp: prepared_batch_row_def split: if_splits)
  show "reader_operational (pi_reader_id p) db = Some True" by (rule valid)
qed

lemma store_alone_Replayed:
  assumes "store_alone wire p db = Ok (Replayed, db')"
  shows "db' = db" "\<exists>b \<in> set (in_batches db). ib_batch_id b = pi_batch_id p \<and> ib_reader_id b = pi_reader_id p \<and>
    ib_request_fingerprint b = fingerprint_to_hex (pi_request_fingerprint p)"
proof -
  have run: "store (alone_driver wire) p db = (Ok Replayed, db')"
    using assms by (auto simp: store_alone_def result_simps split: prod.splits)
  then obtain b where b: "find (\<lambda>b. ib_batch_id b = pi_batch_id p) (in_batches db) = Some b"
    "validate_existing_batch b p = Ok Replayed" "db' = db"
    unfolding store_def by (auto simp: result_simps validate_reader_def find_existing_batch_def
        split: option.splits bool.splits if_splits)
  then show "db' = db" "\<exists>b \<in> set (in_batches db). ib_batch_id b = pi_batch_id p \<and> ib_reader_id b = pi_reader_id p \<and>
    ib_request_fingerprint b = fingerprint_to_hex (pi_request_fingerprint p)"
    by (auto simp: find_Some_iff validate_existing_batch_def split: if_splits)
qed

section \<open>The invariant\<close>

definition entries_in :: "'j IngestDb \<Rightarrow> SynchronizationBatchId \<Rightarrow> IngestEntryRow list" where
  "entries_in db bid = filter (\<lambda>e. ie_batch_id e = bid) (in_entries db)"

definition batch_backed ::
  "(bytes \<Rightarrow> bytes) \<Rightarrow> UuidApi \<Rightarrow> 'j WireJson \<Rightarrow> 'j IngestDb \<Rightarrow> SynchronizationBatchRequest
    \<Rightarrow> SynchronizationBatchAcknowledgement \<Rightarrow> 'j IngestBatchRow \<Rightarrow> bool" where
  "batch_backed sha256 api wire db request acknowledgement b \<longleftrightarrow>
    (case prepare sha256 api wire request acknowledgement of
       Err _ \<Rightarrow> False
     | Ok p \<Rightarrow> b = prepared_batch_row p \<and> entries_in db (pi_batch_id p) = map (prepared_entry_row p) (pi_entries p) \<and>
         identity_of p ` set (pi_entries p) \<subseteq> identities db)"

definition ingest_inv :: "(bytes \<Rightarrow> bytes) \<Rightarrow> UuidApi \<Rightarrow> 'j WireJson \<Rightarrow> 'j IngestDb \<Rightarrow> bool" where
  "ingest_inv sha256 api wire db \<longleftrightarrow> keys_ok db \<and>
    (\<forall>b \<in> set (in_batches db). \<exists>request acknowledgement. batch_backed sha256 api wire db request acknowledgement b) \<and>
    (\<forall>e \<in> set (in_entries db). ie_batch_id e \<in> ib_batch_id ` set (in_batches db)) \<and>
    (\<forall>(tid, reader, s, _) \<in> identities db. \<exists>e \<in> set (in_entries db).
      ie_transaction_id e = tid \<and> ie_reader_id e = reader \<and> ie_sequence e = s)"

lemma prepared_entry_row_simps [simp]:
  "ie_batch_id (prepared_entry_row p e) = pi_batch_id p" "ie_reader_id (prepared_entry_row p e) = pi_reader_id p"
  "ie_transaction_id (prepared_entry_row p e) = pe_transaction_id e"
  "ie_sequence (prepared_entry_row p e) = uint (pe_local_sequence_number e)"
  by (simp_all add: prepared_entry_row_def ingest_entry_row_def)

lemma prepared_batch_row_simps [simp]:
  "ib_batch_id (prepared_batch_row p) = pi_batch_id p" "ib_reader_id (prepared_batch_row p) = pi_reader_id p"
  "ib_request_fingerprint (prepared_batch_row p) = fingerprint_to_hex (pi_request_fingerprint p)"
  "ib_acknowledgement_json (prepared_batch_row p) = pi_acknowledgement_json p"
  by (simp_all add: prepared_batch_row_def ingest_batch_row_def)

lemma batch_backed_stable:
  assumes "batch_backed sha256 api wire db request acknowledgement b" "identities db \<subseteq> identities db'"
    "entries_in db' (ib_batch_id b) = entries_in db (ib_batch_id b)"
  shows "batch_backed sha256 api wire db' request acknowledgement b"
  using assms unfolding batch_backed_def by (auto split: sum.splits)

lemma ingest_inv_store:
  assumes inv: "ingest_inv sha256 api wire db" and p: "prepare sha256 api wire request acknowledgement = Ok p"
    and run: "store_alone wire p db = Ok (d, db')"
  shows "ingest_inv sha256 api wire db'"
proof (cases d)
  case Replayed
  then show ?thesis using store_alone_Replayed(1) run inv by metis
next
  case Stored
  note effect = store_alone_Stored [OF run [unfolded Stored]]
  have old: "entries_in db' (ib_batch_id b) = entries_in db (ib_batch_id b)" if "b \<in> set (in_batches db)" for b
  proof -
    have "ib_batch_id b \<noteq> pi_batch_id p" using effect(6) that by (metis imageI)
    then show ?thesis by (auto simp: entries_in_def effect(3) filter_empty_conv)
  qed
  have "ie_batch_id e \<noteq> pi_batch_id p" if "e \<in> set (in_entries db)" for e
    using inv effect(6) that unfolding ingest_inv_def by metis
  then have "entries_in db (pi_batch_id p) = []"
    by (simp add: entries_in_def filter_empty_conv)
  then have own: "entries_in db' (pi_batch_id p) = map (prepared_entry_row p) (pi_entries p)"
    by (simp add: entries_in_def effect(3) filter_empty_conv comp_def)
  have "\<exists>request acknowledgement. batch_backed sha256 api wire db' request acknowledgement b"
    if "b \<in> set (in_batches db')" for b
  proof (cases "b \<in> set (in_batches db)")
    case True
    then obtain rq ak where "batch_backed sha256 api wire db rq ak b" using inv by (auto simp: ingest_inv_def)
    then show ?thesis using batch_backed_stable [OF _ _ old [OF True]] effect(4) by blast
  next
    case False
    then have "b = prepared_batch_row p" using that effect(2) by auto
    then have "batch_backed sha256 api wire db' request acknowledgement b"
      using own effect(4) p by (simp add: batch_backed_def)
    then show ?thesis by blast
  qed
  moreover have "case i of (tid, reader, s, _) \<Rightarrow> \<exists>e \<in> set (in_entries db').
      ie_transaction_id e = tid \<and> ie_reader_id e = reader \<and> ie_sequence e = s" if new: "i \<in> identities db'" for i
  proof (cases "i \<in> identities db")
    case True
    then have "case i of (tid, reader, s, _) \<Rightarrow> \<exists>e \<in> set (in_entries db).
        ie_transaction_id e = tid \<and> ie_reader_id e = reader \<and> ie_sequence e = s"
      using inv unfolding ingest_inv_def by blast
    then show ?thesis by (cases i) (auto simp: effect(3))
  next
    case False
    then obtain e where "e \<in> set (pi_entries p)" "i = identity_of p e" using new effect(4) by auto
    then show ?thesis by (auto simp: identity_of_def effect(3) intro!: bexI [of _ "prepared_entry_row p e"])
  qed
  ultimately show ?thesis
    using inv effect(2,3,5) by (auto simp: ingest_inv_def)
qed

lemma put_reader_tables [simp]:
  "in_batches (put_reader row db) = in_batches db" "in_entries (put_reader row db) = in_entries db"
  "identities (put_reader row db) = identities db" "keys_ok (put_reader row db) = keys_ok db"
  by (simp_all add: put_reader_def identities_def keys_ok_def)

lemma ingest_inv_other:
  assumes "ingest_inv sha256 api wire db"
  shows "ingest_inv sha256 api wire (other_commit_result sha256 api wire c db)"
proof (cases c)
  case (OtherBatch request acknowledgement)
  then show ?thesis using assms ingest_inv_store by (auto split: sum.split)
next
  case (OtherReader row)
  have "batch_backed sha256 api wire (put_reader row db) = batch_backed sha256 api wire db"
    by (simp add: batch_backed_def fun_eq_iff entries_in_def split: sum.split)
  then show ?thesis using assms OtherReader by (simp add: ingest_inv_def)
qed

lemma ingest_inv_others:
  "ingest_inv sha256 api wire db \<Longrightarrow> ingest_inv sha256 api wire (fold (other_commit_result sha256 api wire) cs db)"
  by (induction cs arbitrary: db) (auto intro: ingest_inv_other)

lemma ingest_inv_keys: "ingest_inv sha256 api wire db \<Longrightarrow> keys_ok db"
  by (simp add: ingest_inv_def)

text \<open>A call in a session, as a lemma the services build on.\<close>

lemma session_store_effect:
  assumes run: "store (session_driver sha256 api wire) p w = (r, w')" and keys: "keys_ok (is_db w)"
  obtains cs db0 where "db0 = fold (other_commit_result sha256 api wire) cs (is_db w)"
    "set cs \<subseteq> \<Union> (set ` it_commits ` set (is_script w))" "set (is_script w') \<subseteq> set (is_script w)"
    "is_db w' = db0 \<and> isl r \<or> (\<exists>d. store_alone wire p db0 = Ok (d, is_db w') \<and> (r = Ok d \<or> isl r))"
proof -
  obtain ts cs db0 where h: "is_script w = ts @ is_script w'" "subseq cs (concat (map it_commits ts))"
    "db0 = fold (other_commit_result sha256 api wire) cs (is_db w)"
    and res: "case r of Ok d \<Rightarrow> store_alone wire p db0 = Ok (d, is_db w')
     | Err e \<Rightarrow> is_db w' = db0 \<or>
         (\<exists>d operation. operation \<in> {''finish synchronization replay'', ''commit synchronization ingest''} \<and>
           e = Ingest_Persistence (Database operation) \<and> store_alone wire p db0 = Ok (d, is_db w'))"
    using store_serializes [OF run keys] by blast
  have "set cs \<subseteq> set (concat (map it_commits ts))"
    using list_emb_set [OF h(2)] by blast
  moreover have "is_db w' = db0 \<and> isl r \<or> (\<exists>d. store_alone wire p db0 = Ok (d, is_db w') \<and> (r = Ok d \<or> isl r))"
    using res by (cases r) auto
  ultimately show thesis using h by (intro that [of db0 cs]) auto
qed

lemma session_store_inv:
  assumes run: "store (session_driver sha256 api wire) p w = (r, w')" and inv: "ingest_inv sha256 api wire (is_db w)"
    and p: "prepare sha256 api wire request acknowledgement = Ok p"
  shows "ingest_inv sha256 api wire (is_db w')"
proof -
  obtain cs db0 where db0: "db0 = fold (other_commit_result sha256 api wire) cs (is_db w)"
    and res: "is_db w' = db0 \<and> isl r \<or> (\<exists>d. store_alone wire p db0 = Ok (d, is_db w') \<and> (r = Ok d \<or> isl r))"
    by (rule session_store_effect [OF run ingest_inv_keys [OF inv]]) blast
  have "ingest_inv sha256 api wire db0" unfolding db0 using inv by (rule ingest_inv_others)
  then show ?thesis using res ingest_inv_store [OF _ p] by auto
qed

section \<open>A backend for evaluation\<close>

text \<open>
  A JSON dialect that carries values as they are, a UUID rendering and a hash that forget their
  argument, and a backend with one active reader.
\<close>

definition plain_wire :: "(SynchronizationBatchRequest + SynchronizationBatchAcknowledgement) WireJson" where
  "plain_wire = \<lparr> json_parse = (\<lambda>_. Some (Inl example_request)), json_is_object = (\<lambda>_. True),
    json_to_string = (\<lambda>_. Some (ascii ''{}'')), request_to_value = (\<lambda>r. Some (Inl r)),
    acknowledgement_to_value = (\<lambda>a. Some (Inr a)),
    acknowledgement_from_value = (\<lambda>v. case v of Inl _ \<Rightarrow> None | Inr a \<Rightarrow> Some a), jsonb_accepts = (\<lambda>_. True) \<rparr>"

definition blank_uuid_api :: UuidApi where
  "blank_uuid_api = \<lparr> uuid_is_nil = (\<lambda>u. u = 0), uuid_is_rfc4122 = (\<lambda>_. True), uuid_is_sort_rand = (\<lambda>_. True),
    uuid_parse = (\<lambda>_. None), uuid_to_string = (\<lambda>_. ''id'') \<rparr>"

definition zero_hash :: "bytes \<Rightarrow> bytes" where
  "zero_hash _ = replicate 32 0"

definition small_request :: SynchronizationBatchRequest where
  "small_request = \<lparr> rq_protocol_version = 1, rq_environment_id = ascii ''local'', rq_reader_id = 0x70008000000000000001,
    rq_reader_software_version = ascii ''1'', rq_batch_id = 0x70008000000000000002,
    rq_first_local_sequence_number = 4, rq_last_local_sequence_number = 4, rq_submitted_at_unix_milliseconds = 10,
    rq_entries = [\<lparr> re_transaction_id = 0x70008000000000000003, re_local_sequence_number = 4, re_transaction_envelope = ascii ''{}'' \<rparr>] \<rparr>"

definition quiet_backend :: "(SynchronizationBatchRequest + SynchronizationBatchAcknowledgement) IngestSession" where
  "quiet_backend = \<lparr> is_db = \<lparr> in_readers = [\<lparr> reader_row_id = 0x70008000000000000001, reader_row_key_id = 1,
        reader_row_status = ''active'', reader_row_disablement_reason = None, reader_row_revocation_reason = None,
        reader_row_version = 1 \<rparr>], in_batches = [], in_transactions = [], in_entries = [] \<rparr>,
      is_pending = [], is_locked = None, is_script = [] \<rparr>"

definition small_acknowledgement :: SynchronizationBatchAcknowledgement where
  "small_acknowledgement = \<lparr> ak_protocol_version = 1, ak_environment_id = ascii ''local'',
    ak_reader_id = 0x70008000000000000001, ak_batch_id = 0x70008000000000000002,
    ak_first_local_sequence_number = 4, ak_last_local_sequence_number = 4, ak_received_at_unix_milliseconds = 20,
    ak_replayed = False, ak_entries = [\<lparr> ae_transaction_id = 0x70008000000000000003, ae_local_sequence_number = 4,
      ae_outcome = Acknowledged, ae_failure_category = None, ae_next_retry_at = None \<rparr>] \<rparr>"

definition small_prepared ::
  "(SynchronizationBatchRequest + SynchronizationBatchAcknowledgement) PreparedSynchronizationIngest" where
  "small_prepared = projr (prepare zero_hash blank_uuid_api plain_wire small_request small_acknowledgement)"

definition busy_backend :: "(SynchronizationBatchRequest + SynchronizationBatchAcknowledgement) IngestSession" where
  "busy_backend = quiet_backend\<lparr> is_script := [\<lparr> it_commits = [], it_fault = NoFault \<rparr>,
    \<lparr> it_commits = [], it_fault = NoFault \<rparr>, \<lparr> it_commits = [], it_fault = NoFault \<rparr>,
    \<lparr> it_commits = [OtherBatch small_request small_acknowledgement], it_fault = NoFault \<rparr>] \<rparr>"

lemma ingest_inv_no_batches:
  assumes "in_batches db = []" "in_transactions db = []" "in_entries db = []"
  shows "ingest_inv sha256 api wire db"
  using assms by (simp add: ingest_inv_def keys_ok_def identities_def)

section \<open>Properties\<close>

text \<open>
  C9. Storing a batch is serializable: whatever other sessions commit between the statements of a call
  and whichever driver call fails, a call that returns a disposition has done exactly what it would
  have done alone on the committed state at its commit (all of the batch, or nothing
  for a replay), and a call that fails has changed nothing, unless the answer to its commit was lost
  after the whole batch had been committed.
\<close>

theorem ingest_serializable:
  assumes "store (session_driver sha256 api wire) p w = (r, w')" "keys_ok (is_db w)"
  shows "\<exists>ts cs db0. is_script w = ts @ is_script w' \<and> subseq cs (concat (map it_commits ts)) \<and>
    db0 = fold (other_commit_result sha256 api wire) cs (is_db w) \<and>
    (case r of
       Ok d \<Rightarrow> store_alone wire p db0 = Ok (d, is_db w')
     | Err e \<Rightarrow> is_db w' = db0 \<or>
         (\<exists>d operation. operation \<in> {''finish synchronization replay'', ''commit synchronization ingest''} \<and>
           e = Ingest_Persistence (Database operation) \<and> store_alone wire p db0 = Ok (d, is_db w')))"
  using assms by (rule store_serializes)


theorem ingest_serializable_witness:
  "\<exists>r w'. store (session_driver zero_hash blank_uuid_api plain_wire) small_prepared busy_backend = (r, w') \<and>
    isl r \<and> keys_ok (is_db busy_backend) \<and>
    (\<exists>ts cs. is_script busy_backend = ts @ is_script w' \<and> subseq cs (concat (map it_commits ts)) \<and>
      is_db w' = fold (other_commit_result zero_hash blank_uuid_api plain_wire) cs (is_db busy_backend))"
proof -
  define rw where "rw = store (session_driver zero_hash blank_uuid_api plain_wire) small_prepared busy_backend"
  have err: "fst rw = Err (Ingest_Persistence (WriteConditionFailed ''synchronization ingest batch''))"
    unfolding rw_def by code_simp
  have keys: "keys_ok (is_db busy_backend)" by code_simp
  obtain r w' where run: "store (session_driver zero_hash blank_uuid_api plain_wire) small_prepared busy_backend = (r, w')"
    by fastforce
  from ingest_serializable [OF run keys] show ?thesis
    using run keys err unfolding rw_def by fastforce
qed

end
