(* ===== verification/Telemetry.thy ===== *)
theory Telemetry
  imports Protocol
begin

text \<open>
  The synchronization telemetry of \<open>crates/telemetry/src/lib.rs\<close>: atomic counters that wrap at 64
  bits, and the snapshot the health endpoint serves.  Increments of atomics commute, so
  concurrent recorders are covered by the sequences of \<open>record_*\<close> calls.
\<close>

record SynchronizationOutcomeCounts =
  oc_acknowledged :: u64
  oc_retryable_failure :: u64
  oc_permanent_failure :: u64
  oc_manual_review :: u64

record SynchronizationFailureCounts =
  fc_network_timeout :: u64
  fc_connection_failure :: u64
  fc_response_decode_failure :: u64
  fc_payload_too_large :: u64
  fc_unsupported_protocol :: u64
  fc_reader_not_registered :: u64
  fc_reader_not_operational :: u64
  fc_environment_mismatch :: u64
  fc_batch_identity_conflict :: u64
  fc_batch_range_mismatch :: u64
  fc_entry_order_mismatch :: u64
  fc_transaction_identity_conflict :: u64
  fc_backend_temporarily_unavailable :: u64
  fc_backend_validation_failure :: u64
  fc_manual_review_required :: u64

record SynchronizationTelemetrySnapshot =
  ts_requests_total :: u64
  ts_acknowledgements_total :: u64
  ts_entries_total :: u64
  ts_request_failures_total :: u64
  ts_outcomes :: SynchronizationOutcomeCounts
  ts_failures :: SynchronizationFailureCounts

definition OUTCOME_COUNT :: nat where "OUTCOME_COUNT = 4"

definition FAILURE_COUNT :: nat where "FAILURE_COUNT = 15"

fun outcome_index :: "SynchronizationEntryOutcome \<Rightarrow> nat" where
  "outcome_index Acknowledged = 0"
| "outcome_index RetryableFailure = 1"
| "outcome_index PermanentFailure = 2"
| "outcome_index ManualReview = 3"

fun failure_index :: "SynchronizationFailureCategory \<Rightarrow> nat" where
  "failure_index NetworkTimeout = 0"
| "failure_index ConnectionFailure = 1"
| "failure_index ResponseDecodeFailure = 2"
| "failure_index PayloadTooLarge = 3"
| "failure_index UnsupportedProtocol = 4"
| "failure_index ReaderNotRegistered = 5"
| "failure_index ReaderNotOperational = 6"
| "failure_index EnvironmentMismatch = 7"
| "failure_index BatchIdentityConflict = 8"
| "failure_index BatchRangeMismatch = 9"
| "failure_index EntryOrderMismatch = 10"
| "failure_index TransactionIdentityConflict = 11"
| "failure_index BackendTemporarilyUnavailable = 12"
| "failure_index BackendValidationFailure = 13"
| "failure_index ManualReviewRequired = 14"

record SynchronizationTelemetry =
  tl_requests_total :: u64
  tl_acknowledgements_total :: u64
  tl_entries_total :: u64
  tl_request_failures_total :: u64
  tl_outcome_counts :: "u64 list"
  tl_failure_counts :: "u64 list"

definition SynchronizationTelemetry_new :: SynchronizationTelemetry where
  "SynchronizationTelemetry_new =
    \<lparr> tl_requests_total = 0, tl_acknowledgements_total = 0, tl_entries_total = 0,
      tl_request_failures_total = 0, tl_outcome_counts = replicate OUTCOME_COUNT 0,
      tl_failure_counts = replicate FAILURE_COUNT 0 \<rparr>"

definition increment :: "u64 \<Rightarrow> u64" where
  "increment counter = counter + 1"

definition increment_at :: "nat \<Rightarrow> u64 list \<Rightarrow> u64 list" where
  "increment_at i counters = counters[i := increment (counters ! i)]"

definition record_request_started :: "SynchronizationTelemetry \<Rightarrow> SynchronizationTelemetry" where
  "record_request_started t = t\<lparr> tl_requests_total := increment (tl_requests_total t) \<rparr>"

definition record_entry_outcome ::
  "SynchronizationEntryOutcome \<Rightarrow> SynchronizationTelemetry \<Rightarrow> SynchronizationTelemetry" where
  "record_entry_outcome outcome t =
    t\<lparr> tl_entries_total := increment (tl_entries_total t),
       tl_outcome_counts := increment_at (outcome_index outcome) (tl_outcome_counts t) \<rparr>"

definition record_acknowledgement ::
  "SynchronizationBatchAcknowledgement \<Rightarrow> SynchronizationTelemetry \<Rightarrow> SynchronizationTelemetry" where
  "record_acknowledgement a t =
    fold (\<lambda>e. record_entry_outcome (ae_outcome e)) (ak_entries a)
      (t\<lparr> tl_acknowledgements_total := increment (tl_acknowledgements_total t) \<rparr>)"

definition record_request_failure ::
  "SynchronizationFailureCategory \<Rightarrow> SynchronizationTelemetry \<Rightarrow> SynchronizationTelemetry" where
  "record_request_failure category t =
    t\<lparr> tl_request_failures_total := increment (tl_request_failures_total t),
       tl_failure_counts := increment_at (failure_index category) (tl_failure_counts t) \<rparr>"

definition load_outcome :: "SynchronizationTelemetry \<Rightarrow> nat \<Rightarrow> u64" where
  "load_outcome t i = tl_outcome_counts t ! i"

definition load_failure :: "SynchronizationTelemetry \<Rightarrow> nat \<Rightarrow> u64" where
  "load_failure t i = tl_failure_counts t ! i"

definition snapshot :: "SynchronizationTelemetry \<Rightarrow> SynchronizationTelemetrySnapshot" where
  "snapshot t =
    \<lparr> ts_requests_total = tl_requests_total t,
      ts_acknowledgements_total = tl_acknowledgements_total t,
      ts_entries_total = tl_entries_total t,
      ts_request_failures_total = tl_request_failures_total t,
      ts_outcomes =
        \<lparr> oc_acknowledged = load_outcome t 0, oc_retryable_failure = load_outcome t 1,
          oc_permanent_failure = load_outcome t 2, oc_manual_review = load_outcome t 3 \<rparr>,
      ts_failures =
        \<lparr> fc_network_timeout = load_failure t 0, fc_connection_failure = load_failure t 1,
          fc_response_decode_failure = load_failure t 2, fc_payload_too_large = load_failure t 3,
          fc_unsupported_protocol = load_failure t 4, fc_reader_not_registered = load_failure t 5,
          fc_reader_not_operational = load_failure t 6, fc_environment_mismatch = load_failure t 7,
          fc_batch_identity_conflict = load_failure t 8, fc_batch_range_mismatch = load_failure t 9,
          fc_entry_order_mismatch = load_failure t 10,
          fc_transaction_identity_conflict = load_failure t 11,
          fc_backend_temporarily_unavailable = load_failure t 12,
          fc_backend_validation_failure = load_failure t 13,
          fc_manual_review_required = load_failure t 14 \<rparr> \<rparr>"

section \<open>Lemmas\<close>

text \<open>The calls of a recorder, and which field of a snapshot belongs to a classification.\<close>

datatype TelemetryCall =
    RequestStarted
  | AcknowledgementRecorded SynchronizationBatchAcknowledgement
  | RequestFailed SynchronizationFailureCategory

fun telemetry_call :: "TelemetryCall \<Rightarrow> SynchronizationTelemetry \<Rightarrow> SynchronizationTelemetry" where
  "telemetry_call RequestStarted = record_request_started"
| "telemetry_call (AcknowledgementRecorded a) = record_acknowledgement a"
| "telemetry_call (RequestFailed category) = record_request_failure category"

fun outcome_field :: "SynchronizationEntryOutcome \<Rightarrow> SynchronizationOutcomeCounts \<Rightarrow> u64" where
  "outcome_field Acknowledged = oc_acknowledged"
| "outcome_field RetryableFailure = oc_retryable_failure"
| "outcome_field PermanentFailure = oc_permanent_failure"
| "outcome_field ManualReview = oc_manual_review"

fun failure_field :: "SynchronizationFailureCategory \<Rightarrow> SynchronizationFailureCounts \<Rightarrow> u64" where
  "failure_field NetworkTimeout = fc_network_timeout"
| "failure_field ConnectionFailure = fc_connection_failure"
| "failure_field ResponseDecodeFailure = fc_response_decode_failure"
| "failure_field PayloadTooLarge = fc_payload_too_large"
| "failure_field UnsupportedProtocol = fc_unsupported_protocol"
| "failure_field ReaderNotRegistered = fc_reader_not_registered"
| "failure_field ReaderNotOperational = fc_reader_not_operational"
| "failure_field EnvironmentMismatch = fc_environment_mismatch"
| "failure_field BatchIdentityConflict = fc_batch_identity_conflict"
| "failure_field BatchRangeMismatch = fc_batch_range_mismatch"
| "failure_field EntryOrderMismatch = fc_entry_order_mismatch"
| "failure_field TransactionIdentityConflict = fc_transaction_identity_conflict"
| "failure_field BackendTemporarilyUnavailable = fc_backend_temporarily_unavailable"
| "failure_field BackendValidationFailure = fc_backend_validation_failure"
| "failure_field ManualReviewRequired = fc_manual_review_required"

definition outcomes_recorded :: "TelemetryCall list \<Rightarrow> SynchronizationEntryOutcome list" where
  "outcomes_recorded calls = concat (map (\<lambda>c. case c of
    AcknowledgementRecorded a \<Rightarrow> map ae_outcome (ak_entries a) | _ \<Rightarrow> []) calls)"

definition failures_recorded :: "TelemetryCall list \<Rightarrow> SynchronizationFailureCategory list" where
  "failures_recorded calls = concat (map (\<lambda>c. case c of RequestFailed f \<Rightarrow> [f] | _ \<Rightarrow> []) calls)"

definition acknowledgements_recorded :: "TelemetryCall list \<Rightarrow> nat" where
  "acknowledgements_recorded calls = length (filter (\<lambda>c. case c of AcknowledgementRecorded _ \<Rightarrow> True | _ \<Rightarrow> False) calls)"

definition telemetry_shape :: "SynchronizationTelemetry \<Rightarrow> bool" where
  "telemetry_shape t \<longleftrightarrow> length (tl_outcome_counts t) = OUTCOME_COUNT \<and> length (tl_failure_counts t) = FAILURE_COUNT"

lemma index_bounds: "outcome_index x < OUTCOME_COUNT" "failure_index c < FAILURE_COUNT"
  by (cases x; simp add: OUTCOME_COUNT_def) (cases c; simp add: FAILURE_COUNT_def)

lemma index_inject: "outcome_index x = outcome_index y \<longleftrightarrow> x = y" "failure_index c = failure_index d \<longleftrightarrow> c = d"
  by (cases x; cases y; simp) (cases c; cases d; simp)

lemma snapshot_fields:
  "outcome_field x (ts_outcomes (snapshot t)) = tl_outcome_counts t ! outcome_index x"
  "failure_field c (ts_failures (snapshot t)) = tl_failure_counts t ! failure_index c"
  by (cases x; simp add: snapshot_def load_outcome_def) (cases c; simp add: snapshot_def load_failure_def)

lemma increment_at_nth:
  "i < length xs \<Longrightarrow> increment_at j xs ! i = (if i = j then xs ! i + 1 else xs ! i)"
  by (auto simp: increment_at_def increment_def)

lemma increment_at_length [simp]: "length (increment_at i xs) = length xs"
  by (simp add: increment_at_def)

lemma record_outcomes:
  assumes "telemetry_shape t" "t' = fold (\<lambda>e. record_entry_outcome (ae_outcome e)) es t"
  shows "telemetry_shape t' \<and> tl_entries_total t' = tl_entries_total t + of_nat (length es) \<and>
    tl_outcome_counts t' ! outcome_index x =
      tl_outcome_counts t ! outcome_index x + of_nat (count_list (map ae_outcome es) x) \<and>
    tl_requests_total t' = tl_requests_total t \<and> tl_acknowledgements_total t' = tl_acknowledgements_total t \<and>
    tl_request_failures_total t' = tl_request_failures_total t \<and> tl_failure_counts t' = tl_failure_counts t"
  using assms
proof (induction es arbitrary: t)
  case (Cons e es)
  have "telemetry_shape (record_entry_outcome (ae_outcome e) t)"
    using Cons.prems by (simp add: telemetry_shape_def record_entry_outcome_def)
  note IH = Cons.IH [OF this]
  have t': "t' = fold (\<lambda>e. record_entry_outcome (ae_outcome e)) es (record_entry_outcome (ae_outcome e) t)"
    using Cons.prems(2) by simp
  show ?case
    using IH [OF t'] Cons.prems(1) index_bounds(1) [of x]
    by (auto simp: record_entry_outcome_def telemetry_shape_def increment_at_nth index_inject increment_def algebra_simps)
qed (simp add: telemetry_shape_def)

lemma telemetry_counts:
  assumes "telemetry_shape t" "t' = fold telemetry_call calls t"
  shows "telemetry_shape t' \<and>
    tl_requests_total t' = tl_requests_total t + of_nat (count_list calls RequestStarted) \<and>
    tl_acknowledgements_total t' = tl_acknowledgements_total t + of_nat (acknowledgements_recorded calls) \<and>
    tl_entries_total t' = tl_entries_total t + of_nat (length (outcomes_recorded calls)) \<and>
    tl_request_failures_total t' = tl_request_failures_total t + of_nat (length (failures_recorded calls)) \<and>
    tl_outcome_counts t' ! outcome_index x =
      tl_outcome_counts t ! outcome_index x + of_nat (count_list (outcomes_recorded calls) x) \<and>
    tl_failure_counts t' ! failure_index c =
      tl_failure_counts t ! failure_index c + of_nat (count_list (failures_recorded calls) c)"
  using assms
proof (induction calls arbitrary: t)
  case (Cons call calls)
  have shape: "telemetry_shape (telemetry_call call t)"
  proof (cases call)
    case (AcknowledgementRecorded a)
    then show ?thesis
      using Cons.prems(1) record_outcomes [OF _ refl, of "t\<lparr> tl_acknowledgements_total := increment (tl_acknowledgements_total t) \<rparr>" "ak_entries a"]
      by (auto simp: telemetry_shape_def record_acknowledgement_def)
  qed (use Cons.prems(1) in \<open>simp_all add: telemetry_shape_def record_request_started_def record_request_failure_def\<close>)
  have "t' = fold telemetry_call calls (telemetry_call call t)" using Cons.prems(2) by simp
  note IH = Cons.IH [OF shape this]
  show ?case
  proof (cases call)
    case RequestStarted
    then show ?thesis using IH
      by (simp add: record_request_started_def increment_def outcomes_recorded_def failures_recorded_def
          acknowledgements_recorded_def)
  next
    case (AcknowledgementRecorded a)
    have "telemetry_shape (t\<lparr> tl_acknowledgements_total := increment (tl_acknowledgements_total t) \<rparr>)"
      using Cons.prems by (simp add: telemetry_shape_def)
    from record_outcomes [OF this refl, of "ak_entries a" x] show ?thesis using IH AcknowledgementRecorded
      by (simp add: record_acknowledgement_def increment_def outcomes_recorded_def failures_recorded_def
          acknowledgements_recorded_def algebra_simps)
  next
    case (RequestFailed f)
    then show ?thesis using IH Cons.prems(1) index_bounds(2) [of c]
      by (auto simp: record_request_failure_def increment_def outcomes_recorded_def failures_recorded_def
          acknowledgements_recorded_def telemetry_shape_def increment_at_nth index_inject)
  qed
qed (simp add: outcomes_recorded_def failures_recorded_def acknowledgements_recorded_def)

section \<open>Properties\<close>

text \<open>
  C37. A snapshot of the telemetry counts exactly: whatever calls were recorded, every total, every outcome
  counter and every failure counter is the number of matching calls, modulo the 64 bits of a counter.
\<close>

theorem telemetry_counts_exact:
  "ts_requests_total (snapshot (fold telemetry_call calls SynchronizationTelemetry_new)) =
      of_nat (count_list calls RequestStarted) \<and>
    ts_acknowledgements_total (snapshot (fold telemetry_call calls SynchronizationTelemetry_new)) =
      of_nat (acknowledgements_recorded calls) \<and>
    ts_entries_total (snapshot (fold telemetry_call calls SynchronizationTelemetry_new)) =
      of_nat (length (outcomes_recorded calls)) \<and>
    ts_request_failures_total (snapshot (fold telemetry_call calls SynchronizationTelemetry_new)) =
      of_nat (length (failures_recorded calls)) \<and>
    (\<forall>x. outcome_field x (ts_outcomes (snapshot (fold telemetry_call calls SynchronizationTelemetry_new))) =
      of_nat (count_list (outcomes_recorded calls) x)) \<and>
    (\<forall>c. failure_field c (ts_failures (snapshot (fold telemetry_call calls SynchronizationTelemetry_new))) =
      of_nat (count_list (failures_recorded calls) c))"
proof -
  have "telemetry_shape SynchronizationTelemetry_new"
    by (simp add: telemetry_shape_def SynchronizationTelemetry_new_def)
  from telemetry_counts [OF this refl, of calls] show ?thesis
    unfolding snapshot_fields using index_bounds
    by (simp add: snapshot_def SynchronizationTelemetry_new_def)
qed

end
