(* ===== verification/ApiService.thy ===== *)
theory ApiService
  imports IngestInvariant Telemetry
begin

text \<open>
  The backend service: \<open>apps/api/src/synchronization_service.rs\<close> and the handlers of
  \<open>apps/api/src/lib.rs\<close>.  A request body that the web framework has already refused is a status
  code; a header map is a list of lower-case names with the bytes of their values, the first of
  a name being the one \<open>get\<close> returns.  The clock is an argument.
\<close>

section \<open>The synchronization service\<close>

datatype SynchronizationServiceError =
    Service_UnsupportedProtocol
  | Service_EnvironmentMismatch
  | Service_ReaderNotRegistered
  | Service_ReaderNotOperational
  | Service_BatchIdentityConflict
  | Service_TransactionIdentityConflict
  | Service_BackendTemporarilyUnavailable
  | Service_IngestRecord
  | Service_Protocol SynchronizationProtocolError

fun service_failure_category :: "SynchronizationServiceError \<Rightarrow> SynchronizationFailureCategory" where
  "service_failure_category Service_UnsupportedProtocol = UnsupportedProtocol"
| "service_failure_category Service_EnvironmentMismatch = EnvironmentMismatch"
| "service_failure_category Service_ReaderNotRegistered = ReaderNotRegistered"
| "service_failure_category Service_ReaderNotOperational = ReaderNotOperational"
| "service_failure_category Service_BatchIdentityConflict = BatchIdentityConflict"
| "service_failure_category Service_TransactionIdentityConflict = TransactionIdentityConflict"
| "service_failure_category Service_BackendTemporarilyUnavailable = BackendTemporarilyUnavailable"
| "service_failure_category Service_IngestRecord = BackendValidationFailure"
| "service_failure_category (Service_Protocol _) = BackendValidationFailure"

definition validate_request_context ::
  "SynchronizationBatchRequest \<Rightarrow> ProtocolEnvironmentId \<Rightarrow> SynchronizationServiceError + unit" where
  "validate_request_context request environment =
    (if rq_protocol_version request \<noteq> DeviceProtocolVersion_CURRENT then Err Service_UnsupportedProtocol
     else if rq_environment_id request \<noteq> environment then Err Service_EnvironmentMismatch
     else Ok ())"

definition build_acknowledgement ::
  "SynchronizationBatchRequest \<Rightarrow> i64 \<Rightarrow> SynchronizationServiceError + SynchronizationBatchAcknowledgement" where
  "build_acknowledgement request received_at =
    and_then (map_err Service_Protocol (collect_results (\<lambda>e.
      SynchronizationAcknowledgementEntry_new (re_transaction_id e) (re_local_sequence_number e)
        Acknowledged None None) (rq_entries request))) (\<lambda>entries.
    map_err Service_Protocol (SynchronizationBatchAcknowledgement_new
      \<lparr> ak_protocol_version = rq_protocol_version request,
        ak_environment_id = rq_environment_id request,
        ak_reader_id = rq_reader_id request,
        ak_batch_id = rq_batch_id request,
        ak_first_local_sequence_number = rq_first_local_sequence_number request,
        ak_last_local_sequence_number = rq_last_local_sequence_number request,
        ak_received_at_unix_milliseconds = received_at,
        ak_replayed = False,
        ak_entries = entries \<rparr>))"

fun map_ingest_error :: "SynchronizationIngestPersistenceError \<Rightarrow> SynchronizationServiceError" where
  "map_ingest_error (Ingest_ReaderNotRegistered _) = Service_ReaderNotRegistered"
| "map_ingest_error (Ingest_ReaderNotOperational _) = Service_ReaderNotOperational"
| "map_ingest_error (Ingest_BatchIdentityConflict _) = Service_BatchIdentityConflict"
| "map_ingest_error (Ingest_TransactionIdentityConflict _) = Service_TransactionIdentityConflict"
| "map_ingest_error (Ingest_Persistence _) = Service_BackendTemporarilyUnavailable"

definition process ::
  "(bytes \<Rightarrow> bytes) \<Rightarrow> UuidApi \<Rightarrow> 'j WireJson \<Rightarrow> ProtocolEnvironmentId \<Rightarrow> SynchronizationBatchRequest \<Rightarrow> i64
    \<Rightarrow> ('j IngestSession, SynchronizationServiceError, SynchronizationBatchAcknowledgement) fallible" where
  "process sha256 api wire environment request received_at =
    run_next (run_value (validate_request_context request environment)) (\<lambda>_.
    run_next (run_value (build_acknowledgement request received_at)) (\<lambda>acknowledgement.
    run_next (run_value (map_err (\<lambda>_. Service_IngestRecord)
      (prepare sha256 api wire request acknowledgement))) (\<lambda>prepared.
    run_next (run_mapped map_ingest_error (store (session_driver sha256 api wire) prepared)) (\<lambda>disposition.
    case disposition of
      Stored \<Rightarrow> run_value (Ok acknowledgement)
    | Replayed \<Rightarrow>
        run_next (run_mapped map_ingest_error
          (load_acknowledgement wire (session_load sha256 api wire) (rq_batch_id request))) (\<lambda>stored.
        run_value (ok_or (map_option (with_replayed True) stored)
          Service_BackendTemporarilyUnavailable))))))"

section \<open>The HTTP interface\<close>

type_synonym StatusCode = nat
type_synonym HeaderMap = "(string \<times> bytes) list"

abbreviation "STATUS_OK \<equiv> 200 :: nat"
abbreviation "STATUS_BAD_REQUEST \<equiv> 400 :: nat"
abbreviation "STATUS_REQUEST_TIMEOUT \<equiv> 408 :: nat"
abbreviation "STATUS_CONFLICT \<equiv> 409 :: nat"
abbreviation "STATUS_PAYLOAD_TOO_LARGE \<equiv> 413 :: nat"
abbreviation "STATUS_UNSUPPORTED_MEDIA_TYPE \<equiv> 415 :: nat"
abbreviation "STATUS_UNPROCESSABLE_ENTITY \<equiv> 422 :: nat"
abbreviation "STATUS_TOO_MANY_REQUESTS \<equiv> 429 :: nat"
abbreviation "STATUS_BAD_GATEWAY \<equiv> 502 :: nat"
abbreviation "STATUS_SERVICE_UNAVAILABLE \<equiv> 503 :: nat"
abbreviation "STATUS_GATEWAY_TIMEOUT \<equiv> 504 :: nat"

datatype ResponseBody =
    HealthResponse string
  | ApiErrorResponse string string
  | AcknowledgementResponse SynchronizationBatchAcknowledgement
  | TelemetryResponse SynchronizationTelemetrySnapshot

record Response =
  response_status :: StatusCode
  response_body :: ResponseBody

record 'j ApiState =
  as_session :: "'j IngestSession"
  as_telemetry :: SynchronizationTelemetry

definition api_error_response :: "StatusCode \<Rightarrow> string \<Rightarrow> string \<Rightarrow> Response" where
  "api_error_response status category message =
    \<lparr> response_status = status, response_body = ApiErrorResponse category message \<rparr>"

datatype TransportValidationError =
    MissingIdempotencyKey
  | InvalidIdempotencyKey
  | MissingProtocolVersion
  | InvalidProtocolVersion
  | UnsupportedProtocolVersion

fun transport_error_message :: "TransportValidationError \<Rightarrow> string" where
  "transport_error_message MissingIdempotencyKey = ''idempotency key header is required''"
| "transport_error_message InvalidIdempotencyKey = ''idempotency key does not match the batch''"
| "transport_error_message MissingProtocolVersion = ''protocol version header is required''"
| "transport_error_message InvalidProtocolVersion = ''protocol version header does not match the body''"
| "transport_error_message UnsupportedProtocolVersion = ''protocol version is unsupported''"

fun transport_error_category :: "TransportValidationError \<Rightarrow> SynchronizationFailureCategory" where
  "transport_error_category UnsupportedProtocolVersion = UnsupportedProtocol"
| "transport_error_category _ = BackendValidationFailure"

definition transport_error_response :: "TransportValidationError \<Rightarrow> Response" where
  "transport_error_response e = api_error_response STATUS_UNPROCESSABLE_ENTITY
    (SynchronizationFailureCategory_as_str (transport_error_category e)) (transport_error_message e)"

definition ascii_lowercase :: "char \<Rightarrow> char" where
  "ascii_lowercase c = (let n = (of_char c :: nat) in if 65 \<le> n \<and> n \<le> 90 then char_of (n + 32) else c)"

definition IDEMPOTENCY_KEY_HEADER :: string where
  "IDEMPOTENCY_KEY_HEADER = ''Idempotency-Key''"

definition PROTOCOL_VERSION_HEADER :: string where
  "PROTOCOL_VERSION_HEADER = ''X-TransitGuard-Protocol-Version''"

definition header_get :: "HeaderMap \<Rightarrow> string \<Rightarrow> bytes option" where
  "header_get headers name = map_of headers (map ascii_lowercase name)"

definition header_to_str :: "bytes \<Rightarrow> string option" where
  "header_to_str value =
    (if list_all (\<lambda>b. 32 \<le> b \<and> b < 127 \<or> b = 9) value then Some (map (\<lambda>b. char_of (unat b)) value) else None)"

text \<open>\<open>str::parse::<u16>\<close>.\<close>

definition parse_digits :: "string \<Rightarrow> nat" where
  "parse_digits ds = foldl (\<lambda>n d. 10 * n + (of_char d - 48)) 0 ds"

definition parse_u16 :: "string \<Rightarrow> u16 option" where
  "parse_u16 text =
    (let digits = (case text of [] \<Rightarrow> [] | c # rest \<Rightarrow> if c = CHR ''+'' then rest else text)
     in if digits \<noteq> [] \<and> list_all (\<lambda>d. d \<in> set ''0123456789'') digits \<and> parse_digits digits \<le> 65535
        then Some (of_nat (parse_digits digits)) else None)"

definition validate_transport_headers ::
  "UuidApi \<Rightarrow> HeaderMap \<Rightarrow> SynchronizationBatchRequest \<Rightarrow> TransportValidationError + unit" where
  "validate_transport_headers api headers request =
    and_then (ok_or (header_get headers IDEMPOTENCY_KEY_HEADER) MissingIdempotencyKey) (\<lambda>key_value.
    and_then (ok_or (header_to_str key_value) InvalidIdempotencyKey) (\<lambda>key.
    if key \<noteq> identifier_to_string api (rq_batch_id request) then Err InvalidIdempotencyKey
    else
    and_then (ok_or (header_get headers PROTOCOL_VERSION_HEADER) MissingProtocolVersion) (\<lambda>version_value.
    and_then (ok_or (header_to_str version_value) InvalidProtocolVersion) (\<lambda>version_text.
    and_then (ok_or (parse_u16 version_text) InvalidProtocolVersion) (\<lambda>version.
    if version \<noteq> rq_protocol_version request then Err InvalidProtocolVersion
    else if version \<noteq> DeviceProtocolVersion_CURRENT then Err UnsupportedProtocolVersion
    else Ok ())))))"

definition json_rejection_failure_category :: "StatusCode \<Rightarrow> SynchronizationFailureCategory" where
  "json_rejection_failure_category status =
    (if status = STATUS_PAYLOAD_TOO_LARGE then PayloadTooLarge else BackendValidationFailure)"

definition json_rejection_response :: "StatusCode \<Rightarrow> Response" where
  "json_rejection_response rejection =
    (if rejection = STATUS_BAD_REQUEST
     then api_error_response STATUS_BAD_REQUEST
       (SynchronizationFailureCategory_as_str BackendValidationFailure) ''request body contains malformed JSON''
     else if rejection = STATUS_PAYLOAD_TOO_LARGE
     then api_error_response STATUS_PAYLOAD_TOO_LARGE
       (SynchronizationFailureCategory_as_str PayloadTooLarge)
       ''synchronization request body exceeds the configured limit''
     else if rejection = STATUS_UNSUPPORTED_MEDIA_TYPE
     then api_error_response STATUS_UNSUPPORTED_MEDIA_TYPE
       (SynchronizationFailureCategory_as_str BackendValidationFailure) ''content type must be application/json''
     else if rejection = STATUS_UNPROCESSABLE_ENTITY
     then api_error_response STATUS_UNPROCESSABLE_ENTITY
       (SynchronizationFailureCategory_as_str BackendValidationFailure)
       ''synchronization request body failed validation''
     else api_error_response STATUS_UNPROCESSABLE_ENTITY
       (SynchronizationFailureCategory_as_str BackendValidationFailure)
       ''synchronization request body could not be processed'')"

text \<open>The system clock in milliseconds before or after the Unix epoch.\<close>

definition current_unix_milliseconds :: "int \<Rightarrow> i64 option" where
  "current_unix_milliseconds clock = (if clock < 0 then None else i64_try_from clock)"

fun service_error_status :: "SynchronizationServiceError \<Rightarrow> StatusCode \<times> string" where
  "service_error_status Service_BatchIdentityConflict =
    (STATUS_CONFLICT, ''synchronization batch identity conflicts with stored content'')"
| "service_error_status Service_TransactionIdentityConflict =
    (STATUS_CONFLICT, ''synchronization transaction identity conflicts with stored content'')"
| "service_error_status Service_BackendTemporarilyUnavailable =
    (STATUS_SERVICE_UNAVAILABLE, ''backend synchronization dependency is unavailable'')"
| "service_error_status Service_UnsupportedProtocol =
    (STATUS_UNPROCESSABLE_ENTITY, ''protocol version is unsupported'')"
| "service_error_status Service_EnvironmentMismatch =
    (STATUS_UNPROCESSABLE_ENTITY, ''reader environment does not match the backend'')"
| "service_error_status Service_ReaderNotRegistered =
    (STATUS_UNPROCESSABLE_ENTITY, ''reader is not registered'')"
| "service_error_status Service_ReaderNotOperational =
    (STATUS_UNPROCESSABLE_ENTITY, ''reader is not operational'')"
| "service_error_status Service_IngestRecord =
    (STATUS_UNPROCESSABLE_ENTITY, ''synchronization request failed validation'')"
| "service_error_status (Service_Protocol _) =
    (STATUS_UNPROCESSABLE_ENTITY, ''synchronization request failed validation'')"

definition service_error_response :: "SynchronizationServiceError \<Rightarrow> Response" where
  "service_error_response e = (case service_error_status e of (status, message) \<Rightarrow>
    api_error_response status (SynchronizationFailureCategory_as_str (service_failure_category e)) message)"

definition liveness :: Response where
  "liveness = \<lparr> response_status = STATUS_OK, response_body = HealthResponse ''alive'' \<rparr>"

definition readiness ::
  "(bytes \<Rightarrow> bytes) \<Rightarrow> UuidApi \<Rightarrow> 'j WireJson \<Rightarrow> 'j ApiState \<Rightarrow> Response \<times> 'j ApiState" where
  "readiness sha256 api wire s =
    (case session_advance sha256 api wire (session_closed (as_session s)) of (fault, w) \<Rightarrow>
      (if fault = NoFault
       then \<lparr> response_status = STATUS_OK, response_body = HealthResponse ''ready'' \<rparr>
       else \<lparr> response_status = STATUS_SERVICE_UNAVAILABLE, response_body = HealthResponse ''database_unavailable'' \<rparr>,
       s\<lparr> as_session := w \<rparr>))"

definition synchronization_health :: "'j ApiState \<Rightarrow> Response" where
  "synchronization_health s =
    \<lparr> response_status = STATUS_OK, response_body = TelemetryResponse (snapshot (as_telemetry s)) \<rparr>"

definition fail_request :: "SynchronizationFailureCategory \<Rightarrow> 'j ApiState \<Rightarrow> 'j ApiState" where
  "fail_request category s = s\<lparr> as_telemetry := record_request_failure category (as_telemetry s) \<rparr>"

definition submit_synchronization_batch ::
  "(bytes \<Rightarrow> bytes) \<Rightarrow> UuidApi \<Rightarrow> 'j WireJson \<Rightarrow> ProtocolEnvironmentId \<Rightarrow> int \<Rightarrow> HeaderMap
    \<Rightarrow> StatusCode + SynchronizationBatchRequest \<Rightarrow> 'j ApiState \<Rightarrow> Response \<times> 'j ApiState" where
  "submit_synchronization_batch sha256 api wire environment clock headers decoded s =
    (let s = s\<lparr> as_telemetry := record_request_started (as_telemetry s) \<rparr> in
     case decoded of
       Err rejection \<Rightarrow>
         (json_rejection_response rejection, fail_request (json_rejection_failure_category rejection) s)
     | Ok request \<Rightarrow>
       (case validate_transport_headers api headers request of
          Err e \<Rightarrow> (transport_error_response e, fail_request (transport_error_category e) s)
        | Ok _ \<Rightarrow>
       (case current_unix_milliseconds clock of
          None \<Rightarrow>
            (api_error_response STATUS_SERVICE_UNAVAILABLE
               (SynchronizationFailureCategory_as_str BackendTemporarilyUnavailable)
               ''backend time source is unavailable'',
             fail_request BackendTemporarilyUnavailable s)
        | Some received_at \<Rightarrow>
       (case process sha256 api wire environment request received_at (as_session s) of
          (Ok acknowledgement, w) \<Rightarrow>
            (\<lparr> response_status = STATUS_OK, response_body = AcknowledgementResponse acknowledgement \<rparr>,
             s\<lparr> as_session := w, as_telemetry := record_acknowledgement acknowledgement (as_telemetry s) \<rparr>)
        | (Err e, w) \<Rightarrow>
            (service_error_response e, fail_request (service_failure_category e) (s\<lparr> as_session := w \<rparr>))))))"

section \<open>Lemmas\<close>

text \<open>The wire codec reads back the acknowledgements it writes.\<close>

definition wire_roundtrip :: "'j WireJson \<Rightarrow> bool" where
  "wire_roundtrip wire \<longleftrightarrow> (\<forall>a v. acknowledgement_to_value wire a = Some v \<longrightarrow> acknowledgement_from_value wire v = Some a)"

lemma others_grow: "ingest_grows db (fold (other_commit_result sha256 api wire) cs db)"
  by (induction cs arbitrary: db) (auto intro: grows_trans other_commit_grows)

lemma session_store_grows:
  assumes "store (session_driver sha256 api wire) p w = (r, w')" "keys_ok (is_db w)"
  shows "ingest_grows (is_db w) (is_db w')"
proof -
  obtain cs db0 where db0: "db0 = fold (other_commit_result sha256 api wire) cs (is_db w)"
    and res: "is_db w' = db0 \<and> isl r \<or> (\<exists>d. store_alone wire p db0 = Ok (d, is_db w') \<and> (r = Ok d \<or> isl r))"
    by (rule session_store_effect [OF assms]) blast
  have "ingest_grows (is_db w) db0" unfolding db0 by (rule others_grow)
  moreover have "ingest_grows db0 (is_db w')"
    using res store_alone_keeps [of wire p db0] unfolding keeps_readers_def by auto
  ultimately show ?thesis by (rule grows_trans)
qed

lemma session_load_effect:
  assumes "session_load sha256 api wire w = (r, w')" "ingest_inv sha256 api wire (is_db w)"
  shows "ingest_grows (is_db w) (is_db w')" "ingest_inv sha256 api wire (is_db w')" "r = Ok v \<Longrightarrow> v = is_db w'"
proof -
  obtain fault where adv: "session_advance sha256 api wire (session_closed w) = (fault, w')"
    using assms(1) by (auto simp: session_load_def session_select_def split: prod.splits)
  obtain cs where "is_db w' = fold (other_commit_result sha256 api wire) cs (is_db w)"
    using advance_reach(1) [OF adv] by (auto simp: session_reach_def session_closed_def)
  then show "ingest_grows (is_db w) (is_db w')" "ingest_inv sha256 api wire (is_db w')"
    using others_grow ingest_inv_others assms(2) by metis+
  have "is_pending w' = []" using advance_reach(2) [OF adv] by (simp add: session_closed_def)
  then show "v = is_db w'" if "r = Ok v"
    using that assms(1) adv by (auto simp: session_load_def session_select_def session_view_def split: if_splits)
qed

lemma load_acknowledgement_effect:
  assumes "load_acknowledgement wire (session_load sha256 api wire) bid w = (r, w')" "ingest_inv sha256 api wire (is_db w)"
  shows "ingest_grows (is_db w) (is_db w')" "ingest_inv sha256 api wire (is_db w')"
    "r = Ok (Some a) \<Longrightarrow> \<exists>b \<in> set (in_batches (is_db w')). ib_batch_id b = bid \<and>
      acknowledgement_from_value wire (ib_acknowledgement_json b) = Some a"
proof -
  obtain r1 where ld: "session_load sha256 api wire w = (r1, w')"
    using assms(1) by (auto simp: load_acknowledgement_def run_next_def run_mapped_def run_value_def split: prod.splits sum.splits)
  note effect = session_load_effect [OF ld assms(2)]
  show "ingest_grows (is_db w) (is_db w')" "ingest_inv sha256 api wire (is_db w')" by (fact effect)+
  assume "r = Ok (Some a)"
  then obtain v b where "r1 = Ok v" "find (\<lambda>b. ib_batch_id b = bid) (in_batches v) = Some b"
    "acknowledgement_from_value wire (ib_acknowledgement_json b) = Some a"
    using assms(1) ld by (auto simp: load_acknowledgement_def run_next_def run_mapped_def run_value_def result_simps
        split: sum.splits option.splits)
  then show "\<exists>b \<in> set (in_batches (is_db w')). ib_batch_id b = bid \<and>
      acknowledgement_from_value wire (ib_acknowledgement_json b) = Some a"
    using effect(3) by (auto simp: find_Some_iff)
qed

text \<open>The service from the call of the repository on.\<close>

definition answer_replay ::
  "(bytes \<Rightarrow> bytes) \<Rightarrow> UuidApi \<Rightarrow> 'j WireJson \<Rightarrow> SynchronizationBatchRequest
    \<Rightarrow> ('j IngestSession, SynchronizationServiceError, SynchronizationBatchAcknowledgement) fallible" where
  "answer_replay sha256 api wire request =
    run_next (run_mapped map_ingest_error
      (load_acknowledgement wire (session_load sha256 api wire) (rq_batch_id request))) (\<lambda>stored.
    run_value (ok_or (map_option (with_replayed True) stored) Service_BackendTemporarilyUnavailable))"

lemma process_stored:
  assumes "validate_request_context request environment = Ok ()" "build_acknowledgement request t = Ok a"
    "prepare sha256 api wire request a = Ok p" "store (session_driver sha256 api wire) p w = (r1, w1)"
  shows "process sha256 api wire environment request t w =
    (case r1 of Err e \<Rightarrow> (Err (map_ingest_error e), w1) | Ok d \<Rightarrow>
      (case d of Stored \<Rightarrow> (Ok a, w1) | Replayed \<Rightarrow> answer_replay sha256 api wire request w1))"
proof (cases r1)
  case (Inr d)
  then show ?thesis
    using assms by (cases d) (simp_all add: process_def answer_replay_def run_next_def [of _ _ w] run_value_def
        run_mapped_def [of _ _ w])
qed (use assms in \<open>simp add: process_def run_next_def run_value_def run_mapped_def\<close>)

lemma process_refused:
  assumes "\<nexists>a p. validate_request_context request environment = Ok () \<and> build_acknowledgement request t = Ok a \<and>
    prepare sha256 api wire request a = Ok p"
  shows "\<exists>e. process sha256 api wire environment request t w = (Err e, w)"
proof (cases "validate_request_context request environment")
  case (Inr u)
  show ?thesis
  proof (cases "build_acknowledgement request t")
    case (Inr a)
    then obtain e where "prepare sha256 api wire request a = Err e"
      using assms \<open>validate_request_context _ _ = _\<close> by (cases "prepare sha256 api wire request a") auto
    then show ?thesis
      using Inr \<open>validate_request_context _ _ = _\<close> by (simp add: process_def run_next_def run_value_def)
  qed (use Inr in \<open>simp add: process_def run_next_def run_value_def\<close>)
qed (simp add: process_def run_next_def run_value_def)

lemma answer_replay_effect:
  assumes "answer_replay sha256 api wire request w = (r, w')" "ingest_inv sha256 api wire (is_db w)"
  shows "ingest_grows (is_db w) (is_db w')" "ingest_inv sha256 api wire (is_db w')"
    "r = Ok a \<Longrightarrow> \<exists>b \<in> set (in_batches (is_db w')). \<exists>stored. ib_batch_id b = rq_batch_id request \<and>
      acknowledgement_from_value wire (ib_acknowledgement_json b) = Some stored \<and> a = with_replayed True stored"
proof -
  obtain r2 where ld: "load_acknowledgement wire (session_load sha256 api wire) (rq_batch_id request) w = (r2, w')"
    using assms(1) by (auto simp: answer_replay_def run_next_def run_mapped_def run_value_def split: prod.splits sum.splits)
  note loaded = load_acknowledgement_effect [OF ld assms(2)]
  show "ingest_grows (is_db w) (is_db w')" "ingest_inv sha256 api wire (is_db w')" by (fact loaded)+
  assume "r = Ok a"
  then obtain stored where "r2 = Ok (Some stored)" "a = with_replayed True stored"
    using assms(1) ld by (auto simp: answer_replay_def run_next_def run_mapped_def run_value_def result_simps
        split: sum.splits)
  then show "\<exists>b \<in> set (in_batches (is_db w')). \<exists>stored. ib_batch_id b = rq_batch_id request \<and>
      acknowledgement_from_value wire (ib_acknowledgement_json b) = Some stored \<and> a = with_replayed True stored"
    using loaded(3) by blast
qed

lemma process_effect:
  assumes run: "process sha256 api wire environment request t w = (r, w')" and inv: "ingest_inv sha256 api wire (is_db w)"
  shows "ingest_grows (is_db w) (is_db w') \<and> ingest_inv sha256 api wire (is_db w')"
proof (cases "\<exists>a p. validate_request_context request environment = Ok () \<and> build_acknowledgement request t = Ok a \<and>
    prepare sha256 api wire request a = Ok p")
  case False
  then show ?thesis using process_refused [OF False, of w] run inv by auto
next
  case True
  then obtain a p where ap: "validate_request_context request environment = Ok ()"
    "build_acknowledgement request t = Ok a" "prepare sha256 api wire request a = Ok p" by blast
  obtain r1 w1 where st: "store (session_driver sha256 api wire) p w = (r1, w1)" by fastforce
  note stored = session_store_grows [OF st ingest_inv_keys [OF inv]] session_store_inv [OF st inv ap(3)]
  show ?thesis
  proof (cases "r1 = Ok Replayed")
    case True
    then have "answer_replay sha256 api wire request w1 = (r, w')"
      using run process_stored [OF ap st] by simp
    then show ?thesis using grows_trans [OF stored(1)] answer_replay_effect(1,2) [OF _ stored(2)] by blast
  next
    case False
    then have "w' = w1"
      using run process_stored [OF ap st] by (auto split: sum.splits SynchronizationIngestDisposition.splits)
    then show ?thesis using stored by simp
  qed
qed

lemma prepare_fields:
  assumes "prepare sha256 api wire request acknowledgement = Ok p"
  shows "pi_batch_id p = rq_batch_id request" "pi_reader_id p = rq_reader_id request"
    "pi_request_fingerprint p = SynchronizationRequestFingerprint_calculate sha256 api request"
    "acknowledgement_to_value wire acknowledgement = Some (pi_acknowledgement_json p)"
    "validate_against_request acknowledgement request = Ok ()"
    "collect_results (prepare_entry sha256 wire acknowledgement)
      (enumerate 0 (zip (rq_entries request) (ak_entries acknowledgement))) = Ok (pi_entries p)"
  using assms by (auto simp: prepare_def result_simps)

lemma stored_batch_backed:
  assumes inv: "ingest_inv sha256 api wire db" and p: "prepare sha256 api wire request acknowledgement = Ok p"
    and run: "store_alone wire p db = Ok (Stored, db')"
  shows "prepared_batch_row p \<in> set (in_batches db') \<and> batch_backed sha256 api wire db' request acknowledgement (prepared_batch_row p)"
proof -
  note effect = store_alone_Stored [OF run]
  have "ie_batch_id e \<noteq> pi_batch_id p" if "e \<in> set (in_entries db)" for e
    using inv effect(6) that unfolding ingest_inv_def by metis
  then have "entries_in db' (pi_batch_id p) = map (prepared_entry_row p) (pi_entries p)"
    by (simp add: entries_in_def effect(3) filter_empty_conv comp_def)
  then show ?thesis using effect(2,4) p by (simp add: batch_backed_def)
qed

lemma backed_acknowledgement:
  assumes "batch_backed sha256 api wire db rq ak b" "wire_roundtrip wire"
  shows "acknowledgement_from_value wire (ib_acknowledgement_json b) = Some ak"
  using assms by (auto simp: batch_backed_def wire_roundtrip_def dest: prepare_fields(4) split: sum.splits)

lemma batch_unique:
  assumes "keys_ok db" "b \<in> set (in_batches db)" "b' \<in> set (in_batches db)" "ib_batch_id b = ib_batch_id b'"
  shows "b = b'"
proof -
  have "inj_on ib_batch_id (set (in_batches db))" using assms(1) by (simp add: keys_ok_def distinct_map)
  then show ?thesis using assms(2-4) by (blast dest: inj_onD)
qed

text \<open>A successful answer is the acknowledgement stored with the batch.\<close>

lemma process_Ok:
  assumes run: "process sha256 api wire environment request t w = (Ok a, w')"
    and inv: "ingest_inv sha256 api wire (is_db w)" and wire: "wire_roundtrip wire"
  obtains b rq ak where "b \<in> set (in_batches (is_db w'))" "batch_backed sha256 api wire (is_db w') rq ak b"
    "ib_batch_id b = rq_batch_id request" "ib_reader_id b = rq_reader_id request"
    "ib_request_fingerprint b = fingerprint_to_hex (SynchronizationRequestFingerprint_calculate sha256 api request)"
    "acknowledgement_from_value wire (ib_acknowledgement_json b) = Some ak" "a = ak \<and> rq = request \<and> rq_batch_id request \<notin> ib_batch_id ` set (in_batches (is_db w)) \<or> a = with_replayed True ak"
proof -
  obtain u p where ap: "validate_request_context request environment = Ok ()"
    "build_acknowledgement request t = Ok u" "prepare sha256 api wire request u = Ok p"
    using process_refused [of request environment t sha256 api wire w] run by fastforce
  obtain r1 w1 where st: "store (session_driver sha256 api wire) p w = (r1, w1)" by fastforce
  note kept = session_store_inv [OF st inv ap(3)]
  obtain cs db0 where db0: "db0 = fold (other_commit_result sha256 api wire) cs (is_db w)"
    and res: "is_db w1 = db0 \<and> isl r1 \<or> (\<exists>d. store_alone wire p db0 = Ok (d, is_db w1) \<and> (r1 = Ok d \<or> isl r1))"
    by (rule session_store_effect [OF st ingest_inv_keys [OF inv]]) blast
  have inv0: "ingest_inv sha256 api wire db0" unfolding db0 using inv by (rule ingest_inv_others)
  note fields = prepare_fields [OF ap(3)]
  have "\<not> isl r1" using run process_stored [OF ap st] by (cases r1) auto
  then obtain d where d: "r1 = Ok d" "store_alone wire p db0 = Ok (d, is_db w1)" using res by auto
  show thesis
  proof (cases d)
    case Stored
    then have "a = u" "w' = w1" using run process_stored [OF ap st] d(1) by simp_all
    moreover have "batch_backed sha256 api wire (is_db w1) request u (prepared_batch_row p)"
      "prepared_batch_row p \<in> set (in_batches (is_db w1))"
      using stored_batch_backed [OF inv0 ap(3)] d(2) Stored by auto
    moreover have "rq_batch_id request \<notin> ib_batch_id ` set (in_batches (is_db w))"
      using store_alone_Stored(6) [OF d(2) [unfolded Stored]] fields(1) others_grow [of "is_db w" sha256 api wire cs]
      unfolding db0 ingest_grows_def by (metis image_mono subsetD)
    ultimately show thesis
      using fields wire by (intro that [of "prepared_batch_row p" request u]) (auto simp: wire_roundtrip_def)
  next
    case Replayed
    have replay: "answer_replay sha256 api wire request w1 = (Ok a, w')"
      using run process_stored [OF ap st] d(1) Replayed by simp
    note answer = answer_replay_effect [OF replay kept]
    obtain b where b: "b \<in> set (in_batches (is_db w1))" "ib_batch_id b = pi_batch_id p" "ib_reader_id b = pi_reader_id p"
      "ib_request_fingerprint b = fingerprint_to_hex (pi_request_fingerprint p)"
      using store_alone_Replayed [OF d(2) [unfolded Replayed]] by auto
    obtain b2 stored where b2: "b2 \<in> set (in_batches (is_db w'))" "ib_batch_id b2 = rq_batch_id request"
      "acknowledgement_from_value wire (ib_acknowledgement_json b2) = Some stored" "a = with_replayed True stored"
      using answer(3) by blast
    have "b \<in> set (in_batches (is_db w'))" using b(1) answer(1) by (auto simp: ingest_grows_def)
    then have "b2 = b"
      using batch_unique [OF ingest_inv_keys [OF answer(2)]] b(2) b2(1,2) fields(1) by simp
    obtain rq ak where backed: "batch_backed sha256 api wire (is_db w') rq ak b2"
      using answer(2) b2(1) by (auto simp: ingest_inv_def)
    then have "stored = ak" using backed_acknowledgement [OF backed wire] b2(3) by simp
    then show thesis
      using that [OF b2(1) backed b2(2)] b \<open>b2 = b\<close> b2(3,4) fields by simp
  qed
qed

lemma prepare_entry_fields:
  assumes "prepare_entry sha256 wire ak (i, re, ae) = Ok y"
  shows "pe_transaction_id y = re_transaction_id re" "pe_local_sequence_number y = re_local_sequence_number re"
    "pe_transaction_fingerprint y = fingerprint_transaction_envelope sha256 (re_transaction_envelope re)"
    "pe_outcome y = ae_outcome ae"
  using assms by (auto simp: prepare_entry_def result_simps)

text \<open>What a stored batch says of each of its transactions.\<close>

lemma backed_entry:
  assumes backed: "batch_backed sha256 api wire db rq ak b" and i: "i < length (ak_entries ak)"
  shows "i < length (rq_entries rq)"
    "ae_transaction_id (ak_entries ak ! i) = re_transaction_id (rq_entries rq ! i)"
    "ae_local_sequence_number (ak_entries ak ! i) = re_local_sequence_number (rq_entries rq ! i)"
    "(re_transaction_id (rq_entries rq ! i), rq_reader_id rq, uint (re_local_sequence_number (rq_entries rq ! i)),
      fingerprint_to_hex (fingerprint_transaction_envelope sha256 (re_transaction_envelope (rq_entries rq ! i))))
      \<in> identities db"
    "\<exists>row \<in> set (in_entries db). ie_batch_id row = rq_batch_id rq \<and>
      ie_transaction_id row = ae_transaction_id (ak_entries ak ! i) \<and> ie_outcome row = outcome_name (ae_outcome (ak_entries ak ! i))"
proof -
  obtain p where p: "prepare sha256 api wire rq ak = Ok p" "entries_in db (pi_batch_id p) = map (prepared_entry_row p) (pi_entries p)"
    "identity_of p ` set (pi_entries p) \<subseteq> identities db"
    using backed by (auto simp: batch_backed_def split: sum.splits)
  note fields = prepare_fields [OF p(1)]
  have "acknowledges ak rq" using fields(5) by (simp add: validate_against_request_eq_Ok)
  then have keys: "ack_keys (ak_entries ak) = request_keys (rq_entries rq)" by (simp add: acknowledges_def)
  then have len: "length (ak_entries ak) = length (rq_entries rq)" by (rule map_eq_imp_length_eq)
  show bound: "i < length (rq_entries rq)" using i len by simp
  have "ack_keys (ak_entries ak) ! i = request_keys (rq_entries rq) ! i" using keys by simp
  then show same: "ae_transaction_id (ak_entries ak ! i) = re_transaction_id (rq_entries rq ! i)"
    "ae_local_sequence_number (ak_entries ak ! i) = re_local_sequence_number (rq_entries rq ! i)"
    using i bound by simp_all
  have all2: "list_all2 (\<lambda>x y. prepare_entry sha256 wire ak x = Ok y)
      (enumerate 0 (zip (rq_entries rq) (ak_entries ak))) (pi_entries p)"
    using fields(6) by (simp add: collect_results_eq_Ok)
  then have n: "i < length (pi_entries p)" using i len by (auto dest!: list_all2_lengthD)
  have "prepare_entry sha256 wire ak (i, rq_entries rq ! i, ak_entries ak ! i) = Ok (pi_entries p ! i)"
    using list_all2_nthD2 [OF all2 n] i bound by (simp add: nth_enumerate_eq)
  note e = prepare_entry_fields [OF this]
  have "identity_of p (pi_entries p ! i) \<in> identities db" using p(3) nth_mem [OF n] by blast
  then show "(re_transaction_id (rq_entries rq ! i), rq_reader_id rq, uint (re_local_sequence_number (rq_entries rq ! i)),
      fingerprint_to_hex (fingerprint_transaction_envelope sha256 (re_transaction_envelope (rq_entries rq ! i))))
      \<in> identities db"
    using e fields(2) by (simp add: identity_of_def)
  have "prepared_entry_row p (pi_entries p ! i) \<in> set (entries_in db (pi_batch_id p))"
    using p(2) n by simp
  then have "prepared_entry_row p (pi_entries p ! i) \<in> set (in_entries db)" by (simp add: entries_in_def)
  then show "\<exists>row \<in> set (in_entries db). ie_batch_id row = rq_batch_id rq \<and>
      ie_transaction_id row = ae_transaction_id (ak_entries ak ! i) \<and> ie_outcome row = outcome_name (ae_outcome (ak_entries ak ! i))"
    using e fields(1) same by (intro bexI [of _ "prepared_entry_row p (pi_entries p ! i)"])
      (simp_all add: prepared_entry_row_def ingest_entry_row_def)
qed

lemma backed_fields:
  assumes "batch_backed sha256 api wire db rq ak b"
  shows "ib_batch_id b = rq_batch_id rq" "ib_reader_id b = rq_reader_id rq"
  using assms by (auto simp: batch_backed_def dest: prepare_fields(1,2) split: sum.splits)

lemma with_replayed_simps [simp]:
  "ak_entries (with_replayed r a) = ak_entries a" "with_replayed r (with_replayed r' a) = with_replayed r a"
  by (simp_all add: with_replayed_def)

lemma processes_effect:
  assumes "ingest_inv sha256 api wire (is_db w)"
    and "w' = fold (\<lambda>(request, t) w. snd (process sha256 api wire environment request t w)) calls w"
  shows "ingest_grows (is_db w) (is_db w') \<and> ingest_inv sha256 api wire (is_db w')"
  using assms
proof (induction calls arbitrary: w)
  case (Cons c calls)
  obtain request t where c: "c = (request, t)" by fastforce
  obtain r w1 where run: "process sha256 api wire environment request t w = (r, w1)" by fastforce
  have "ingest_grows (is_db w1) (is_db w') \<and> ingest_inv sha256 api wire (is_db w')"
    using Cons.IH [of w1] process_effect [OF run Cons.prems(1)] Cons.prems(2) c run by simp
  then show ?case using process_effect [OF run Cons.prems(1)] grows_trans by blast
qed simp

section \<open>Properties\<close>





section \<open>Witnesses\<close>

definition local_process ::
  "i64 \<Rightarrow> (SynchronizationBatchRequest + SynchronizationBatchAcknowledgement) IngestSession
    \<Rightarrow> (SynchronizationServiceError + SynchronizationBatchAcknowledgement) \<times>
      (SynchronizationBatchRequest + SynchronizationBatchAcknowledgement) IngestSession" where
  "local_process t = process zero_hash blank_uuid_api plain_wire (ascii ''local'') small_request t"

lemma plain_wire_roundtrip: "wire_roundtrip plain_wire"
  by (auto simp: wire_roundtrip_def plain_wire_def)

lemma quiet_backend_inv: "ingest_inv zero_hash blank_uuid_api plain_wire (is_db quiet_backend)"
  by (rule ingest_inv_no_batches) (simp_all add: quiet_backend_def)

lemma local_answer: "fst (local_process 20 quiet_backend) = Ok small_acknowledgement"
  by code_simp

lemma local_replay:
  "fst (local_process 30 (snd (local_process 20 quiet_backend))) = Ok (with_replayed True small_acknowledgement)"
  by code_simp





end
