(* ===== verification/Submission.thy ===== *)
theory Submission
  imports ReaderProperties ApiService
begin

text \<open>
  The reader's side of a submission: the HTTP client of
  \<open>apps/reader-simulator/src/synchronization_transport.rs\<close> and the orchestration of
  \<open>apps/reader-simulator/src/synchronization_submission.rs\<close>.  The HTTP library, its URLs and the
  JSON encoding of messages are parameters; a response is a status, headers and the chunks its body
  arrives in, each of which may be a read failure.
\<close>

section \<open>The HTTP client\<close>

datatype SynchronizationHttpClientError =
    Http_InvalidEndpoint
  | Http_InvalidTimeout
  | Http_ClientConfiguration
  | Http_RequestEncoding
  | Http_RequestTooLarge nat nat
  | Http_Request SynchronizationFailureCategory
  | Http_HttpStatus nat SynchronizationFailureCategory
  | Http_UnexpectedContentType
  | Http_ResponseRead SynchronizationFailureCategory
  | Http_ResponseTooLarge nat nat
  | Http_ResponseDecode
  | Http_InvalidAcknowledgement SynchronizationProtocolError

fun http_failure_category :: "SynchronizationHttpClientError \<Rightarrow> SynchronizationFailureCategory" where
  "http_failure_category Http_InvalidEndpoint = BackendValidationFailure"
| "http_failure_category Http_InvalidTimeout = BackendValidationFailure"
| "http_failure_category Http_RequestEncoding = BackendValidationFailure"
| "http_failure_category Http_ClientConfiguration = ConnectionFailure"
| "http_failure_category (Http_RequestTooLarge _ _) = PayloadTooLarge"
| "http_failure_category (Http_ResponseTooLarge _ _) = PayloadTooLarge"
| "http_failure_category (Http_Request category) = category"
| "http_failure_category (Http_ResponseRead category) = category"
| "http_failure_category (Http_HttpStatus _ category) = category"
| "http_failure_category Http_UnexpectedContentType = ResponseDecodeFailure"
| "http_failure_category Http_ResponseDecode = ResponseDecodeFailure"
| "http_failure_category (Http_InvalidAcknowledgement _) = ResponseDecodeFailure"

definition MAX_SYNCHRONIZATION_REQUEST_BYTES :: nat where
  "MAX_SYNCHRONIZATION_REQUEST_BYTES = 1024 * 1024"

definition MAX_SYNCHRONIZATION_ACKNOWLEDGEMENT_BYTES :: nat where
  "MAX_SYNCHRONIZATION_ACKNOWLEDGEMENT_BYTES = 1024 * 1024"

definition SYNCHRONIZATION_BATCH_ENDPOINT :: string where
  "SYNCHRONIZATION_BATCH_ENDPOINT = ''/v1/reader-synchronization/batches''"

record 'u UrlApi =
  url_parse :: "string \<Rightarrow> 'u option"
  url_scheme :: "'u \<Rightarrow> string"
  url_username :: "'u \<Rightarrow> string"
  url_password :: "'u \<Rightarrow> string option"
  url_host_str :: "'u \<Rightarrow> string option"
  url_join :: "'u \<Rightarrow> string \<Rightarrow> 'u option"
  client_builds :: "nat \<Rightarrow> bool"

record 'u SynchronizationHttpClient =
  client_endpoint :: 'u
  maximum_acknowledgement_bytes :: nat

definition SynchronizationHttpClient_new ::
  "'u UrlApi \<Rightarrow> string \<Rightarrow> nat \<Rightarrow> SynchronizationHttpClientError + 'u SynchronizationHttpClient" where
  "SynchronizationHttpClient_new urls base_url request_timeout =
    (if request_timeout = 0 then Err Http_InvalidTimeout
     else and_then (ok_or (url_parse urls base_url) Http_InvalidEndpoint) (\<lambda>base.
       let valid_scheme = (url_scheme urls base = ''http'' \<or> url_scheme urls base = ''https'');
           contains_credentials = (url_username urls base \<noteq> [] \<or> url_password urls base \<noteq> None)
       in if \<not> valid_scheme \<or> url_host_str urls base = None \<or> contains_credentials then Err Http_InvalidEndpoint
          else and_then (ok_or (url_join urls base SYNCHRONIZATION_BATCH_ENDPOINT) Http_InvalidEndpoint) (\<lambda>endpoint.
            if \<not> client_builds urls request_timeout then Err Http_ClientConfiguration
            else Ok \<lparr> client_endpoint = endpoint,
              maximum_acknowledgement_bytes = MAX_SYNCHRONIZATION_ACKNOWLEDGEMENT_BYTES \<rparr>)))"

text \<open>An error of the HTTP library, of which the code asks only whether it is a timeout.\<close>

datatype ReqwestError = ReqwestError bool

fun is_timeout :: "ReqwestError \<Rightarrow> bool" where
  "is_timeout (ReqwestError timeout) = timeout"

record 'u HttpRequest =
  http_url :: 'u
  http_headers :: HeaderMap
  http_body :: bytes

record HttpResponse =
  http_status :: StatusCode
  http_response_headers :: HeaderMap
  http_chunks :: "(ReqwestError + bytes) list"

record MessageCodec =
  encode_request :: "SynchronizationBatchRequest \<Rightarrow> bytes option"
  decode_acknowledgement :: "bytes \<Rightarrow> SynchronizationBatchAcknowledgement option"
  decode_error_envelope :: "bytes \<Rightarrow> (string \<times> SynchronizationFailureCategory) option"

definition request_failure_category :: "ReqwestError \<Rightarrow> SynchronizationFailureCategory" where
  "request_failure_category e = (if is_timeout e then NetworkTimeout else ConnectionFailure)"

definition response_failure_category :: "ReqwestError \<Rightarrow> SynchronizationFailureCategory" where
  "response_failure_category e = (if is_timeout e then NetworkTimeout else ResponseDecodeFailure)"

text \<open>The loop of \<open>read_bounded_body\<close> over the chunks, with the body read so far.\<close>

fun read_bounded_body ::
  "nat \<Rightarrow> bytes \<Rightarrow> (ReqwestError + bytes) list \<Rightarrow> SynchronizationHttpClientError + bytes" where
  "read_bounded_body maximum_bytes body [] = Ok body"
| "read_bounded_body maximum_bytes body (Inl e # chunks) = Err (Http_ResponseRead (response_failure_category e))"
| "read_bounded_body maximum_bytes body (Inr chunk # chunks) =
    (let total_bytes = length body + length chunk in
     if 18446744073709551616 \<le> int total_bytes
     then Err (Http_ResponseTooLarge maximum_bytes 18446744073709551615)
     else if maximum_bytes < total_bytes then Err (Http_ResponseTooLarge maximum_bytes total_bytes)
     else read_bounded_body maximum_bytes (body @ chunk) chunks)"

definition TRANSITGUARD_API_SERVICE :: string where
  "TRANSITGUARD_API_SERVICE = ''transitguard-api''"

definition decode_api_error_category :: "MessageCodec \<Rightarrow> bytes \<Rightarrow> SynchronizationFailureCategory option" where
  "decode_api_error_category messages body =
    (case decode_error_envelope messages body of
       None \<Rightarrow> None
     | Some (service, category) \<Rightarrow> if service \<noteq> TRANSITGUARD_API_SERVICE then None else Some category)"

definition fallback_status_category :: "StatusCode \<Rightarrow> SynchronizationFailureCategory" where
  "fallback_status_category status =
    (if status = STATUS_REQUEST_TIMEOUT \<or> status = STATUS_GATEWAY_TIMEOUT then NetworkTimeout
     else if status = STATUS_TOO_MANY_REQUESTS \<or> status = STATUS_BAD_GATEWAY \<or> status = STATUS_SERVICE_UNAVAILABLE
     then BackendTemporarilyUnavailable
     else if status = STATUS_CONFLICT then BatchIdentityConflict
     else if status = STATUS_PAYLOAD_TOO_LARGE then PayloadTooLarge
     else if 500 \<le> status \<and> status < 600 then BackendTemporarilyUnavailable
     else BackendValidationFailure)"

definition header_trim :: "string \<Rightarrow> string" where
  "header_trim t = (let blank = (\<lambda>c. c = CHR '' '' \<or> c = CHR 0x09) in rev (dropWhile blank (rev (dropWhile blank t))))"

definition has_json_content_type :: "HeaderMap \<Rightarrow> bool" where
  "has_json_content_type headers =
    (case header_get headers ''Content-Type'' of
       None \<Rightarrow> False
     | Some value \<Rightarrow>
       (case header_to_str value of
          None \<Rightarrow> False
        | Some text \<Rightarrow>
            map ascii_lowercase (header_trim (takeWhile (\<lambda>c. c \<noteq> CHR '';'') text)) = ''application/json''))"

definition header_value :: "string \<Rightarrow> bytes" where
  "header_value t = map (\<lambda>c. of_nat (of_char c)) t"

text \<open>\<open>u16::to_string\<close>.\<close>

fun decimal :: "nat \<Rightarrow> string" where
  "decimal n = (if n < 10 then [char_of (48 + n)] else decimal (n div 10) @ [char_of (48 + n mod 10)])"

declare decimal.simps [simp del]

definition submit_headers :: "UuidApi \<Rightarrow> SynchronizationBatchRequest \<Rightarrow> HeaderMap" where
  "submit_headers api request =
    [(''accept'', header_value ''application/json''),
     (''content-type'', header_value ''application/json''),
     (map ascii_lowercase IDEMPOTENCY_KEY_HEADER, header_value (identifier_to_string api (rq_batch_id request))),
     (map ascii_lowercase PROTOCOL_VERSION_HEADER, header_value (decimal (unat (rq_protocol_version request))))]"

definition decode_response ::
  "MessageCodec \<Rightarrow> nat \<Rightarrow> SynchronizationBatchRequest \<Rightarrow> HttpResponse
    \<Rightarrow> SynchronizationHttpClientError + SynchronizationBatchAcknowledgement" where
  "decode_response messages maximum_bytes request response =
    and_then (read_bounded_body maximum_bytes [] (http_chunks response)) (\<lambda>body.
    if http_status response \<noteq> STATUS_OK
    then Err (Http_HttpStatus (http_status response)
      (case decode_api_error_category messages body of
         Some category \<Rightarrow> category
       | None \<Rightarrow> fallback_status_category (http_status response)))
    else if \<not> has_json_content_type (http_response_headers response) then Err Http_UnexpectedContentType
    else and_then (ok_or (decode_acknowledgement messages body) Http_ResponseDecode) (\<lambda>acknowledgement.
      and_then (map_err Http_InvalidAcknowledgement (validate_against_request acknowledgement request)) (\<lambda>_.
      Ok acknowledgement)))"

definition http_submit ::
  "UuidApi \<Rightarrow> MessageCodec \<Rightarrow> 'u SynchronizationHttpClient
    \<Rightarrow> ('u HttpRequest \<Rightarrow> ('n, ReqwestError, HttpResponse) fallible) \<Rightarrow> SynchronizationBatchRequest
    \<Rightarrow> ('n, SynchronizationHttpClientError, SynchronizationBatchAcknowledgement) fallible" where
  "http_submit api messages client send request =
    run_next (run_value (ok_or (encode_request messages request) Http_RequestEncoding)) (\<lambda>body.
    run_next (run_value (if MAX_SYNCHRONIZATION_REQUEST_BYTES < length body
        then Err (Http_RequestTooLarge MAX_SYNCHRONIZATION_REQUEST_BYTES (length body)) else Ok ())) (\<lambda>_.
    run_next (run_mapped (\<lambda>e. Http_Request (request_failure_category e))
      (send \<lparr> http_url = client_endpoint client, http_headers = submit_headers api request, http_body = body \<rparr>)) (\<lambda>response.
    run_value (decode_response messages (maximum_acknowledgement_bytes client) request response))))"

section \<open>Submission\<close>

datatype SynchronizationTransportFailure =
    Transport_Http SynchronizationFailureCategory SynchronizationHttpClientError
  | Transport_Classified SynchronizationFailureCategory

fun transport_category :: "SynchronizationTransportFailure \<Rightarrow> SynchronizationFailureCategory" where
  "transport_category (Transport_Http category _) = category"
| "transport_category (Transport_Classified category) = category"

definition http_transport ::
  "UuidApi \<Rightarrow> MessageCodec \<Rightarrow> 'u SynchronizationHttpClient
    \<Rightarrow> ('u HttpRequest \<Rightarrow> ('n, ReqwestError, HttpResponse) fallible) \<Rightarrow> SynchronizationBatchRequest
    \<Rightarrow> ('n, SynchronizationTransportFailure, SynchronizationBatchAcknowledgement) fallible" where
  "http_transport api messages client send request =
    run_mapped (\<lambda>source. Transport_Http (http_failure_category source) source)
      (http_submit api messages client send request)"

datatype SynchronizationFailureDisposition = Disposition_Retry | Disposition_PermanentFailure | Disposition_ManualReview

fun synchronization_failure_disposition :: "SynchronizationFailureCategory \<Rightarrow> SynchronizationFailureDisposition" where
  "synchronization_failure_disposition NetworkTimeout = Disposition_Retry"
| "synchronization_failure_disposition ConnectionFailure = Disposition_Retry"
| "synchronization_failure_disposition ResponseDecodeFailure = Disposition_Retry"
| "synchronization_failure_disposition BackendTemporarilyUnavailable = Disposition_Retry"
| "synchronization_failure_disposition PayloadTooLarge = Disposition_PermanentFailure"
| "synchronization_failure_disposition UnsupportedProtocol = Disposition_PermanentFailure"
| "synchronization_failure_disposition BackendValidationFailure = Disposition_PermanentFailure"
| "synchronization_failure_disposition ReaderNotRegistered = Disposition_ManualReview"
| "synchronization_failure_disposition ReaderNotOperational = Disposition_ManualReview"
| "synchronization_failure_disposition EnvironmentMismatch = Disposition_ManualReview"
| "synchronization_failure_disposition BatchIdentityConflict = Disposition_ManualReview"
| "synchronization_failure_disposition BatchRangeMismatch = Disposition_ManualReview"
| "synchronization_failure_disposition EntryOrderMismatch = Disposition_ManualReview"
| "synchronization_failure_disposition TransactionIdentityConflict = Disposition_ManualReview"
| "synchronization_failure_disposition ManualReviewRequired = Disposition_ManualReview"

datatype SynchronizationSubmissionResult =
    Submission_Applied bool SynchronizationAcknowledgementApplication
  | Submission_RetryScheduled SynchronizationTransportFailure SynchronizationBatch
  | Submission_PermanentFailure SynchronizationTransportFailure SynchronizationBatch
  | Submission_ManualReview SynchronizationTransportFailure SynchronizationBatch

datatype SynchronizationSubmissionError =
    Submission_Request ReaderSynchronizationRequestError
  | Submission_Acknowledgement ReaderProtocolAcknowledgementError
  | Submission_Application ReaderAcknowledgementApplicationError
  | Submission_RetryState ReaderSynchronizationStateError
  | Submission_FinalState ReaderSynchronizationFailureError

text \<open>The reader's database and telemetry, and the network it talks to.\<close>

record 'n ReaderWorld =
  rw_sqlite :: Sqlite
  rw_telemetry :: SynchronizationTelemetry
  rw_network :: 'n

definition on_sqlite ::
  "('e \<Rightarrow> SynchronizationSubmissionError) \<Rightarrow> (Sqlite \<Rightarrow> ('e + 'a) \<times> Sqlite)
    \<Rightarrow> ('n ReaderWorld, SynchronizationSubmissionError, 'a) fallible" where
  "on_sqlite err m w = (case m (rw_sqlite w) of (r, q) \<Rightarrow> (map_err err r, w\<lparr> rw_sqlite := q \<rparr>))"

definition on_telemetry ::
  "(SynchronizationTelemetry \<Rightarrow> SynchronizationTelemetry) \<Rightarrow> ('n ReaderWorld, 'e, unit) fallible" where
  "on_telemetry f w = (Ok (), w\<lparr> rw_telemetry := f (rw_telemetry w) \<rparr>)"

definition on_network :: "('n, 'e, 'a) fallible \<Rightarrow> ('n ReaderWorld, 'f, 'e + 'a) fallible" where
  "on_network m w = (case m (rw_network w) of (r, n) \<Rightarrow> (Ok r, w\<lparr> rw_network := n \<rparr>))"

definition submit_in_flight_synchronization_batch_with_telemetry ::
  "UuidApi \<Rightarrow> 'j JsonApi \<Rightarrow> (Json \<Rightarrow> ustr option)
    \<Rightarrow> (SynchronizationBatchRequest \<Rightarrow> ('n, SynchronizationTransportFailure, SynchronizationBatchAcknowledgement) fallible)
    \<Rightarrow> ReaderId \<Rightarrow> SynchronizationBatchId \<Rightarrow> UnixMs \<Rightarrow> UnixMs
    \<Rightarrow> ('n ReaderWorld, SynchronizationSubmissionError, SynchronizationSubmissionResult) fallible" where
  "submit_in_flight_synchronization_batch_with_telemetry api json render transport reader bid completed_at retry_at =
    run_next (on_sqlite Submission_Request (load_synchronization_batch_request api json reader bid)) (\<lambda>request.
    run_next (on_telemetry record_request_started) (\<lambda>_.
    run_next (on_network (transport request)) (\<lambda>answer.
    case answer of
      Ok acknowledgement \<Rightarrow>
        run_next (on_sqlite Submission_Acknowledgement
          (store_protocol_synchronization_acknowledgement api render acknowledgement)) (\<lambda>stored.
        run_next (on_telemetry (record_acknowledgement acknowledgement)) (\<lambda>_.
        run_next (on_sqlite Submission_Application (apply_synchronization_acknowledgement api reader bid
          (max completed_at (sint (ak_received_at_unix_milliseconds acknowledgement))))) (\<lambda>application.
        run_value (Ok (Submission_Applied (stored_replayed stored) application)))))
    | Err failure \<Rightarrow>
        (let category = transport_category failure;
             failure_category = ascii (SynchronizationFailureCategory_as_str category)
         in run_next (on_telemetry (record_request_failure category)) (\<lambda>_.
         case synchronization_failure_disposition category of
           Disposition_Retry \<Rightarrow>
             run_next (on_sqlite Submission_RetryState (record_synchronization_retryable_failure api reader bid
               failure_category completed_at retry_at)) (\<lambda>batch.
             run_value (Ok (Submission_RetryScheduled failure batch)))
         | Disposition_PermanentFailure \<Rightarrow>
             run_next (on_sqlite Submission_FinalState (record_synchronization_permanent_failure api reader bid
               failure_category completed_at)) (\<lambda>batch.
             run_value (Ok (Submission_PermanentFailure failure batch)))
         | Disposition_ManualReview \<Rightarrow>
             run_next (on_sqlite Submission_FinalState (record_synchronization_manual_review api reader bid
               failure_category completed_at)) (\<lambda>batch.
             run_value (Ok (Submission_ManualReview failure batch))))))))"

text \<open>\<open>submit_in_flight_synchronization_batch\<close> records into a telemetry of its own.\<close>

definition submit_in_flight_synchronization_batch ::
  "UuidApi \<Rightarrow> 'j JsonApi \<Rightarrow> (Json \<Rightarrow> ustr option)
    \<Rightarrow> (SynchronizationBatchRequest \<Rightarrow> ('n, SynchronizationTransportFailure, SynchronizationBatchAcknowledgement) fallible)
    \<Rightarrow> ReaderId \<Rightarrow> SynchronizationBatchId \<Rightarrow> UnixMs \<Rightarrow> UnixMs
    \<Rightarrow> ('n ReaderWorld, SynchronizationSubmissionError, SynchronizationSubmissionResult) fallible" where
  "submit_in_flight_synchronization_batch api json render transport reader bid completed_at retry_at w =
    (case submit_in_flight_synchronization_batch_with_telemetry api json render transport reader bid completed_at retry_at
        (w\<lparr> rw_telemetry := SynchronizationTelemetry_new \<rparr>) of
       (r, w') \<Rightarrow> (r, w'\<lparr> rw_telemetry := rw_telemetry w \<rparr>))"

section \<open>Lemmas on the client\<close>

lemma read_bounded_body_Ok:
  assumes "int maximum < 18446744073709551616" "length body \<le> maximum"
  shows "read_bounded_body maximum body chunks = Ok b \<longleftrightarrow>
    (\<exists>bs. chunks = map Inr bs \<and> b = body @ concat bs \<and> length b \<le> maximum)"
  using assms(2)
proof (induction chunks arbitrary: body)
  case (Cons c chunks)
  show ?case
  proof (cases c)
    case (Inr chunk)
    have "(\<exists>bs. c # chunks = map Inr bs \<and> b = body @ concat bs \<and> length b \<le> maximum) \<longleftrightarrow>
      (\<exists>bs. chunks = map Inr bs \<and> b = (body @ chunk) @ concat bs \<and> length b \<le> maximum)"
      using Inr by (auto simp: Cons_eq_map_conv)
    moreover have "length (body @ chunk) \<le> maximum" if "b = (body @ chunk) @ concat bs" "length b \<le> maximum" for bs
      using that by simp
    ultimately show ?thesis
      using Inr Cons assms(1) by (auto simp: Let_def)
  qed auto
qed auto

text \<open>A printable character: what a header value can hold and be read back from.\<close>

definition printable :: "char \<Rightarrow> bool" where
  "printable c \<longleftrightarrow> 32 \<le> (of_char c :: nat) \<and> (of_char c :: nat) < 127"

lemma header_roundtrip:
  assumes "list_all printable t"
  shows "header_to_str (header_value t) = Some t"
proof -
  have code: "unat (of_nat (of_char c) :: u8) = of_char c" for c :: char
    using nat_of_char_less_256 [of c] by (simp add: unat_of_nat)
  have "32 \<le> (of_nat (of_char c) :: u8) \<and> (of_nat (of_char c) :: u8) < 127" if "printable c" for c
    using that by (simp add: word_le_nat_alt word_less_nat_alt code printable_def)
  then have "list_all (\<lambda>b. 32 \<le> b \<and> b < 127 \<or> b = 9) (header_value t)"
    using assms by (auto simp: header_value_def list_all_iff)
  moreover have "map (\<lambda>b. char_of (unat b)) (header_value t) = t"
    by (simp add: header_value_def comp_def code)
  ultimately show ?thesis by (simp add: header_to_str_def)
qed

lemma decimal_digits:
  "list_all (\<lambda>d. d \<in> set ''0123456789'') (decimal n) \<and> list_all printable (decimal n) \<and> decimal n \<noteq> [] \<and>
    parse_digits (decimal n) = n"
proof (induction n rule: decimal.induct)
  case (1 n)
  have digit: "char_of (48 + k) \<in> set ''0123456789'' \<and> printable (char_of (48 + k)) \<and> of_char (char_of (48 + k) :: char) = 48 + k"
    if "k < 10" for k :: nat
  proof -
    have "map (\<lambda>k. char_of (48 + k)) [0 ..< 10 :: nat] = ''0123456789''" by code_simp
    moreover have "char_of (48 + k) \<in> set (map (\<lambda>k. char_of (48 + k)) [0 ..< 10 :: nat])" using that by auto
    moreover have "of_char (char_of (48 + k) :: char) = 48 + k" using that by (simp add: of_char_of)
    ultimately show ?thesis using that by (simp add: printable_def)
  qed
  show ?case
  proof (cases "n < 10")
    case True
    then show ?thesis using digit [OF True] by (subst (1 2 3 4) decimal.simps) (simp add: parse_digits_def)
  next
    case False
    then show ?thesis using 1 digit [of "n mod 10"]
      by (subst (1 2 3 4) decimal.simps) (simp add: parse_digits_def)
  qed
qed

lemma parse_decimal:
  assumes "n \<le> 65535"
  shows "parse_u16 (decimal n) = Some (of_nat n)"
proof -
  obtain c rest where first: "decimal n = c # rest" using decimal_digits [of n] by (cases "decimal n") auto
  then have "c \<in> set ''0123456789''" using decimal_digits [of n] by simp
  then have "c \<noteq> CHR ''+''" by auto
  then show ?thesis
    using decimal_digits [of n] first assms by (simp add: parse_u16_def)
qed

lemma client_headers:
  assumes "list_all printable (identifier_to_string api (rq_batch_id request))"
  shows "validate_transport_headers api (submit_headers api request) request =
    (if rq_protocol_version request = DeviceProtocolVersion_CURRENT then Ok () else Err UnsupportedProtocolVersion)"
proof -
  let ?version = "decimal (unat (rq_protocol_version request))"
  have names: "header_get (submit_headers api request) IDEMPOTENCY_KEY_HEADER =
      Some (header_value (identifier_to_string api (rq_batch_id request)))"
    "header_get (submit_headers api request) PROTOCOL_VERSION_HEADER = Some (header_value ?version)"
    by (simp_all add: header_get_def submit_headers_def IDEMPOTENCY_KEY_HEADER_def PROTOCOL_VERSION_HEADER_def
        ascii_lowercase_def)
  have "unat (rq_protocol_version request) \<le> 65535"
    using unsigned_less [of "rq_protocol_version request", where 'a = nat] by simp
  then have "parse_u16 ?version = Some (rq_protocol_version request)"
    using parse_decimal by simp
  then show ?thesis
    using names header_roundtrip [OF assms] header_roundtrip [of ?version] decimal_digits
    by (simp add: validate_transport_headers_def)
qed

section \<open>Properties of the client\<close>

text \<open>
  C25. A response body is read exactly, within its bound: reading succeeds exactly when no chunk fails and
  the chunks together do not exceed the limit, and then returns their concatenation; no more than the
  limit is ever accepted, however the body is split.
\<close>

theorem read_bounded_body_exact:
  "read_bounded_body MAX_SYNCHRONIZATION_ACKNOWLEDGEMENT_BYTES [] chunks = Ok body \<longleftrightarrow>
    (\<exists>bs. chunks = map Inr bs \<and> body = concat bs \<and> length body \<le> MAX_SYNCHRONIZATION_ACKNOWLEDGEMENT_BYTES)"
  using read_bounded_body_Ok [of MAX_SYNCHRONIZATION_ACKNOWLEDGEMENT_BYTES "[]" chunks body]
  by (simp add: MAX_SYNCHRONIZATION_ACKNOWLEDGEMENT_BYTES_def)

text \<open>
  C26. The client and the API agree on the headers: the API accepts the headers the client sends with a
  request of the current protocol version, and reports the unsupported version of any other, whenever
  batch identifiers are rendered in printable characters.
\<close>

theorem client_headers_accepted:
  assumes "list_all printable (identifier_to_string api (rq_batch_id request))"
  shows "validate_transport_headers api (submit_headers api request) request =
    (if rq_protocol_version request = DeviceProtocolVersion_CURRENT then Ok () else Err UnsupportedProtocolVersion)"
  using assms by (rule client_headers)

theorem client_headers_accepted_witness:
  "validate_transport_headers blank_uuid_api (submit_headers blank_uuid_api small_request) small_request = Ok ()"
proof -
  have "list_all printable (identifier_to_string blank_uuid_api (rq_batch_id small_request))"
    "rq_protocol_version small_request = DeviceProtocolVersion_CURRENT" by code_simp+
  then show ?thesis using client_headers_accepted by simp
qed

end
