(* ===== verification/Confirmation.thy ===== *)
theory Confirmation
  imports ReaderProperties
begin

text \<open>
  Where the acknowledged state of a transaction comes from.  \<open>confirmed S\<close> says that a reader database
  takes only the sequence numbers in \<open>S\<close> for acknowledged, in its queue and in the
  acknowledgements it has stored.  Every call keeps it but the storage of an acknowledgement, which keeps it
  when what the message acknowledges is in \<open>S\<close>.
\<close>

definition confirmed :: "int set \<Rightarrow> ReaderDb \<Rightarrow> bool" where
  "confirmed S db \<longleftrightarrow>
    (\<forall>q \<in> set (rd_queue db). ot_queue_state q = ''acknowledged'' \<longrightarrow> ot_sequence q \<in> S) \<and>
    (\<forall>e \<in> set (rd_ack_entries db). ar_outcome e = ''acknowledged'' \<longrightarrow> ar_sequence e \<in> S)"

definition keeps_confirmed :: "int set \<Rightarrow> ReaderDb \<Rightarrow> ReaderDb \<Rightarrow> bool" where
  "keeps_confirmed S db db' \<longleftrightarrow> (confirmed S db \<longrightarrow> confirmed S db')"

lemma confirmed_mono: "confirmed S db \<Longrightarrow> S \<subseteq> S' \<Longrightarrow> confirmed S' db"
  by (auto simp: confirmed_def)

interpretation confirms: table_preorder "keeps_confirmed S" for S
  by unfold_locales (auto simp: keeps_confirmed_def)

named_theorems confirms_intros \<open>code that keeps what is confirmed\<close>

declare confirms.closed_intros [confirms_intros]

lemma update_queue_confirms [confirms_intros]:
  assumes "\<And>r. hit r \<Longrightarrow> ot_sequence (sv r) = ot_sequence r \<and>
    (ot_queue_state (sv r) = ''acknowledged'' \<longrightarrow> ot_queue_state r = ''acknowledged'' \<or> ot_sequence r \<in> S)"
  shows "statement_in (keeps_confirmed S) (update_queue hit sv)"
  unfolding statement_in_def update_eq_Ok keeps_confirmed_def confirmed_def using assms by fastforce

lemma update_queue_where_confirms [confirms_intros]:
  assumes "\<And>db r. hit db r \<Longrightarrow> ot_sequence (sv r) = ot_sequence r \<and>
    (ot_queue_state (sv r) = ''acknowledged'' \<longrightarrow> ot_queue_state r = ''acknowledged'' \<or> ot_sequence r \<in> S)"
  shows "statement_in (keeps_confirmed S) (\<lambda>db. update_queue (hit db) sv db)"
  using update_queue_confirms [of "hit _" sv] assms unfolding statement_in_def by blast

lemma update_other_confirms [confirms_intros]:
  "statement_in (keeps_confirmed S) (update_batches hit_b sv_b)"
  "statement_in (keeps_confirmed S) (update_acknowledgements hit_a sv_a)"
  "statement_in (keeps_confirmed S) (update_reader_state hit_s sv_s)"
  by (auto simp: statement_in_def update_eq_Ok keeps_confirmed_def confirmed_def split: option.splits if_splits)

lemma insert_other_confirms [confirms_intros]:
  "statement_in (keeps_confirmed S) (insert_batch b)" "statement_in (keeps_confirmed S) (insert_batch_entry e)"
  "statement_in (keeps_confirmed S) (insert_acknowledgement a)" "statement_in (keeps_confirmed S) (insert_reader_state s)"
  by (auto simp: statement_in_def insert_batch_def insert_batch_entry_def insert_acknowledgement_def
      insert_reader_state_def keeps_confirmed_def confirmed_def split: if_splits)

lemma insert_offline_transaction_confirms [confirms_intros]:
  "ot_queue_state row \<noteq> ''acknowledged'' \<Longrightarrow> statement_in (keeps_confirmed S) (insert_offline_transaction row)"
  by (auto simp: statement_in_def insert_offline_transaction_def keeps_confirmed_def confirmed_def split: if_splits)

lemma insert_acknowledgement_entry_confirms [confirms_intros]:
  "(ar_outcome row = ''acknowledged'' \<Longrightarrow> ar_sequence row \<in> S)
    \<Longrightarrow> statement_in (keeps_confirmed S) (insert_acknowledgement_entry row)"
  by (auto simp: statement_in_def insert_acknowledgement_entry_def keeps_confirmed_def confirmed_def split: if_splits)

section \<open>The calls that acknowledge nothing\<close>

lemma assign_local_sequence_confirms [confirms_intros]:
  "statement_in (keeps_confirmed S) (assign_local_sequence reader now)"
proof -
  have "statement_in (keeps_confirmed S) (update_reader_state
      (\<lambda>r. rs_reader_id r = reader \<and> rs_next_local_sequence r < i64_max)
      (\<lambda>r. r\<lparr> rs_next_local_sequence := rs_next_local_sequence r + 1, rs_updated_at := now \<rparr>))"
    by (intro confirms_intros)
  then show ?thesis
    by (auto simp: statement_in_def assign_local_sequence_def result_simps split: prod.splits)
qed

lemma bind_reader_database_confirms: "call_in (keeps_confirmed S) (bind_reader_database api identity)"
proof -
  have "statement_in (keeps_confirmed S) (\<lambda>db. case rd_state db of None \<Rightarrow> Err Sqlite_Other | Some r \<Rightarrow> Ok (r, db))"
    by (auto simp: statement_in_def keeps_confirmed_def split: option.splits)
  then show ?thesis
    unfolding bind_reader_database_def bind_body_def by (intro confirms_intros)
qed

lemma enqueue_confirms: "call_in (keeps_confirmed S) (enqueue_offline_transaction api json reader draft)"
  unfolding enqueue_offline_transaction_def enqueue_body_def by (intro confirms_intros) (simp add: queued_row_def)

lemma and_next_Ok: "and_next (Ok x, w) k = k x w"
  by (simp add: and_next_def)

lemma transaction_state_confirms:
  "call_in (keeps_confirmed S) (mark_offline_transaction_in_flight api reader tid now)"
  "call_in (keeps_confirmed S) (record_retryable_queue_failure api reader tid category now retry_at)"
  unfolding mark_offline_transaction_in_flight_def record_retryable_queue_failure_def
  by (intro confirms_intros; simp)+

lemma transaction_failure_confirms:
  "call_in (keeps_confirmed S) (record_permanent_queue_failure api reader tid category now)"
  "call_in (keeps_confirmed S) (record_manual_review_required api reader tid category now)"
  unfolding record_permanent_queue_failure_def record_manual_review_required_def record_final_failure_def
    OfflineQueueState.case and_next_Ok
  by (intro confirms_intros; simp)+

lemma recover_confirms:
  "call_in (keeps_confirmed S) (recover_interrupted_offline_queue api reader now)"
  "call_in (keeps_confirmed S) (recover_interrupted_synchronization_batches api reader now)"
  unfolding recover_interrupted_offline_queue_def recover_interrupted_synchronization_batches_def
  by (intro confirms_intros; simp)+

lemma load_synchronization_batch_confirms [confirms_intros]:
  "call_in (keeps_confirmed S) (load_synchronization_batch api reader bid)"
  unfolding load_synchronization_batch_def Let_def by (intro confirms_intros)

lemma reserve_entry_confirms [confirms_intros]:
  "tx_in (keeps_confirmed S) (reserve_entry api reader new_id now positioned)"
  unfolding reserve_entry_def Let_def by (intro confirms_intros; simp)

lemma create_synchronization_batch_confirms:
  "call_in (keeps_confirmed S) (create_synchronization_batch api reader version new_id now limit)"
  unfolding create_synchronization_batch_def create_batch_body_def Let_def by (intro confirms_intros)

lemma mark_synchronization_batch_in_flight_confirms:
  "call_in (keeps_confirmed S) (mark_synchronization_batch_in_flight api reader bid now)"
  unfolding mark_synchronization_batch_in_flight_def mark_batch_body_def Let_def by (intro confirms_intros; simp)

lemma record_synchronization_retryable_failure_confirms:
  "call_in (keeps_confirmed S) (record_synchronization_retryable_failure api reader bid category now retry_at)"
  unfolding record_synchronization_retryable_failure_def by (intro confirms_intros; simp)

lemma final_failure_confirms:
  "call_in (keeps_confirmed S) (record_synchronization_permanent_failure api reader bid category now)"
  "call_in (keeps_confirmed S) (record_synchronization_manual_review api reader bid category now)"
  unfolding record_synchronization_permanent_failure_def record_synchronization_manual_review_def
    record_final_synchronization_failure_def final_failure_body_def Let_def
  by (intro confirms_intros; simp)+

section \<open>Acknowledgements\<close>

text \<open>A loop keeps what its body keeps on the elements it runs over.\<close>

lemma each_confirms:
  "(\<And>x. x \<in> set xs \<Longrightarrow> tx_in (keeps_confirmed S) (body x)) \<Longrightarrow> tx_in (keeps_confirmed S) (tx_each body xs)"
  by (induction xs) (auto intro: confirms_intros)

lemma insert_ack_entry_confirms:
  assumes "ra_resolution (snd positioned) = Resolution_Acknowledged \<Longrightarrow> uint (ra_sequence (snd positioned)) \<in> S"
  shows "tx_in (keeps_confirmed S) (insert_ack_entry api a positioned)"
proof -
  have "keeps_confirmed S db db'" if ran: "tx_ran (insert_ack_entry api a positioned) db = Ok (x, db')" for db x db'
  proof -
    obtain outcome category retry_at where res: "stored_resolution (ra_resolution (snd positioned)) = (outcome, category, retry_at)"
      by (cases "stored_resolution (ra_resolution (snd positioned))")
    obtain row where row: "insert_acknowledgement_entry row db = Ok (x, db')" "ar_outcome row = outcome"
      "ar_sequence row = uint (ra_sequence (snd positioned))"
      using ran unfolding insert_ack_entry_def res
      by (auto simp: tx_simps result_simps Ack_sequence_to_i64_def)
    have "ar_sequence row \<in> S" if "ar_outcome row = ''acknowledged''"
      using that row assms res by (cases "ra_resolution (snd positioned)") auto
    then show ?thesis
      using insert_acknowledgement_entry_confirms [of row S] row(1) by (auto simp: statement_in_def)
  qed
  then show ?thesis using insert_ack_entry_moves [of api a positioned] by (simp add: tx_in_def)
qed

lemma store_acknowledgement_confirms:
  assumes "\<And>e. e \<in> set (ack_entries a) \<Longrightarrow> ra_resolution e = Resolution_Acknowledged \<Longrightarrow> uint (ra_sequence e) \<in> S"
  shows "call_in (keeps_confirmed S) (store_synchronization_acknowledgement api render a)"
proof -
  have loop: "tx_in (keeps_confirmed S) (tx_each (insert_ack_entry api a) (List.enumerate 0 (ack_entries a)))"
  proof (rule each_confirms, rule insert_ack_entry_confirms)
    fix x assume "x \<in> set (List.enumerate 0 (ack_entries a))" "ra_resolution (snd x) = Resolution_Acknowledged"
    then show "uint (ra_sequence (snd x)) \<in> S" using assms by (metis imageI list.set_map map_snd_enumerate)
  qed
  then show ?thesis
    unfolding store_synchronization_acknowledgement_def store_ack_body_def Let_def
    by (intro loop confirms_intros)
qed

lemma apply_entry_confirms:
  assumes "da_resolution entry = Applied_Acknowledged \<Longrightarrow> da_sequence entry \<in> S"
  shows "tx_in (keeps_confirmed S) (apply_entry api reader now entry)"
  unfolding apply_entry_def using assms
  by (cases "da_resolution entry") (auto intro!: confirms_intros)

lemma decoded_acknowledged:
  assumes "decode_ack_entries api received_at n rows = Ok entries" "e \<in> set entries" "da_resolution e = Applied_Acknowledged"
  shows "\<exists>row \<in> set rows. ar_outcome row = ''acknowledged'' \<and> ar_sequence row = da_sequence e"
  using assms
proof (induction rows arbitrary: n entries)
  case (Cons row rows)
  obtain d rest where dec: "entries = d # rest" "decode_ack_entries api received_at (Suc n) rows = Ok rest"
      "da_resolution d = Applied_Acknowledged \<Longrightarrow> ar_outcome row = ''acknowledged''" "da_sequence d = ar_sequence row"
    using Cons.prems(1) by (auto simp: result_simps decode_resolution_def split: if_splits)
  show ?case using Cons.IH [OF dec(2) _ Cons.prems(3)] Cons.prems(2,3) dec by auto
qed simp

lemma apply_effects_confirms:
  assumes "\<And>e. e \<in> set entries \<Longrightarrow> da_resolution e = Applied_Acknowledged \<Longrightarrow> da_sequence e \<in> S"
  shows "tx_in (keeps_confirmed S) (apply_effects api reader bid now stored_last current entries)"
proof -
  have loop: "tx_in (keeps_confirmed S) (tx_each (apply_entry api reader now) entries)"
    by (rule each_confirms, rule apply_entry_confirms) (rule assms)
  then show ?thesis
    unfolding apply_effects_def advance_acknowledged_sequence_def Let_def by (intro loop confirms_intros)
qed

lemma apply_body_outcome:
  assumes "tx_ran (apply_body api reader bid now) db = Ok (res, db')"
  shows "\<exists>received_at entries current. decode_ack_entries api received_at 0
      (stored_ack_entries (identifier_to_string api reader) (identifier_to_string api bid) db) = Ok entries \<and>
    (db' = db \<or> tx_ran (apply_effects api reader bid now (uint current) current entries) db =
      Ok (app_last_acknowledged_sequence res, db'))"
  using apply_body_effect [OF assms]
proof (elim exE, goal_cases)
  case (1 ack entries s current)
  from 1 have "db' = db \<or> tx_ran (apply_effects api reader bid now (uint current) current entries) db =
      Ok (app_last_acknowledged_sequence res, db')"
    by (cases "sa_applied_at ack") simp_all
  with 1 show ?case by blast
qed

lemma apply_body_confirms: "tx_in (keeps_confirmed S) (apply_body api reader bid now)"
proof -
  have "confirmed S db'" if ran: "tx_ran (apply_body api reader bid now) db = Ok (res, db')" and c: "confirmed S db"
    for db res db'
  proof -
    obtain received_at entries current where dec: "decode_ack_entries api received_at 0
        (stored_ack_entries (identifier_to_string api reader) (identifier_to_string api bid) db) = Ok entries"
      and eff: "db' = db \<or> tx_ran (apply_effects api reader bid now (uint current) current entries) db =
           Ok (app_last_acknowledged_sequence res, db')"
      using apply_body_outcome [OF ran] by blast
    have "da_sequence e \<in> S" if "e \<in> set entries" "da_resolution e = Applied_Acknowledged" for e
      using decoded_acknowledged [OF dec that] c by (auto simp: stored_ack_entries_def confirmed_def)
    then have "tx_in (keeps_confirmed S) (apply_effects api reader bid now (uint current) current entries)"
      by (rule apply_effects_confirms)
    then show ?thesis using eff c by (auto simp: tx_in_def keeps_confirmed_def)
  qed
  then show ?thesis using apply_body_steady by (auto simp: tx_in_def keeps_confirmed_def)
qed

lemma apply_acknowledgement_confirms:
  "call_in (keeps_confirmed S) (apply_synchronization_acknowledgement api reader bid now)"
  unfolding apply_synchronization_acknowledgement_def by (intro confirms_intros apply_body_confirms)

text \<open>The calls a reader makes on its own: all but the storage of an acknowledgement.\<close>

fun local_call :: "'j ReaderCall \<Rightarrow> bool" where
  "local_call (StoreAcknowledgement a) \<longleftrightarrow> False"
| "local_call _ \<longleftrightarrow> True"

lemmas local_calls_confirm = bind_reader_database_confirms enqueue_confirms transaction_state_confirms
  transaction_failure_confirms recover_confirms create_synchronization_batch_confirms
  mark_synchronization_batch_in_flight_confirms record_synchronization_retryable_failure_confirms
  final_failure_confirms apply_acknowledgement_confirms

lemma local_call_confirms:
  "local_call call \<Longrightarrow> keeps_confirmed S (sq_db w) (sq_db (reader_call api json render call w))"
  by (cases call) (simp_all add: local_calls_confirm [THEN call_inD])

text \<open>An acknowledgement of the protocol confirms the entries it acknowledges.\<close>

lemma translated_entries:
  assumes "translate_protocol_synchronization_acknowledgement ak = Ok a" "e \<in> set (ack_entries a)"
  shows "\<exists>x \<in> set (ak_entries ak). ae_local_sequence_number x = ra_sequence e"
proof -
  have "list_all2 (\<lambda>x y. translate_entry x = Ok y) (ak_entries ak) (ack_entries a)"
    using assms(1) by (auto simp: translate_protocol_synchronization_acknowledgement_def SynchronizationAcknowledgement_new_def
        result_simps collect_results_eq_Ok split: if_splits)
  moreover obtain i where "i < length (ack_entries a)" "e = ack_entries a ! i"
    using assms(2) by (auto simp: in_set_conv_nth)
  ultimately have "translate_entry (ak_entries ak ! i) = Ok e" "i < length (ak_entries ak)"
    by (auto dest: list_all2_nthD2 list_all2_lengthD)
  then obtain x where "x \<in> set (ak_entries ak)" "translate_entry x = Ok e"
    using nth_mem by blast
  then show ?thesis by (auto simp: translate_entry_def result_simps intro!: bexI [of _ x])
qed

lemma store_protocol_confirms:
  assumes "\<And>x. x \<in> set (ak_entries ak) \<Longrightarrow> uint (ae_local_sequence_number x) \<in> S"
  shows "call_in (keeps_confirmed S) (store_protocol_synchronization_acknowledgement api render ak)"
proof (cases "translate_protocol_synchronization_acknowledgement ak")
  case (Inl e)
  then show ?thesis
    by (simp add: store_protocol_synchronization_acknowledgement_def and_next_def call_in_def keeps_confirmed_def)
next
  case (Inr a)
  have "call_in (keeps_confirmed S) (store_synchronization_acknowledgement api render a)"
    using translated_entries [OF Inr] assms by (intro store_acknowledgement_confirms) metis
  then show ?thesis
    using Inr by (simp add: store_protocol_synchronization_acknowledgement_def and_next_def call_in_def map_failure_def)
qed

end
