(* ===== verification/EndToEnd.thy ===== *)
theory EndToEnd
  imports Submission Confirmation
begin

text \<open>
  The reader and the backend together.  The reader's database takes its own calls, in-flight batches
  are submitted with the HTTP client, and each submission meets the handler of the API on the other
  end of an unreliable network.  The messages of other readers, late copies of this reader's
  requests and failures of either database come in between.  Whatever happens, a transaction that the
  reader takes for acknowledged is stored by the backend as it was queued.
\<close>

section \<open>The network\<close>

text \<open>
  The backend's side of the messages: the body a framework extracts, or the status it refuses it
  with, and the rendering of a response.
\<close>

record ServerCodec =
  decode_body :: "HeaderMap \<Rightarrow> bytes \<Rightarrow> StatusCode + SynchronizationBatchRequest"
  encode_body :: "ResponseBody \<Rightarrow> bytes"

text \<open>
  What becomes of one request: it is never sent; it is handled at some time but its answer is lost; it
  is handled and the answer arrives in pieces, of which the last may be missing; or an intermediary
  answers in place of the backend.
\<close>

datatype Exchange =
    Unsent ReqwestError
  | Unanswered int ReqwestError
  | Answered int "nat list" "ReqwestError option"
  | Intercepted StatusCode HeaderMap bytes

fun pieces :: "nat list \<Rightarrow> bytes \<Rightarrow> bytes list" where
  "pieces [] body = [body]"
| "pieces (n # ns) body = take n body # pieces ns (drop n body)"

definition arrival :: "nat list \<Rightarrow> ReqwestError option \<Rightarrow> bytes \<Rightarrow> (ReqwestError + bytes) list" where
  "arrival cuts failure body =
    (case failure of
       None \<Rightarrow> map Inr (pieces cuts body)
     | Some e \<Rightarrow> map Inr (butlast (pieces cuts body)) @ [Inl e])"

text \<open>An intermediary may refuse a request but does not claim that it succeeded.\<close>

fun genuine :: "Exchange \<Rightarrow> bool" where
  "genuine (Intercepted status _ _) \<longleftrightarrow> status \<noteq> STATUS_OK"
| "genuine _ \<longleftrightarrow> True"

text \<open>Everything the two programs are given: their libraries, their configuration and their codecs.\<close>

record ('d, 'q, 'w, 'u) Deployment =
  dp_sha256 :: "bytes \<Rightarrow> bytes"
  dp_uuid :: UuidApi
  dp_decisions :: "'d DecisionJson"
  dp_json :: "'q JsonApi"
  dp_render :: "Json \<Rightarrow> ustr option"
  dp_wire :: "'w WireJson"
  dp_messages :: MessageCodec
  dp_server :: ServerCodec
  dp_client :: "'u SynchronizationHttpClient"
  dp_environment :: ProtocolEnvironmentId
  dp_reader :: ReaderId

definition handle ::
  "('d, 'q, 'w, 'u) Deployment \<Rightarrow> int \<Rightarrow> 'u HttpRequest \<Rightarrow> 'w ApiState \<Rightarrow> Response \<times> 'w ApiState" where
  "handle y clock request s =
    submit_synchronization_batch (dp_sha256 y) (dp_uuid y) (dp_wire y) (dp_environment y) clock (http_headers request)
      (decode_body (dp_server y) (http_headers request) (http_body request)) s"

fun send ::
  "('d, 'q, 'w, 'u) Deployment \<Rightarrow> Exchange \<Rightarrow> 'u HttpRequest \<Rightarrow> ('w ApiState, ReqwestError, HttpResponse) fallible" where
  "send y (Unsent e) request s = (Err e, s)"
| "send y (Unanswered clock e) request s = (Err e, snd (handle y clock request s))"
| "send y (Answered clock cuts failure) request s =
    (case handle y clock request s of (response, s') \<Rightarrow>
      (Ok \<lparr> http_status = response_status response,
         http_response_headers = [(''content-type'', header_value ''application/json'')],
         http_chunks = arrival cuts failure (encode_body (dp_server y) (response_body response)) \<rparr>, s'))"
| "send y (Intercepted status headers body) request s =
    (Ok \<lparr> http_status = status, http_response_headers = headers, http_chunks = [Inr body] \<rparr>, s)"

definition submit ::
  "('d, 'q, 'w, 'u) Deployment \<Rightarrow> Exchange \<Rightarrow> SynchronizationBatchId \<Rightarrow> UnixMs \<Rightarrow> UnixMs
    \<Rightarrow> ('w ApiState ReaderWorld, SynchronizationSubmissionError, SynchronizationSubmissionResult) fallible" where
  "submit y exchange =
    submit_in_flight_synchronization_batch_with_telemetry (dp_uuid y) (dp_json y) (dp_render y)
      (http_transport (dp_uuid y) (dp_messages y) (dp_client y) (send y exchange)) (dp_reader y)"

section \<open>The system\<close>

text \<open>
  Other sessions of the backend work for other readers, or on late copies of requests this reader
  has assembled before.
\<close>

fun elsewhere :: "ReaderId \<Rightarrow> SynchronizationBatchRequest list \<Rightarrow> OtherCommit \<Rightarrow> bool" where
  "elsewhere reader sent (OtherBatch request _) \<longleftrightarrow> rq_reader_id request \<noteq> reader \<or> request \<in> set sent"
| "elsewhere reader sent (OtherReader _) \<longleftrightarrow> True"

definition backend_db :: "'w ApiState ReaderWorld \<Rightarrow> 'w IngestDb" where
  "backend_db w = is_db (as_session (rw_network w))"

definition reader_db :: "'w ApiState ReaderWorld \<Rightarrow> ReaderDb" where
  "reader_db w = sq_db (rw_sqlite w)"

text \<open>The requests assembled so far, with the one a submission starts with.\<close>

definition assemble ::
  "('d, 'q, 'w, 'u) Deployment \<Rightarrow> SynchronizationBatchId \<Rightarrow> 'w ApiState ReaderWorld
    \<Rightarrow> SynchronizationBatchRequest list \<Rightarrow> SynchronizationBatchRequest list" where
  "assemble y bid w sent =
    (case fst (load_synchronization_batch_request (dp_uuid y) (dp_json y) (dp_reader y) bid (rw_sqlite w)) of
       Ok request \<Rightarrow> request # sent | Err _ \<Rightarrow> sent)"

inductive system_step ::
  "('d, 'q, 'w, 'u) Deployment \<Rightarrow> 'w ApiState ReaderWorld \<times> SynchronizationBatchRequest list
    \<Rightarrow> 'w ApiState ReaderWorld \<times> SynchronizationBatchRequest list \<Rightarrow> bool"
  for y :: "('d, 'q, 'w, 'u) Deployment"
where
  local_step: "local_call call \<Longrightarrow>
    system_step y (w, sent)
      (w\<lparr> rw_sqlite := reader_call (dp_uuid y) (dp_decisions y) (dp_render y) call (rw_sqlite w) \<rparr>, sent)"
| submit_step: "genuine exchange \<Longrightarrow> submit y exchange bid completed_at retry_at w = (result, w') \<Longrightarrow>
    system_step y (w, sent) (w', assemble y bid w sent)"
| environment_step: "list_all (elsewhere (dp_reader y) sent) commits \<Longrightarrow>
    list_all (\<lambda>t. list_all (elsewhere (dp_reader y) sent) (it_commits t)) script \<Longrightarrow>
    system_step y (w, sent)
      (w\<lparr> rw_sqlite := (rw_sqlite w)\<lparr> sq_faults := faults \<rparr>,
         rw_network := (rw_network w)\<lparr> as_session := (as_session (rw_network w))\<lparr>
           is_db := fold (other_commit_result (dp_sha256 y) (dp_uuid y) (dp_wire y)) commits (backend_db w),
           is_script := script \<rparr> \<rparr> \<rparr>, sent)"

text \<open>The backend may refuse a request but never reads one request as another.\<close>

definition codecs_agree :: "('d, 'q, 'w, 'u) Deployment \<Rightarrow> bool" where
  "codecs_agree y \<longleftrightarrow>
    (\<forall>rq body headers rq'. encode_request (dp_messages y) rq = Some body \<longrightarrow>
      decode_body (dp_server y) headers body = Ok rq' \<longrightarrow> rq' = rq) \<and>
    wire_roundtrip (dp_wire y)"

text \<open>The backend has a transaction of the queue, as it was queued.\<close>

definition held :: "('d, 'q, 'w, 'u) Deployment \<Rightarrow> 'w IngestDb \<Rightarrow> OfflineTransactionRow \<Rightarrow> bool" where
  "held y db q \<longleftrightarrow>
    (case identifier_from_str (dp_uuid y) ''fare transaction identifier'' (ot_transaction_id q) of
       Err _ \<Rightarrow> False
     | Ok tid \<Rightarrow>
       (case CanonicalTransactionEnvelope_from_json (dp_json y) (ot_envelope_json q) of
          Err _ \<Rightarrow> False
        | Ok envelope \<Rightarrow>
            (tid, dp_reader y, ot_sequence q, fingerprint_to_hex (fingerprint_transaction_envelope (dp_sha256 y) envelope))
              \<in> identities db))"

definition held_sequences :: "('d, 'q, 'w, 'u) Deployment \<Rightarrow> 'w IngestDb \<Rightarrow> ReaderDb \<Rightarrow> int set" where
  "held_sequences y bdb db = ot_sequence ` {q \<in> set (rd_queue db). held y bdb q}"

section \<open>Requests\<close>

definition entry_of_row :: "UuidApi \<Rightarrow> 'q JsonApi \<Rightarrow> OfflineTransactionRow \<Rightarrow> SynchronizationRequestEntry \<Rightarrow> bool" where
  "entry_of_row api json q e \<longleftrightarrow>
    identifier_from_str api ''fare transaction identifier'' (ot_transaction_id q) = Ok (re_transaction_id e) \<and>
    ot_sequence q = uint (re_local_sequence_number e) \<and>
    CanonicalTransactionEnvelope_from_json json (ot_envelope_json q) = Ok (re_transaction_envelope e)"

lemma request_entries_rows:
  assumes "request_entries_from api json n rows = Ok es" "e \<in> set es"
  shows "\<exists>(row, envelope) \<in> set rows.
    identifier_from_str api ''fare transaction identifier'' (se_transaction_id row) = Ok (re_transaction_id e) \<and>
    se_sequence row = uint (re_local_sequence_number e) \<and>
    CanonicalTransactionEnvelope_from_json json envelope = Ok (re_transaction_envelope e)"
  using assms
proof (induction rows arbitrary: n es)
  case (Cons r rows)
  obtain row envelope where r: "r = (row, envelope)" by fastforce
  obtain tid sequence canonical rest where dec: "request_entries_from api json (Suc n) rows = Ok rest"
      "identifier_from_str api ''fare transaction identifier'' (se_transaction_id row) = Ok tid"
      "se_sequence row = uint sequence" "CanonicalTransactionEnvelope_from_json json envelope = Ok canonical"
      "es = \<lparr> re_transaction_id = tid, re_local_sequence_number = sequence, re_transaction_envelope = canonical \<rparr> # rest"
    using Cons.prems(1) unfolding r
    by (auto simp: result_simps Request_decode_sequence_def LocalSequenceNumber_new_def split: if_splits)
  show ?case using Cons.IH [OF dec(1)] Cons.prems(2) dec r by auto
qed simp

lemma request_body_content:
  assumes "tx_ran (request_body api json reader bid) db = Ok (rq, x)"
  shows "rq_reader_id rq = reader \<and> rq_batch_id rq = bid \<and>
    request_entries_from api json 0 (request_rows (identifier_to_string api reader) (identifier_to_string api bid) db) =
      Ok (rq_entries rq)"
  using assms unfolding request_body_def Let_def
  by (clarsimp simp: tx_simps result_simps SynchronizationBatchRequest_new_def)

lemma request_entry_row:
  assumes "tx_ran (request_body api json reader bid) db = Ok (rq, x)" "e \<in> set (rq_entries rq)"
  shows "\<exists>q \<in> set (rd_queue db). entry_of_row api json q e"
proof -
  obtain row envelope where "(row, envelope) \<in> set (request_rows (identifier_to_string api reader) (identifier_to_string api bid) db)"
    "identifier_from_str api ''fare transaction identifier'' (se_transaction_id row) = Ok (re_transaction_id e)"
    "se_sequence row = uint (re_local_sequence_number e)"
    "CanonicalTransactionEnvelope_from_json json envelope = Ok (re_transaction_envelope e)"
    using request_entries_rows [OF _ assms(2)] request_body_content [OF assms(1)] by blast
  then obtain q where "q \<in> set (rd_queue db)" "entry_of_row api json q e"
    by (auto simp: request_rows_def entry_of_row_def)
  then show ?thesis by blast
qed


text \<open>The requests a reader has assembled, as its database still says.\<close>

definition assembled :: "('d, 'q, 'w, 'u) Deployment \<Rightarrow> SynchronizationBatchRequest list \<Rightarrow> ReaderDb \<Rightarrow> bool" where
  "assembled y sent db \<longleftrightarrow> (\<forall>rq \<in> set sent. \<exists>db0 x. db_moves db0 db \<and> reader_db_inv db0 \<and>
    tx_ran (request_body (dp_uuid y) (dp_json y) (dp_reader y) (rq_batch_id rq)) db0 = Ok (rq, x))"

lemma assembled_moves: "assembled y sent db \<Longrightarrow> db_moves db db' \<Longrightarrow> assembled y sent db'"
  unfolding assembled_def using moves.trans by blast

lemma assembled_reader: "assembled y sent db \<Longrightarrow> rq \<in> set sent \<Longrightarrow> rq_reader_id rq = dp_reader y"
  by (auto simp: assembled_def dest!: request_body_content)

lemma assembled_fixed:
  assumes "assembled y sent db" "rq \<in> set sent" "reader_db_inv db" "rq_batch_id rq = bid"
    and "tx_ran (request_body (dp_uuid y) (dp_json y) (dp_reader y) bid) db = Ok (rq', x)"
  shows "rq = rq'"
  using assms request_body_fixed unfolding assembled_def by metis

section \<open>Where stored batches come from\<close>

definition stored_from :: "('d, 'q, 'w, 'u) Deployment \<Rightarrow> 'w IngestDb \<Rightarrow> SynchronizationBatchRequest \<Rightarrow> 'w IngestBatchRow \<Rightarrow> bool" where
  "stored_from y db rq b \<longleftrightarrow> (\<exists>ak p. prepare (dp_sha256 y) (dp_uuid y) (dp_wire y) rq ak = Ok p \<and>
    b = prepared_batch_row p \<and> identity_of p ` set (pi_entries p) \<subseteq> identities db)"

definition own_batches :: "('d, 'q, 'w, 'u) Deployment \<Rightarrow> SynchronizationBatchRequest list \<Rightarrow> 'w IngestDb \<Rightarrow> bool" where
  "own_batches y sent db \<longleftrightarrow>
    (\<forall>b \<in> set (in_batches db). ib_reader_id b = dp_reader y \<longrightarrow> (\<exists>rq \<in> set sent. stored_from y db rq b))"

lemma stored_from_mono: "stored_from y db rq b \<Longrightarrow> identities db \<subseteq> identities db' \<Longrightarrow> stored_from y db' rq b"
  by (fastforce simp: stored_from_def)

lemma stored_from_fields:
  "stored_from y db rq b \<Longrightarrow> ib_batch_id b = rq_batch_id rq \<and> ib_reader_id b = rq_reader_id rq"
  by (auto simp: stored_from_def prepared_batch_row_def ingest_batch_row_def dest: prepare_fields(1,2))

lemma stored_from_entry:
  assumes "stored_from y db rq b" "e \<in> set (rq_entries rq)"
  shows "(re_transaction_id e, rq_reader_id rq, uint (re_local_sequence_number e),
    fingerprint_to_hex (fingerprint_transaction_envelope (dp_sha256 y) (re_transaction_envelope e))) \<in> identities db"
proof -
  obtain ak p where p: "prepare (dp_sha256 y) (dp_uuid y) (dp_wire y) rq ak = Ok p"
    "identity_of p ` set (pi_entries p) \<subseteq> identities db"
    using assms(1) by (auto simp: stored_from_def)
  note fields = prepare_fields [OF p(1)]
  have "length (ak_entries ak) = length (rq_entries rq)"
    using fields(5) by (auto simp: validate_against_request_eq_Ok acknowledges_def dest: map_eq_imp_length_eq)
  moreover have all2: "list_all2 (\<lambda>x y'. prepare_entry (dp_sha256 y) (dp_wire y) ak x = Ok y')
      (enumerate 0 (zip (rq_entries rq) (ak_entries ak))) (pi_entries p)"
    using fields(6) by (simp add: collect_results_eq_Ok)
  moreover obtain i where i: "i < length (rq_entries rq)" "e = rq_entries rq ! i"
    using assms(2) by (auto simp: in_set_conv_nth)
  ultimately have n: "i < length (pi_entries p)" and
    "prepare_entry (dp_sha256 y) (dp_wire y) ak (i, e, ak_entries ak ! i) = Ok (pi_entries p ! i)"
    using list_all2_nthD [OF all2, of i] list_all2_lengthD [OF all2] by (simp_all add: nth_enumerate_eq)
  note entry = prepare_entry_fields [OF this(2)]
  have "identity_of p (pi_entries p ! i) \<in> identities db" using p(2) nth_mem [OF n] by blast
  then show ?thesis using entry fields(2) by (simp add: identity_of_def)
qed

lemma own_batches_store_alone:
  assumes "own_batches y sent db" "store_alone (dp_wire y) p db = Ok (d, db')"
    and p: "prepare (dp_sha256 y) (dp_uuid y) (dp_wire y) rq ak = Ok p" "rq_reader_id rq \<noteq> dp_reader y \<or> rq \<in> set sent"
  shows "own_batches y sent db'"
proof (cases d)
  case Stored
  note effect = store_alone_Stored [OF assms(2) [unfolded Stored]]
  have "stored_from y db' rq (prepared_batch_row p)"
    using p(1) effect(4) by (auto simp: stored_from_def)
  moreover have "\<exists>rq \<in> set sent. stored_from y db' rq b" if "b \<in> set (in_batches db)" "ib_reader_id b = dp_reader y" for b
    using that assms(1) stored_from_mono [of y db _ b db'] effect(4) unfolding own_batches_def by blast
  ultimately show ?thesis
    using p(2) stored_from_fields unfolding own_batches_def effect(2) by fastforce
next
  case Replayed
  then show ?thesis using assms store_alone_Replayed(1) by blast
qed

lemma own_batches_elsewhere:
  assumes "own_batches y sent db" "elsewhere (dp_reader y) sent c"
  shows "own_batches y sent (other_commit_result (dp_sha256 y) (dp_uuid y) (dp_wire y) c db)"
proof (cases c)
  case (OtherBatch rq ak)
  then show ?thesis
    using assms own_batches_store_alone [OF assms(1)] by (auto split: sum.split)
next
  case (OtherReader row)
  have "in_batches (put_reader row db) = in_batches db" "identities (put_reader row db) = identities db"
    by (simp_all add: put_reader_def identities_def)
  then show ?thesis
    using assms(1) OtherReader by (simp add: own_batches_def stored_from_def)
qed

lemma own_batches_others:
  "own_batches y sent db \<Longrightarrow> list_all (elsewhere (dp_reader y) sent) cs \<Longrightarrow>
    own_batches y sent (fold (other_commit_result (dp_sha256 y) (dp_uuid y) (dp_wire y)) cs db)"
  by (induction cs arbitrary: db) (simp_all add: own_batches_elsewhere)

text \<open>A session of the backend among others that work elsewhere.\<close>

definition backend_ok :: "('d, 'q, 'w, 'u) Deployment \<Rightarrow> SynchronizationBatchRequest list \<Rightarrow> 'w IngestSession \<Rightarrow> bool" where
  "backend_ok y sent w \<longleftrightarrow> ingest_inv (dp_sha256 y) (dp_uuid y) (dp_wire y) (is_db w) \<and> own_batches y sent (is_db w) \<and>
    list_all (\<lambda>t. list_all (elsewhere (dp_reader y) sent) (it_commits t)) (is_script w)"

lemma elsewhere_mono: "elsewhere reader sent c \<Longrightarrow> set sent \<subseteq> set sent' \<Longrightarrow> elsewhere reader sent' c"
  by (cases c) auto

lemma backend_ok_mono: "backend_ok y sent w \<Longrightarrow> set sent \<subseteq> set sent' \<Longrightarrow> backend_ok y sent' w"
  unfolding backend_ok_def own_batches_def list_all_iff using elsewhere_mono by blast

lemma session_reach_ok:
  assumes "session_reach (dp_sha256 y) (dp_uuid y) (dp_wire y) w w'" "backend_ok y sent w"
  shows "backend_ok y sent w'"
proof -
  obtain ts cs where h: "is_script w = ts @ is_script w'" "subseq cs (concat (map it_commits ts))"
    "is_db w' = fold (other_commit_result (dp_sha256 y) (dp_uuid y) (dp_wire y)) cs (is_db w)"
    using assms(1) by (auto simp: session_reach_def)
  have "set cs \<subseteq> \<Union> (set ` it_commits ` set ts)" using list_emb_set [OF h(2)] by force
  then have "list_all (elsewhere (dp_reader y) sent) cs"
    using assms(2) h(1) by (fastforce simp: backend_ok_def list_all_iff)
  then show ?thesis
    using assms(2) h(1) own_batches_others ingest_inv_others unfolding backend_ok_def h(3) by auto
qed

lemma store_ok:
  assumes run: "store (session_driver (dp_sha256 y) (dp_uuid y) (dp_wire y)) p w = (r, w')" and ok: "backend_ok y sent w"
    and p: "prepare (dp_sha256 y) (dp_uuid y) (dp_wire y) rq ak = Ok p" "rq \<in> set sent"
  shows "backend_ok y sent w'"
proof -
  have inv: "ingest_inv (dp_sha256 y) (dp_uuid y) (dp_wire y) (is_db w)" using ok by (simp add: backend_ok_def)
  obtain cs db0 where h: "db0 = fold (other_commit_result (dp_sha256 y) (dp_uuid y) (dp_wire y)) cs (is_db w)"
    "set cs \<subseteq> \<Union> (set ` it_commits ` set (is_script w))" "set (is_script w') \<subseteq> set (is_script w)"
    "is_db w' = db0 \<and> isl r \<or> (\<exists>d. store_alone (dp_wire y) p db0 = Ok (d, is_db w') \<and> (r = Ok d \<or> isl r))"
    by (rule session_store_effect [OF run ingest_inv_keys [OF inv]])
  have "list_all (elsewhere (dp_reader y) sent) cs"
    using ok h(2) by (fastforce simp: backend_ok_def list_all_iff)
  then have "own_batches y sent db0" using ok own_batches_others unfolding h(1) backend_ok_def by blast
  then have "own_batches y sent (is_db w')" using h(4) own_batches_store_alone p by blast
  then show ?thesis
    using session_store_inv [OF run inv p(1)] ok h(3) by (auto simp: backend_ok_def list_all_iff)
qed

lemma answer_replay_ok:
  assumes "answer_replay (dp_sha256 y) (dp_uuid y) (dp_wire y) rq w = (r, w')" "backend_ok y sent w"
  shows "backend_ok y sent w'"
proof -
  obtain r1 where "session_load (dp_sha256 y) (dp_uuid y) (dp_wire y) w = (r1, w')"
    using assms(1) by (auto simp: answer_replay_def load_acknowledgement_def run_next_def run_mapped_def run_value_def
        split: prod.splits sum.splits)
  then obtain fault where "session_advance (dp_sha256 y) (dp_uuid y) (dp_wire y) (session_closed w) = (fault, w')"
    by (auto simp: session_load_def session_select_def split: prod.splits)
  moreover have "backend_ok y sent (session_closed w)" using assms(2) by (simp add: backend_ok_def session_closed_def)
  ultimately show ?thesis using advance_reach(1) session_reach_ok by blast
qed

lemma process_ok:
  assumes run: "process (dp_sha256 y) (dp_uuid y) (dp_wire y) environment rq t w = (r, w')"
    and ok: "backend_ok y sent w" "rq \<in> set sent"
  shows "backend_ok y sent w'"
proof (cases "\<exists>a p. validate_request_context rq environment = Ok () \<and> build_acknowledgement rq t = Ok a \<and>
    prepare (dp_sha256 y) (dp_uuid y) (dp_wire y) rq a = Ok p")
  case False
  then show ?thesis using process_refused [OF False, of w] run ok(1) by auto
next
  case True
  then obtain a p where ap: "validate_request_context rq environment = Ok ()"
    "build_acknowledgement rq t = Ok a" "prepare (dp_sha256 y) (dp_uuid y) (dp_wire y) rq a = Ok p" by blast
  obtain r1 w1 where st: "store (session_driver (dp_sha256 y) (dp_uuid y) (dp_wire y)) p w = (r1, w1)" by fastforce
  have "backend_ok y sent w1" by (rule store_ok [OF st ok(1) ap(3) ok(2)])
  moreover have "w' = w1 \<or> answer_replay (dp_sha256 y) (dp_uuid y) (dp_wire y) rq w1 = (r, w')"
    using run process_stored [OF ap st] by (auto split: sum.splits SynchronizationIngestDisposition.splits)
  ultimately show ?thesis using answer_replay_ok by blast
qed

section \<open>A submission\<close>

lemma api_error_not_ok:
  "response_status (json_rejection_response c) \<noteq> STATUS_OK" "response_status (transport_error_response te) \<noteq> STATUS_OK"
  "response_status (service_error_response se) \<noteq> STATUS_OK"
  by (auto simp: json_rejection_response_def transport_error_response_def service_error_response_def api_error_response_def)
    (cases se; simp)

text \<open>The handler either leaves the tables alone or processes the request that was encoded.\<close>

lemma handle_cases:
  assumes run: "handle y clock request s = (response, s')"
    and body: "\<And>rq'. decode_body (dp_server y) (http_headers request) (http_body request) = Ok rq' \<Longrightarrow> rq' = rq"
  shows "as_session s' = as_session s \<and> response_status response \<noteq> STATUS_OK \<or>
    (\<exists>t r. process (dp_sha256 y) (dp_uuid y) (dp_wire y) (dp_environment y) rq t (as_session s) = (r, as_session s') \<and>
      (response_status response = STATUS_OK \<longrightarrow> (\<exists>a. r = Ok a \<and> response_body response = AcknowledgementResponse a)))"
  using run body api_error_not_ok unfolding handle_def submit_synchronization_batch_def Let_def
  by (auto simp: fail_request_def api_error_response_def split: sum.splits option.splits prod.splits)

definition accepted :: "SynchronizationBatchRequest \<Rightarrow> 'w IngestDb \<Rightarrow> bool" where
  "accepted rq db \<longleftrightarrow>
    (\<exists>b \<in> set (in_batches db). ib_batch_id b = rq_batch_id rq \<and> ib_reader_id b = rq_reader_id rq)"

lemma handle_effect:
  assumes run: "handle y clock request s = (response, s')"
    and body: "\<And>rq'. decode_body (dp_server y) (http_headers request) (http_body request) = Ok rq' \<Longrightarrow> rq' = rq"
    and ok: "backend_ok y sent (as_session s)" "rq \<in> set sent" "wire_roundtrip (dp_wire y)"
  shows "backend_ok y sent (as_session s')" "ingest_grows (is_db (as_session s)) (is_db (as_session s'))"
    "response_status response = STATUS_OK \<Longrightarrow>
      accepted rq (is_db (as_session s'))"
proof -
  have inv: "ingest_inv (dp_sha256 y) (dp_uuid y) (dp_wire y) (is_db (as_session s))" using ok(1) by (simp add: backend_ok_def)
  note cases = handle_cases [OF run body]
  show "backend_ok y sent (as_session s')" using cases ok process_ok by fastforce
  show "ingest_grows (is_db (as_session s)) (is_db (as_session s'))" using cases process_effect inv by fastforce
  assume "response_status response = STATUS_OK"
  then obtain t a where "process (dp_sha256 y) (dp_uuid y) (dp_wire y) (dp_environment y) rq t (as_session s) = (Ok a, as_session s')"
    using cases by blast
  then show "accepted rq (is_db (as_session s'))"
    using process_Ok [OF _ inv ok(3)] unfolding accepted_def by metis
qed

definition answers :: "('d, 'q, 'w, 'u) Deployment \<Rightarrow> SynchronizationBatchRequest list \<Rightarrow> SynchronizationBatchRequest
    \<Rightarrow> 'w ApiState \<Rightarrow> 'w ApiState \<Rightarrow> bool \<Rightarrow> bool" where
  "answers y sent rq s s' success \<longleftrightarrow> backend_ok y sent (as_session s') \<and>
    ingest_grows (is_db (as_session s)) (is_db (as_session s')) \<and>
    (success \<longrightarrow> accepted rq (is_db (as_session s')))"

lemma send_effect:
  assumes run: "send y exchange request s = (r, s')" and "genuine exchange" "wire_roundtrip (dp_wire y)"
    and body: "\<And>rq'. decode_body (dp_server y) (http_headers request) (http_body request) = Ok rq' \<Longrightarrow> rq' = rq"
    and ok: "backend_ok y sent (as_session s)" "rq \<in> set sent"
  shows "answers y sent rq s s' (\<exists>response. r = Ok response \<and> http_status response = STATUS_OK)"
proof (cases exchange)
  case (Unanswered clock e)
  obtain response where "handle y clock request s = (response, s')"
    using run Unanswered by (cases "handle y clock request s") auto
  then show ?thesis using handle_effect [OF _ body ok assms(3)] run Unanswered by (auto simp: answers_def)
next
  case (Answered clock cuts failure)
  obtain response where h: "handle y clock request s = (response, s')"
    using run Answered by (cases "handle y clock request s") auto
  show ?thesis
    using handle_effect [OF h body ok assms(3)] run Answered h by (auto simp: answers_def)
qed (use assms in \<open>auto simp: answers_def\<close>)

lemma transport_effect:
  assumes run: "http_transport (dp_uuid y) (dp_messages y) (dp_client y) (send y exchange) rq s = (r, s')"
    and "genuine exchange" and codecs: "codecs_agree y"
    and ok: "backend_ok y sent (as_session s)" "rq \<in> set sent"
  shows "answers y sent rq s s' (\<exists>a. r = Ok a)"
    "r = Ok a \<Longrightarrow> validate_against_request a rq = Ok ()"
proof -
  let ?send = "\<lambda>body. send y exchange \<lparr> http_url = client_endpoint (dp_client y),
    http_headers = submit_headers (dp_uuid y) rq, http_body = body \<rparr> s"
  have here: "answers y sent rq s s False" using ok by (simp add: answers_def)
  have sent: "answers y sent rq s s1 (\<exists>response. r1 = Ok response \<and> http_status response = STATUS_OK)"
    if "encode_request (dp_messages y) rq = Some body" "?send body = (r1, s1)" for body r1 s1
    using codecs that send_effect [OF that(2) assms(2) _ _ ok] by (simp add: codecs_agree_def)
  consider (unsent) "s' = s" "isl r"
    | (failed) body e where "encode_request (dp_messages y) rq = Some body" "?send body = (Err e, s')" "isl r"
    | (answered) body response where "encode_request (dp_messages y) rq = Some body" "?send body = (Ok response, s')"
      "r = map_err (\<lambda>source. Transport_Http (http_failure_category source) source)
        (decode_response (dp_messages y) (maximum_acknowledgement_bytes (dp_client y)) rq response)"
  proof (cases "encode_request (dp_messages y) rq")
    case (Some body)
    obtain r1 s1 where "?send body = (r1, s1)" by fastforce
    then show thesis
      using run Some that unfolding http_transport_def http_submit_def
      by (cases r1) (auto simp: run_next_def run_mapped_def run_value_def split: if_splits)
  qed (use run that(1) in \<open>auto simp: http_transport_def http_submit_def run_next_def run_mapped_def run_value_def\<close>)
  then have *: "answers y sent rq s s' (\<exists>a. r = Ok a) \<and> (\<forall>a. r = Ok a \<longrightarrow> validate_against_request a rq = Ok ())"
  proof cases
    case unsent
    then show ?thesis using here by (cases r) auto
  next
    case failed
    then show ?thesis using sent [OF failed(1,2)] by (cases r) (auto simp: answers_def)
  next
    case answered
    then show ?thesis using sent [OF answered(1,2)]
      by (auto simp: answers_def decode_response_def result_simps split: if_splits)
  qed
  then show "answers y sent rq s s' (\<exists>a. r = Ok a)" "r = Ok a \<Longrightarrow> validate_against_request a rq = Ok ()" by auto
qed

text \<open>What the reader does around the exchange only moves its own database on.\<close>

definition advances :: "int set \<Rightarrow> ReaderDb \<Rightarrow> ReaderDb \<Rightarrow> bool" where
  "advances S db db' \<longleftrightarrow> db_moves db db' \<and> keeps_inv db db' \<and> keeps_confirmed S db db'"

interpretation advance: table_preorder "advances S" for S
  by unfold_locales (auto simp: advances_def intro: moves.refl keeps.refl confirms.refl moves.trans keeps.trans confirms.trans)

interpretation same: table_preorder "(=)"
  by unfold_locales auto

lemma call_advances:
  "call_in db_moves f \<Longrightarrow> call_in keeps_inv f \<Longrightarrow> call_in (keeps_confirmed S) f \<Longrightarrow> call_in (advances S) f"
  by (simp add: call_in_def advances_def)

lemma load_request_same: "call_in (=) (load_synchronization_batch_request api json reader bid)"
  unfolding load_synchronization_batch_request_def request_body_def Let_def by (intro same.closed_intros)

lemma store_protocol_in:
  assumes "\<And>db. R db db" "\<And>a. call_in R (store_synchronization_acknowledgement api render a)"
  shows "call_in R (store_protocol_synchronization_acknowledgement api render ak)"
  using assms by (cases "translate_protocol_synchronization_acknowledgement ak")
    (auto simp: store_protocol_synchronization_acknowledgement_def and_next_def call_in_def map_failure_def split: prod.splits)

definition stays :: "int set \<Rightarrow> ('n ReaderWorld, 'e, 'a) fallible \<Rightarrow> bool" where
  "stays S m \<longleftrightarrow> (\<forall>w. rw_network (snd (m w)) = rw_network w \<and>
    advances S (sq_db (rw_sqlite w)) (sq_db (rw_sqlite (snd (m w)))))"

named_theorems stays_intros \<open>steps of a submission that leave the network alone\<close>

lemma stays_ran:
  assumes "stays S m" "m w = (r, w')"
  shows "rw_network w' = rw_network w" "advances S (sq_db (rw_sqlite w)) (sq_db (rw_sqlite w'))"
  using assms unfolding stays_def by (metis snd_conv)+

lemma stays_value [stays_intros]: "stays S (run_value r)"
  by (simp add: stays_def run_value_def advance.refl)

lemma stays_telemetry [stays_intros]: "stays S (on_telemetry f)"
  by (simp add: stays_def on_telemetry_def advance.refl)

lemma stays_sqlite [stays_intros]: "call_in (advances S) m \<Longrightarrow> stays S (on_sqlite err m)"
  by (auto simp: stays_def on_sqlite_def call_in_def split: prod.split) (metis snd_conv)

lemma stays_next [stays_intros]:
  assumes "stays S m" "\<And>x. stays S (k x)"
  shows "stays S (run_next m k)"
  unfolding stays_def
proof
  fix w
  obtain r w1 where m: "m w = (r, w1)" by fastforce
  then have "rw_network w1 = rw_network w" "advances S (sq_db (rw_sqlite w)) (sq_db (rw_sqlite w1))"
    using stays_ran [OF assms(1)] by simp_all
  then show "rw_network (snd (run_next m k w)) = rw_network w \<and>
      advances S (sq_db (rw_sqlite w)) (sq_db (rw_sqlite (snd (run_next m k w))))"
    using assms(2) m advance.trans [of S] by (cases r) (auto simp: run_next_def stays_def)
qed

lemma failure_calls_advance [stays_intros]:
  "call_in (advances S) (record_synchronization_retryable_failure api reader bid category now retry_at)"
  "call_in (advances S) (record_synchronization_permanent_failure api reader bid category now)"
  "call_in (advances S) (record_synchronization_manual_review api reader bid category now)"
  "call_in (advances S) (apply_synchronization_acknowledgement api reader bid now)"
  by (intro call_advances all_calls_move all_calls_keep local_calls_confirm)+

lemma store_protocol_advances:
  assumes "\<And>x. x \<in> set (ak_entries ak) \<Longrightarrow> uint (ae_local_sequence_number x) \<in> S"
  shows "call_in (advances S) (store_protocol_synchronization_acknowledgement api render ak)"
  using assms by (intro call_advances store_protocol_in moves.refl keeps.refl store_acknowledgement_moves
      store_acknowledgement_keeps store_protocol_confirms)

text \<open>The part of a submission after the exchange.\<close>

definition conclude ::
  "UuidApi \<Rightarrow> (Json \<Rightarrow> ustr option) \<Rightarrow> ReaderId \<Rightarrow> SynchronizationBatchId \<Rightarrow> UnixMs \<Rightarrow> UnixMs
    \<Rightarrow> SynchronizationTransportFailure + SynchronizationBatchAcknowledgement
    \<Rightarrow> ('n ReaderWorld, SynchronizationSubmissionError, SynchronizationSubmissionResult) fallible" where
  "conclude api render reader bid completed_at retry_at answer =
    (case answer of
      Ok acknowledgement \<Rightarrow>
        run_next (on_sqlite Submission_Acknowledgement
          (store_protocol_synchronization_acknowledgement api render acknowledgement)) (\<lambda>stored.
        run_next (on_telemetry (record_acknowledgement acknowledgement)) (\<lambda>_.
        run_next (on_sqlite Submission_Application (apply_synchronization_acknowledgement api reader bid
          (max completed_at (sint (ak_received_at_unix_milliseconds acknowledgement))))) (\<lambda>application.
        run_value (Ok (Submission_Applied (stored_replayed stored) application)))))
    | Err failure \<Rightarrow>
        (let category = transport_category failure;
             failure_category = ascii (SynchronizationFailureCategory_as_str category)
         in run_next (on_telemetry (record_request_failure category)) (\<lambda>_.
         case synchronization_failure_disposition category of
           Disposition_Retry \<Rightarrow>
             run_next (on_sqlite Submission_RetryState (record_synchronization_retryable_failure api reader bid
               failure_category completed_at retry_at)) (\<lambda>batch.
             run_value (Ok (Submission_RetryScheduled failure batch)))
         | Disposition_PermanentFailure \<Rightarrow>
             run_next (on_sqlite Submission_FinalState (record_synchronization_permanent_failure api reader bid
               failure_category completed_at)) (\<lambda>batch.
             run_value (Ok (Submission_PermanentFailure failure batch)))
         | Disposition_ManualReview \<Rightarrow>
             run_next (on_sqlite Submission_FinalState (record_synchronization_manual_review api reader bid
               failure_category completed_at)) (\<lambda>batch.
             run_value (Ok (Submission_ManualReview failure batch))))))"

lemma conclude_stays:
  assumes "\<And>a x. answer = Ok a \<Longrightarrow> x \<in> set (ak_entries a) \<Longrightarrow> uint (ae_local_sequence_number x) \<in> S"
  shows "stays S (conclude api render reader bid completed_at retry_at answer)"
proof (cases answer)
  case (Inl failure)
  then show ?thesis
    by (cases "synchronization_failure_disposition (transport_category failure)")
      (simp_all add: conclude_def Let_def stays_intros)
next
  case (Inr a)
  have "call_in (advances S) (store_protocol_synchronization_acknowledgement api render a)"
    using assms Inr by (intro store_protocol_advances)
  then show ?thesis using Inr by (simp add: conclude_def stays_intros)
qed

lemma submit_phases:
  "submit_in_flight_synchronization_batch_with_telemetry api json render transport reader bid completed_at retry_at w =
    (case load_synchronization_batch_request api json reader bid (rw_sqlite w) of
       (Err e, q) \<Rightarrow> (Err (Submission_Request e), w\<lparr> rw_sqlite := q \<rparr>)
     | (Ok rq, q) \<Rightarrow>
       (case transport rq (rw_network w) of (answer, n) \<Rightarrow>
          conclude api render reader bid completed_at retry_at answer
            (w\<lparr> rw_sqlite := q, rw_telemetry := record_request_started (rw_telemetry w), rw_network := n \<rparr>)))"
  unfolding submit_in_flight_synchronization_batch_with_telemetry_def conclude_def
  by (simp add: run_next_def [of _ _ w] on_sqlite_def [of _ _ w] split: prod.split sum.split)
    (auto simp: run_next_def [of "on_telemetry _"] run_next_def [of "on_network _"] on_telemetry_def on_network_def
      split: prod.split sum.split)

section \<open>The invariant\<close>

definition system_inv ::
  "('d, 'q, 'w, 'u) Deployment \<Rightarrow> 'w ApiState ReaderWorld \<Rightarrow> SynchronizationBatchRequest list \<Rightarrow> bool" where
  "system_inv y w sent \<longleftrightarrow> reader_db_inv (reader_db w) \<and> backend_ok y sent (as_session (rw_network w)) \<and>
    assembled y sent (reader_db w) \<and> confirmed (held_sequences y (backend_db w) (reader_db w)) (reader_db w)"

lemma table_moves_member: "table_moves R rows rows' \<Longrightarrow> r \<in> set rows \<Longrightarrow> \<exists>r' \<in> set rows'. R r r'"
  unfolding table_moves_def list_all2_conv_all_nth by (metis Un_iff in_set_conv_nth set_append)

lemma held_sequences_mono:
  assumes "db_moves db db'" "identities bdb \<subseteq> identities bdb'"
  shows "held_sequences y bdb db \<subseteq> held_sequences y bdb' db'"
proof
  fix n assume "n \<in> held_sequences y bdb db"
  then obtain q where q: "q \<in> set (rd_queue db)" "held y bdb q" "n = ot_sequence q"
    by (auto simp: held_sequences_def)
  obtain q' where q': "q' \<in> set (rd_queue db')" "row_moves q q'"
    using assms(1) table_moves_member [OF _ q(1)] unfolding db_moves_def by blast
  note same = row_identity_fields [of q' q]
  have "held y bdb' q'"
    using q(2) q'(2) same assms(2) by (auto simp: held_def row_moves_def split: sum.splits)
  then show "n \<in> held_sequences y bdb' db'"
    using q q' same by (auto simp: held_sequences_def row_moves_def intro!: image_eqI [of _ _ q'])
qed

text \<open>What the backend has accepted of a request it holds entry by entry.\<close>

lemma accepted_held:
  assumes sent: "assembled y sent db" "rq \<in> set sent" and inv: "reader_db_inv db"
    and ran: "tx_ran (request_body (dp_uuid y) (dp_json y) (dp_reader y) bid) db = Ok (rq, x)"
    and own: "own_batches y sent bdb" "accepted rq bdb" and e: "e \<in> set (rq_entries rq)"
  shows "uint (re_local_sequence_number e) \<in> held_sequences y bdb db"
proof -
  have rq: "rq_reader_id rq = dp_reader y" "rq_batch_id rq = bid" using request_body_content [OF ran] by simp_all
  then obtain b rq' where b: "rq' \<in> set sent" "stored_from y bdb rq' b" "ib_batch_id b = bid"
    using own by (auto simp: own_batches_def accepted_def)
  then have "rq' = rq" using assembled_fixed [OF sent(1) _ inv _ ran] stored_from_fields by metis
  then have "(re_transaction_id e, dp_reader y, uint (re_local_sequence_number e),
      fingerprint_to_hex (fingerprint_transaction_envelope (dp_sha256 y) (re_transaction_envelope e))) \<in> identities bdb"
    using stored_from_entry [OF b(2)] e rq by simp
  moreover obtain q where "q \<in> set (rd_queue db)" "entry_of_row (dp_uuid y) (dp_json y) q e"
    using request_entry_row [OF ran e] by blast
  ultimately show ?thesis
    by (auto simp: held_sequences_def held_def entry_of_row_def intro!: image_eqI [of _ _ q])
qed

lemma acknowledged_entry:
  assumes "validate_against_request a rq = Ok ()" "x \<in> set (ak_entries a)"
  shows "\<exists>e \<in> set (rq_entries rq). re_local_sequence_number e = ae_local_sequence_number x"
proof -
  have "(ae_transaction_id x, ae_local_sequence_number x) \<in> set (ack_keys (ak_entries a))"
    using assms(2) by force
  moreover have "ack_keys (ak_entries a) = request_keys (rq_entries rq)"
    using assms(1) by (simp add: validate_against_request_eq_Ok acknowledges_def)
  ultimately have "(ae_transaction_id x, ae_local_sequence_number x) \<in> set (request_keys (rq_entries rq))" by metis
  then show ?thesis by auto
qed

lemma assembled_Cons:
  assumes "assembled y sent db" "reader_db_inv db"
    "tx_ran (request_body (dp_uuid y) (dp_json y) (dp_reader y) bid) db = Ok (rq, x)"
  shows "assembled y (rq # sent) db"
proof -
  have "rq_batch_id rq = bid" using request_body_content [OF assms(3)] by simp
  then show ?thesis using assms moves.refl [of db] unfolding assembled_def set_simps by blast
qed

lemma system_inv_advance:
  assumes inv: "system_inv y w sent" and "backend_ok y sent' (as_session (rw_network w'))" "assembled y sent' (reader_db w)"
    and grows: "ingest_grows (backend_db w) (backend_db w')"
    and advances: "advances (held_sequences y (backend_db w') (reader_db w)) (reader_db w) (reader_db w')"
  shows "system_inv y w' sent'"
proof -
  let ?S = "held_sequences y (backend_db w') (reader_db w)"
  have ids: "identities (backend_db w) \<subseteq> identities (backend_db w')" using grows by (simp add: ingest_grows_def)
  have "confirmed ?S (reader_db w)"
    using inv confirmed_mono held_sequences_mono [OF moves.refl ids] unfolding system_inv_def by blast
  then have "confirmed ?S (reader_db w')" using advances by (simp add: advances_def keeps_confirmed_def)
  moreover have moves: "db_moves (reader_db w) (reader_db w')" using advances by (simp add: advances_def)
  ultimately have "confirmed (held_sequences y (backend_db w') (reader_db w')) (reader_db w')"
    using confirmed_mono held_sequences_mono [OF moves] by blast
  then show ?thesis
    using assms moves assembled_moves unfolding system_inv_def by (auto simp: advances_def keeps_inv_def)
qed

lemma submit_inv:
  assumes run: "submit y exchange bid completed_at retry_at w = (result, w')"
    and "genuine exchange" "codecs_agree y" and inv: "system_inv y w sent"
  shows "system_inv y w' (assemble y bid w sent)"
proof -
  obtain r q where load: "load_synchronization_batch_request (dp_uuid y) (dp_json y) (dp_reader y) bid (rw_sqlite w) = (r, q)"
    by fastforce
  have q: "sq_db q = reader_db w"
    using call_inD [OF load_request_same, of "rw_sqlite w"] load by (metis reader_db_def snd_conv)
  note parts = inv [unfolded system_inv_def]
  show ?thesis
  proof (cases r)
    case (Inl e)
    then have "w' = w\<lparr> rw_sqlite := q \<rparr>" "assemble y bid w sent = sent"
      using run load by (simp_all add: submit_def submit_phases assemble_def)
    then show ?thesis using inv q by (simp add: system_inv_def reader_db_def backend_db_def)
  next
    case (Inr rq)
    obtain answer n where net: "http_transport (dp_uuid y) (dp_messages y) (dp_client y) (send y exchange) rq (rw_network w) = (answer, n)"
      by fastforce
    let ?sent = "rq # sent" and ?w1 = "w\<lparr> rw_sqlite := q, rw_telemetry := record_request_started (rw_telemetry w), rw_network := n \<rparr>"
    have sent: "assemble y bid w sent = ?sent" using load Inr by (simp add: assemble_def)
    obtain x where ran: "tx_ran (request_body (dp_uuid y) (dp_json y) (dp_reader y) bid) (reader_db w) = Ok (rq, x)"
      using request_loaded(1) load Inr unfolding reader_db_def by blast
    have known: "assembled y ?sent (reader_db w)" using assembled_Cons parts ran by blast
    have "backend_ok y ?sent (as_session (rw_network w))" using parts backend_ok_mono [of y sent _ ?sent] by auto
    note exchanged = transport_effect [OF net assms(2,3) this list.set_intros(1)]
    note answered = exchanged(1) [unfolded answers_def]
    let ?S = "held_sequences y (is_db (as_session n)) (reader_db w)"
    have "uint (ae_local_sequence_number z) \<in> ?S" if "answer = Ok a" "z \<in> set (ak_entries a)" for a z
      using acknowledged_entry [OF exchanged(2) [OF that(1)] that(2)] that(1) answered parts
        accepted_held [OF known list.set_intros(1) _ ran, of "is_db (as_session n)"]
      unfolding backend_ok_def by metis
    then have concluding: "stays ?S (conclude (dp_uuid y) (dp_render y) (dp_reader y) bid completed_at retry_at answer)"
      by (rule conclude_stays)
    have "conclude (dp_uuid y) (dp_render y) (dp_reader y) bid completed_at retry_at answer ?w1 = (result, w')"
      using run load Inr net by (simp add: submit_def submit_phases)
    from stays_ran [OF concluding this] have w': "rw_network w' = n" "advances ?S (reader_db w) (reader_db w')"
      using q by (simp_all add: reader_db_def)
    show ?thesis
      unfolding sent using inv
      by (rule system_inv_advance) (use w' answered known in \<open>simp_all add: backend_db_def\<close>)
  qed
qed

lemma system_step_inv:
  assumes "system_step y (w, sent) (w', sent')" "codecs_agree y" "system_inv y w sent"
  shows "system_inv y w' sent'"
  using assms(1)
proof cases
  case (local_step call)
  let ?f = "reader_call (dp_uuid y) (dp_decisions y) (dp_render y) call"
  have "advances S (sq_db q) (sq_db (?f q))" for S q
    unfolding advances_def using reader_call_moves reader_call_keeps local_call_confirms local_step(3) by blast
  then show ?thesis
    using system_inv_advance [OF assms(3), of sent w'] assms(3) local_step
    by (simp add: system_inv_def reader_db_def backend_db_def)
next
  case (submit_step exchange bid completed_at retry_at result)
  then show ?thesis using submit_inv assms(2,3) by blast
next
  case (environment_step commits script faults)
  have db: "reader_db w' = reader_db w"
    "backend_db w' = fold (other_commit_result (dp_sha256 y) (dp_uuid y) (dp_wire y)) commits (backend_db w)"
    using environment_step(1) by (simp_all add: reader_db_def backend_db_def)
  have "backend_ok y sent (as_session (rw_network w'))"
    using assms(3) environment_step
    by (simp add: system_inv_def backend_ok_def backend_db_def own_batches_others ingest_inv_others)
  moreover have "ingest_grows (backend_db w) (backend_db w')" unfolding db by (rule others_grow)
  ultimately show ?thesis
    using system_inv_advance [OF assms(3), of sent w'] assms(3) environment_step(2) db(1) advance.refl
    by (simp add: system_inv_def)
qed

lemma system_run_inv:
  assumes "(system_step y)\<^sup>*\<^sup>* (w0, sent0) (w, sent)" "codecs_agree y" "system_inv y w0 sent0"
  shows "system_inv y w sent"
  using assms(1)
proof (induction rule: rtranclp_induct2)
  case refl
  show ?case by (fact assms(3))
next
  case (step w1 sent1 w2 sent2)
  then show ?case using system_step_inv assms(2) by blast
qed

text \<open>A reader with an empty database and a backend that has no batch of it.\<close>

definition fresh :: "('d, 'q, 'w, 'u) Deployment \<Rightarrow> 'w ApiState ReaderWorld \<Rightarrow> bool" where
  "fresh y w \<longleftrightarrow> reader_db w = empty_reader_db \<and>
    ingest_inv (dp_sha256 y) (dp_uuid y) (dp_wire y) (backend_db w) \<and>
    (\<forall>b \<in> set (in_batches (backend_db w)). ib_reader_id b \<noteq> dp_reader y) \<and>
    is_script (as_session (rw_network w)) = []"

lemma fresh_inv: "fresh y w \<Longrightarrow> system_inv y w []"
  by (simp add: fresh_def system_inv_def backend_ok_def own_batches_def assembled_def confirmed_def backend_db_def
      empty_reader_db_def [symmetric]) (simp add: empty_reader_db_def)

section \<open>Properties\<close>

text \<open>
  C1. Nothing is acknowledged that is not stored: starting from an empty reader, after any calls on
  its database and any submissions, whatever the network, the driver failures and other sessions of the
  backend do, every transaction that the reader holds as acknowledged is stored by the backend under its own
  identifier, reader and sequence number and with the fingerprint of the envelope it was queued with.
\<close>

theorem acknowledged_is_stored:
  assumes "fresh y w0" "codecs_agree y" "(system_step y)\<^sup>*\<^sup>* (w0, []) (w, sent)"
    and "q \<in> set (rd_queue (reader_db w))" "ot_queue_state q = ''acknowledged''"
  shows "held y (backend_db w) q"
proof -
  have inv: "system_inv y w sent" using system_run_inv [OF assms(3,2) fresh_inv [OF assms(1)]] .
  then have "ot_sequence q \<in> held_sequences y (backend_db w) (reader_db w)"
    using assms(4,5) by (simp add: system_inv_def confirmed_def)
  then obtain q' where q': "q' \<in> set (rd_queue (reader_db w))" "held y (backend_db w) q'" "ot_sequence q' = ot_sequence q"
    by (auto simp: held_sequences_def)
  obtain n where "map ot_sequence (rd_queue (reader_db w)) = [1..n]"
    using inv assms(4) by (auto simp: system_inv_def reader_db_inv_def queue_ok_def split: option.splits)
  then have "distinct (map ot_sequence (rd_queue (reader_db w)))" by simp
  then have "q' = q" using q'(1,3) assms(4) by (auto simp: distinct_map dest: inj_onD)
  then show ?thesis using q'(2) by simp
qed

section \<open>Witness\<close>

text \<open>Identifiers of the form both databases accept, rendered as in the example reader.\<close>

abbreviation "id1 \<equiv> 0x70008000000000000001 :: Uuid"
abbreviation "id2 \<equiv> 0x70008000000000000002 :: Uuid"
abbreviation "id3 \<equiv> 0x70008000000000000003 :: Uuid"
abbreviation "id4 \<equiv> 0x70008000000000000004 :: Uuid"
abbreviation "id5 \<equiv> 0x70008000000000000005 :: Uuid"

definition versioned_uuids :: "(Uuid \<times> string) list" where
  "versioned_uuids = [(id1, digit_text (CHR ''1'')), (id2, digit_text (CHR ''2'')), (id3, digit_text (CHR ''3'')),
    (id4, digit_text (CHR ''4'')), (id5, digit_text (CHR ''5''))]"

definition versioned_uuid_api :: UuidApi where
  "versioned_uuid_api = \<lparr> uuid_is_nil = (\<lambda>u. u = 0), uuid_is_rfc4122 = (\<lambda>_. True), uuid_is_sort_rand = (\<lambda>_. True),
    uuid_parse = map_of (map (\<lambda>(u, t). (t, u)) versioned_uuids),
    uuid_to_string = (\<lambda>u. case map_of versioned_uuids u of None \<Rightarrow> [] | Some t \<Rightarrow> t) \<rparr>"

definition queued_draft :: "Uuid \<Rightarrow> unit OfflineTransactionDraft" where
  "queued_draft tid = (example_draft tid)\<lparr> draft_credential_id := id5 \<rparr>"

definition example_calls :: "unit ReaderCall list" where
  "example_calls = [Bind (example_identity\<lparr> ReaderDatabaseIdentity.identity_reader_id := id1 \<rparr>), Enqueue id1 (queued_draft id2),
    Enqueue id1 (queued_draft id3), CreateBatch id1 1 id4 20 10, MarkBatch id1 id4 30]"

definition answered_request :: SynchronizationBatchRequest where
  "answered_request = \<lparr> rq_protocol_version = 1, rq_environment_id = ascii ''test'', rq_reader_id = id1,
    rq_reader_software_version = ascii ''1.0'', rq_batch_id = id4,
    rq_first_local_sequence_number = 1, rq_last_local_sequence_number = 2, rq_submitted_at_unix_milliseconds = 30,
    rq_entries = [\<lparr> re_transaction_id = id2, re_local_sequence_number = 1, re_transaction_envelope = ascii ''{}'' \<rparr>,
      \<lparr> re_transaction_id = id3, re_local_sequence_number = 2, re_transaction_envelope = ascii ''{}'' \<rparr>] \<rparr>"

definition answered_acknowledgement :: SynchronizationBatchAcknowledgement where
  "answered_acknowledgement = \<lparr> ak_protocol_version = 1, ak_environment_id = ascii ''test'', ak_reader_id = id1,
    ak_batch_id = id4, ak_first_local_sequence_number = 1, ak_last_local_sequence_number = 2,
    ak_received_at_unix_milliseconds = 40, ak_replayed = False,
    ak_entries = [\<lparr> ae_transaction_id = id2, ae_local_sequence_number = 1, ae_outcome = Acknowledged,
        ae_failure_category = None, ae_next_retry_at = None \<rparr>,
      \<lparr> ae_transaction_id = id3, ae_local_sequence_number = 2, ae_outcome = Acknowledged,
        ae_failure_category = None, ae_next_retry_at = None \<rparr>] \<rparr>"

definition plain_json :: "unit JsonApi" where
  "plain_json = \<lparr> json_parse = (\<lambda>_. Some ()), json_is_object = (\<lambda>_. True), json_to_string = (\<lambda>_. Some (ascii ''{}'')) \<rparr>"

definition example_deployment ::
  "(unit, unit, SynchronizationBatchRequest + SynchronizationBatchAcknowledgement, unit) Deployment" where
  "example_deployment = \<lparr> dp_sha256 = zero_hash, dp_uuid = versioned_uuid_api, dp_decisions = unit_json,
    dp_json = plain_json, dp_render = unit_render, dp_wire = plain_wire,
    dp_messages = \<lparr> encode_request = (\<lambda>rq. if rq = answered_request then Some [] else None),
      decode_acknowledgement = (\<lambda>_. Some answered_acknowledgement), decode_error_envelope = (\<lambda>_. None) \<rparr>,
    dp_server = \<lparr> decode_body = (\<lambda>_ _. Ok answered_request), encode_body = (\<lambda>_. []) \<rparr>,
    dp_client = \<lparr> client_endpoint = (), maximum_acknowledgement_bytes = 4 \<rparr>,
    dp_environment = ascii ''test'', dp_reader = id1 \<rparr>"

definition example_backend :: "(SynchronizationBatchRequest + SynchronizationBatchAcknowledgement) ApiState" where
  "example_backend = \<lparr> as_session = quiet_backend, as_telemetry = SynchronizationTelemetry_new \<rparr>"

definition example_world :: "Sqlite \<Rightarrow> (SynchronizationBatchRequest + SynchronizationBatchAcknowledgement) ApiState ReaderWorld" where
  "example_world q = \<lparr> rw_sqlite = q, rw_telemetry = SynchronizationTelemetry_new, rw_network = example_backend \<rparr>"

definition example_end :: "(SynchronizationBatchRequest + SynchronizationBatchAcknowledgement) ApiState ReaderWorld" where
  "example_end = snd (submit example_deployment (Answered 40 [0] None) id4 50 60 (example_world submitted_reader))"

lemma example_submitted:
  "fold (reader_call versioned_uuid_api unit_json unit_render) example_calls \<lparr> sq_db = empty_reader_db, sq_faults = [] \<rparr> =
    submitted_reader"
  by code_simp

lemma example_request_loaded:
  "load_synchronization_batch_request versioned_uuid_api plain_json id1 id4 submitted_reader =
    (Ok answered_request, submitted_reader)"
  by code_simp

lemma example_headers:
  "validate_transport_headers versioned_uuid_api (submit_headers versioned_uuid_api answered_request) answered_request = Ok ()"
proof -
  have "list_all printable (identifier_to_string versioned_uuid_api (rq_batch_id answered_request))"
    "rq_protocol_version answered_request = DeviceProtocolVersion_CURRENT" by code_simp+
  then show ?thesis using client_headers by simp
qed

lemma example_processed:
  "fst (process zero_hash versioned_uuid_api plain_wire (ascii ''test'') answered_request 40 (as_session example_backend)) =
    Ok answered_acknowledgement"
  by code_simp

lemma example_fields:
  "dp_sha256 example_deployment = zero_hash" "dp_uuid example_deployment = versioned_uuid_api"
  "dp_decisions example_deployment = unit_json" "dp_json example_deployment = plain_json"
  "dp_render example_deployment = unit_render" "dp_wire example_deployment = plain_wire"
  "dp_environment example_deployment = ascii ''test''" "dp_reader example_deployment = id1"
  by (simp_all add: example_deployment_def)

lemma example_codecs:
  "encode_request (dp_messages example_deployment) answered_request = Some []"
  "decode_acknowledgement (dp_messages example_deployment) body = Some answered_acknowledgement"
  "decode_body (dp_server example_deployment) headers body = Ok answered_request"
  "encode_body (dp_server example_deployment) answer = []"
  "maximum_acknowledgement_bytes (dp_client example_deployment) = 4"
  by (simp_all add: example_deployment_def)

lemma example_transported:
  "\<exists>n. http_transport versioned_uuid_api (dp_messages example_deployment) (dp_client example_deployment)
    (send example_deployment (Answered 40 [0] None)) answered_request example_backend = (Ok answered_acknowledgement, n)"
proof -
  obtain w where "process zero_hash versioned_uuid_api plain_wire (ascii ''test'') answered_request 40 (as_session example_backend) =
      (Ok answered_acknowledgement, w)"
    using example_processed by (metis prod.collapse)
  moreover have "current_unix_milliseconds 40 = Some 40" by code_simp
  moreover have "validate_against_request answered_acknowledgement answered_request = Ok ()"
    "has_json_content_type [(''content-type'', header_value ''application/json'')]" by code_simp+
  ultimately show ?thesis
    by (simp add: http_transport_def http_submit_def example_fields example_codecs
        run_next_def run_mapped_def run_value_def handle_def submit_synchronization_batch_def Let_def example_headers
        arrival_def decode_response_def result_simps)
qed

lemma conclude_Ok:
  assumes "store_protocol_synchronization_acknowledgement api render a (rw_sqlite w) = (Ok stored, q)"
  shows "rw_sqlite (snd (conclude api render reader bid completed_at retry_at (Ok a) w)) =
    snd (apply_synchronization_acknowledgement api reader bid (max completed_at (sint (ak_received_at_unix_milliseconds a))) q)"
  using assms by (simp add: conclude_def run_next_def on_sqlite_def on_telemetry_def run_value_def split: prod.split sum.split)

definition answered_sqlite :: Sqlite where
  "answered_sqlite = snd (store_protocol_synchronization_acknowledgement versioned_uuid_api unit_render
    answered_acknowledgement submitted_reader)"

lemma answer_stored:
  "\<not> isl (fst (store_protocol_synchronization_acknowledgement versioned_uuid_api unit_render answered_acknowledgement submitted_reader))"
  by code_simp

lemma example_applied:
  "map ot_queue_state (rd_queue (sq_db (snd (apply_synchronization_acknowledgement versioned_uuid_api id1 id4 50 answered_sqlite)))) =
    [''acknowledged'', ''acknowledged'']"
  by code_simp

lemma example_sqlite:
  "rw_sqlite example_end = snd (apply_synchronization_acknowledgement versioned_uuid_api id1 id4 50 answered_sqlite)"
proof -
  have "max 50 (sint (ak_received_at_unix_milliseconds answered_acknowledgement)) = 50" by code_simp
  moreover have "store_protocol_synchronization_acknowledgement versioned_uuid_api unit_render answered_acknowledgement submitted_reader =
      (Ok (projr (fst (store_protocol_synchronization_acknowledgement versioned_uuid_api unit_render answered_acknowledgement
        submitted_reader))), answered_sqlite)"
    using Ok_result [OF answer_stored] by (simp add: answered_sqlite_def)
  moreover obtain n where "http_transport versioned_uuid_api (dp_messages example_deployment) (dp_client example_deployment)
      (send example_deployment (Answered 40 [0] None)) answered_request example_backend = (Ok answered_acknowledgement, n)"
    using example_transported by blast
  ultimately show ?thesis
    using example_request_loaded
    by (simp add: example_end_def submit_def submit_phases example_fields example_world_def conclude_Ok)
qed

lemma local_steps:
  "list_all local_call calls \<Longrightarrow> (system_step y)\<^sup>*\<^sup>* (w, sent)
    (w\<lparr> rw_sqlite := fold (reader_call (dp_uuid y) (dp_decisions y) (dp_render y)) calls (rw_sqlite w) \<rparr>, sent)"
proof (induction calls arbitrary: w)
  case (Cons c calls)
  let ?w = "w\<lparr> rw_sqlite := reader_call (dp_uuid y) (dp_decisions y) (dp_render y) c (rw_sqlite w) \<rparr>"
  have "system_step y (w, sent) (?w, sent)" using Cons.prems by (intro system_step.local_step) simp
  then show ?case using Cons.IH [of ?w] Cons.prems by (simp add: converse_rtranclp_into_rtranclp)
qed simp

lemma example_reached:
  "\<exists>sent. (system_step example_deployment)\<^sup>*\<^sup>* (example_world \<lparr> sq_db = empty_reader_db, sq_faults = [] \<rparr>, []) (example_end, sent)"
proof -
  have "list_all local_call example_calls" by code_simp
  from local_steps [OF this, of example_deployment "example_world \<lparr> sq_db = empty_reader_db, sq_faults = [] \<rparr>" "[]"]
  have "(system_step example_deployment)\<^sup>*\<^sup>* (example_world \<lparr> sq_db = empty_reader_db, sq_faults = [] \<rparr>, [])
      (example_world submitted_reader, [])"
    using example_submitted by (simp add: example_world_def example_fields)
  moreover have "system_step example_deployment (example_world submitted_reader, [])
      (example_end, assemble example_deployment id4 (example_world submitted_reader) [])"
    by (rule system_step.submit_step [where exchange = "Answered 40 [0] None" and completed_at = 50 and retry_at = 60])
      (simp_all add: example_end_def prod_eq_iff)
  ultimately show ?thesis by (meson rtranclp.rtrancl_into_rtrancl)
qed

theorem acknowledged_is_stored_witness:
  "\<exists>q \<in> set (rd_queue (reader_db example_end)). ot_queue_state q = ''acknowledged'' \<and>
    held example_deployment (backend_db example_end) q"
proof -
  obtain sent where run: "(system_step example_deployment)\<^sup>*\<^sup>*
      (example_world \<lparr> sq_db = empty_reader_db, sq_faults = [] \<rparr>, []) (example_end, sent)"
    using example_reached by blast
  have "fresh example_deployment (example_world \<lparr> sq_db = empty_reader_db, sq_faults = [] \<rparr>)"
    by (simp add: fresh_def reader_db_def backend_db_def example_world_def example_backend_def quiet_backend_def
        ingest_inv_no_batches)
  moreover have "codecs_agree example_deployment"
    using plain_wire_roundtrip by (simp add: codecs_agree_def example_deployment_def)
  moreover have "''acknowledged'' \<in> set (map ot_queue_state (rd_queue (reader_db example_end)))"
    unfolding reader_db_def example_sqlite example_applied by simp
  ultimately show ?thesis using acknowledged_is_stored [OF _ _ run] by auto
qed

end
