(* ===== verification/Spec2Isabelle.thy ===== *)
theory Spec2Isabelle
  imports CredentialServices Simulator ReaderHealth EndToEnd
begin

text \<open>
  TransitGuard, a fare system of readers that work offline and a backend that collects what they
  charged: a model of its Rust crates and the properties that make them correct.

  \<^bold>\<open>The program and its parts.\<close>  A reader decides fares with the fare engine (\<open>crates/fare-engine\<close>),
  online or, under bounds, offline.  It queues what it charged in a SQLite database, groups the
  queue into batches, and submits a batch over HTTP (\<open>crates/persistence/src/reader_*.rs\<close>,
  \<open>apps/reader-simulator\<close>) with the messages of \<open>crates/device-protocol\<close>.  The backend
  (\<open>apps/api\<close>) stores a batch with its transactions in PostgreSQL, once, and answers with an
  acknowledgement, which the reader stores and applies to its queue.  Separately the backend manages
  fare credentials with the services of \<open>crates/application\<close> on the aggregates of
  \<open>crates/domain\<close>.

  \<^bold>\<open>Conventions.\<close>  \<^theory_text>\<open>Prelude\<close> has the machine integers (\<open>64 word\<close>, read by \<open>sint\<close> or \<open>unat\<close>),
  results (\<open>Ok\<close> and \<open>Err\<close> are the two sides of a sum) and the combinators for \<open>?\<close> and loops that
  stop at the first error; \<^theory_text>\<open>Text\<close> has Rust strings as lists of Unicode scalars.  A struct is a record,
  an enum a datatype, a function a definition of the same name, prefixed where two types share a
  name.  Code outside the repository is a parameter: \<open>UuidApi\<close> (the uuid crate), \<open>JsonApi\<close> and
  \<open>WireJson\<close> (serde\_json), a function \<open>sha256\<close>, \<open>UrlApi\<close> and \<open>MessageCodec\<close> (the HTTP client
  and the JSON of messages).  What is relied on about them is a hypothesis of the properties that
  need it, and each such property is instantiated at concrete functions.

  \<^bold>\<open>Domain\<close> (\<open>crates/domain/src\<close>).
  \<^item> \<^theory_text>\<open>Money\<close>: \<open>money.rs\<close>; exact checked arithmetic, rendering.
  \<^item> \<^theory_text>\<open>Identifier\<close>: \<open>identifier.rs\<close>; validation, parsing.
  \<^item> \<^theory_text>\<open>Account\<close>: \<open>account.rs\<close>; the balance is never negative and equals what was accepted.
  \<^item> \<^theory_text>\<open>Credential\<close>: \<open>credential.rs\<close>; refinement of the life cycle, terminal states.
  \<^item> \<^theory_text>\<open>Equipment\<close>: \<open>equipment.rs\<close>; readers, their keys, reasons that match the status.
  \<^item> \<^theory_text>\<open>FareTransaction\<close>: \<open>transaction.rs\<close>; a decision is taken once.
  \<^item> \<^theory_text>\<open>Event\<close>: \<open>event.rs\<close>; events record real changes.

  \<^bold>\<open>Fare engine\<close> (\<open>crates/fare-engine/src\<close>).  \<^theory_text>\<open>FarePolicy\<close>, \<^theory_text>\<open>FareTransfer\<close>, \<^theory_text>\<open>FareCaps\<close>,
  \<^theory_text>\<open>TransitProduct\<close>, \<^theory_text>\<open>Evaluation\<close> and \<^theory_text>\<open>OfflineEvaluation\<close> model \<open>policy.rs\<close>, \<open>transfer.rs\<close>, \<open>cap.rs\<close>,
  \<open>product.rs\<close>, \<open>evaluation.rs\<close> and \<open>offline.rs\<close>.  Each stage equals a definition over
  unbounded integers, and so does the pipeline unless it reports an overflow; an approval is safe for
  the balance and the caps; offline evaluation refines online evaluation.

  \<^bold>\<open>Credential services.\<close>  \<^theory_text>\<open>Ports\<close> and \<^theory_text>\<open>CredentialUseCases\<close> model \<open>crates/application/src\<close>;
  \<^theory_text>\<open>Codec\<close>, \<^theory_text>\<open>Rows\<close> and \<^theory_text>\<open>Tables\<close> the columns, rows, constraints and statements of
  \<open>crates/persistence\<close>; \<^theory_text>\<open>PostgresTransaction\<close> the transaction of \<open>transaction.rs\<close>, in which every
  statement may fail, the answer of a commit may be lost, and other sessions may commit between
  any two statements.  \<^theory_text>\<open>CredentialStore\<close> states what the services promise as single steps on an
  abstract store, as a locale of the transaction interface; \<^theory_text>\<open>CredentialServices\<close> interprets it on
  the PostgreSQL transaction and shows that each service is linearizable.

  \<^bold>\<open>Protocol.\<close>  \<^theory_text>\<open>Protocol\<close> and \<^theory_text>\<open>Fingerprint\<close> model \<open>crates/device-protocol/src\<close>: exactly which
  requests and acknowledgements are valid, when an acknowledgement answers a request, and that
  the hashed encodings determine what they encode.

  \<^bold>\<open>The reader's database\<close> (\<open>crates/persistence/src/reader_*.rs\<close>).  \<^theory_text>\<open>ReaderTables\<close> has the tables after
  all migrations, the statements with their constraints and a connection on which any call may fail.
  \<^theory_text>\<open>ReaderStorage\<close>, \<^theory_text>\<open>ReaderQueue\<close>, \<^theory_text>\<open>ReaderSync\<close>, \<^theory_text>\<open>ReaderRequest\<close> and \<^theory_text>\<open>ReaderAcknowledgement\<close> have the
  operations.  \<^theory_text>\<open>ReaderHistory\<close> shows what no call ever changes, \<^theory_text>\<open>ReaderInvariant\<close> and
  \<^theory_text>\<open>ReaderApplication\<close> that every call keeps the database consistent, \<^theory_text>\<open>ReaderProperties\<close> what
  follows: stable requests, acknowledgements applied once and exactly, recovery.

  \<^bold>\<open>The backend's ingest.\<close>  \<^theory_text>\<open>IngestTables\<close> and \<^theory_text>\<open>Ingest\<close> model the preparation of a batch, its
  tables and the repository \<open>synchronization_ingest.rs\<close>; the code is written once over a driver, which is
  a single user (\<open>alone_driver\<close>) or a session among others (\<open>session_driver\<close>).  \<^theory_text>\<open>IngestSerial\<close> shows
  that the second behaves as the first at the moment of the commit, \<^theory_text>\<open>IngestInvariant\<close> that
  every stored batch is backed by its entries and transactions.  \<^theory_text>\<open>Telemetry\<close> models
  \<open>crates/telemetry\<close>, and \<^theory_text>\<open>ApiService\<close> the service and handlers of \<open>apps/api\<close>: answers are durable,
  replays return the original answer, every request is counted.

  \<^bold>\<open>Submission and the whole.\<close>  \<^theory_text>\<open>Submission\<close> models the HTTP client and the submission of
  \<open>apps/reader-simulator/src/synchronization_*.rs\<close>: bodies are read within their bound, and the API
  accepts the client's headers.  \<^theory_text>\<open>Confirmation\<close> follows what the reader takes for acknowledged through
  every call.  \<^theory_text>\<open>EndToEnd\<close> puts the two programs together, as a step relation over the reader's calls,
  submissions over an unreliable network to the handler of the API, and everything other sessions and
  failures do; a transaction the reader holds as acknowledged is stored by the backend as it was queued.

  \<^bold>\<open>Simulator and health.\<close>  \<^theory_text>\<open>Simulator\<close> models \<open>crates/device-protocol/src/presentation.rs\<close> and the
  reader of \<open>apps/reader-simulator/src\<close> (\<open>lib.rs\<close>, \<open>fare_processing.rs\<close>, \<open>scenario.rs\<close>, \<open>demo.rs\<close>):
  presentations are numbered without gaps and reports do not depend on generated identifiers.
  \<^theory_text>\<open>ReaderHealth\<close> models \<open>crates/persistence/src/reader_health.rs\<close>: on a consistent database the
  statistics load and are exact.

  \<^bold>\<open>Bounds and termination.\<close>  No definition uses fuel: every loop of the code runs over a list and
  is a recursion on it.  Other sessions and failures are finite scripts of arbitrary length, which
  the properties quantify over; a script that has run out means no further interference.

  \<^bold>\<open>Not modelled.\<close>  Reading configuration, connecting pools, logging and the processes themselves
  (\<open>main.rs\<close>, \<open>config.rs\<close>, \<open>postgres.rs\<close>) are input and output.  The serde form of messages is a
  parameter.  Repositories that run the same statements on a pool without a transaction and the copying
  of rows in migrations are left out.  The network of \<^theory_text>\<open>EndToEnd\<close> stands for the HTTP library and what lies
  between the programs; the time a request takes is not modelled.
\<close>

end
